(* ===== verification/Py_Decimal.thy ===== *)
theory Py_Decimal
  imports Complex_Main
begin

text \<open>
  Python's \<^verbatim>\<open>decimal.Decimal\<close> under the default context (precision 28,
  ROUND_HALF_EVEN), as every service of the program uses it. A finite decimal is a
  coefficient and an exponent, so that trailing zeros (and therefore
  \<^verbatim>\<open>str()\<close>) are kept apart from the value. Each operation computes the exact
  result and rounds it to 28 digits; the lemmas say when no rounding happens and bound the
  error when it does. NaN, the infinities, signed zeros and the exponent limits
  (\<open>Emax = 999999\<close>) are outside the model: amounts come from
  \<^verbatim>\<open>Numeric(24, 8)\<close> columns.
\<close>

datatype decimal = Dec (dcoeff: int) (dexp: int)

definition dval :: "decimal \<Rightarrow> rat" where
  "dval d = of_int (dcoeff d) * 10 powi (dexp d)"

text \<open>Number of decimal digits of a non-negative integer.\<close>

function ndigits :: "int \<Rightarrow> nat" where
  "ndigits n = (if n < 10 then 1 else Suc (ndigits (n div 10)))"
  by pat_completeness auto
termination
  by (relation "measure nat") auto

declare ndigits.simps [simp del]

definition prec :: nat where
  "prec = 28"

text \<open>Round-half-even of the quotient \<open>a / m\<close>.\<close>

definition half_even :: "int \<Rightarrow> int \<Rightarrow> int" where
  "half_even a m =
     (let q = a div m; r = a mod m
      in if 2 * r < m then q else if 2 * r > m then q + 1
         else if even q then q else q + 1)"

text \<open>Rounding to the context precision (\<^verbatim>\<open>Decimal._fix\<close>).\<close>

definition dfix :: "decimal \<Rightarrow> decimal" where
  "dfix d =
     (let n = ndigits \<bar>dcoeff d\<bar>
      in if n \<le> prec then d
         else let k = n - prec; q = half_even \<bar>dcoeff d\<bar> (10 ^ k)
              in if q = 10 ^ prec
                 then Dec (sgn (dcoeff d) * 10 ^ (prec - 1)) (dexp d + int k + 1)
                 else Dec (sgn (dcoeff d) * q) (dexp d + int k))"

text \<open>Coefficient of a decimal rescaled to a smaller exponent.\<close>

definition dscale :: "int \<Rightarrow> decimal \<Rightarrow> int" where
  "dscale e d = dcoeff d * 10 ^ nat (dexp d - e)"

definition dexp2 :: "decimal \<Rightarrow> decimal \<Rightarrow> int" where
  "dexp2 a b = min (dexp a) (dexp b)"

definition dadd :: "decimal \<Rightarrow> decimal \<Rightarrow> decimal" where
  "dadd a b = (let e = dexp2 a b in dfix (Dec (dscale e a + dscale e b) e))"

definition dneg :: "decimal \<Rightarrow> decimal" where
  "dneg a = dfix (Dec (- dcoeff a) (dexp a))"

definition dsub :: "decimal \<Rightarrow> decimal \<Rightarrow> decimal" where
  "dsub a b = dadd a (Dec (- dcoeff b) (dexp b))"

definition dabs :: "decimal \<Rightarrow> decimal" where
  "dabs a = dfix (Dec \<bar>dcoeff a\<bar> (dexp a))"

definition dmul :: "decimal \<Rightarrow> decimal \<Rightarrow> decimal" where
  "dmul a b = dfix (Dec (dcoeff a * dcoeff b) (dexp a + dexp b))"

text \<open>
  Division keeps one digit more than the precision and makes the last one sticky; an exact
  quotient is reduced towards the ideal exponent.
\<close>

fun strip_zeros :: "int \<Rightarrow> int \<Rightarrow> int \<Rightarrow> nat \<Rightarrow> int \<times> int" where
  "strip_zeros c e ideal 0 = (c, e)"
| "strip_zeros c e ideal (Suc k) =
     (if e < ideal \<and> c mod 10 = 0 then strip_zeros (c div 10) (e + 1) ideal k else (c, e))"

definition div_shift :: "int \<Rightarrow> int \<Rightarrow> int" where
  "div_shift ca cb = int (ndigits cb) - int (ndigits ca) + int prec + 1"

definition div_num :: "int \<Rightarrow> int \<Rightarrow> int" where
  "div_num ca cb = ca * 10 ^ nat (div_shift ca cb)"

definition div_den :: "int \<Rightarrow> int \<Rightarrow> int" where
  "div_den ca cb = cb * 10 ^ nat (- div_shift ca cb)"

definition ddiv :: "decimal \<Rightarrow> decimal \<Rightarrow> decimal" where
  "ddiv a b =
     (let ca = \<bar>dcoeff a\<bar>; cb = \<bar>dcoeff b\<bar>; sg = sgn (dcoeff a) * sgn (dcoeff b);
          ideal = dexp a - dexp b; shift = div_shift ca cb; e = ideal - shift;
          q = div_num ca cb div div_den ca cb; r = div_num ca cb mod div_den ca cb
      in if ca = 0 then Dec 0 ideal
         else if r = 0 then (case strip_zeros q e ideal (nat shift) of (c, e') \<Rightarrow>
                               dfix (Dec (sg * c) e'))
         else dfix (Dec (sg * (if q mod 5 = 0 then q + 1 else q)) e))"

definition dlt :: "decimal \<Rightarrow> decimal \<Rightarrow> bool" where
  "dlt a b \<longleftrightarrow> (let e = dexp2 a b in dscale e a < dscale e b)"

definition dle :: "decimal \<Rightarrow> decimal \<Rightarrow> bool" where
  "dle a b \<longleftrightarrow> (let e = dexp2 a b in dscale e a \<le> dscale e b)"

definition deq :: "decimal \<Rightarrow> decimal \<Rightarrow> bool" where
  "deq a b \<longleftrightarrow> (let e = dexp2 a b in dscale e a = dscale e b)"

text \<open>\<^verbatim>\<open>min(a, b)\<close> and \<^verbatim>\<open>max(a, b)\<close>: the first argument wins ties.\<close>

definition dmin :: "decimal \<Rightarrow> decimal \<Rightarrow> decimal" where
  "dmin a b = (if dlt b a then b else a)"

definition dmax :: "decimal \<Rightarrow> decimal \<Rightarrow> decimal" where
  "dmax a b = (if dlt a b then b else a)"

abbreviation D0 :: decimal where
  "D0 \<equiv> Dec 0 0"

definition dsum :: "decimal list \<Rightarrow> decimal" where
  "dsum ds = foldl dadd D0 ds"

subsection \<open>Values\<close>

lemma ten_powi_pos [simp]: "(0::rat) < 10 powi e"
  by simp

lemma ten_powi_split:
  assumes "e \<le> f"
  shows "(10::rat) powi f = 10 ^ nat (f - e) * 10 powi e"
proof -
  have "(10::rat) powi f = 10 powi (int (nat (f - e)) + e)"
    using assms by simp
  also have "\<dots> = 10 powi int (nat (f - e)) * 10 powi e"
    by (rule power_int_add) simp
  finally show ?thesis
    by (simp only: power_int_of_nat)
qed

lemma dscale_val: "e \<le> dexp d \<Longrightarrow> of_int (dscale e d) * 10 powi e = dval d"
  by (simp add: dscale_def dval_def ten_powi_split [of e "dexp d"])

lemma dexp2_le [simp]: "dexp2 a b \<le> dexp a" "dexp2 a b \<le> dexp b"
  by (simp_all add: dexp2_def)

lemma dlt_val [simp]: "dlt a b \<longleftrightarrow> dval a < dval b"
proof -
  let ?e = "dexp2 a b"
  have "dscale ?e a < dscale ?e b \<longleftrightarrow>
        (of_int (dscale ?e a) :: rat) * 10 powi ?e < of_int (dscale ?e b) * 10 powi ?e"
    by simp
  then show ?thesis
    by (simp add: dlt_def Let_def dscale_val)
qed

lemma dle_val [simp]: "dle a b \<longleftrightarrow> dval a \<le> dval b"
proof -
  let ?e = "dexp2 a b"
  have "dscale ?e a \<le> dscale ?e b \<longleftrightarrow>
        (of_int (dscale ?e a) :: rat) * 10 powi ?e \<le> of_int (dscale ?e b) * 10 powi ?e"
    by simp
  then show ?thesis
    by (simp add: dle_def Let_def dscale_val)
qed

lemma deq_val [simp]: "deq a b \<longleftrightarrow> dval a = dval b"
proof -
  let ?e = "dexp2 a b"
  have "dscale ?e a = dscale ?e b \<longleftrightarrow>
        (of_int (dscale ?e a) :: rat) * 10 powi ?e = of_int (dscale ?e b) * 10 powi ?e"
    by simp
  then show ?thesis
    by (simp add: deq_def Let_def dscale_val)
qed

lemma dval_zero [simp]: "dval (Dec 0 e) = 0"
  by (simp add: dval_def)

lemma dval_eq_0: "dval d = 0 \<longleftrightarrow> dcoeff d = 0"
  by (simp add: dval_def)

lemma dval_sum_aligned:
  assumes "e \<le> dexp a" and "e \<le> dexp b"
  shows "dval (Dec (dscale e a + dscale e b) e) = dval a + dval b"
proof -
  have "dval (Dec (dscale e a + dscale e b) e) =
        of_int (dscale e a) * 10 powi e + of_int (dscale e b) * 10 powi e"
    by (simp add: dval_def distrib_right)
  with assms show ?thesis
    by (simp add: dscale_val)
qed

lemma dval_neg_coeff [simp]: "dval (Dec (- c) e) = - dval (Dec c e)"
  by (simp add: dval_def)

lemma dval_mult_exact:
  "dval (Dec (dcoeff a * dcoeff b) (dexp a + dexp b)) = dval a * dval b"
  by (simp add: dval_def power_int_add)

lemma dval_dmin: "dval (dmin a b) = min (dval a) (dval b)"
  by (auto simp: dmin_def min_def)

lemma dval_dmax: "dval (dmax a b) = max (dval a) (dval b)"
  by (auto simp: dmax_def max_def)

subsection \<open>Digits and rounding\<close>

lemma ndigits_pos [simp]: "0 < ndigits n"
  by (subst ndigits.simps) simp

lemma ndigits_le_iff: "0 < k \<Longrightarrow> ndigits n \<le> k \<longleftrightarrow> n < 10 ^ k"
proof (induction n arbitrary: k rule: ndigits.induct)
  case (1 n)
  show ?case
  proof (cases "n < 10")
    case True
    have "(10::int) ^ 1 \<le> 10 ^ k"
      using "1.prems" by (intro power_increasing) auto
    with True "1.prems" show ?thesis
      by (simp add: ndigits.simps [of n])
  next
    case False
    obtain j where k: "k = Suc j"
      using "1.prems" gr0_implies_Suc by blast
    have "n div 10 < 10 ^ j \<longleftrightarrow> n < 10 ^ k"
      by (auto simp: k)
    moreover have "ndigits n = Suc (ndigits (n div 10))"
      using False by (simp add: ndigits.simps [of n])
    moreover have "0 < j \<Longrightarrow> ndigits (n div 10) \<le> j \<longleftrightarrow> n div 10 < 10 ^ j"
      using "1.IH" False by simp
    moreover have "j = 0 \<Longrightarrow> \<not> n div 10 < 10 ^ j"
      using False by auto
    ultimately show ?thesis
      using k by (cases "j = 0") (auto simp: not_le)
  qed
qed

lemma ndigits_upper: "n < 10 ^ ndigits n"
  using ndigits_le_iff [of "ndigits n" n] by simp

lemma ndigits_lower: "0 < n \<Longrightarrow> 10 ^ (ndigits n - 1) \<le> n"
  using ndigits_le_iff [of "ndigits n - 1" n]
  by (cases "1 < ndigits n") (auto simp: not_less le_Suc_eq)

lemma half_even_error:
  assumes "0 < m"
  shows "2 * \<bar>half_even a m * m - a\<bar> \<le> m"
proof -
  define q r where "q = a div m" and "r = a mod m"
  have a: "a = q * m + r"
    by (simp add: q_def r_def)
  have r: "r < m" "0 \<le> r"
    using assms by (simp_all add: r_def)
  have "half_even a m = q \<and> 2 * r \<le> m \<or> half_even a m = q + 1 \<and> m \<le> 2 * r"
    by (auto simp: half_even_def Let_def q_def r_def)
  then show ?thesis
    using a r by (auto simp: algebra_simps)
qed

lemma half_even_nonneg: "0 \<le> a \<Longrightarrow> 0 < m \<Longrightarrow> 0 \<le> half_even a m"
  by (simp add: half_even_def Let_def pos_imp_zdiv_nonneg_iff add_increasing)

lemma dfix_exact: "\<bar>dcoeff d\<bar> < 10 ^ prec \<Longrightarrow> dfix d = d"
  by (simp add: dfix_def ndigits_le_iff prec_def)

text \<open>The rounded value, in one formula for both rounding branches.\<close>

lemma dfix_val_rounded:
  assumes n: "prec < ndigits \<bar>dcoeff d\<bar>"
  defines "k \<equiv> ndigits \<bar>dcoeff d\<bar> - prec"
  shows "dval (dfix d) =
    of_int (sgn (dcoeff d) * half_even \<bar>dcoeff d\<bar> (10 ^ k)) * 10 powi (dexp d + int k)"
proof (cases "half_even \<bar>dcoeff d\<bar> (10 ^ k) = 10 ^ prec")
  case True
  have "(10::rat) ^ prec * 10 powi (dexp d + int k) =
        10 ^ (prec - 1) * 10 powi (dexp d + int k + 1)"
    by (simp add: prec_def power_int_add)
  with True n show ?thesis
    by (simp add: dfix_def dval_def k_def [symmetric] Let_def)
next
  case False
  with n show ?thesis
    by (simp add: dfix_def dval_def k_def [symmetric] Let_def)
qed

lemma dfix_sgn [simp]: "0 \<le> dcoeff d \<Longrightarrow> 0 \<le> dcoeff (dfix d)"
  by (auto simp: dfix_def Let_def sgn_if half_even_nonneg)

lemma dval_nonneg_iff: "0 \<le> dval d \<longleftrightarrow> 0 \<le> dcoeff d"
  using mult_le_cancel_right_pos [of "10 powi dexp d" 0 "of_int (dcoeff d) :: rat"]
  by (simp add: dval_def)

text \<open>Half a unit in the last of 28 places: the relative error of one operation.\<close>

definition ulp_bound :: rat where
  "ulp_bound = 1 / (2 * 10 ^ 27)"

lemma dfix_error: "\<bar>dval (dfix d) - dval d\<bar> \<le> ulp_bound * \<bar>dval d\<bar>"
proof (cases "ndigits \<bar>dcoeff d\<bar> \<le> prec")
  case True
  then show ?thesis
    by (simp add: dfix_def ulp_bound_def)
next
  case False
  define a k where "a = \<bar>dcoeff d\<bar>" and "k = ndigits a - prec"
  define h where "h = half_even a (10 ^ k)"
  have n: "prec < ndigits a"
    using False by (simp add: a_def)
  then have nz: "dcoeff d \<noteq> 0"
    by (auto simp: a_def prec_def ndigits.simps [of 0])
  have "10 ^ 27 * (2 * \<bar>h * 10 ^ k - a\<bar>) \<le> 10 ^ 27 * 10 ^ k"
    using half_even_error [of "10 ^ k" a] by (intro mult_left_mono) (simp_all add: h_def)
  moreover have "(10::int) ^ 27 * 10 ^ k \<le> a"
  proof -
    have "ndigits a - 1 = 27 + k"
      using n by (simp add: k_def prec_def)
    then have "10 ^ (27 + k) \<le> a"
      using ndigits_lower [of a] nz by (simp add: a_def)
    then show ?thesis
      by (simp add: power_add)
  qed
  ultimately have "2 * 10 ^ 27 * \<bar>h * 10 ^ k - a\<bar> \<le> a"
    by simp
  then have "of_int (2 * 10 ^ 27 * \<bar>h * 10 ^ k - a\<bar>) \<le> (of_int a :: rat)"
    by (simp only: of_int_le_iff)
  then have err: "\<bar>of_int (h * 10 ^ k - a)\<bar> \<le> ulp_bound * (of_int a :: rat)"
    by (simp add: ulp_bound_def field_simps)
  have "dval (dfix d) = of_int (sgn (dcoeff d) * (h * 10 ^ k)) * 10 powi (dexp d)"
    using dfix_val_rounded [of d, folded a_def, folded k_def] n
    by (simp add: h_def power_int_add)
  moreover have "dval d = of_int (sgn (dcoeff d) * a) * 10 powi (dexp d)"
    by (simp add: dval_def a_def sgn_if)
  ultimately have "dval (dfix d) - dval d =
      of_int (sgn (dcoeff d)) * of_int (h * 10 ^ k - a) * 10 powi (dexp d)"
    by (simp add: algebra_simps)
  then have "\<bar>dval (dfix d) - dval d\<bar> = \<bar>of_int (h * 10 ^ k - a)\<bar> * 10 powi (dexp d)"
    using nz by (simp add: abs_mult sgn_if)
  also have "\<dots> \<le> ulp_bound * of_int a * 10 powi (dexp d)"
    using err by (intro mult_right_mono) auto
  also have "\<dots> = ulp_bound * \<bar>dval d\<bar>"
    by (simp add: dval_def a_def abs_mult)
  finally show ?thesis .
qed

subsection \<open>Operations\<close>

lemma dadd_error: "\<bar>dval (dadd a b) - (dval a + dval b)\<bar> \<le> ulp_bound * \<bar>dval a + dval b\<bar>"
  using dfix_error [of "Dec (dscale (dexp2 a b) a + dscale (dexp2 a b) b) (dexp2 a b)"]
  by (simp add: dadd_def Let_def dval_sum_aligned)

lemma dmul_error: "\<bar>dval (dmul a b) - dval a * dval b\<bar> \<le> ulp_bound * \<bar>dval a * dval b\<bar>"
  using dfix_error [of "Dec (dcoeff a * dcoeff b) (dexp a + dexp b)"]
  by (simp add: dmul_def dval_mult_exact)

lemma dmul_nonneg: "0 \<le> dval a \<Longrightarrow> 0 \<le> dval b \<Longrightarrow> 0 \<le> dval (dmul a b)"
  by (simp add: dmul_def dval_nonneg_iff)

text \<open>
  The fixed-point grid: a decimal with at most \<open>s\<close> places behind the point. Sums that stay
  below \<open>10 ^ (28 - s)\<close> are exact on it.
\<close>

definition on_grid :: "nat \<Rightarrow> decimal \<Rightarrow> bool" where
  "on_grid s d \<longleftrightarrow> - int s \<le> dexp d"

lemma on_grid_zero [simp]: "on_grid s D0"
  by (simp add: on_grid_def)

lemma coeff_bound_of_val:
  assumes s: "- int s \<le> dexp d" and v: "\<bar>dval d\<bar> * 10 ^ s < 10 ^ prec"
  shows "\<bar>dcoeff d\<bar> < 10 ^ prec"
proof -
  have "1 \<le> (10::rat) ^ nat (dexp d - (- int s))"
    by simp
  then have "\<bar>of_int (dcoeff d)\<bar> * 1 \<le> \<bar>of_int (dcoeff d) :: rat\<bar> * 10 ^ nat (dexp d - (- int s))"
    by (intro mult_left_mono) auto
  also have "\<dots> = \<bar>dval d\<bar> * 10 ^ s"
    using ten_powi_split [OF s]
    by (simp add: dval_def abs_mult power_int_minus field_simps)
  also have "\<dots> < 10 ^ prec"
    by (rule v)
  finally have "of_int \<bar>dcoeff d\<bar> < (of_int (10 ^ prec) :: rat)"
    by simp
  then show ?thesis
    by (simp only: of_int_less_iff)
qed

lemma dadd_exact:
  assumes "on_grid s a" and "on_grid s b" and "\<bar>dval a + dval b\<bar> * 10 ^ s < 10 ^ prec"
  shows "dval (dadd a b) = dval a + dval b" and "on_grid s (dadd a b)"
proof -
  let ?d = "Dec (dscale (dexp2 a b) a + dscale (dexp2 a b) b) (dexp2 a b)"
  have v: "dval ?d = dval a + dval b"
    by (simp add: dval_sum_aligned)
  have e: "- int s \<le> dexp ?d"
    using assms(1,2) by (simp add: on_grid_def dexp2_def)
  have "\<bar>dcoeff ?d\<bar> < 10 ^ prec"
    using e assms(3) by (intro coeff_bound_of_val) (simp_all only: v)
  then have "dadd a b = ?d"
    by (simp add: dadd_def Let_def dfix_exact)
  with v e show "dval (dadd a b) = dval a + dval b" and "on_grid s (dadd a b)"
    by (simp_all add: on_grid_def)
qed

lemma dsub_exact:
  assumes "on_grid s a" and "on_grid s b" and "\<bar>dval a - dval b\<bar> * 10 ^ s < 10 ^ prec"
  shows "dval (dsub a b) = dval a - dval b" and "on_grid s (dsub a b)"
proof -
  have n: "dval (Dec (- dcoeff b) (dexp b)) = - dval b"
    by simp
  have g: "on_grid s (Dec (- dcoeff b) (dexp b))"
    using assms(2) by (simp add: on_grid_def)
  show "dval (dsub a b) = dval a - dval b" and "on_grid s (dsub a b)"
    using dadd_exact [OF assms(1) g] assms(3) by (simp_all add: dsub_def n)
qed

lemma on_grid_dmin: "on_grid s a \<Longrightarrow> on_grid s b \<Longrightarrow> on_grid s (dmin a b)"
  by (simp add: dmin_def)

lemma dabs_exact:
  assumes "on_grid s a" and "\<bar>dval a\<bar> * 10 ^ s < 10 ^ prec"
  shows "dval (dabs a) = \<bar>dval a\<bar>" and "on_grid s (dabs a)"
proof -
  have "\<bar>dcoeff a\<bar> < 10 ^ prec"
    using assms by (intro coeff_bound_of_val) (simp_all add: on_grid_def)
  then have "dabs a = Dec \<bar>dcoeff a\<bar> (dexp a)"
    by (simp add: dabs_def dfix_exact)
  with assms(1) show "dval (dabs a) = \<bar>dval a\<bar>" and "on_grid s (dabs a)"
    by (simp_all add: dval_def abs_mult on_grid_def)
qed

lemma dabs_nonneg [simp]: "0 \<le> dval (dabs a)"
  by (simp add: dabs_def dval_nonneg_iff)

lemma strip_zeros_val:
  "strip_zeros c e ideal k = (c', e') \<Longrightarrow> of_int c' * (10::rat) powi e' = of_int c * 10 powi e"
proof (induction c e ideal k rule: strip_zeros.induct)
  case (1 c e ideal)
  then show ?case by simp
next
  case (2 c e ideal k)
  show ?case
  proof (cases "e < ideal \<and> c mod 10 = 0")
    case True
    then have "c = 10 * (c div 10)"
      by auto
    then have "(of_int c :: rat) = 10 * of_int (c div 10)"
      by (metis of_int_mult of_int_numeral)
    then have "of_int c * (10::rat) powi e = of_int (c div 10) * 10 powi (e + 1)"
      by (simp add: power_int_add)
    with True "2.IH" "2.prems" show ?thesis
      by simp
  next
    case False
    with "2.prems" show ?thesis by auto
  qed
qed

lemma strip_zeros_nonneg: "strip_zeros c e ideal k = (c', e') \<Longrightarrow> 0 \<le> c \<Longrightarrow> 0 \<le> c'"
  by (induction c e ideal k rule: strip_zeros.induct)
     (auto simp: pos_imp_zdiv_nonneg_iff split: if_splits)

subsection \<open>Division\<close>

lemma div_quotient:
  assumes "0 < ca" and "0 < cb"
  shows "(of_int (div_num ca cb) :: rat) / of_int (div_den ca cb) =
           of_int ca / of_int cb * 10 powi div_shift ca cb"
    and "10 ^ 28 * div_den ca cb \<le> div_num ca cb"
proof -
  let ?s = "div_shift ca cb"
  have s: "(10::rat) powi ?s = 10 ^ nat ?s / 10 ^ nat (- ?s)"
    by (cases "0 \<le> ?s") (simp_all add: power_int_def field_simps)
  show "(of_int (div_num ca cb) :: rat) / of_int (div_den ca cb) =
           of_int ca / of_int cb * 10 powi ?s"
    using s by (simp add: div_num_def div_den_def)
  have up: "cb * 10 ^ nat (- ?s) * 10 ^ 28 \<le> 10 ^ ndigits cb * 10 ^ nat (- ?s) * 10 ^ 28"
    by (intro mult_right_mono) (simp_all add: ndigits_upper less_imp_le)
  have down: "10 ^ (ndigits ca - 1) * 10 ^ nat ?s \<le> ca * 10 ^ nat ?s"
    using assms(1) by (intro mult_right_mono ndigits_lower) simp_all
  have "ndigits cb + nat (- ?s) + 28 = ndigits ca - 1 + nat ?s"
    using ndigits_pos [of ca] unfolding div_shift_def prec_def by linarith
  then have "(10::int) ^ ndigits cb * 10 ^ nat (- ?s) * 10 ^ 28 = 10 ^ (ndigits ca - 1) * 10 ^ nat ?s"
    by (simp only: power_add [symmetric])
  from order_trans [OF up [unfolded this] down]
  show "10 ^ 28 * div_den ca cb \<le> div_num ca cb"
    by (simp only: div_num_def div_den_def mult.commute)
qed

lemma abs_error_chain:
  fixes u :: rat
  assumes "\<bar>x - y\<bar> \<le> u * \<bar>y\<bar>" and "\<bar>y - z\<bar> \<le> w * \<bar>z\<bar>" and "0 \<le> u"
  shows "\<bar>x - z\<bar> \<le> (u + w + u * w) * \<bar>z\<bar>"
proof -
  have "\<bar>y\<bar> \<le> \<bar>z\<bar> + w * \<bar>z\<bar>"
    using assms(2) by linarith
  then have "u * \<bar>y\<bar> \<le> u * (\<bar>z\<bar> + w * \<bar>z\<bar>)"
    using assms(3) by (rule mult_left_mono)
  then have "\<bar>x - y\<bar> + \<bar>y - z\<bar> \<le> u * (\<bar>z\<bar> + w * \<bar>z\<bar>) + w * \<bar>z\<bar>"
    using assms(1,2) by linarith
  also have "\<dots> = (u + w + u * w) * \<bar>z\<bar>"
    by (simp add: algebra_simps)
  finally show ?thesis
    by linarith
qed

text \<open>The quotient before rounding: the exact quotient up to one unit of 29 digits.\<close>

definition div_raw :: "decimal \<Rightarrow> decimal \<Rightarrow> decimal" where
  "div_raw a b =
     (let ca = \<bar>dcoeff a\<bar>; cb = \<bar>dcoeff b\<bar>; q = div_num ca cb div div_den ca cb
      in Dec (sgn (dcoeff a) * sgn (dcoeff b) *
                (if div_num ca cb mod div_den ca cb \<noteq> 0 \<and> q mod 5 = 0 then q + 1 else q))
             (dexp a - dexp b - div_shift ca cb))"

lemma ddiv_raw: "dcoeff a \<noteq> 0 \<Longrightarrow> \<exists>d. ddiv a b = dfix d \<and> dval d = dval (div_raw a b)"
proof -
  assume nz: "dcoeff a \<noteq> 0"
  let ?ca = "\<bar>dcoeff a\<bar>" and ?cb = "\<bar>dcoeff b\<bar>"
  let ?q = "div_num ?ca ?cb div div_den ?ca ?cb" and ?sg = "sgn (dcoeff a) * sgn (dcoeff b)"
  let ?id = "dexp a - dexp b" and ?sh = "div_shift ?ca ?cb"
  show ?thesis
  proof (cases "div_num ?ca ?cb mod div_den ?ca ?cb = 0")
    case True
    obtain c e' where s: "strip_zeros ?q (?id - ?sh) ?id (nat ?sh) = (c, e')"
      by fastforce
    have "ddiv a b = dfix (Dec (?sg * c) e')"
      using nz True s by (simp add: ddiv_def Let_def)
    moreover have "dval (Dec (?sg * c) e') = dval (div_raw a b)"
      using strip_zeros_val [OF s] True by (simp add: dval_def div_raw_def Let_def)
    ultimately show ?thesis by blast
  next
    case False
    then have "ddiv a b = dfix (div_raw a b)"
      using nz by (simp add: ddiv_def div_raw_def Let_def)
    then show ?thesis by blast
  qed
qed

lemma div_raw_error:
  assumes a: "dcoeff a \<noteq> 0" and b: "dcoeff b \<noteq> 0"
  shows "\<bar>dval (div_raw a b) - dval a / dval b\<bar> \<le> 1 / 10 ^ 28 * \<bar>dval a / dval b\<bar>"
proof -
  define ca cb where "ca = \<bar>dcoeff a\<bar>" and "cb = \<bar>dcoeff b\<bar>"
  define n m where "n = div_num ca cb" and "m = div_den ca cb"
  define q sg :: rat
    where "q = of_int (if n mod m \<noteq> 0 \<and> (n div m) mod 5 = 0 then n div m + 1 else n div m)"
      and "sg = of_int (sgn (dcoeff a) * sgn (dcoeff b))"
  define p :: rat where "p = 10 powi (dexp a - dexp b - div_shift ca cb)"
  have pos: "0 < ca" "0 < cb" "0 < m"
    using a b by (simp_all add: ca_def cb_def m_def div_den_def)
  have sg: "\<bar>sg\<bar> = 1" and p: "0 < p"
    using a b by (simp_all add: sg_def p_def sgn_if)
  have x: "dval (div_raw a b) = sg * q * p"
    by (simp add: div_raw_def Let_def dval_def ca_def cb_def n_def m_def q_def sg_def p_def)
  have big: "10 ^ 28 * of_int m \<le> (of_int n :: rat)"
  proof -
    have "(of_int (10 ^ 28 * m) :: rat) \<le> of_int n"
      using div_quotient(2) [OF pos(1,2)] by (simp only: of_int_le_iff n_def m_def)
    then show ?thesis by simp
  qed
  have "dval a / dval b = sg * (of_int ca / of_int cb) * 10 powi (dexp a - dexp b)"
    using a b by (simp add: dval_def ca_def cb_def sg_def power_int_diff sgn_if)
  also have "\<dots> = sg * (of_int n / of_int m) * p"
    using div_quotient(1) [OF pos(1,2)] by (simp add: n_def m_def p_def power_int_diff)
  finally have y: "dval a / dval b = sg * (of_int n / of_int m) * p" .
  have near: "\<bar>q - of_int n / of_int m\<bar> \<le> 1"
  proof -
    have "of_int n = (of_int (n div m) * of_int m + of_int (n mod m) :: rat)"
      by (simp flip: of_int_mult of_int_add)
    then have nm: "of_int n / of_int m = (of_int (n div m) + of_int (n mod m) / of_int m :: rat)"
      using pos(3) by (simp add: field_simps)
    have "0 \<le> n mod m" "n mod m < m"
      using pos(3) by simp_all
    then have "0 \<le> (of_int (n mod m) :: rat) / of_int m" "of_int (n mod m) / of_int m < (1::rat)"
      using pos(3) by simp_all
    then show ?thesis
      using nm by (auto simp: q_def)
  qed
  have "dval (div_raw a b) - dval a / dval b = sg * (q - of_int n / of_int m) * p"
    unfolding x y by (simp only: right_diff_distrib left_diff_distrib)
  then have "\<bar>dval (div_raw a b) - dval a / dval b\<bar> = \<bar>q - of_int n / of_int m\<bar> * p"
    using sg p by (simp add: abs_mult)
  also have "\<dots> \<le> 1 * p"
    using near p by (intro mult_right_mono) simp_all
  also have "\<dots> \<le> (1 / 10 ^ 28 * (of_int n / of_int m)) * p"
    using big p pos(3) by (intro mult_right_mono) (simp_all add: field_simps)
  also have "\<dots> = 1 / 10 ^ 28 * \<bar>dval a / dval b\<bar>"
  proof -
    have "0 \<le> n"
      using pos by (simp add: n_def div_num_def)
    then show ?thesis
      unfolding y using sg p pos(3) by (simp add: abs_mult)
  qed
  finally show ?thesis .
qed

lemma ddiv_error:
  assumes "dval b \<noteq> 0"
  shows "\<bar>dval (ddiv a b) - dval a / dval b\<bar> \<le> 1 / 10 ^ 27 * \<bar>dval a / dval b\<bar>"
proof (cases "dcoeff a = 0")
  case True
  then show ?thesis by (simp add: ddiv_def dval_def)
next
  case False
  then obtain d where d: "ddiv a b = dfix d" "dval d = dval (div_raw a b)"
    using ddiv_raw by blast
  have "\<bar>dval (ddiv a b) - dval a / dval b\<bar> \<le>
        (ulp_bound + 1 / 10 ^ 28 + ulp_bound * (1 / 10 ^ 28)) * \<bar>dval a / dval b\<bar>"
    using dfix_error [of d] div_raw_error [OF False] assms
    by (intro abs_error_chain) (simp_all add: d ulp_bound_def dval_eq_0)
  also have "\<dots> \<le> 1 / 10 ^ 27 * \<bar>dval a / dval b\<bar>"
    by (intro mult_right_mono) (simp_all add: ulp_bound_def)
  finally show ?thesis .
qed

lemma ddiv_nonneg: "0 \<le> dval a \<Longrightarrow> 0 \<le> dval b \<Longrightarrow> 0 \<le> dval (ddiv a b)"
  by (auto simp: ddiv_def Let_def dval_nonneg_iff sgn_if div_num_def div_den_def
        pos_imp_zdiv_nonneg_iff intro!: dfix_sgn mult_nonneg_nonneg
        dest!: strip_zeros_nonneg split: prod.split)

end
