(* ===== verification/Prelude.thy ===== *)
theory Prelude
  imports Py_Decimal "HOL-Library.Multiset" "HOL-Library.List_Lexorder" "HOL-Library.Char_ord"
    "HOL-Library.Product_Lexorder"
begin

text \<open>
  What the components share: the units of time, tables of rows that are updated by
  identifier, insertion-ordered dictionaries of lists
  (\<^verbatim>\<open>d.setdefault(k, []).append(x)\<close>), Python's stable sort, and the lemma
  collections that carry the component proofs.

  Instants are integers counting microseconds since the epoch in UTC, the resolution of
  \<^verbatim>\<open>datetime\<close>; a SQL table is the list of its rows, in the order in which the
  database would return them when the statement has no \<^verbatim>\<open>ORDER BY\<close>.
\<close>

named_theorems table_simps \<open>lookups and updates of tables of rows\<close>
named_theorems group_simps \<open>insertion-ordered dictionaries of lists\<close>

type_synonym instant = int
type_synonym pystr = string

abbreviation seconds :: "int \<Rightarrow> int" where
  "seconds n \<equiv> n * 1000000"

abbreviation minutes :: "int \<Rightarrow> int" where
  "minutes n \<equiv> seconds (60 * n)"

abbreviation hours :: "int \<Rightarrow> int" where
  "hours n \<equiv> seconds (3600 * n)"

abbreviation days :: "int \<Rightarrow> int" where
  "days n \<equiv> seconds (86400 * n)"

text \<open>A value of an optional text column that Python treats as true.\<close>

definition truthy :: "pystr option \<Rightarrow> bool" where
  "truthy t \<longleftrightarrow> (case t of None \<Rightarrow> False | Some s \<Rightarrow> s \<noteq> [])"

lemma truthy_simps [simp]: "\<not> truthy None" "truthy (Some s) \<longleftrightarrow> s \<noteq> []"
  by (simp_all add: truthy_def)

text \<open>\<^verbatim>\<open>str(x)\<close> of an optional identifier.\<close>

definition str_of :: "pystr option \<Rightarrow> pystr" where
  "str_of t = (case t of None \<Rightarrow> ''None'' | Some s \<Rightarrow> s)"

text \<open>\<^verbatim>\<open>v or ""\<close> and \<^verbatim>\<open>a or b\<close> of optional texts.\<close>

definition or_blank :: "pystr option \<Rightarrow> pystr" where
  "or_blank v = (case v of None \<Rightarrow> [] | Some s \<Rightarrow> s)"

definition or_else :: "pystr option \<Rightarrow> pystr option \<Rightarrow> pystr option" where
  "or_else a b = (if truthy a then a else b)"

lemma or_blank_simps [simp]: "or_blank None = []" "or_blank (Some s) = s"
  by (simp_all add: or_blank_def)

subsection \<open>Tables\<close>

text \<open>Replace the row with the identifier of \<open>r\<close> (an ORM object's attributes are written back).\<close>

definition put_row :: "('r \<Rightarrow> 'k) \<Rightarrow> 'r \<Rightarrow> 'r list \<Rightarrow> 'r list" where
  "put_row key r rs = map (\<lambda>x. if key x = key r then r else x) rs"

text \<open>\<^verbatim>\<open>UPDATE ... SET f WHERE P\<close>.\<close>

definition update_rows :: "('r \<Rightarrow> bool) \<Rightarrow> ('r \<Rightarrow> 'r) \<Rightarrow> 'r list \<Rightarrow> 'r list" where
  "update_rows P f rs = map (\<lambda>x. if P x then f x else x) rs"

lemma length_put_row [table_simps]: "length (put_row key r rs) = length rs"
  by (simp add: put_row_def)

lemma keys_put_row [table_simps]: "map key (put_row key r rs) = map key rs"
  by (simp add: put_row_def)

lemma put_row_Nil [simp]: "put_row key r [] = []"
  by (simp add: put_row_def)

lemma put_row_Cons: "put_row key r (x # xs) = (if key x = key r then r else x) # put_row key r xs"
  by (simp add: put_row_def)

lemma put_row_absent: "key r \<notin> key ` set rs \<Longrightarrow> put_row key r rs = rs"
  by (induction rs) (auto simp: put_row_Cons)

lemma in_put_row: "x \<in> set (put_row key r rs) \<Longrightarrow> x \<in> set rs \<and> key x \<noteq> key r \<or> x = r"
  by (auto simp: put_row_def split: if_splits)

lemma put_row_other: "x \<in> set rs \<Longrightarrow> key x \<noteq> key r \<Longrightarrow> x \<in> set (put_row key r rs)"
  by (auto simp: put_row_def)

lemma put_row_self: "key r \<in> key ` set rs \<Longrightarrow> r \<in> set (put_row key r rs)"
  by (auto simp: put_row_def intro!: image_eqI)

lemma filter_put_row:
  assumes "\<And>x. x \<in> set rs \<Longrightarrow> key x = key r \<Longrightarrow> \<not> P x" and "\<not> P r"
  shows "filter P (put_row key r rs) = filter P rs"
  using assms by (induction rs) (auto simp: put_row_Cons)

lemma sum_put_row:
  fixes f :: "'r \<Rightarrow> rat"
  assumes "distinct (map key rs)" and "x \<in> set rs" and "key r = key x"
  shows "(\<Sum>y\<leftarrow>put_row key r rs. f y) = (\<Sum>y\<leftarrow>rs. f y) - f x + f r"
  using assms
proof (induction rs)
  case (Cons y rs)
  then show ?case
    by (cases "x = y") (auto simp: put_row_Cons put_row_absent)
qed simp

lemma length_update_rows [table_simps]: "length (update_rows P f rs) = length rs"
  by (simp add: update_rows_def)

lemma keys_update_rows [table_simps]:
  "(\<And>x. key (f x) = key x) \<Longrightarrow> map key (update_rows P f rs) = map key rs"
  by (simp add: update_rows_def)

lemma in_update_rows:
  "y \<in> set (update_rows P f rs) \<longleftrightarrow> (\<exists>x \<in> set rs. y = (if P x then f x else x))"
  by (auto simp: update_rows_def)

lemma distinct_key_eq:
  "distinct (map key rs) \<Longrightarrow> x \<in> set rs \<Longrightarrow> y \<in> set rs \<Longrightarrow> key x = key y \<Longrightarrow> x = y"
  by (metis distinct_map inj_onD)

subsection \<open>Selection and order\<close>

text \<open>\<^verbatim>\<open>min(xs, key=..)\<close>: the first of the least.\<close>

fun first_min :: "('a \<Rightarrow> 'k :: linorder) \<Rightarrow> 'a list \<Rightarrow> 'a option" where
  "first_min key [] = None"
| "first_min key (x # xs) =
     (case first_min key xs of None \<Rightarrow> Some x | Some y \<Rightarrow> Some (if key y < key x then y else x))"

lemma first_min_in: "first_min key xs = Some x \<Longrightarrow> x \<in> set xs"
  by (induction xs arbitrary: x) (auto split: option.splits if_splits)

lemma first_min_None [simp]: "first_min key xs = None \<longleftrightarrow> xs = []"
  by (cases xs) (auto split: option.splits)

lemma first_min_le: "first_min key xs = Some x \<Longrightarrow> y \<in> set xs \<Longrightarrow> key x \<le> key y"
proof (induction xs arbitrary: x)
  case (Cons a xs)
  show ?case
  proof (cases "first_min key xs")
    case None
    then show ?thesis
      using Cons.prems by simp
  next
    case (Some z)
    then show ?thesis
      using Cons.prems Cons.IH [OF Some] by (auto split: if_splits)
  qed
qed simp

lemma first_min_map: "first_min k (map f xs) = map_option f (first_min (\<lambda>y. k (f y)) xs)"
  by (induction xs) (auto split: option.splits)

lemma insort_key_map: "insort_key k (f x) (map f xs) = map f (insort_key (\<lambda>y. k (f y)) x xs)"
  by (induction xs) auto

lemma sort_key_map: "sort_key k (map f xs) = map f (sort_key (\<lambda>y. k (f y)) xs)"
  by (induction xs) (simp_all add: insort_key_map)

subsection \<open>Dictionaries of lists\<close>

text \<open>\<^verbatim>\<open>groups.setdefault(k, []).append(x)\<close> on an insertion-ordered dictionary.\<close>

fun group_add :: "'k \<Rightarrow> 'a \<Rightarrow> ('k \<times> 'a list) list \<Rightarrow> ('k \<times> 'a list) list" where
  "group_add k x [] = [(k, [x])]"
| "group_add k x ((j, xs) # gs) =
     (if j = k then (j, xs @ [x]) # gs else (j, xs) # group_add k x gs)"

definition group_by :: "('a \<Rightarrow> 'k) \<Rightarrow> 'a list \<Rightarrow> ('k \<times> 'a list) list" where
  "group_by key xs = foldl (\<lambda>gs x. group_add (key x) x gs) [] xs"

lemma mset_group_add:
  "mset (concat (map snd (group_add k x gs))) = add_mset x (mset (concat (map snd gs)))"
  by (induction k x gs rule: group_add.induct) auto

lemma set_group_add [group_simps]:
  "set (map fst (group_add k x gs)) = insert k (set (map fst gs))"
  by (induction k x gs rule: group_add.induct) auto

lemma distinct_group_add [group_simps]:
  "distinct (map fst gs) \<Longrightarrow> distinct (map fst (group_add k x gs))"
proof (induction k x gs rule: group_add.induct)
  case (2 k x j xs gs)
  then show ?case
    using set_group_add [of k x gs] by auto
qed simp

lemma group_add_inv:
  "(\<forall>(j, xs) \<in> set gs. xs \<noteq> [] \<and> (\<forall>y \<in> set xs. key y = j)) \<Longrightarrow> key x = k \<Longrightarrow>
   (\<forall>(j, xs) \<in> set (group_add k x gs). xs \<noteq> [] \<and> (\<forall>y \<in> set xs. key y = j))"
  by (induction k x gs rule: group_add.induct) auto

lemma group_by_snoc: "group_by key (xs @ [x]) = group_add (key x) x (group_by key xs)"
  by (simp add: group_by_def)

lemma group_by_mset: "mset (concat (map snd (group_by key xs))) = mset xs"
  by (induction xs rule: rev_induct) (simp_all add: group_by_snoc mset_group_add, simp add: group_by_def)

lemma group_by_distinct: "distinct (map fst (group_by key xs))"
  by (induction xs rule: rev_induct)
     (simp_all add: group_by_snoc distinct_group_add, simp add: group_by_def)

lemma group_by_inv: "\<forall>(j, ys) \<in> set (group_by key xs). ys \<noteq> [] \<and> (\<forall>y \<in> set ys. key y = j)"
proof (induction xs rule: rev_induct)
  case Nil
  then show ?case by (simp add: group_by_def)
next
  case (snoc x xs)
  then show ?case
    unfolding group_by_snoc by (rule group_add_inv) simp
qed

lemma group_by_key:
  assumes "(j, ys) \<in> set (group_by key xs)"
  shows "ys \<noteq> []" and "\<And>y. y \<in> set ys \<Longrightarrow> key y = j"
  using group_by_inv [of key xs] assms by auto

lemma group_by_members:
  assumes "(j, ys) \<in> set (group_by key xs)"
  shows "set ys \<subseteq> set xs"
proof
  fix y
  assume "y \<in> set ys"
  with assms have "y \<in> set (concat (map snd (group_by key xs)))"
    by force
  then show "y \<in> set xs"
    using group_by_mset [of key xs] by (metis set_mset_mset)
qed

subsection \<open>Stable sort\<close>

lemma set_sort_key_filter [simp]: "set (sort_key k (filter P xs)) = {x \<in> set xs. P x}"
  by auto

subsection \<open>Sums of rationals over lists\<close>

lemma sum_list_nonneg_rat: "(\<And>x. x \<in> set xs \<Longrightarrow> 0 \<le> f x) \<Longrightarrow> 0 \<le> (\<Sum>x\<leftarrow>xs. f x :: rat)"
  by (induction xs) auto

subsection \<open>Fallible step machines\<close>

text \<open>A loop over events that stops at the first error, as an exception does.\<close>

fun run_steps :: "('e \<Rightarrow> 's \<Rightarrow> 'x + 's) \<Rightarrow> 'e list \<Rightarrow> 's \<Rightarrow> 'x + 's" where
  "run_steps step [] s = Inr s"
| "run_steps step (e # es) s =
     (case step e s of Inl x \<Rightarrow> Inl x | Inr s' \<Rightarrow> run_steps step es s')"

text \<open>
  The contract of a component's step: it keeps an invariant on admissible events and leaves
  an observation of the state (what belongs to somebody else) unchanged. A whole run then
  does both.
\<close>

locale step_machine =
  fixes step :: "'e \<Rightarrow> 's \<Rightarrow> 'x + 's"
    and inv :: "'s \<Rightarrow> bool"
    and admissible :: "'e \<Rightarrow> bool"
    and obs :: "'s \<Rightarrow> 'o"
  assumes step_inv: "inv s \<Longrightarrow> admissible e \<Longrightarrow> step e s = Inr s' \<Longrightarrow> inv s'"
    and step_obs: "inv s \<Longrightarrow> admissible e \<Longrightarrow> step e s = Inr s' \<Longrightarrow> obs s' = obs s"
begin

lemma run_inv:
  "inv s \<Longrightarrow> \<forall>e \<in> set es. admissible e \<Longrightarrow> run_steps step es s = Inr s' \<Longrightarrow> inv s'"
  by (induction es arbitrary: s) (auto dest: step_inv split: sum.splits)

lemma run_obs:
  "inv s \<Longrightarrow> \<forall>e \<in> set es. admissible e \<Longrightarrow> run_steps step es s = Inr s' \<Longrightarrow> obs s' = obs s"
proof (induction es arbitrary: s)
  case (Cons e es)
  then obtain s1 where s1: "step e s = Inr s1" "run_steps step es s1 = Inr s'"
    by (auto split: sum.splits)
  with Cons.prems have "inv s1" "obs s1 = obs s"
    by (auto dest: step_inv step_obs)
  with Cons.IH [of s1] Cons.prems s1 show ?case
    by simp
qed simp

end

end
