(* ===== verification/Py_Text.thy ===== *)
theory Py_Text
  imports Prelude
begin

text \<open>
  Python strings and JSON values. A string is the list of its characters; case mapping is
  the one of the ASCII letters (other characters map to themselves), and white space is what
  \<^verbatim>\<open>str.strip\<close> removes among the first 256 code points. A JSON column is a
  \<open>pyval\<close>; a float is kept as its \<^verbatim>\<open>repr\<close> text, which is all the program
  reads of it (every number goes through \<^verbatim>\<open>Decimal(str(x))\<close>).
\<close>

definition code :: "char \<Rightarrow> nat" where
  "code c = of_char c"

definition is_upper :: "char \<Rightarrow> bool" where
  "is_upper c \<longleftrightarrow> 65 \<le> code c \<and> code c \<le> 90"

definition is_lower :: "char \<Rightarrow> bool" where
  "is_lower c \<longleftrightarrow> 97 \<le> code c \<and> code c \<le> 122"

definition is_digit :: "char \<Rightarrow> bool" where
  "is_digit c \<longleftrightarrow> 48 \<le> code c \<and> code c \<le> 57"

definition is_space :: "char \<Rightarrow> bool" where
  "is_space c \<longleftrightarrow> code c \<in> {9, 10, 11, 12, 13, 28, 29, 30, 31, 32, 133, 160}"

definition lower_char :: "char \<Rightarrow> char" where
  "lower_char c = (if is_upper c then char_of (code c + 32) else c)"

definition upper_char :: "char \<Rightarrow> char" where
  "upper_char c = (if is_lower c then char_of (code c - 32) else c)"

definition lower :: "pystr \<Rightarrow> pystr" where
  "lower s = map lower_char s"

definition upper :: "pystr \<Rightarrow> pystr" where
  "upper s = map upper_char s"

definition casefold :: "pystr \<Rightarrow> pystr" where
  "casefold s = lower s"

definition strip :: "pystr \<Rightarrow> pystr" where
  "strip s = rev (dropWhile is_space (rev (dropWhile is_space s)))"

definition startswith :: "pystr \<Rightarrow> pystr \<Rightarrow> bool" where
  "startswith p s \<longleftrightarrow> take (length p) s = p"

definition endswith :: "pystr \<Rightarrow> pystr \<Rightarrow> bool" where
  "endswith p s = startswith (rev p) (rev s)"

text \<open>\<^verbatim>\<open>p in s\<close> for strings.\<close>

fun contains :: "pystr \<Rightarrow> pystr \<Rightarrow> bool" where
  "contains p [] = (p = [])"
| "contains p (c # s) = (startswith p (c # s) \<or> contains p s)"

definition removeprefix :: "pystr \<Rightarrow> pystr \<Rightarrow> pystr" where
  "removeprefix p s = (if startswith p s then drop (length p) s else s)"

lemma contains_iff: "contains p s \<longleftrightarrow> (\<exists>u v. s = u @ p @ v)"
proof (induction s)
  case (Cons c s)
  have "startswith p (c # s) \<longleftrightarrow> (\<exists>v. c # s = p @ v)"
    unfolding startswith_def by (metis append_eq_conv_conj append_take_drop_id)
  then show ?case
    unfolding contains.simps Cons.IH by (metis append_Cons append_Nil list.exhaust list.inject)
qed auto

subsection \<open>Numbers as text\<close>

definition digit_char :: "int \<Rightarrow> char" where
  "digit_char d = char_of (48 + nat d)"

function show_nat :: "int \<Rightarrow> pystr" where
  "show_nat n = (if n < 10 then [digit_char n] else show_nat (n div 10) @ [digit_char (n mod 10)])"
  by pat_completeness auto
termination
  by (relation "measure nat") auto

declare show_nat.simps [simp del]

definition show_int :: "int \<Rightarrow> pystr" where
  "show_int n = (if n < 0 then CHR ''-'' # show_nat (- n) else show_nat n)"

definition digits_val :: "pystr \<Rightarrow> int" where
  "digits_val s = foldl (\<lambda>a c. 10 * a + (int (code c) - 48)) 0 s"

subsection \<open>JSON values\<close>

datatype pyval =
    PNone
  | PBool bool
  | PInt int
  | PFloat pystr
  | PStr pystr
  | PList "pyval list"
  | PDict "(pystr \<times> pyval) list"

text \<open>\<^verbatim>\<open>repr\<close> of a string: quotes and escapes.\<close>

definition hex_char :: "nat \<Rightarrow> char" where
  "hex_char d = (if d < 10 then char_of (48 + d) else char_of (87 + d))"

definition esc_char :: "char \<Rightarrow> char \<Rightarrow> pystr" where
  "esc_char q c =
     (if c = q \<or> code c = 92 then [char_of (92::nat), c]
      else if code c = 9 then [char_of (92::nat), CHR ''t'']
      else if code c = 10 then [char_of (92::nat), CHR ''n'']
      else if code c = 13 then [char_of (92::nat), CHR ''r'']
      else if code c < 32 \<or> (127 \<le> code c \<and> code c \<le> 160) \<or> code c = 173
      then [char_of (92::nat), CHR ''x'', hex_char (code c div 16), hex_char (code c mod 16)]
      else [c])"

definition str_repr :: "pystr \<Rightarrow> pystr" where
  "str_repr s =
     (let q = (if char_of (39::nat) \<in> set s \<and> char_of (34::nat) \<notin> set s
               then char_of (34::nat) else char_of (39::nat))
      in [q] @ concat (map (esc_char q) s) @ [q])"

fun join :: "pystr \<Rightarrow> pystr list \<Rightarrow> pystr" where
  "join sep [] = []"
| "join sep [x] = x"
| "join sep (x # y # ys) = x @ sep @ join sep (y # ys)"

fun py_repr :: "pyval \<Rightarrow> pystr" where
  "py_repr PNone = ''None''"
| "py_repr (PBool b) = (if b then ''True'' else ''False'')"
| "py_repr (PInt n) = show_int n"
| "py_repr (PFloat s) = s"
| "py_repr (PStr s) = str_repr s"
| "py_repr (PList vs) = ''['' @ join '', '' (map py_repr vs) @ '']''"
| "py_repr (PDict kvs) =
     ''{'' @ join '', '' (map (\<lambda>(k, v). str_repr k @ '': '' @ py_repr v) kvs) @ ''}''"

text \<open>\<^verbatim>\<open>str(value)\<close>.\<close>

definition py_str :: "pyval \<Rightarrow> pystr" where
  "py_str v = (case v of PStr s \<Rightarrow> s | _ \<Rightarrow> py_repr v)"

text \<open>The values Python takes for true.\<close>

definition py_true :: "pyval \<Rightarrow> bool" where
  "py_true v =
     (case v of PNone \<Rightarrow> False | PBool b \<Rightarrow> b | PInt n \<Rightarrow> n \<noteq> 0
      | PFloat s \<Rightarrow> s \<notin> {''0.0'', ''-0.0''} | PStr s \<Rightarrow> s \<noteq> [] | PList vs \<Rightarrow> vs \<noteq> [] | PDict d \<Rightarrow> d \<noteq> [])"

text \<open>\<^verbatim>\<open>d.get(key)\<close>: \<open>PNone\<close> when the key is absent.\<close>

definition dict_get :: "(pystr \<times> pyval) list \<Rightarrow> pystr \<Rightarrow> pyval" where
  "dict_get d k = (case map_of d k of None \<Rightarrow> PNone | Some v \<Rightarrow> v)"

text \<open>\<^verbatim>\<open>d[key] = v\<close> on an insertion-ordered dictionary.\<close>

fun dict_put :: "pystr \<Rightarrow> 'v \<Rightarrow> (pystr \<times> 'v) list \<Rightarrow> (pystr \<times> 'v) list" where
  "dict_put k v [] = [(k, v)]"
| "dict_put k v ((j, w) # d) = (if j = k then (j, v) # d else (j, w) # dict_put k v d)"

lemma map_of_dict_put [simp]: "map_of (dict_put k v d) = (map_of d)(k \<mapsto> v)"
  by (induction k v d rule: dict_put.induct) auto

lemma dict_get_put [simp]: "dict_get (dict_put k v d) j = (if j = k then v else dict_get d j)"
  by (simp add: dict_get_def)

subsection \<open>Parsing decimals\<close>

text \<open>
  \<^verbatim>\<open>Decimal(text)\<close>: a finite decimal, an infinity, a NaN, or
  \<^verbatim>\<open>InvalidOperation\<close>.
\<close>

datatype parsed = Finite decimal | Infinite bool | NotANumber | Invalid

definition take_sign :: "pystr \<Rightarrow> bool \<times> pystr" where
  "take_sign s = (case s of [] \<Rightarrow> (False, [])
     | c # r \<Rightarrow> if c = CHR ''-'' then (True, r) else if c = CHR ''+'' then (False, r) else (False, s))"

text \<open>The exponent part: nothing, or \<open>e\<close>, an optional sign and at least one digit.\<close>

definition parse_exponent :: "pystr \<Rightarrow> int option" where
  "parse_exponent s =
     (case s of [] \<Rightarrow> Some 0
      | c # r \<Rightarrow>
          (let (neg, ds) = take_sign r
           in if lower_char c = CHR ''e'' \<and> ds \<noteq> [] \<and> list_all is_digit ds
              then Some (if neg then - digits_val ds else digits_val ds) else None))"

definition parse_number :: "bool \<Rightarrow> pystr \<Rightarrow> parsed" where
  "parse_number neg s =
     (let i = takeWhile is_digit s; r = dropWhile is_digit s;
          (f, r') = (case r of c # t \<Rightarrow>
                       if c = CHR ''.'' then (takeWhile is_digit t, dropWhile is_digit t) else ([], r)
                     | [] \<Rightarrow> ([], []))
      in if i = [] \<and> f = [] then Invalid
         else case parse_exponent r' of None \<Rightarrow> Invalid
              | Some e \<Rightarrow> let c = digits_val (i @ f)
                          in Finite (Dec (if neg then - c else c) (e - int (length f))))"

definition parse_decimal :: "pystr \<Rightarrow> parsed" where
  "parse_decimal s =
     (let t = filter (\<lambda>c. c \<noteq> CHR ''_'') (strip s); (neg, r) = take_sign t; l = lower r
      in if l = ''inf'' \<or> l = ''infinity'' then Infinite neg
         else if startswith ''nan'' l \<and> list_all is_digit (drop 3 l) then NotANumber
         else if startswith ''snan'' l \<and> list_all is_digit (drop 4 l) then NotANumber
         else parse_number neg r)"

subsection \<open>Parsing integers\<close>

text \<open>\<^verbatim>\<open>int(text)\<close>: \<open>None\<close> for a \<^verbatim>\<open>ValueError\<close>.\<close>

definition int_text :: "pystr \<Rightarrow> bool" where
  "int_text s \<longleftrightarrow> s \<noteq> [] \<and> list_all (\<lambda>c. is_digit c \<or> c = CHR ''_'') s \<and>
     is_digit (hd s) \<and> is_digit (last s) \<and> \<not> contains ''__'' s"

definition parse_int :: "pystr \<Rightarrow> int option" where
  "parse_int s =
     (case take_sign (strip s) of (neg, r) \<Rightarrow>
        if int_text r
        then let v = digits_val (filter is_digit r) in Some (if neg then - v else v)
        else None)"

end
