(* ===== verification/Tax_Lot_Model.thy ===== *)
theory Tax_Lot_Model
  imports Py_Text
begin

text \<open>
  The data of the tax-lot engine: the transaction and lot rows
  (\<^verbatim>\<open>models/transaction.py\<close>, \<^verbatim>\<open>models/tax_lot.py\<close>), the lot
  repository (\<^verbatim>\<open>db/repositories.py\<close>, \<^verbatim>\<open>db/repository.py\<close>) and the
  reading of split ratios out of provider metadata
  (\<^verbatim>\<open>services/wealthfolio_preflight.py\<close>).

  A session is the list of the lot objects it tracks. What the database does to a stored
  amount is a parameter \<open>db\<close>: \<^verbatim>\<open>flush()\<close> followed by
  \<^verbatim>\<open>refresh()\<close> replaces every \<^verbatim>\<open>Numeric(24, 8)\<close> attribute of that one
  object by what the column holds, and other objects keep their in-memory values.
\<close>

datatype txn_type =
    TRANSFER | PAYMENT | PURCHASE | SALE | FEE | INTEREST | DIVIDEND | TAX | SPLIT | ADJUSTMENT
  | CORPORATE_ACTION | WITHDRAWAL | DEPOSIT | CARD_PAYMENT | SCHEDULED_PAYMENT | OTHER

record transaction =
  txn_id :: pystr
  txn_tenant_id :: pystr
  txn_account_id :: pystr
  txn_security_id :: "pystr option"
  transaction_type :: txn_type
  amount :: decimal
  txn_currency_code :: pystr
  txn_quantity :: "decimal option"
  occurred_at :: instant
  counterparty_account_reference :: "pystr option"
  provider_metadata_contract :: pyval

datatype basis_method = FIFO | LIFO | SPECIFIC_ID

record tax_lot =
  lot_id :: nat
  lot_tenant_id :: pystr
  lot_account_id :: pystr
  lot_security_id :: "pystr option"
  purchase_transaction_id :: "pystr option"
  sale_transaction_id :: "pystr option"
  transfer_transaction_id :: "pystr option"
  quantity :: decimal
  remaining_quantity :: decimal
  cost_basis_total :: decimal
  cost_basis_per_unit :: decimal
  lot_currency_code :: pystr
  acquired_at :: instant
  closed_at :: "instant option"
  realized_pl :: "decimal option"
  realized_pl_currency :: "pystr option"
  has_wash_sale_adjustment :: bool
  disallowed_loss :: "decimal option"
  cost_basis_method :: basis_method

definition is_open :: "tax_lot \<Rightarrow> bool" where
  "is_open lot \<longleftrightarrow> closed_at lot = None"

definition closed_quantity :: "tax_lot \<Rightarrow> decimal" where
  "closed_quantity lot = dsub (quantity lot) (remaining_quantity lot)"

subsection \<open>The lot repository\<close>

text \<open>The tracked lots and the supply of fresh primary keys (\<^verbatim>\<open>pk_uuid()\<close>).\<close>

record lot_store =
  lots :: "tax_lot list"
  next_lot_id :: nat

definition db_lot :: "(decimal \<Rightarrow> decimal) \<Rightarrow> tax_lot \<Rightarrow> tax_lot" where
  "db_lot db lot =
     lot\<lparr>quantity := db (quantity lot),
         remaining_quantity := db (remaining_quantity lot),
         cost_basis_total := db (cost_basis_total lot),
         cost_basis_per_unit := db (cost_basis_per_unit lot),
         realized_pl := map_option db (realized_pl lot),
         disallowed_loss := map_option db (disallowed_loss lot)\<rparr>"

text \<open>Attribute assignments on a tracked object, without a flush.\<close>

definition repo_write :: "tax_lot \<Rightarrow> lot_store \<Rightarrow> lot_store" where
  "repo_write lot st = st\<lparr>lots := put_row lot_id lot (lots st)\<rparr>"

definition repo_update :: "(decimal \<Rightarrow> decimal) \<Rightarrow> tax_lot \<Rightarrow> lot_store \<Rightarrow> lot_store" where
  "repo_update db lot st = repo_write (db_lot db lot) st"

definition repo_add :: "(decimal \<Rightarrow> decimal) \<Rightarrow> tax_lot \<Rightarrow> lot_store \<Rightarrow> tax_lot \<times> lot_store" where
  "repo_add db lot st =
     (let lot' = db_lot db (lot\<lparr>lot_id := next_lot_id st\<rparr>)
      in (lot', \<lparr>lots = lots st @ [lot'], next_lot_id = Suc (next_lot_id st)\<rparr>))"

definition repo_list :: "(tax_lot \<Rightarrow> bool) \<Rightarrow> lot_store \<Rightarrow> tax_lot list" where
  "repo_list P st = filter P (lots st)"

definition delete_for_tenant :: "pystr \<Rightarrow> lot_store \<Rightarrow> nat \<times> lot_store" where
  "delete_for_tenant tid st =
     (length (filter (\<lambda>l. lot_tenant_id l = tid) (lots st)),
      st\<lparr>lots := filter (\<lambda>l. lot_tenant_id l \<noteq> tid) (lots st)\<rparr>)"

definition find_open_lots :: "pystr \<Rightarrow> pystr \<Rightarrow> pystr \<Rightarrow> lot_store \<Rightarrow> tax_lot list" where
  "find_open_lots tid acc sec st =
     sort_key acquired_at
       (repo_list (\<lambda>l. lot_tenant_id l = tid \<and> lot_account_id l = acc \<and>
                       lot_security_id l = Some sec \<and> closed_at l = None) st)"

definition find_lots_for_transaction :: "pystr \<Rightarrow> pystr \<Rightarrow> lot_store \<Rightarrow> tax_lot list" where
  "find_lots_for_transaction tid txn st =
     repo_list (\<lambda>l. lot_tenant_id l = tid \<and>
                    (purchase_transaction_id l = Some txn \<or> sale_transaction_id l = Some txn)) st"

definition find_lots_for_transfer :: "pystr \<Rightarrow> pystr \<Rightarrow> lot_store \<Rightarrow> tax_lot list" where
  "find_lots_for_transfer tid txn st =
     repo_list (\<lambda>l. lot_tenant_id l = tid \<and> transfer_transaction_id l = Some txn) st"

subsection \<open>Quantity-event ratios\<close>

text \<open>The result of reading a ratio; a numerator of \<^verbatim>\<open>"Infinity"\<close> survives one path.\<close>

datatype ratio = NoRatio | Ratio decimal | InfiniteRatio

text \<open>\<open>\d+(?:\.\d+)?\<close> at the head of the text: the decimal and the rest.\<close>

definition match_number :: "pystr \<Rightarrow> (decimal \<times> pystr) option" where
  "match_number s =
     (let i = takeWhile is_digit s; r = dropWhile is_digit s
      in if i = [] then None
         else case r of
           c # t \<Rightarrow> (let f = takeWhile is_digit t
                     in if c = CHR ''.'' \<and> f \<noteq> []
                        then Some (Dec (digits_val (i @ f)) (- int (length f)), dropWhile is_digit t)
                        else Some (Dec (digits_val i) 0, r))
         | [] \<Rightarrow> Some (Dec (digits_val i) 0, []))"

text \<open>\<open>(?::|/|for|op)\<close>.\<close>

definition match_separator :: "pystr \<Rightarrow> pystr option" where
  "match_separator s =
     (if startswith '':'' s \<or> startswith ''/'' s then Some (drop 1 s)
      else if startswith ''for'' s then Some (drop 3 s)
      else if startswith ''op'' s then Some (drop 2 s) else None)"

definition ratio_match :: "pystr \<Rightarrow> (decimal \<times> decimal) option" where
  "ratio_match s =
     (case match_number s of None \<Rightarrow> None
      | Some (new, r) \<Rightarrow>
          (case match_separator (dropWhile is_space r) of None \<Rightarrow> None
           | Some r' \<Rightarrow>
               (case match_number (dropWhile is_space r') of
                  Some (old, []) \<Rightarrow> Some (new, old)
                | _ \<Rightarrow> None)))"

definition replace_commas :: "pystr \<Rightarrow> pystr" where
  "replace_commas s = map (\<lambda>c. if c = CHR '','' then CHR ''.'' else c) s"

definition positive_ratio :: "pyval \<Rightarrow> ratio" where
  "positive_ratio value =
     (let normalized = replace_commas (casefold (strip (py_str value)))
      in case ratio_match normalized of
           Some (new, old) \<Rightarrow>
             if dcoeff old = 0 then NoRatio
             else let r = ddiv new old in if dlt D0 r then Ratio r else NoRatio
         | None \<Rightarrow>
             (case parse_decimal normalized of
                Finite r \<Rightarrow> if dlt D0 r then Ratio r else NoRatio
              | _ \<Rightarrow> NoRatio))"

text \<open>First value among the keys that is not \<^verbatim>\<open>None\<close>.\<close>

fun first_some :: "(pystr \<times> pyval) list \<Rightarrow> pystr list \<Rightarrow> pyval" where
  "first_some d [] = PNone"
| "first_some d (k # ks) = (if dict_get d k = PNone then first_some d ks else dict_get d k)"

definition ratio_keys :: "pystr list" where
  "ratio_keys = [''split_ratio'', ''splitRatio'', ''quantity_multiplier'', ''quantityMultiplier'',
                 ''ratio'']"

definition ratio_containers :: "pystr list" where
  "ratio_containers = [''event'', ''corporate_action'', ''corporateAction'', ''action'']"

definition dict_of :: "pyval \<Rightarrow> (pystr \<times> pyval) list list" where
  "dict_of v = (case v of PDict d \<Rightarrow> [d] | _ \<Rightarrow> [])"

text \<open>The contract envelope, its \<^verbatim>\<open>fields\<close>, and the known nested event objects.\<close>

definition ratio_candidates :: "(pystr \<times> pyval) list \<Rightarrow> (pystr \<times> pyval) list list" where
  "ratio_candidates metadata =
     (let cs = metadata # dict_of (dict_get metadata ''fields'')
      in cs @ concat (map (\<lambda>c. concat (map (\<lambda>k. dict_of (dict_get c k)) ratio_containers)) cs))"

text \<open>
  \<^verbatim>\<open>Decimal(str(numerator)) / Decimal(str(denominator))\<close> under
  \<^verbatim>\<open>except Exception: return None\<close>. \<open>None\<close> means the candidate is passed
  over (a denominator that is not positive).
\<close>

definition fraction_ratio :: "pyval \<Rightarrow> pyval \<Rightarrow> ratio option" where
  "fraction_ratio numerator denominator =
     (case (parse_decimal (py_str numerator), parse_decimal (py_str denominator)) of
        (Invalid, _) \<Rightarrow> Some NoRatio
      | (_, Invalid) \<Rightarrow> Some NoRatio
      | (_, NotANumber) \<Rightarrow> Some NoRatio
      | (n, Infinite neg) \<Rightarrow> if neg then None else Some NoRatio
      | (n, Finite d) \<Rightarrow>
          if \<not> dlt D0 d then None
          else (case n of
                  Finite m \<Rightarrow> (let r = ddiv m d in Some (if dlt D0 r then Ratio r else NoRatio))
                | Infinite neg \<Rightarrow> Some (if neg then NoRatio else InfiniteRatio)
                | _ \<Rightarrow> Some NoRatio))"

fun ratio_from_candidates :: "(pystr \<times> pyval) list list \<Rightarrow> ratio" where
  "ratio_from_candidates [] = NoRatio"
| "ratio_from_candidates (c # cs) =
     (let value = first_some c ratio_keys;
          numerator = first_some c [''split_numerator'', ''new_quantity'', ''newQuantity'',
                                    ''new_units'', ''newUnits''];
          denominator = first_some c [''split_denominator'', ''old_quantity'', ''oldQuantity'',
                                      ''old_units'', ''oldUnits'']
      in if value \<noteq> PNone then positive_ratio value
         else if numerator \<noteq> PNone \<and> denominator \<noteq> PNone
         then (case fraction_ratio numerator denominator of
                 Some r \<Rightarrow> r | None \<Rightarrow> ratio_from_candidates cs)
         else ratio_from_candidates cs)"

definition quantity_event_ratio :: "pyval \<Rightarrow> ratio" where
  "quantity_event_ratio metadata =
     (case metadata of PDict d \<Rightarrow> ratio_from_candidates (ratio_candidates d) | _ \<Rightarrow> NoRatio)"

text \<open>A finite ratio that is read out of metadata is positive.\<close>

lemma positive_ratio_pos: "positive_ratio v = Ratio r \<Longrightarrow> 0 < dval r"
  by (auto simp: positive_ratio_def Let_def split: option.splits parsed.splits if_splits)

lemma fraction_ratio_pos: "fraction_ratio n d = Some (Ratio r) \<Longrightarrow> 0 < dval r"
  by (auto simp: fraction_ratio_def Let_def split: parsed.splits if_splits)

lemma quantity_event_ratio_positive: "quantity_event_ratio m = Ratio r \<Longrightarrow> 0 < dval r"
proof -
  have "ratio_from_candidates cs = Ratio r \<Longrightarrow> 0 < dval r" for cs
    by (induction cs)
       (auto simp: Let_def dest: positive_ratio_pos fraction_ratio_pos
          split: if_splits option.splits)
  then show "quantity_event_ratio m = Ratio r \<Longrightarrow> 0 < dval r"
    by (auto simp: quantity_event_ratio_def split: pyval.splits)
qed

end
