(* ===== verification/Tax_Lot_Service.thy ===== *)
theory Tax_Lot_Service
  imports Tax_Lot_Model
begin

text \<open>
  \<^verbatim>\<open>services/tax_lot_service.py\<close>: lot creation, sale matching, splits, security
  transfers, wash sales and the full reconstruction, each a function of the session's lot
  store. Python's \<^verbatim>\<open>for\<close> loops with \<^verbatim>\<open>break\<close> and
  \<^verbatim>\<open>continue\<close> are structural recursions over the list that is iterated.
\<close>

datatype lot_error = AssertionError | DataError

definition wash_sale_lookback_days :: int where
  "wash_sale_lookback_days = 30"

subsection \<open>Security transfers\<close>

definition transfer_keys :: "pystr list" where
  "transfer_keys = [''transfer_id'', ''transferId'', ''transfer_reference'', ''transferReference'']"

definition or_none :: "pystr \<Rightarrow> pystr option" where
  "or_none s = (if s = [] then None else Some s)"

text \<open>The first value of a candidate that is neither \<^verbatim>\<open>None\<close> nor the empty string.\<close>

fun first_reference :: "(pystr \<times> pyval) list \<Rightarrow> pystr list \<Rightarrow> pyval option" where
  "first_reference d [] = None"
| "first_reference d (k # ks) =
     (if dict_get d k = PNone \<or> dict_get d k = PStr [] then first_reference d ks
      else Some (dict_get d k))"

fun reference_in :: "(pystr \<times> pyval) list list \<Rightarrow> pystr option \<Rightarrow> pystr option" where
  "reference_in [] fallback = fallback"
| "reference_in (c # cs) fallback =
     (case first_reference c transfer_keys of
        Some v \<Rightarrow> or_none (strip (py_str v))
      | None \<Rightarrow> reference_in cs fallback)"

definition transfer_reference :: "transaction \<Rightarrow> pystr option" where
  "transfer_reference t =
     (let fallback = (if truthy (counterparty_account_reference t)
                      then counterparty_account_reference t else None)
      in case provider_metadata_contract t of
           PDict metadata \<Rightarrow>
             reference_in (metadata # dict_of (dict_get metadata ''fields'')) fallback
         | _ \<Rightarrow> fallback)"

definition utc_day :: "instant \<Rightarrow> int" where
  "utc_day t = t div days 1"

type_synonym leg_key = "pystr \<times> pystr \<times> int \<times> decimal \<times> pystr"

text \<open>
  The grouping key of a leg, or \<open>None\<close> when the loop skips the transaction.
  \<^verbatim>\<open>str(quantity)\<close> determines coefficient and exponent of the decimal and is
  determined by them, so the decimal itself stands for it.
\<close>

definition leg_key :: "transaction \<Rightarrow> leg_key option" where
  "leg_key t =
     (if transaction_type t \<noteq> TRANSFER then None
      else case txn_security_id t of None \<Rightarrow> None
      | Some sec \<Rightarrow>
          (case transfer_reference t of None \<Rightarrow> None
           | Some reference \<Rightarrow>
               (case txn_quantity t of None \<Rightarrow> None
                | Some q \<Rightarrow>
                    if dle (dabs q) D0 \<or> deq (amount t) D0 then None
                    else Some (sec, upper (txn_currency_code t), utc_day (occurred_at t),
                               dabs q, reference))))"

definition leg_groups :: "transaction list \<Rightarrow> (leg_key option \<times> transaction list) list" where
  "leg_groups ts = group_by leg_key (filter (\<lambda>t. leg_key t \<noteq> None) ts)"

definition outbound_legs :: "transaction list \<Rightarrow> transaction list" where
  "outbound_legs rows = sort_key txn_id (filter (\<lambda>r. dlt (amount r) D0) rows)"

definition inbound_legs :: "transaction list \<Rightarrow> transaction list" where
  "inbound_legs rows = sort_key txn_id (filter (\<lambda>r. dlt D0 (amount r)) rows)"

definition leg_pairs :: "transaction list \<Rightarrow> (transaction \<times> transaction) list" where
  "leg_pairs rows =
     filter (\<lambda>(s, d). txn_account_id s \<noteq> txn_account_id d)
       (zip (outbound_legs rows) (inbound_legs rows))"

text \<open>The symmetric dictionary of all pairs.\<close>

definition add_pair ::
  "(pystr \<rightharpoonup> transaction) \<Rightarrow> transaction \<times> transaction \<Rightarrow> (pystr \<rightharpoonup> transaction)" where
  "add_pair m p = (case p of (s, d) \<Rightarrow> m(txn_id s \<mapsto> d, txn_id d \<mapsto> s))"

definition pair_security_transfer_legs :: "transaction list \<Rightarrow> (pystr \<rightharpoonup> transaction)" where
  "pair_security_transfer_legs ts =
     foldl add_pair Map.empty (concat (map (\<lambda>(_, rows). leg_pairs rows) (leg_groups ts)))"

text \<open>The outcome of moving basis across a paired transfer.\<close>

datatype transfer_action =
    BasisSkipped
  | BasisAlreadyApplied
  | BasisGap (gap_requested: decimal) (gap_moved: decimal) (gap_unmatched: decimal)
      (gap_lots_created: nat)
  | BasisMoved (basis_moved: decimal) (basis_lots_created: nat)

text \<open>The allocation loop: lots with what is taken from each, and what remains to move.\<close>

fun allocate :: "tax_lot list \<Rightarrow> decimal \<Rightarrow> decimal \<Rightarrow> (tax_lot \<times> decimal) list \<times> decimal \<times> decimal" where
  "allocate [] remaining moved = ([], remaining, moved)"
| "allocate (lot # ls) remaining moved =
     (if dle remaining D0 then ([], remaining, moved)
      else let available = dmax D0 (remaining_quantity lot);
               moved_quantity = dmin available remaining
           in if dle moved_quantity D0 then allocate ls remaining moved
              else (case allocate ls (dsub remaining moved_quantity) (dadd moved moved_quantity) of
                      (rest, r, m) \<Rightarrow> ((lot, moved_quantity) # rest, r, m)))"

definition lot_after_move :: "transaction \<Rightarrow> tax_lot \<Rightarrow> decimal \<Rightarrow> tax_lot" where
  "lot_after_move t lot q =
     (let rem = dsub (remaining_quantity lot) q
      in lot\<lparr>remaining_quantity := rem,
             closed_at := (if deq rem D0 then Some (occurred_at t) else closed_at lot)\<rparr>)"

definition moved_lot :: "pystr \<Rightarrow> transaction \<Rightarrow> tax_lot \<Rightarrow> decimal \<Rightarrow> tax_lot" where
  "moved_lot tid dest lot q =
     \<lparr>lot_id = 0, lot_tenant_id = tid, lot_account_id = txn_account_id dest,
      lot_security_id = Some (str_of (txn_security_id dest)), purchase_transaction_id = None,
      sale_transaction_id = None, transfer_transaction_id = Some (txn_id dest),
      quantity = q, remaining_quantity = q,
      cost_basis_total = dmul q (cost_basis_per_unit lot),
      cost_basis_per_unit = cost_basis_per_unit lot,
      lot_currency_code = lot_currency_code lot, acquired_at = acquired_at lot,
      closed_at = None, realized_pl = None, realized_pl_currency = None,
      has_wash_sale_adjustment = False, disallowed_loss = None,
      cost_basis_method = cost_basis_method lot\<rparr>"

text \<open>
  One turn of the second loop: \<^verbatim>\<open>update\<close> flushes and refreshes the source lot, so
  the new lot is built from the refreshed attributes.
\<close>

definition move_one ::
  "(decimal \<Rightarrow> decimal) \<Rightarrow> pystr \<Rightarrow> transaction \<Rightarrow> transaction \<Rightarrow> tax_lot \<times> decimal \<Rightarrow> lot_store \<Rightarrow>
   lot_store" where
  "move_one db tid t dest p st =
     (case p of (lot, q) \<Rightarrow>
        (let lot' = db_lot db (lot_after_move t lot q)
         in snd (repo_add db (moved_lot tid dest lot' q) (repo_write lot' st))))"

fun move_all ::
  "(decimal \<Rightarrow> decimal) \<Rightarrow> pystr \<Rightarrow> transaction \<Rightarrow> transaction \<Rightarrow> (tax_lot \<times> decimal) list \<Rightarrow>
   lot_store \<Rightarrow> lot_store" where
  "move_all db tid t dest [] st = st"
| "move_all db tid t dest (p # ps) st = move_all db tid t dest ps (move_one db tid t dest p st)"

definition transfer_lots_to_destination ::
  "(decimal \<Rightarrow> decimal) \<Rightarrow> pystr \<Rightarrow> transaction \<Rightarrow> transaction \<Rightarrow> lot_store \<Rightarrow>
   transfer_action \<times> lot_store" where
  "transfer_lots_to_destination db tid t dest st =
     (let quantity = dabs (case txn_quantity t of None \<Rightarrow> D0 | Some q \<Rightarrow> q)
      in if dle quantity D0 \<or> dle D0 (amount t) then (BasisSkipped, st)
         else if find_lots_for_transfer tid (txn_id dest) st \<noteq> [] then (BasisAlreadyApplied, st)
         else (case allocate (find_open_lots tid (txn_account_id t) (str_of (txn_security_id t)) st)
                      quantity D0 of
                 (allocations, remaining, moved) \<Rightarrow>
                   if dlt D0 remaining
                   then (BasisGap quantity moved remaining (length allocations), st)
                   else (BasisMoved moved (length allocations),
                         move_all db tid t dest allocations st)))"

subsection \<open>Purchases\<close>

definition abs_quantity :: "transaction \<Rightarrow> decimal" where
  "abs_quantity t =
     (case txn_quantity t of None \<Rightarrow> D0 | Some q \<Rightarrow> if dcoeff q = 0 then D0 else dabs q)"

definition purchase_lot :: "pystr \<Rightarrow> transaction \<Rightarrow> tax_lot" where
  "purchase_lot tid t =
     (let q = abs_quantity t; total = dabs (amount t);
          per_unit = (if \<not> deq q D0 then ddiv total q else D0)
      in \<lparr>lot_id = 0, lot_tenant_id = tid, lot_account_id = txn_account_id t,
          lot_security_id = (if truthy (txn_security_id t) then txn_security_id t else None),
          purchase_transaction_id = Some (txn_id t), sale_transaction_id = None,
          transfer_transaction_id = None, quantity = q, remaining_quantity = q,
          cost_basis_total = total, cost_basis_per_unit = per_unit,
          lot_currency_code = txn_currency_code t, acquired_at = occurred_at t,
          closed_at = None, realized_pl = None, realized_pl_currency = None,
          has_wash_sale_adjustment = False, disallowed_loss = None, cost_basis_method = FIFO\<rparr>)"

definition create_tax_lots_for_purchase ::
  "(decimal \<Rightarrow> decimal) \<Rightarrow> pystr \<Rightarrow> transaction \<Rightarrow> lot_store \<Rightarrow> lot_error + (tax_lot \<times> lot_store)" where
  "create_tax_lots_for_purchase db tid t st =
     (if transaction_type t \<noteq> PURCHASE then Inl AssertionError
      else Inr (repo_add db (purchase_lot tid t) st))"

subsection \<open>Sales\<close>

record closure =
  closure_lot_id :: "nat option"
  quantity_sold :: decimal
  cost_basis_used :: decimal
  proceeds :: decimal
  closure_pl :: decimal
  unmatched_quantity :: "decimal option"

text \<open>The lot object after \<open>qty_sold\<close> units were taken from it.\<close>

definition lot_after_sale :: "transaction \<Rightarrow> decimal \<Rightarrow> decimal \<Rightarrow> tax_lot \<Rightarrow> tax_lot" where
  "lot_after_sale t qty_sold pl lot =
     (let rem = dsub (remaining_quantity lot) qty_sold
      in if deq rem D0
         then lot\<lparr>remaining_quantity := rem, closed_at := Some (occurred_at t),
                  sale_transaction_id := Some (txn_id t), realized_pl := Some pl,
                  realized_pl_currency := Some (txn_currency_code t)\<rparr>
         else lot\<lparr>remaining_quantity := rem\<rparr>)"

definition sale_closure :: "decimal \<Rightarrow> tax_lot \<Rightarrow> decimal \<Rightarrow> closure" where
  "sale_closure proceeds_per_unit lot qty_sold =
     (let cost_used = dmul qty_sold (cost_basis_per_unit lot);
          portion = dmul qty_sold proceeds_per_unit
      in \<lparr>closure_lot_id = Some (lot_id lot), quantity_sold = qty_sold,
          cost_basis_used = cost_used, proceeds = portion, closure_pl = dsub portion cost_used,
          unmatched_quantity = None\<rparr>)"

fun sale_loop ::
  "(decimal \<Rightarrow> decimal) \<Rightarrow> transaction \<Rightarrow> decimal \<Rightarrow> tax_lot list \<Rightarrow> decimal \<Rightarrow> lot_store \<Rightarrow>
   closure list \<times> decimal \<times> lot_store" where
  "sale_loop db t ppu [] remaining st = ([], remaining, st)"
| "sale_loop db t ppu (lot # ls) remaining st =
     (if dle remaining D0 then ([], remaining, st)
      else if dle (remaining_quantity lot) D0 then sale_loop db t ppu ls remaining st
      else let qty_sold = dmin (remaining_quantity lot) remaining;
               record = sale_closure ppu lot qty_sold;
               lot' = lot_after_sale t qty_sold (closure_pl record) lot;
               remaining' = dsub remaining qty_sold;
               st' = (if dlt D0 remaining' then repo_update db lot' st else repo_write lot' st)
           in (case sale_loop db t ppu ls remaining' st' of
                 (rest, r, s) \<Rightarrow> (record # rest, r, s)))"

definition unmatched_closure :: "decimal \<Rightarrow> decimal \<Rightarrow> closure" where
  "unmatched_closure sale_quantity remaining =
     \<lparr>closure_lot_id = None, quantity_sold = dsub sale_quantity remaining, cost_basis_used = D0,
      proceeds = D0, closure_pl = D0, unmatched_quantity = Some remaining\<rparr>"

definition sale_lots :: "basis_method \<Rightarrow> pystr \<Rightarrow> transaction \<Rightarrow> pystr \<Rightarrow> lot_store \<Rightarrow> tax_lot list" where
  "sale_lots method tid t sec st =
     (let open_lots = find_open_lots tid (txn_account_id t) sec st
      in if method = LIFO then rev open_lots else open_lots)"

definition match_sale_to_lots ::
  "(decimal \<Rightarrow> decimal) \<Rightarrow> basis_method \<Rightarrow> pystr \<Rightarrow> transaction \<Rightarrow> lot_store \<Rightarrow>
   lot_error + (closure list \<times> lot_store)" where
  "match_sale_to_lots db method tid t st =
     (if transaction_type t \<noteq> SALE then Inl AssertionError
      else let sale_quantity = abs_quantity t
           in if dle sale_quantity D0 then Inr ([], st)
              else if \<not> truthy (txn_security_id t) then Inr ([], st)
              else let ppu = ddiv (dabs (amount t)) sale_quantity
                   in case sale_loop db t ppu (sale_lots method tid t (the (txn_security_id t)) st)
                             sale_quantity st of
                        (records, remaining, st') \<Rightarrow>
                          Inr (if dlt D0 remaining
                               then records @ [unmatched_closure sale_quantity remaining]
                               else records, st'))"

subsection \<open>Valuation\<close>

record valuation =
  val_lot_id :: nat
  val_remaining_quantity :: decimal
  cost_basis_remaining :: decimal
  current_value :: decimal
  unrealized_pl :: decimal
  unrealized_pl_pct :: "decimal option"
  val_currency_code :: pystr

definition value_lot :: "decimal \<Rightarrow> pystr option \<Rightarrow> tax_lot \<Rightarrow> valuation" where
  "value_lot price cur lot =
     (let value = dmul (remaining_quantity lot) price;
          cost = dmul (remaining_quantity lot) (cost_basis_per_unit lot);
          pl = dsub value cost
      in \<lparr>val_lot_id = lot_id lot, val_remaining_quantity = remaining_quantity lot,
          cost_basis_remaining = cost, current_value = value, unrealized_pl = pl,
          unrealized_pl_pct =
            (if \<not> deq cost D0 then Some (dmul (ddiv pl cost) (Dec 100 0)) else None),
          val_currency_code = (if truthy cur then the cur else lot_currency_code lot)\<rparr>)"

definition compute_unrealized_pl ::
  "tax_lot list \<Rightarrow> decimal \<Rightarrow> pystr option \<Rightarrow> valuation list" where
  "compute_unrealized_pl ls price cur =
     map (value_lot price cur) (filter (\<lambda>l. is_open l \<and> dlt D0 (remaining_quantity l)) ls)"

subsection \<open>Splits and other quantity events\<close>

datatype quantity_action =
    EventSkippedInvalid
  | EventSkippedNoRatio pystr
  | EventApplied (applied_event: pystr) (applied_ratio: ratio) (lots_adjusted: nat)

definition scaled_lot :: "decimal \<Rightarrow> tax_lot \<Rightarrow> tax_lot" where
  "scaled_lot ratio lot =
     lot\<lparr>quantity := dmul (quantity lot) ratio,
         remaining_quantity := dmul (remaining_quantity lot) ratio,
         cost_basis_per_unit := ddiv (cost_basis_per_unit lot) ratio\<rparr>"

fun scale_all :: "(decimal \<Rightarrow> decimal) \<Rightarrow> decimal \<Rightarrow> tax_lot list \<Rightarrow> lot_store \<Rightarrow> lot_store" where
  "scale_all db ratio [] st = st"
| "scale_all db ratio (lot # ls) st = scale_all db ratio ls (repo_update db (scaled_lot ratio lot) st)"

definition apply_quantity_event_to_lots ::
  "(decimal \<Rightarrow> decimal) \<Rightarrow> pystr \<Rightarrow> transaction \<Rightarrow> decimal \<Rightarrow> lot_store \<Rightarrow>
   quantity_action \<times> lot_store" where
  "apply_quantity_event_to_lots db tid t ratio st =
     (if dle ratio D0 \<or> \<not> truthy (txn_security_id t) then (EventSkippedInvalid, st)
      else let open_lots = find_open_lots tid (txn_account_id t) (the (txn_security_id t)) st
           in (EventApplied (txn_id t) (Ratio ratio) (length open_lots),
               scale_all db ratio open_lots st))"

text \<open>
  An infinite ratio: the first flush of an infinite \<^verbatim>\<open>Numeric(24, 8)\<close> is refused by
  the database; without open lots nothing is written.
\<close>

definition apply_infinite_event ::
  "pystr \<Rightarrow> transaction \<Rightarrow> lot_store \<Rightarrow> lot_error + (quantity_action \<times> lot_store)" where
  "apply_infinite_event tid t st =
     (if \<not> truthy (txn_security_id t) then Inr (EventSkippedInvalid, st)
      else if find_open_lots tid (txn_account_id t) (the (txn_security_id t)) st = []
      then Inr (EventApplied (txn_id t) InfiniteRatio 0, st)
      else Inl DataError)"

subsection \<open>Wash sales\<close>

record wash_adjustment =
  replacement_lot_id :: nat
  wash_disallowed_loss :: decimal
  remaining_loss_carried_forward :: decimal

definition wash_adjusted_lot :: "decimal \<Rightarrow> tax_lot \<Rightarrow> tax_lot" where
  "wash_adjusted_lot disallowed lot =
     (let total = dadd (cost_basis_total lot) disallowed
      in lot\<lparr>cost_basis_total := total,
             cost_basis_per_unit := (if dlt D0 (quantity lot) then ddiv total (quantity lot) else D0),
             has_wash_sale_adjustment := True,
             disallowed_loss := Some disallowed\<rparr>)"

fun wash_loop ::
  "tax_lot list \<Rightarrow> decimal \<Rightarrow> lot_store \<Rightarrow> wash_adjustment list \<times> decimal \<times> lot_store" where
  "wash_loop [] loss st = ([], loss, st)"
| "wash_loop (lot # ls) loss st =
     (if dle loss D0 then ([], loss, st)
      else let disallowed = dmin loss (cost_basis_total lot);
               loss' = dsub loss disallowed;
               record = \<lparr>replacement_lot_id = lot_id lot, wash_disallowed_loss = disallowed,
                         remaining_loss_carried_forward = loss'\<rparr>
           in (case wash_loop ls loss' (repo_write (wash_adjusted_lot disallowed lot) st) of
                 (rest, r, s) \<Rightarrow> (record # rest, r, s)))"

text \<open>The realised losses of the lots that this sale closed.\<close>

definition sale_losses :: "tax_lot list \<Rightarrow> decimal" where
  "sale_losses ls =
     foldl (\<lambda>acc l. case realized_pl l of
                      Some pl \<Rightarrow> if dlt pl D0 then dadd acc (dabs pl) else acc
                    | None \<Rightarrow> acc) D0 ls"

definition replacement_lots :: "int \<Rightarrow> pystr \<Rightarrow> transaction \<Rightarrow> pystr \<Rightarrow> lot_store \<Rightarrow> tax_lot list" where
  "replacement_lots lookback tid t sec st =
     filter (\<lambda>l. is_open l \<and> purchase_transaction_id l \<noteq> Some (txn_id t))
       (sort_key acquired_at
          (repo_list (\<lambda>l. lot_tenant_id l = tid \<and> lot_account_id l = txn_account_id t \<and>
                          lot_security_id l = Some sec \<and>
                          occurred_at t - days lookback \<le> acquired_at l \<and>
                          acquired_at l \<le> occurred_at t + days lookback) st))"

definition detect_and_adjust_wash_sales ::
  "int \<Rightarrow> pystr \<Rightarrow> transaction \<Rightarrow> lot_store \<Rightarrow> wash_adjustment list \<times> lot_store" where
  "detect_and_adjust_wash_sales lookback tid t st =
     (if transaction_type t \<noteq> SALE then ([], st)
      else if dle (abs_quantity t) D0 then ([], st)
      else if \<not> truthy (txn_security_id t) then ([], st)
      else let total_loss = sale_losses (find_lots_for_transaction tid (txn_id t) st)
           in if dle total_loss D0 then ([], st)
              else (case wash_loop (replacement_lots lookback tid t (the (txn_security_id t)) st)
                           total_loss st of
                      (records, _, st') \<Rightarrow> (records, st')))"

subsection \<open>One transaction\<close>

datatype action =
    LotCreated (created_lot: nat) (created_quantity: decimal)
  | LotsMatched (lots_closed: nat) (total_quantity_matched: decimal) (total_realized_pl: decimal)
  | WashSaleAdjustment "wash_adjustment list"
  | TransferAction transfer_action
  | QuantityAction quantity_action

definition process_sale ::
  "(decimal \<Rightarrow> decimal) \<Rightarrow> basis_method \<Rightarrow> pystr \<Rightarrow> transaction \<Rightarrow> lot_store \<Rightarrow>
   lot_error + (action list \<times> lot_store)" where
  "process_sale db method tid t st =
     (case match_sale_to_lots db method tid t st of
        Inl e \<Rightarrow> Inl e
      | Inr (closures, st1) \<Rightarrow>
          (let matched = dsum (map quantity_sold closures);
               pl = dsum (map closure_pl closures);
               (wash, st2) = detect_and_adjust_wash_sales wash_sale_lookback_days tid t st1
           in Inr (LotsMatched (length closures) matched pl #
                     (if wash \<noteq> [] then [WashSaleAdjustment wash] else []), st2)))"

definition process_quantity_event ::
  "(decimal \<Rightarrow> decimal) \<Rightarrow> pystr \<Rightarrow> transaction \<Rightarrow> lot_store \<Rightarrow> lot_error + (action list \<times> lot_store)" where
  "process_quantity_event db tid t st =
     (case quantity_event_ratio (provider_metadata_contract t) of
        NoRatio \<Rightarrow> Inr ([QuantityAction (EventSkippedNoRatio (txn_id t))], st)
      | InfiniteRatio \<Rightarrow>
          (case apply_infinite_event tid t st of Inl e \<Rightarrow> Inl e
           | Inr (a, st') \<Rightarrow> Inr ([QuantityAction a], st'))
      | Ratio ratio \<Rightarrow>
          (case apply_quantity_event_to_lots db tid t ratio st of
             (a, st') \<Rightarrow> Inr ([QuantityAction a], st')))"

definition process_transaction ::
  "(decimal \<Rightarrow> decimal) \<Rightarrow> basis_method \<Rightarrow> pystr \<Rightarrow> transaction option \<Rightarrow> transaction \<Rightarrow> lot_store \<Rightarrow>
   lot_error + (action list \<times> lot_store)" where
  "process_transaction db method tid paired t st =
     (if transaction_type t = PURCHASE \<and> truthy (txn_security_id t)
      then (case create_tax_lots_for_purchase db tid t st of
              Inl e \<Rightarrow> Inl e
            | Inr (lot, st') \<Rightarrow> Inr ([LotCreated (lot_id lot) (quantity lot)], st'))
      else if transaction_type t = SALE \<and> truthy (txn_security_id t)
      then process_sale db method tid t st
      else if transaction_type t = TRANSFER \<and> truthy (txn_security_id t) \<and> paired \<noteq> None
      then (case transfer_lots_to_destination db tid t (the paired) st of
              (a, st') \<Rightarrow> Inr ([TransferAction a], st'))
      else if transaction_type t \<in> {SPLIT, ADJUSTMENT, CORPORATE_ACTION}
      then process_quantity_event db tid t st
      else Inr ([], st))"

subsection \<open>The full reconstruction\<close>

record lot_stats =
  transactions_processed :: nat
  lots_created :: nat
  stat_lots_closed :: nat
  wash_sale_adjustments :: nat
  quantity_events_processed :: nat
  quantity_lots_adjusted :: nat
  quantity_events_skipped :: nat
  transfer_events_processed :: nat
  transfer_lots_moved :: nat
  transfer_basis_gaps :: nat
  transfer_events_skipped :: nat
  stat_realized_pl :: decimal

definition zero_stats :: lot_stats where
  "zero_stats =
     \<lparr>transactions_processed = 0, lots_created = 0, stat_lots_closed = 0,
      wash_sale_adjustments = 0, quantity_events_processed = 0, quantity_lots_adjusted = 0,
      quantity_events_skipped = 0, transfer_events_processed = 0, transfer_lots_moved = 0,
      transfer_basis_gaps = 0, transfer_events_skipped = 0, stat_realized_pl = D0\<rparr>"

fun count_action :: "lot_stats \<Rightarrow> action \<Rightarrow> lot_stats" where
  "count_action s (LotCreated _ _) = s\<lparr>lots_created := lots_created s + 1\<rparr>"
| "count_action s (LotsMatched n _ pl) =
     s\<lparr>stat_lots_closed := stat_lots_closed s + n,
       stat_realized_pl := dadd (stat_realized_pl s) pl\<rparr>"
| "count_action s (WashSaleAdjustment _) =
     s\<lparr>wash_sale_adjustments := wash_sale_adjustments s + 1\<rparr>"
| "count_action s (QuantityAction (EventApplied _ _ n)) =
     s\<lparr>quantity_events_processed := quantity_events_processed s + 1,
       quantity_lots_adjusted := quantity_lots_adjusted s + n\<rparr>"
| "count_action s (QuantityAction _) =
     s\<lparr>quantity_events_skipped := quantity_events_skipped s + 1\<rparr>"
| "count_action s (TransferAction (BasisMoved _ n)) =
     s\<lparr>transfer_events_processed := transfer_events_processed s + 1,
       transfer_lots_moved := transfer_lots_moved s + n\<rparr>"
| "count_action s (TransferAction (BasisGap _ _ _ _)) =
     s\<lparr>transfer_events_processed := transfer_events_processed s + 1,
       transfer_basis_gaps := transfer_basis_gaps s + 1\<rparr>"
| "count_action s (TransferAction _) =
     s\<lparr>transfer_events_skipped := transfer_events_skipped s + 1\<rparr>"

text \<open>The select statement: the tenant's lot-relevant transactions, oldest first.\<close>

definition lot_transactions :: "pystr \<Rightarrow> transaction list \<Rightarrow> transaction list" where
  "lot_transactions tid ts =
     sort_key (\<lambda>t. (occurred_at t, txn_id t))
       (filter (\<lambda>t. txn_tenant_id t = tid \<and>
                    transaction_type t \<in> {PURCHASE, SALE, SPLIT, ADJUSTMENT, CORPORATE_ACTION,
                                           TRANSFER} \<and>
                    txn_security_id t \<noteq> None) ts)"

fun process_all ::
  "(decimal \<Rightarrow> decimal) \<Rightarrow> basis_method \<Rightarrow> pystr \<Rightarrow> (pystr \<rightharpoonup> transaction) \<Rightarrow> transaction list \<Rightarrow>
   lot_stats \<Rightarrow> lot_store \<Rightarrow> lot_error + (lot_stats \<times> lot_store)" where
  "process_all db method tid pairs [] stats st = Inr (stats, st)"
| "process_all db method tid pairs (t # ts) stats st =
     (case process_transaction db method tid (pairs (txn_id t)) t st of
        Inl e \<Rightarrow> Inl e
      | Inr (actions, st') \<Rightarrow>
          process_all db method tid pairs ts
            (foldl count_action
               (stats\<lparr>transactions_processed := transactions_processed stats + 1\<rparr>) actions) st')"

definition compute_all_tax_lots ::
  "(decimal \<Rightarrow> decimal) \<Rightarrow> basis_method \<Rightarrow> pystr \<Rightarrow> transaction list \<Rightarrow> lot_store \<Rightarrow>
   lot_error + (lot_stats \<times> lot_store)" where
  "compute_all_tax_lots db method tid table st =
     (let ts = lot_transactions tid table
      in process_all db method tid (pair_security_transfer_legs ts) ts zero_stats
           (snd (delete_for_tenant tid st)))"

subsection \<open>Summary\<close>

record lot_summary =
  total_lots :: nat
  open_lot_count :: nat
  closed_lot_count :: nat
  open_cost_basis :: decimal
  summary_realized_pl :: decimal
  wash_sale_adjusted_lots :: nat

definition get_tax_lot_summary ::
  "pystr \<Rightarrow> pystr option \<Rightarrow> pystr option \<Rightarrow> bool \<Rightarrow> (pystr \<Rightarrow> bool) option \<Rightarrow> lot_store \<Rightarrow> lot_summary" where
  "get_tax_lot_summary tid acc sec include_closed visible st =
     (let ls = repo_list (\<lambda>l. lot_tenant_id l = tid \<and>
                   (case visible of None \<Rightarrow> True | Some p \<Rightarrow> p (lot_account_id l)) \<and>
                   (truthy acc \<longrightarrow> Some (lot_account_id l) = acc) \<and>
                   (truthy sec \<longrightarrow> lot_security_id l = sec)) st;
          open_ls = filter is_open ls;
          closed_ls = (if include_closed then filter (\<lambda>l. \<not> is_open l) ls else [])
      in \<lparr>total_lots = length ls, open_lot_count = length open_ls,
          closed_lot_count = length closed_ls,
          open_cost_basis =
            dsum (map (\<lambda>l. dmul (remaining_quantity l) (cost_basis_per_unit l)) open_ls),
          summary_realized_pl =
            dsum (map (\<lambda>l. case realized_pl l of None \<Rightarrow> D0 | Some pl \<Rightarrow> pl) closed_ls),
          wash_sale_adjusted_lots = length (filter has_wash_sale_adjustment ls)\<rparr>)"

end
