(* ===== verification/Tax_Lot_Props.thy ===== *)
theory Tax_Lot_Props
  imports Tax_Lot_Service
begin

text \<open>
  Correctness of the tax-lot engine. Amounts are fixed-point decimals with eight places, as
  the \<^verbatim>\<open>Numeric(24, 8)\<close> columns hold them; \<open>db_ok\<close> states what the database
  promises about such a column, and on it the engine's additions and subtractions are exact.
\<close>

definition column_value :: "decimal \<Rightarrow> bool" where
  "column_value d \<longleftrightarrow> on_grid 8 d \<and> \<bar>dval d\<bar> < 10 ^ 16"

definition qty_ok :: "decimal \<Rightarrow> bool" where
  "qty_ok d \<longleftrightarrow> column_value d \<and> 0 \<le> dval d"

text \<open>
  A stored value fits the column; storing keeps signs, and keeps values that fit. The contract says
  nothing about what becomes of a value beyond the 24 digits: PostgreSQL refuses the statement then and
  the run ends with its error, which the model leaves out.
\<close>

definition db_ok :: "(decimal \<Rightarrow> decimal) \<Rightarrow> bool" where
  "db_ok db \<longleftrightarrow> (\<forall>d. column_value (db d) \<and> (0 \<le> dval d \<longrightarrow> 0 \<le> dval (db d)) \<and>
                      (column_value d \<longrightarrow> dval (db d) = dval d))"

lemma db_okD:
  assumes "db_ok db"
  shows "column_value (db d)" and "0 \<le> dval d \<Longrightarrow> qty_ok (db d)"
    and "column_value d \<Longrightarrow> dval (db d) = dval d"
  using assms by (auto simp: db_ok_def qty_ok_def)

text \<open>
  A column that keeps these promises: round half away from zero to eight places, as PostgreSQL
  does. It saturates beyond 24 digits, where PostgreSQL would refuse the statement; the witnesses
  stay below that.
\<close>

definition half_away :: "int \<Rightarrow> int \<Rightarrow> int" where
  "half_away c m = sgn c * ((2 * \<bar>c\<bar> + m) div (2 * m))"

definition numeric_24_8 :: "decimal \<Rightarrow> decimal" where
  "numeric_24_8 d =
     (let n = (if - 8 \<le> dexp d then dscale (- 8) d else half_away (dcoeff d) (10 ^ nat (- 8 - dexp d)))
      in Dec (max (1 - 10 ^ 24) (min (10 ^ 24 - 1) n)) (- 8))"

lemma dval_eighths: "dval (Dec n (- 8)) = of_int n / 10 ^ 8"
  by (simp add: dval_def power_int_minus field_simps)

lemma numeric_24_8_fits: "column_value (numeric_24_8 d)"
proof -
  obtain n where n: "numeric_24_8 d = Dec n (- 8)" "\<bar>n\<bar> < 10 ^ 24"
    by (simp add: numeric_24_8_def Let_def)
  have "\<bar>of_int n :: rat\<bar> < 10 ^ 24"
    using n(2) by (metis of_int_abs of_int_less_iff of_int_numeral of_int_power)
  then show ?thesis
    by (simp add: n(1) column_value_def on_grid_def dval_eighths)
qed

lemma numeric_24_8_exact:
  assumes "column_value d"
  shows "dval (numeric_24_8 d) = dval d"
proof -
  have e: "- 8 \<le> dexp d" and v: "\<bar>dval d\<bar> < 10 ^ 16"
    using assms by (simp_all add: column_value_def on_grid_def)
  have eq: "dval d = of_int (dscale (- 8) d) / 10 ^ 8"
    using dscale_val [OF e] by (simp add: power_int_minus field_simps)
  then have "\<bar>of_int (dscale (- 8) d) :: rat\<bar> < 10 ^ 24"
    using v by simp
  then have "\<bar>dscale (- 8) d\<bar> < 10 ^ 24"
    by (metis of_int_abs of_int_less_iff of_int_numeral of_int_power)
  then have "numeric_24_8 d = Dec (dscale (- 8) d) (- 8)"
    using e by (simp add: numeric_24_8_def Let_def)
  then show ?thesis
    by (simp add: dval_eighths eq)
qed

lemma numeric_24_8_ok: "db_ok numeric_24_8"
  unfolding db_ok_def
proof (intro allI conjI impI)
  fix d
  show "column_value (numeric_24_8 d)"
    by (rule numeric_24_8_fits)
  show "0 \<le> dval (numeric_24_8 d)" if "0 \<le> dval d"
    using that by (simp add: dval_nonneg_iff numeric_24_8_def Let_def half_away_def dscale_def
        sgn_if pos_imp_zdiv_nonneg_iff le_max_iff_disj)
  show "dval (numeric_24_8 d) = dval d" if "column_value d"
    using that by (rule numeric_24_8_exact)
qed

lemma qty_ok_zero [simp]: "qty_ok D0"
  by (simp add: qty_ok_def column_value_def)

lemma qty_ok_le_zero: "qty_ok d \<Longrightarrow> dval d \<le> 0 \<longleftrightarrow> dval d = 0"
  by (auto simp: qty_ok_def)

lemma qty_dsub:
  assumes "qty_ok a" and "qty_ok b" and "dval b \<le> dval a"
  shows "qty_ok (dsub a b)" and "dval (dsub a b) = dval a - dval b"
proof -
  have "\<bar>dval a - dval b\<bar> * 10 ^ 8 < 10 ^ prec"
    using assms by (auto simp: qty_ok_def column_value_def prec_def)
  then have e: "dval (dsub a b) = dval a - dval b" "on_grid 8 (dsub a b)"
    using assms dsub_exact [of 8 a b] by (auto simp: qty_ok_def column_value_def)
  then show "dval (dsub a b) = dval a - dval b"
    by simp
  show "qty_ok (dsub a b)"
    using e assms by (auto simp: qty_ok_def column_value_def)
qed

lemma qty_dmin: "qty_ok a \<Longrightarrow> qty_ok b \<Longrightarrow> qty_ok (dmin a b)"
  by (auto simp: dmin_def)

lemma qty_dabs:
  assumes "column_value a"
  shows "qty_ok (dabs a)" and "dval (dabs a) = \<bar>dval a\<bar>"
proof -
  have "\<bar>dval a\<bar> * 10 ^ 8 < 10 ^ prec"
    using assms by (auto simp: column_value_def prec_def)
  then have e: "dval (dabs a) = \<bar>dval a\<bar>" "on_grid 8 (dabs a)"
    using assms dabs_exact [of 8 a] by (auto simp: column_value_def)
  then show "dval (dabs a) = \<bar>dval a\<bar>"
    by simp
  show "qty_ok (dabs a)"
    using e assms by (auto simp: qty_ok_def column_value_def)
qed

text \<open>A transaction whose amounts fit their columns.\<close>

definition txn_ok :: "transaction \<Rightarrow> bool" where
  "txn_ok t \<longleftrightarrow> (case txn_quantity t of None \<Rightarrow> True | Some q \<Rightarrow> column_value q)"

text \<open>A sale of a security.\<close>

definition sale_of :: "transaction \<Rightarrow> pystr \<Rightarrow> bool" where
  "sale_of t sec \<longleftrightarrow> txn_ok t \<and> transaction_type t = SALE \<and> txn_security_id t = Some sec \<and> sec \<noteq> []"

lemma qty_abs_quantity: "txn_ok t \<Longrightarrow> qty_ok (abs_quantity t)"
  by (auto simp: txn_ok_def abs_quantity_def qty_dabs split: option.splits)

subsection \<open>The store\<close>

definition lot_of :: "lot_store \<Rightarrow> nat \<Rightarrow> tax_lot option" where
  "lot_of st i = find (\<lambda>l. lot_id l = i) (lots st)"

definition store_ids :: "lot_store \<Rightarrow> nat set" where
  "store_ids st = lot_id ` set (lots st)"

lemma find_put_row:
  "find (\<lambda>l. lot_id l = i) (put_row lot_id l rs) =
     (if i = lot_id l \<and> i \<in> lot_id ` set rs then Some l else find (\<lambda>l. lot_id l = i) rs)"
  by (induction rs) (auto simp: put_row_Cons)

lemma lot_of_write [table_simps]:
  "lot_of (repo_write l st) i =
     (if i = lot_id l \<and> i \<in> store_ids st then Some l else lot_of st i)"
  by (auto simp: lot_of_def repo_write_def store_ids_def find_put_row)

lemma store_ids_write [table_simps]: "store_ids (repo_write l st) = store_ids st"
proof -
  have "set (map lot_id (lots (repo_write l st))) = set (map lot_id (lots st))"
    by (simp add: repo_write_def keys_put_row)
  then show ?thesis
    by (simp add: store_ids_def)
qed

lemma lot_id_db_lot [simp]: "lot_id (db_lot db l) = lot_id l"
  by (simp add: db_lot_def)

lemma lot_id_after_sale [simp]: "lot_id (lot_after_sale t q pl l) = lot_id l"
  by (simp add: lot_after_sale_def Let_def)

lemma remaining_after_sale [simp]:
  "remaining_quantity (lot_after_sale t q pl l) = dsub (remaining_quantity l) q"
  by (simp add: lot_after_sale_def Let_def)

lemma remaining_db_lot [simp]: "remaining_quantity (db_lot db l) = db (remaining_quantity l)"
  by (simp add: db_lot_def)

lemma lot_of_self:
  assumes "distinct (map lot_id (lots st))" and "l \<in> set (lots st)"
  shows "lot_of st (lot_id l) = Some l"
proof -
  have "find (\<lambda>x. lot_id x = lot_id l) rs = Some l"
    if "distinct (map lot_id rs)" and "l \<in> set rs" for rs
    using that by (induction rs) auto
  with assms show ?thesis
    by (simp add: lot_of_def)
qed

subsection \<open>Sales\<close>

text \<open>What a sale should do to the quantities of the lots, in the order of matching.\<close>

fun consume :: "rat list \<Rightarrow> rat \<Rightarrow> rat list" where
  "consume [] q = []"
| "consume (a # as) q = (a - min a q) # consume as (q - min a q)"

lemma consume_sum:
  "\<forall>a \<in> set as. 0 \<le> a \<Longrightarrow> 0 \<le> q \<Longrightarrow> sum_list (consume as q) = sum_list as - min q (sum_list as)"
proof (induction as arbitrary: q)
  case (Cons a as)
  have "0 \<le> sum_list as"
    using Cons.prems(1) by (simp add: sum_list_nonneg)
  with Cons show ?case
    by (auto simp: min_def)
qed simp

lemma consume_zero: "\<forall>a \<in> set as. 0 \<le> a \<Longrightarrow> consume as 0 = as"
  by (induction as) auto

text \<open>Lots are used up in order: what follows a lot that is not used up is untouched.\<close>

lemma consume_in_order:
  "\<forall>a \<in> set as. 0 \<le> a \<Longrightarrow> 0 \<le> q \<Longrightarrow> i < j \<Longrightarrow> j < length as \<Longrightarrow>
   consume as q ! j = as ! j \<or> consume as q ! i = 0"
proof (induction as arbitrary: q i j)
  case (Cons a as)
  obtain j' where j: "j = Suc j'"
    using Cons.prems(3) by (cases j) auto
  show ?case
  proof (cases i)
    case 0
    show ?thesis
    proof (cases "a \<le> q")
      case True
      with 0 show ?thesis by simp
    next
      case False
      with Cons.prems(1) show ?thesis
        by (simp add: j consume_zero)
    qed
  next
    case (Suc i')
    with Cons.IH [of "q - min a q" i' j'] Cons.prems j show ?thesis
      by (auto simp: min_def)
  qed
qed simp

text \<open>The lot object that the loop leaves behind when it takes units from \<open>lot\<close>.\<close>

definition sold_lot ::
  "(decimal \<Rightarrow> decimal) \<Rightarrow> transaction \<Rightarrow> decimal \<Rightarrow> decimal \<Rightarrow> tax_lot \<Rightarrow> tax_lot" where
  "sold_lot db t ppu remaining lot =
     (let q = dmin (remaining_quantity lot) remaining;
          l = lot_after_sale t q (closure_pl (sale_closure ppu lot q)) lot
      in if dlt D0 (dsub remaining q) then db_lot db l else l)"

lemma sale_loop_take:
  assumes "0 < dval remaining" and "0 < dval (remaining_quantity lot)"
    and "sale_loop db t ppu (lot # ls) remaining st = (recs, r, st')"
  obtains rest
    where "recs = sale_closure ppu lot (dmin (remaining_quantity lot) remaining) # rest"
      and "sale_loop db t ppu ls (dsub remaining (dmin (remaining_quantity lot) remaining))
             (repo_write (sold_lot db t ppu remaining lot) st) = (rest, r, st')"
  using assms by (auto simp: Let_def sold_lot_def repo_update_def split: prod.splits if_splits)

lemma sold_lot_id [simp]: "lot_id (sold_lot db t ppu remaining lot) = lot_id lot"
  by (simp add: sold_lot_def Let_def)

lemma sold_lot_remaining:
  assumes "db_ok db" and "qty_ok (remaining_quantity lot)" and "qty_ok remaining"
  shows "qty_ok (remaining_quantity (sold_lot db t ppu remaining lot))"
    and "dval (remaining_quantity (sold_lot db t ppu remaining lot)) =
           dval (remaining_quantity lot) - min (dval (remaining_quantity lot)) (dval remaining)"
proof -
  let ?q = "dmin (remaining_quantity lot) remaining"
  have q: "qty_ok ?q" "dval ?q = min (dval (remaining_quantity lot)) (dval remaining)"
    using assms by (auto simp: qty_dmin dval_dmin)
  then have "qty_ok (dsub (remaining_quantity lot) ?q)"
      and "dval (dsub (remaining_quantity lot) ?q) = dval (remaining_quantity lot) - dval ?q"
    using qty_dsub [of "remaining_quantity lot" ?q] assms(2) by simp_all
  then show "qty_ok (remaining_quantity (sold_lot db t ppu remaining lot))"
    and "dval (remaining_quantity (sold_lot db t ppu remaining lot)) =
           dval (remaining_quantity lot) - min (dval (remaining_quantity lot)) (dval remaining)"
    using db_okD [OF assms(1)] q by (simp_all add: sold_lot_def Let_def qty_ok_def)
qed

lemma sale_loop_quantities:
  assumes db: "db_ok db"
  shows "qty_ok remaining \<Longrightarrow> \<forall>l \<in> set ls. qty_ok (remaining_quantity l) \<Longrightarrow>
    sale_loop db t ppu ls remaining st = (recs, r, st') \<Longrightarrow>
    qty_ok r \<and> (\<Sum>c\<leftarrow>recs. dval (quantity_sold c)) = dval remaining - dval r \<and>
    dval r = dval remaining - min (dval remaining) (\<Sum>l\<leftarrow>ls. dval (remaining_quantity l)) \<and>
    (\<forall>c \<in> set recs. qty_ok (quantity_sold c))"
proof (induction ls arbitrary: remaining st recs r st')
  case Nil
  then show ?case by (auto simp: qty_ok_def min_def)
next
  case (Cons lot ls)
  have tail: "0 \<le> (\<Sum>l\<leftarrow>ls. dval (remaining_quantity l))"
    using Cons.prems(2) by (intro sum_list_nonneg_rat) (auto simp: qty_ok_def)
  consider (stop) "dval remaining \<le> 0" | (skip) "0 < dval remaining" "dval (remaining_quantity lot) \<le> 0"
    | (take) "0 < dval remaining" "0 < dval (remaining_quantity lot)"
    by linarith
  then show ?case
  proof cases
    case stop
    then have "recs = []" "r = remaining" "dval remaining = 0"
      using Cons.prems qty_ok_le_zero by simp_all
    moreover have "0 \<le> dval (remaining_quantity lot)"
      using Cons.prems(2) by (simp add: qty_ok_def)
    ultimately show ?thesis
      using Cons.prems(1) tail by simp
  next
    case skip
    then have z: "dval (remaining_quantity lot) = 0"
      using Cons.prems(2) qty_ok_le_zero by simp
    have "sale_loop db t ppu ls remaining st = (recs, r, st')"
      using skip Cons.prems(3) by simp
    from Cons.IH [OF Cons.prems(1) _ this] Cons.prems(2) show ?thesis
      by (simp add: z)
  next
    case take
    let ?q = "dmin (remaining_quantity lot) remaining"
    have q: "qty_ok ?q" "dval ?q = min (dval (remaining_quantity lot)) (dval remaining)"
      using Cons.prems by (auto simp: qty_dmin dval_dmin)
    have r': "qty_ok (dsub remaining ?q)" "dval (dsub remaining ?q) = dval remaining - dval ?q"
      using qty_dsub [of remaining ?q] Cons.prems(1) q by simp_all
    obtain rest where eq: "recs = sale_closure ppu lot ?q # rest"
      and loop: "sale_loop db t ppu ls (dsub remaining ?q)
                   (repo_write (sold_lot db t ppu remaining lot) st) = (rest, r, st')"
      using sale_loop_take [OF take Cons.prems(3)] .
    have "qty_ok r \<and> (\<Sum>c\<leftarrow>rest. dval (quantity_sold c)) = dval (dsub remaining ?q) - dval r \<and>
      dval r = dval (dsub remaining ?q) -
        min (dval (dsub remaining ?q)) (\<Sum>l\<leftarrow>ls. dval (remaining_quantity l)) \<and>
      (\<forall>c \<in> set rest. qty_ok (quantity_sold c))"
      using Cons.IH [OF r'(1) _ loop] Cons.prems(2) by simp
    then show ?thesis
      using q r'(2) take tail unfolding eq
      by (auto simp: sale_closure_def Let_def min_def)
  qed
qed

lemma lot_of_Some_id: "lot_of st i = Some l \<Longrightarrow> lot_id l = i \<and> i \<in> store_ids st"
  by (auto simp: lot_of_def store_ids_def find_Some_iff)

definition lot_value :: "lot_store \<Rightarrow> nat \<Rightarrow> rat option" where
  "lot_value st i = map_option (\<lambda>l. dval (remaining_quantity l)) (lot_of st i)"

lemma sale_loop_lots:
  assumes db: "db_ok db"
  shows "qty_ok remaining \<Longrightarrow> \<forall>l \<in> set ls. qty_ok (remaining_quantity l) \<and> lot_of st (lot_id l) = Some l \<Longrightarrow>
    distinct (map lot_id ls) \<Longrightarrow> sale_loop db t ppu ls remaining st = (recs, r, st') \<Longrightarrow>
    map (\<lambda>l. lot_value st' (lot_id l)) ls =
      map Some (consume (map (\<lambda>l. dval (remaining_quantity l)) ls) (dval remaining)) \<and>
    (\<forall>i. i \<notin> lot_id ` set ls \<longrightarrow> lot_of st' i = lot_of st i)"
proof (induction ls arbitrary: remaining st recs r st')
  case Nil
  then show ?case by simp
next
  case (Cons lot ls)
  have pos: "\<forall>l \<in> set (lot # ls). 0 \<le> dval (remaining_quantity l)"
    using Cons.prems(2) by (auto simp: qty_ok_def)
  consider (stop) "dval remaining \<le> 0" | (skip) "0 < dval remaining" "dval (remaining_quantity lot) \<le> 0"
    | (take) "0 < dval remaining" "0 < dval (remaining_quantity lot)"
    by linarith
  then show ?case
  proof cases
    case stop
    then have "st' = st" "dval remaining = 0"
      using Cons.prems qty_ok_le_zero by simp_all
    moreover have "consume (map (\<lambda>l. dval (remaining_quantity l)) (lot # ls)) 0 =
        map (\<lambda>l. dval (remaining_quantity l)) (lot # ls)"
      using pos by (intro consume_zero) auto
    ultimately show ?thesis
      using Cons.prems(2) by (auto simp: lot_value_def)
  next
    case skip
    then have z: "dval (remaining_quantity lot) = 0"
      using Cons.prems(2) qty_ok_le_zero by simp
    have "sale_loop db t ppu ls remaining st = (recs, r, st')"
      using skip Cons.prems(4) by simp
    from Cons.IH [OF Cons.prems(1) _ _ this] Cons.prems(2,3)
    have IH: "map (\<lambda>l. lot_value st' (lot_id l)) ls =
          map Some (consume (map (\<lambda>l. dval (remaining_quantity l)) ls) (dval remaining))"
      "\<forall>i. i \<notin> lot_id ` set ls \<longrightarrow> lot_of st' i = lot_of st i"
      by simp_all
    moreover have "lot_of st' (lot_id lot) = Some lot"
      using IH(2) Cons.prems(2,3) by simp
    ultimately show ?thesis
      using skip by (simp add: z lot_value_def)
  next
    case take
    let ?q = "dmin (remaining_quantity lot) remaining"
    have q: "qty_ok ?q" "dval ?q = min (dval (remaining_quantity lot)) (dval remaining)"
      using Cons.prems by (auto simp: qty_dmin dval_dmin)
    have r': "qty_ok (dsub remaining ?q)" "dval (dsub remaining ?q) = dval remaining - dval ?q"
      using qty_dsub [of remaining ?q] Cons.prems(1) q by simp_all
    define lot' where "lot' = sold_lot db t ppu remaining lot"
    define st1 where "st1 = repo_write lot' st"
    have lot': "lot_id lot' = lot_id lot"
        "dval (remaining_quantity lot') = dval (remaining_quantity lot) - dval ?q"
      using sold_lot_remaining(2) [OF db] Cons.prems(1,2) q(2) by (simp_all add: lot'_def)
    obtain rest where loop: "sale_loop db t ppu ls (dsub remaining ?q) st1 = (rest, r, st')"
      using sale_loop_take [OF take Cons.prems(4)] unfolding st1_def lot'_def .
    have in_st: "lot_id lot \<in> store_ids st"
      using Cons.prems(2) lot_of_Some_id by auto
    have keep: "\<forall>l \<in> set ls. qty_ok (remaining_quantity l) \<and> lot_of st1 (lot_id l) = Some l"
    proof
      fix l
      assume l: "l \<in> set ls"
      then have "lot_id l \<noteq> lot_id lot"
        using Cons.prems(3) by (metis distinct.simps(2) image_eqI list.set_map list.simps(9))
      with l Cons.prems(2) show "qty_ok (remaining_quantity l) \<and> lot_of st1 (lot_id l) = Some l"
        by (simp add: st1_def lot_of_write lot'(1))
    qed
    have IH: "map (\<lambda>l. lot_value st' (lot_id l)) ls =
        map Some (consume (map (\<lambda>l. dval (remaining_quantity l)) ls) (dval (dsub remaining ?q)))"
      and frame: "\<forall>i. i \<notin> lot_id ` set ls \<longrightarrow> lot_of st' i = lot_of st1 i"
      using Cons.IH [OF r'(1) keep _ loop] Cons.prems(3) by simp_all
    have "lot_of st' (lot_id lot) = Some lot'"
      using frame Cons.prems(3) in_st lot'(1) unfolding st1_def by (simp add: lot_of_write)
    then have "lot_value st' (lot_id lot) =
        Some (dval (remaining_quantity lot) - min (dval (remaining_quantity lot)) (dval remaining))"
      by (simp add: lot_value_def lot'(2) q(2))
    moreover have "\<forall>i. i \<notin> lot_id ` set (lot # ls) \<longrightarrow> lot_of st' i = lot_of st i"
      using frame lot'(1) unfolding st1_def by (simp add: lot_of_write)
    ultimately show ?thesis
      using IH by (simp add: r'(2) q(2))
  qed
qed

subsection \<open>Well-formed stores and the writes of one tenant\<close>

text \<open>A closed lot has nothing left.\<close>

definition lot_ok :: "tax_lot \<Rightarrow> bool" where
  "lot_ok l \<longleftrightarrow> qty_ok (remaining_quantity l) \<and> (\<not> is_open l \<longrightarrow> dval (remaining_quantity l) = 0)"

definition lot_inv :: "lot_store \<Rightarrow> bool" where
  "lot_inv st \<longleftrightarrow> distinct (map lot_id (lots st)) \<and>
     (\<forall>l \<in> set (lots st). lot_id l < next_lot_id st \<and> lot_ok l)"

definition other_lots :: "pystr \<Rightarrow> lot_store \<Rightarrow> tax_lot list" where
  "other_lots tid st = filter (\<lambda>l. lot_tenant_id l \<noteq> tid) (lots st)"

definition add_lot :: "tax_lot \<Rightarrow> lot_store \<Rightarrow> lot_store" where
  "add_lot l st = \<lparr>lots = lots st @ [l\<lparr>lot_id := next_lot_id st\<rparr>], next_lot_id = Suc (next_lot_id st)\<rparr>"

text \<open>Sequences of writes and additions on behalf of one tenant.\<close>

inductive lot_steps :: "pystr \<Rightarrow> lot_store \<Rightarrow> lot_store \<Rightarrow> bool" for tid where
  stay: "lot_steps tid st st"
| put: "lot_steps tid st st1 \<Longrightarrow> lot_tenant_id l = tid \<Longrightarrow> lot_ok l \<Longrightarrow>
     (\<forall>x \<in> set (lots st1). lot_id x = lot_id l \<longrightarrow> lot_tenant_id x = tid) \<Longrightarrow>
     lot_steps tid st (repo_write l st1)"
| add: "lot_steps tid st st1 \<Longrightarrow> lot_tenant_id l = tid \<Longrightarrow> lot_ok l \<Longrightarrow>
     lot_steps tid st (add_lot l st1)"

lemma lot_steps_trans: "lot_steps tid b c \<Longrightarrow> lot_steps tid a b \<Longrightarrow> lot_steps tid a c"
  by (induction rule: lot_steps.induct) (auto intro: lot_steps.intros)

lemma lot_inv_write: "lot_inv st \<Longrightarrow> lot_ok l \<Longrightarrow> lot_inv (repo_write l st)"
proof -
  assume inv: "lot_inv st" and ok: "lot_ok l"
  have "lot_id x < next_lot_id st \<and> lot_ok x" if "x \<in> set (put_row lot_id l (lots st))" for x
  proof (cases "x = l")
    case True
    with that have "lot_id l \<in> set (map lot_id (put_row lot_id l (lots st)))"
      by force
    then have "lot_id l \<in> lot_id ` set (lots st)"
      by (simp add: keys_put_row)
    with inv ok True show ?thesis
      by (auto simp: lot_inv_def)
  next
    case False
    with in_put_row [OF that] inv show ?thesis
      by (auto simp: lot_inv_def)
  qed
  with inv show ?thesis
    by (simp add: lot_inv_def repo_write_def keys_put_row)
qed

lemma lot_ok_id [simp]: "lot_ok (l\<lparr>lot_id := i\<rparr>) = lot_ok l"
  by (simp add: lot_ok_def is_open_def)

lemma lot_inv_add: "lot_inv st \<Longrightarrow> lot_ok l \<Longrightarrow> lot_inv (add_lot l st)"
  by (fastforce simp: lot_inv_def add_lot_def less_Suc_eq)

lemma lot_steps_inv: "lot_steps tid st st' \<Longrightarrow> lot_inv st \<Longrightarrow> lot_inv st'"
  by (induction rule: lot_steps.induct) (auto intro: lot_inv_write lot_inv_add)

lemma lot_steps_others: "lot_steps tid st st' \<Longrightarrow> other_lots tid st' = other_lots tid st"
proof (induction rule: lot_steps.induct)
  case (put st st1 l)
  have "filter (\<lambda>l. lot_tenant_id l \<noteq> tid) (put_row lot_id l (lots st1)) =
        filter (\<lambda>l. lot_tenant_id l \<noteq> tid) (lots st1)"
    using put.hyps by (intro filter_put_row) auto
  with put.IH show ?case
    by (simp add: other_lots_def repo_write_def)
qed (simp_all add: other_lots_def add_lot_def)

lemma lot_steps_next: "lot_steps tid st st' \<Longrightarrow> next_lot_id st \<le> next_lot_id st'"
  by (induction rule: lot_steps.induct) (simp_all add: repo_write_def add_lot_def)

text \<open>The row of a lot that was read for the tenant stays the tenant's.\<close>

lemma lot_steps_owned:
  assumes "lot_steps tid st st'" and "lot_inv st" and "l \<in> set (lots st)" and "lot_tenant_id l = tid"
  shows "\<forall>x \<in> set (lots st'). lot_id x = lot_id l \<longrightarrow> lot_tenant_id x = tid"
  using assms
proof (induction rule: lot_steps.induct)
  case (stay st)
  then show ?case
    by (metis distinct_map inj_on_eq_iff lot_inv_def)
next
  case (put st st1 k)
  then show ?case
    by (auto simp: repo_write_def dest!: in_put_row)
next
  case (add st st1 k)
  then have "lot_id l < next_lot_id st1"
    using lot_steps_next [of tid st st1] by (fastforce simp: lot_inv_def)
  with add show ?case
    by (auto simp: add_lot_def)
qed

subsection \<open>Every operation is a sequence of such writes\<close>

text \<open>What a loop reads at its start: open, well-formed lots of the tenant.\<close>

definition reads :: "pystr \<Rightarrow> lot_store \<Rightarrow> tax_lot list \<Rightarrow> bool" where
  "reads tid st ls \<longleftrightarrow> (\<forall>l \<in> set ls. l \<in> set (lots st) \<and> lot_tenant_id l = tid \<and> is_open l)"

lemma reads_Cons [simp]:
  "reads tid st (l # ls) \<longleftrightarrow> l \<in> set (lots st) \<and> lot_tenant_id l = tid \<and> is_open l \<and> reads tid st ls"
  by (auto simp: reads_def)

lemma reads_open_lots: "reads tid st (find_open_lots tid acc sec st)"
  by (auto simp: reads_def find_open_lots_def repo_list_def is_open_def)

lemma reads_sale_lots: "reads tid st (sale_lots m tid t sec st)"
  using reads_open_lots by (auto simp: sale_lots_def Let_def reads_def)

lemma reads_replacement_lots: "reads tid st (replacement_lots n tid t sec st)"
  by (auto simp: reads_def replacement_lots_def repo_list_def)

lemma lot_steps_put_read:
  assumes "lot_inv st0" and "lot_steps tid st0 st" and "l \<in> set (lots st0)" and "lot_tenant_id l = tid"
    and "lot_id l' = lot_id l" and "lot_tenant_id l' = tid" and "lot_ok l'"
  shows "lot_steps tid st0 (repo_write l' st)"
  using lot_steps_owned [OF assms(2,1,3,4)] assms by (intro lot_steps.put) simp_all

lemma lot_ok_db_lot: "db_ok db \<Longrightarrow> lot_ok l \<Longrightarrow> lot_ok (db_lot db l)"
  using db_okD [of db "remaining_quantity l"]
  by (auto simp: lot_ok_def is_open_def db_lot_def qty_ok_def)

lemma sold_lot_tenant [simp]: "lot_tenant_id (sold_lot db t ppu remaining lot) = lot_tenant_id lot"
  by (simp add: sold_lot_def Let_def db_lot_def lot_after_sale_def)

lemma sold_lot_ok:
  assumes "db_ok db" and "lot_ok lot" and "is_open lot" and "qty_ok remaining"
  shows "lot_ok (sold_lot db t ppu remaining lot)"
proof -
  let ?q = "dmin (remaining_quantity lot) remaining"
  have "qty_ok ?q" "dval ?q \<le> dval (remaining_quantity lot)"
    using assms by (auto simp: qty_dmin dval_dmin lot_ok_def)
  then have "qty_ok (dsub (remaining_quantity lot) ?q)"
    using assms(2) by (intro qty_dsub) (simp_all add: lot_ok_def)
  then have "lot_ok (lot_after_sale t ?q pl lot)" for pl
    using assms(3) by (auto simp: lot_ok_def lot_after_sale_def Let_def is_open_def)
  then show ?thesis
    using lot_ok_db_lot [OF assms(1)] by (simp add: sold_lot_def Let_def)
qed

lemma lot_inv_ok: "lot_inv st \<Longrightarrow> l \<in> set (lots st) \<Longrightarrow> lot_ok l"
  by (simp add: lot_inv_def)

lemma sale_loop_steps:
  assumes db: "db_ok db" and inv: "lot_inv st0"
  shows "lot_steps tid st0 st \<Longrightarrow> reads tid st0 ls \<Longrightarrow> qty_ok remaining \<Longrightarrow>
    sale_loop db t ppu ls remaining st = (recs, r, st') \<Longrightarrow> lot_steps tid st0 st'"
proof (induction ls arbitrary: remaining st recs r st')
  case (Cons lot ls)
  note ok = lot_inv_ok [OF inv, of lot]
  show ?case
  proof (cases "0 < dval remaining \<and> 0 < dval (remaining_quantity lot)")
    case True
    let ?q = "dmin (remaining_quantity lot) remaining"
    have "qty_ok ?q" "dval ?q \<le> dval remaining"
      using ok Cons.prems by (auto simp: qty_dmin dval_dmin lot_ok_def)
    then have "qty_ok (dsub remaining ?q)"
      using Cons.prems(3) by (intro qty_dsub)
    moreover have "lot_steps tid st0 (repo_write (sold_lot db t ppu remaining lot) st)"
      using Cons.prems ok sold_lot_ok [OF db] inv
      by (intro lot_steps_put_read [where l = lot]) simp_all
    moreover obtain rest where "sale_loop db t ppu ls (dsub remaining ?q)
        (repo_write (sold_lot db t ppu remaining lot) st) = (rest, r, st')"
      using True Cons.prems(4) sale_loop_take by blast
    ultimately show ?thesis
      using Cons.IH Cons.prems(2) by auto
  next
    case False
    with Cons show ?thesis
      by (auto split: if_splits)
  qed
qed simp

lemma match_sale_steps:
  assumes "db_ok db" and "lot_inv st" and "txn_ok t"
    and "match_sale_to_lots db m tid t st = Inr (cs, st')"
  shows "lot_steps tid st st'"
proof -
  let ?ls = "sale_lots m tid t (the (txn_security_id t)) st"
  let ?ppu = "ddiv (dabs (amount t)) (abs_quantity t)"
  obtain recs r s where loop: "sale_loop db t ?ppu ?ls (abs_quantity t) st = (recs, r, s)"
    by (cases "sale_loop db t ?ppu ?ls (abs_quantity t) st") auto
  then have "lot_steps tid st s"
    using sale_loop_steps [OF assms(1,2) lot_steps.stay reads_sale_lots] qty_abs_quantity assms(3)
    by blast
  then show ?thesis
    using assms(4) loop
    by (auto simp: match_sale_to_lots_def Let_def intro: lot_steps.stay split: if_splits)
qed

lemma wash_loop_steps:
  assumes inv: "lot_inv st0"
  shows "lot_steps tid st0 st \<Longrightarrow> reads tid st0 ls \<Longrightarrow> wash_loop ls loss st = (recs, r, st') \<Longrightarrow>
    lot_steps tid st0 st'"
proof (induction ls arbitrary: loss st recs r st')
  case (Cons lot ls)
  note ok = lot_inv_ok [OF inv, of lot]
  let ?d = "dmin loss (cost_basis_total lot)"
  have "lot_steps tid st0 (repo_write (wash_adjusted_lot ?d lot) st)"
    using Cons.prems ok inv by (intro lot_steps_put_read [where l = lot])
      (simp_all add: wash_adjusted_lot_def Let_def lot_ok_def is_open_def)
  with Cons.IH Cons.prems show ?case
    by (auto simp: Let_def split: if_splits prod.splits)
qed simp

lemma wash_sales_steps:
  assumes "lot_inv st" and "detect_and_adjust_wash_sales n tid t st = (recs, st')"
  shows "lot_steps tid st st'"
proof -
  obtain rs r s where loop: "wash_loop (replacement_lots n tid t (the (txn_security_id t)) st)
      (sale_losses (find_lots_for_transaction tid (txn_id t) st)) st = (rs, r, s)"
    by (metis prod_cases3)
  then have "lot_steps tid st s"
    using wash_loop_steps [OF assms(1) lot_steps.stay reads_replacement_lots] by blast
  then show ?thesis
    using assms(2) loop
    by (auto simp: detect_and_adjust_wash_sales_def Let_def intro: lot_steps.stay split: if_splits)
qed

lemma repo_add_add_lot: "repo_add db l st = (db_lot db (l\<lparr>lot_id := next_lot_id st\<rparr>), add_lot (db_lot db l) st)"
  by (simp add: repo_add_def add_lot_def Let_def db_lot_def)

lemma db_lot_tenant [simp]: "lot_tenant_id (db_lot db l) = lot_tenant_id l"
  by (simp add: db_lot_def)

lemma purchase_steps:
  assumes "db_ok db" and "create_tax_lots_for_purchase db tid t st = Inr (l, st')"
  shows "lot_steps tid st st'"
proof -
  have "0 \<le> dval (abs_quantity t)"
    by (auto simp: abs_quantity_def split: option.splits)
  then have "lot_ok (db_lot db (purchase_lot tid t))"
    using db_okD(2) [OF assms(1)]
    by (simp add: lot_ok_def is_open_def db_lot_def purchase_lot_def Let_def)
  moreover have "lot_tenant_id (purchase_lot tid t) = tid"
    by (simp add: purchase_lot_def Let_def)
  ultimately show ?thesis
    using assms(2)
    by (auto simp: create_tax_lots_for_purchase_def repo_add_add_lot intro!: lot_steps.add
          lot_steps.stay split: if_splits)
qed

lemma quantity_event_steps:
  assumes db: "db_ok db" and inv: "lot_inv st"
    and "apply_quantity_event_to_lots db tid t ratio st = (a, st')"
  shows "lot_steps tid st st'"
proof (cases "0 < dval ratio \<and> truthy (txn_security_id t)")
  case True
  define ls where "ls = find_open_lots tid (txn_account_id t) (the (txn_security_id t)) st"
  have "lot_steps tid st (scale_all db ratio ls s)"
    if "lot_steps tid st s" and "reads tid st ls" for s ls
    using that
  proof (induction ls arbitrary: s)
    case (Cons lot ls)
    have "0 \<le> dval (remaining_quantity lot)"
      using Cons.prems lot_inv_ok [OF inv, of lot] by (simp add: lot_ok_def qty_ok_def)
    then have "qty_ok (db (dmul (remaining_quantity lot) ratio))"
      using True by (intro db_okD(2) [OF db] dmul_nonneg) simp_all
    then have "lot_steps tid st (repo_write (db_lot db (scaled_lot ratio lot)) s)"
      using Cons.prems inv by (intro lot_steps_put_read [where l = lot])
        (simp_all add: scaled_lot_def lot_ok_def is_open_def db_lot_def)
    then show ?case
      using Cons.IH Cons.prems by (simp add: repo_update_def)
  qed simp
  from this [OF lot_steps.stay reads_open_lots] show ?thesis
    using assms(3) True by (auto simp: apply_quantity_event_to_lots_def Let_def)
next
  case False
  with assms(3) show ?thesis
    by (auto simp: apply_quantity_event_to_lots_def Let_def not_less intro: lot_steps.stay
          split: if_splits)
qed

subsection \<open>Transfers\<close>

lemma qty_dadd:
  assumes "qty_ok a" and "qty_ok b" and "dval a + dval b < 10 ^ 16"
  shows "qty_ok (dadd a b)" and "dval (dadd a b) = dval a + dval b"
proof -
  have "\<bar>dval a + dval b\<bar> * 10 ^ 8 < 10 ^ prec"
    using assms by (auto simp: qty_ok_def column_value_def prec_def)
  then have e: "dval (dadd a b) = dval a + dval b" "on_grid 8 (dadd a b)"
    using assms dadd_exact [of 8 a b] by (auto simp: qty_ok_def column_value_def)
  then show "dval (dadd a b) = dval a + dval b"
    by simp
  show "qty_ok (dadd a b)"
    using e assms by (auto simp: qty_ok_def column_value_def)
qed

definition fits :: "tax_lot \<times> decimal \<Rightarrow> bool" where
  "fits p \<longleftrightarrow> qty_ok (snd p) \<and> 0 < dval (snd p) \<and> dval (snd p) \<le> dval (remaining_quantity (fst p))"

lemma allocate_spec:
  "qty_ok remaining \<Longrightarrow> qty_ok moved \<Longrightarrow> dval moved + dval remaining < 10 ^ 16 \<Longrightarrow>
   \<forall>l \<in> set ls. qty_ok (remaining_quantity l) \<Longrightarrow> allocate ls remaining moved = (al, r, m) \<Longrightarrow>
   qty_ok r \<and> qty_ok m \<and> (\<Sum>p\<leftarrow>al. dval (snd p)) = dval remaining - dval r \<and>
   dval m = dval moved + (dval remaining - dval r) \<and> (\<forall>p \<in> set al. fits p) \<and>
   set (map fst al) \<subseteq> set ls \<and> (distinct (map lot_id ls) \<longrightarrow> distinct (map (\<lambda>p. lot_id (fst p)) al))"
proof (induction ls arbitrary: remaining moved al r m)
  case (Cons lot ls)
  let ?q = "dmin (dmax D0 (remaining_quantity lot)) remaining"
  have lot: "qty_ok (remaining_quantity lot)"
    using Cons.prems(4) by simp
  have avail: "qty_ok (dmax D0 (remaining_quantity lot))"
      "dval (dmax D0 (remaining_quantity lot)) = dval (remaining_quantity lot)"
    using lot qty_ok_zero by (simp_all add: dmax_def dval_dmax qty_ok_def del: qty_ok_zero)
  have q: "qty_ok ?q" "dval ?q = min (dval (remaining_quantity lot)) (dval remaining)"
    using avail Cons.prems(1) by (simp_all add: qty_dmin dval_dmin)
  show ?case
  proof (cases "0 < dval remaining \<and> 0 < dval ?q")
    case False
    show ?thesis
    proof (cases "0 < dval remaining")
      case True
      then have "dval ?q \<le> 0"
        using \<open>\<not> (0 < dval remaining \<and> 0 < dval ?q)\<close> by simp
      then have "allocate ls remaining moved = (al, r, m)"
        using True Cons.prems(5) by (simp add: Let_def)
      from Cons.IH [OF Cons.prems(1-3) _ this] Cons.prems(4) show ?thesis
        by (simp add: subset_insertI2)
    next
      case False
      then have "al = []" "r = remaining" "m = moved"
        using Cons.prems(5) by simp_all
      with Cons.prems(1,2) show ?thesis by simp
    qed
  next
    case True
    have r': "qty_ok (dsub remaining ?q)" "dval (dsub remaining ?q) = dval remaining - dval ?q"
      using qty_dsub [of remaining ?q] Cons.prems(1) q by simp_all
    have m': "qty_ok (dadd moved ?q)" "dval (dadd moved ?q) = dval moved + dval ?q"
      using qty_dadd [of moved ?q] Cons.prems(2,3) q by simp_all
    obtain rest where al: "al = (lot, ?q) # rest"
      and rec: "allocate ls (dsub remaining ?q) (dadd moved ?q) = (rest, r, m)"
      using True Cons.prems(5) by (auto simp: Let_def split: prod.splits)
    have "fits (lot, ?q)"
      using q True by (simp add: fits_def)
    moreover have IH: "qty_ok r \<and> qty_ok m \<and>
        (\<Sum>p\<leftarrow>rest. dval (snd p)) = dval (dsub remaining ?q) - dval r \<and>
        dval m = dval (dadd moved ?q) + (dval (dsub remaining ?q) - dval r) \<and>
        (\<forall>p \<in> set rest. fits p) \<and> set (map fst rest) \<subseteq> set ls \<and>
        (distinct (map lot_id ls) \<longrightarrow> distinct (map (\<lambda>p. lot_id (fst p)) rest))"
      using Cons.prems(3,4) by (intro Cons.IH [OF r'(1) m'(1) _ _ rec]) (simp_all add: r'(2) m'(2))
    moreover have "distinct (map lot_id (lot # ls)) \<Longrightarrow> lot_id lot \<notin> set (map (\<lambda>p. lot_id (fst p)) rest)"
      using IH by fastforce
    ultimately show ?thesis
      using r'(2) m'(2) unfolding al by auto
  qed
qed auto

lemma moved_source_ok:
  assumes "db_ok db" and "lot_ok lot" and "is_open lot" and "fits (lot, q)"
  shows "lot_ok (db_lot db (lot_after_move t lot q))"
    and "dval (remaining_quantity (db_lot db (lot_after_move t lot q))) =
           dval (remaining_quantity lot) - dval q"
proof -
  have r: "qty_ok (dsub (remaining_quantity lot) q)"
      "dval (dsub (remaining_quantity lot) q) = dval (remaining_quantity lot) - dval q"
    using assms(2,4) qty_dsub [of "remaining_quantity lot" q] by (simp_all add: lot_ok_def fits_def)
  then have "lot_ok (lot_after_move t lot q)"
    using assms(3) by (auto simp: lot_ok_def lot_after_move_def Let_def is_open_def)
  then show "lot_ok (db_lot db (lot_after_move t lot q))"
    by (rule lot_ok_db_lot [OF assms(1)])
  show "dval (remaining_quantity (db_lot db (lot_after_move t lot q))) =
           dval (remaining_quantity lot) - dval q"
    using r db_okD(3) [OF assms(1)] by (simp add: lot_after_move_def Let_def qty_ok_def)
qed

lemma move_one_add:
  "move_one db tid t dest (lot, q) st =
     add_lot (db_lot db (moved_lot tid dest (db_lot db (lot_after_move t lot q)) q))
       (repo_write (db_lot db (lot_after_move t lot q)) st)"
  by (simp add: move_one_def repo_add_add_lot Let_def)

lemma moved_lot_ok: "db_ok db \<Longrightarrow> qty_ok q \<Longrightarrow> lot_ok (db_lot db (moved_lot tid dest lot q))"
  using db_okD(2) [of db q] by (simp add: lot_ok_def is_open_def db_lot_def moved_lot_def qty_ok_def)

lemma move_all_steps:
  assumes db: "db_ok db" and inv: "lot_inv st0"
  shows "lot_steps tid st0 st \<Longrightarrow> reads tid st0 (map fst al) \<Longrightarrow> \<forall>p \<in> set al. fits p \<Longrightarrow>
    lot_steps tid st0 (move_all db tid t dest al st)"
proof (induction al arbitrary: st)
  case (Cons p al)
  obtain lot q where p: "p = (lot, q)"
    by fastforce
  note ok = lot_inv_ok [OF inv, of lot]
  have "lot_steps tid st0 (repo_write (db_lot db (lot_after_move t lot q)) st)"
    using Cons.prems ok inv moved_source_ok(1) [OF db] unfolding p
    by (intro lot_steps_put_read [where l = lot]) (simp_all add: lot_after_move_def Let_def)
  then have "lot_steps tid st0 (move_one db tid t dest p st)"
    using Cons.prems(3) moved_lot_ok [OF db] unfolding p move_one_add
    by (intro lot_steps.add) (simp_all add: moved_lot_def fits_def)
  with Cons show ?case
    by simp
qed simp

lemma open_lots_ok:
  "lot_inv st \<Longrightarrow> \<forall>l \<in> set (find_open_lots tid acc sec st). qty_ok (remaining_quantity l)"
  by (auto simp: find_open_lots_def repo_list_def lot_inv_def lot_ok_def)

lemma open_lots_distinct: "lot_inv st \<Longrightarrow> distinct (map lot_id (find_open_lots tid acc sec st))"
proof -
  assume "lot_inv st"
  then have "distinct (map lot_id (filter P (lots st)))" for P
    by (simp add: lot_inv_def distinct_map_filter)
  then show ?thesis
    by (simp add: find_open_lots_def repo_list_def distinct_map inj_on_def)
qed

lemma transfer_quantity_ok:
  "txn_ok t \<Longrightarrow> qty_ok (dabs (case txn_quantity t of None \<Rightarrow> D0 | Some q \<Rightarrow> q))"
  by (auto simp: txn_ok_def qty_dabs column_value_def split: option.splits intro!: qty_dabs(1))

lemma transfer_cases:
  assumes "db_ok db" and "lot_inv st" and "txn_ok t"
    and "transfer_lots_to_destination db tid t dest st = (a, st')"
  obtains "st' = st"
  | al moved where "a = BasisMoved moved (length al)" and "\<forall>p \<in> set al. fits p"
      and "reads tid st (map fst al)" and "distinct (map (\<lambda>p. lot_id (fst p)) al)"
      and "dval moved = (\<Sum>p\<leftarrow>al. dval (snd p))"
      and "dval moved = dval (dabs (case txn_quantity t of None \<Rightarrow> D0 | Some q \<Rightarrow> q))"
      and "st' = move_all db tid t dest al st"
proof -
  let ?Q = "dabs (case txn_quantity t of None \<Rightarrow> D0 | Some q \<Rightarrow> q)"
  let ?ls = "find_open_lots tid (txn_account_id t) (str_of (txn_security_id t)) st"
  obtain al r m where alloc: "allocate ?ls ?Q D0 = (al, r, m)"
    by (metis prod_cases3)
  have d: "distinct (map lot_id ?ls)"
    by (rule open_lots_distinct [OF assms(2)])
  have spec: "qty_ok r" "(\<Sum>p\<leftarrow>al. dval (snd p)) = dval ?Q - dval r" "dval m = dval ?Q - dval r"
    "\<forall>p \<in> set al. fits p" "set (map fst al) \<subseteq> set ?ls" "distinct (map (\<lambda>p. lot_id (fst p)) al)"
    using allocate_spec [OF transfer_quantity_ok [OF assms(3)] qty_ok_zero _ open_lots_ok [OF assms(2)] alloc]
      transfer_quantity_ok [OF assms(3)] d by (auto simp: qty_ok_def column_value_def)
  have reads: "reads tid st (map fst al)"
    using spec(5) reads_open_lots by (auto simp: reads_def)
  show thesis
  proof (cases "st' = st")
    case False
    then have "a = BasisMoved m (length al)" "\<not> 0 < dval r"
        "st' = move_all db tid t dest al st"
      using assms(4) alloc
      by (auto simp: transfer_lots_to_destination_def Let_def split: if_splits option.splits)
    moreover have "dval r = 0"
      using calculation(2) spec(1) by (simp add: qty_ok_def)
    ultimately show thesis
      using that(2) [of m al] spec reads by simp
  qed (rule that(1))
qed

lemma transfer_steps:
  assumes "db_ok db" and "lot_inv st" and "txn_ok t"
    and "transfer_lots_to_destination db tid t dest st = (a, st')"
  shows "lot_steps tid st st'"
proof (cases rule: transfer_cases [OF assms])
  case 1
  then show ?thesis
    by (simp add: lot_steps.stay)
next
  case (2 al moved)
  then show ?thesis
    using move_all_steps [OF assms(1,2) lot_steps.stay] by simp
qed

end
