(* ===== verification/Tax_Lot_Samples.thy ===== *)
theory Tax_Lot_Samples
  imports Tax_Lot_Props
begin

text \<open>
  Concrete transactions and lots on which the witnesses evaluate the engine.
\<close>

definition sample_txn ::
  "pystr \<Rightarrow> pystr \<Rightarrow> txn_type \<Rightarrow> int \<Rightarrow> int \<Rightarrow> instant \<Rightarrow> pyval \<Rightarrow> transaction" where
  "sample_txn i acc ty amt q ts meta =
     \<lparr>txn_id = i, txn_tenant_id = ''T'', txn_account_id = acc, txn_security_id = Some ''S'',
      transaction_type = ty, amount = Dec amt 0, txn_currency_code = ''EUR'',
      txn_quantity = Some (Dec q 0), occurred_at = ts, counterparty_account_reference = Some ''ref'',
      provider_metadata_contract = meta\<rparr>"

definition sample_lot :: "nat \<Rightarrow> int \<Rightarrow> int \<Rightarrow> instant \<Rightarrow> tax_lot" where
  "sample_lot i q per_unit ts =
     \<lparr>lot_id = i, lot_tenant_id = ''T'', lot_account_id = ''A'', lot_security_id = Some ''S'',
      purchase_transaction_id = Some ''buy'', sale_transaction_id = None,
      transfer_transaction_id = None, quantity = Dec q 0, remaining_quantity = Dec q 0,
      cost_basis_total = Dec (q * per_unit) 0, cost_basis_per_unit = Dec per_unit 0,
      lot_currency_code = ''EUR'', acquired_at = ts, closed_at = None, realized_pl = None,
      realized_pl_currency = None, has_wash_sale_adjustment = False, disallowed_loss = None,
      cost_basis_method = FIFO\<rparr>"

definition sample_store :: lot_store where
  "sample_store = \<lparr>lots = [sample_lot 0 10 10 0, sample_lot 1 5 20 (days 1)], next_lot_id = 2\<rparr>"

definition sample_sale :: "int \<Rightarrow> transaction" where
  "sample_sale q = sample_txn ''sell'' ''A'' SALE 60 (- q) (days 2) PNone"

lemma sample_store_inv: "lot_inv sample_store"
  by code_simp

lemma sample_txn_ok: "\<bar>q\<bar> < 1000 \<Longrightarrow> txn_ok (sample_txn i acc ty amt q ts meta)"
  by (simp add: txn_ok_def sample_txn_def column_value_def on_grid_def dval_def)

lemma sample_sale_of: "sale_of (sample_sale 12) ''S''" "sale_of (sample_sale 20) ''S''"
  by code_simp+

end
