(* ===== verification/Tax_Lot_Correctness.thy ===== *)
theory Tax_Lot_Correctness
  imports Tax_Lot_Samples
begin

text \<open>
  The properties of the tax-lot engine: what a sale, a transfer, a split and a wash-sale
  adjustment do to the lots, and what the full reconstruction keeps. The reconstruction is an
  instance of the \<open>step_machine\<close> contract, whose run lemmas give the invariant and the
  separation of tenants.
\<close>

subsection \<open>The reconstruction as a step machine\<close>

lemma process_sale_steps:
  assumes "db_ok db" and "lot_inv st" and "txn_ok t"
    and "process_sale db m tid t st = Inr (acts, st')"
  shows "lot_steps tid st st'"
proof -
  obtain cs st1 where m: "match_sale_to_lots db m tid t st = Inr (cs, st1)"
    using assms(4) by (auto simp: process_sale_def split: sum.splits)
  obtain w st2 where w: "detect_and_adjust_wash_sales wash_sale_lookback_days tid t st1 = (w, st2)"
    by fastforce
  have "lot_steps tid st st1"
    by (rule match_sale_steps [OF assms(1-3) m])
  moreover have "lot_steps tid st1 st2"
    using calculation lot_steps_inv assms(2) wash_sales_steps w by blast
  moreover have "st2 = st'"
    using assms(4) m w by (simp add: process_sale_def Let_def)
  ultimately show ?thesis
    using lot_steps_trans by blast
qed

lemma process_quantity_event_steps:
  assumes "db_ok db" and "lot_inv st"
    and "process_quantity_event db tid t st = Inr (acts, st')"
  shows "lot_steps tid st st'"
  using assms
  by (auto simp: process_quantity_event_def apply_infinite_event_def
        split: ratio.splits sum.splits prod.splits if_splits
        intro: lot_steps.stay quantity_event_steps)

lemma process_transaction_steps:
  assumes "db_ok db" and "lot_inv st" and "txn_ok t"
    and "process_transaction db m tid p t st = Inr (acts, st')"
  shows "lot_steps tid st st'"
  using assms
  by (auto simp: process_transaction_def split: sum.splits prod.splits if_splits
        intro: lot_steps.stay purchase_steps process_sale_steps transfer_steps
          process_quantity_event_steps)

text \<open>One turn of the reconstruction loop, without its statistics.\<close>

definition lot_step ::
  "(decimal \<Rightarrow> decimal) \<Rightarrow> basis_method \<Rightarrow> pystr \<Rightarrow> (pystr \<rightharpoonup> transaction) \<Rightarrow> transaction \<Rightarrow> lot_store \<Rightarrow>
   lot_error + lot_store" where
  "lot_step db m tid pairs t st = map_sum id snd (process_transaction db m tid (pairs (txn_id t)) t st)"

lemma lot_step_steps:
  assumes "db_ok db" and "lot_inv st" and "txn_ok t" and "lot_step db m tid pairs t st = Inr st'"
  shows "lot_steps tid st st'"
proof -
  obtain acts where "process_transaction db m tid (pairs (txn_id t)) t st = Inr (acts, st')"
    using assms(4) unfolding lot_step_def
    by (cases "process_transaction db m tid (pairs (txn_id t)) t st") auto
  with assms(1-3) show ?thesis
    by (rule process_transaction_steps)
qed

interpretation lot_machine: step_machine "lot_step db m tid pairs" "\<lambda>st. db_ok db \<and> lot_inv st"
  txn_ok "other_lots tid" for db m tid pairs
  by unfold_locales (auto dest: lot_step_steps intro: lot_steps_inv lot_steps_others)

lemma process_all_run:
  "process_all db m tid pairs ts stats st = Inr (stats', st') \<Longrightarrow>
   run_steps (lot_step db m tid pairs) ts st = Inr st'"
  by (induction ts arbitrary: stats st) (auto simp: lot_step_def split: sum.splits)

lemma deleted_inv: "lot_inv st \<Longrightarrow> lot_inv (snd (delete_for_tenant tid st))"
  by (auto simp: lot_inv_def delete_for_tenant_def distinct_map_filter)

lemma deleted_others: "other_lots tid (snd (delete_for_tenant tid st)) = other_lots tid st"
  by (simp add: other_lots_def delete_for_tenant_def)

lemma compute_all_run:
  assumes "compute_all_tax_lots db m tid table st = Inr (stats, st')"
  shows "run_steps (lot_step db m tid (pair_security_transfer_legs (lot_transactions tid table)))
           (lot_transactions tid table) (snd (delete_for_tenant tid st)) = Inr st'"
  using assms process_all_run by (auto simp: compute_all_tax_lots_def Let_def)

lemma lot_transactions_ok: "\<forall>t \<in> set table. txn_ok t \<Longrightarrow> \<forall>t \<in> set (lot_transactions tid table). txn_ok t"
  by (simp add: lot_transactions_def)

lemmas compute_all_facts = compute_all_run lot_transactions_ok deleted_inv deleted_others

subsection \<open>Sales\<close>

lemma sale_loop_matched:
  "sale_loop db t ppu ls remaining st = (recs, r, st') \<Longrightarrow> \<forall>c \<in> set recs. closure_lot_id c \<noteq> None"
  by (induction ls arbitrary: remaining st recs r st')
     (auto simp: Let_def sale_closure_def split: if_splits prod.splits)

lemma sale_lots_distinct: "lot_inv st \<Longrightarrow> distinct (map lot_id (sale_lots m tid t sec st))"
  using open_lots_distinct [of st tid "txn_account_id t" sec]
  by (simp add: sale_lots_def Let_def distinct_map inj_on_def)

lemma sale_lots_read:
  assumes "lot_inv st"
  shows "\<forall>l \<in> set (sale_lots m tid t sec st). qty_ok (remaining_quantity l) \<and> lot_of st (lot_id l) = Some l"
proof
  fix l
  assume "l \<in> set (sale_lots m tid t sec st)"
  then have "l \<in> set (lots st)"
    using reads_sale_lots by (auto simp: reads_def)
  with assms show "qty_ok (remaining_quantity l) \<and> lot_of st (lot_id l) = Some l"
    by (simp add: lot_of_self lot_inv_def lot_ok_def)
qed

definition open_quantity :: "basis_method \<Rightarrow> pystr \<Rightarrow> transaction \<Rightarrow> pystr \<Rightarrow> lot_store \<Rightarrow> rat" where
  "open_quantity m tid t sec st = (\<Sum>l\<leftarrow>sale_lots m tid t sec st. dval (remaining_quantity l))"

lemma open_quantity_nonneg: "lot_inv st \<Longrightarrow> 0 \<le> open_quantity m tid t sec st"
  using sale_lots_read unfolding open_quantity_def
  by (intro sum_list_nonneg_rat) (auto simp: qty_ok_def)

text \<open>A matched sale in terms of its loop; a sale of nothing is the loop that stops at once.\<close>

lemma match_sale_loop:
  assumes "sale_of t sec"
  obtains recs r st' ppu where
    "sale_loop db t ppu (sale_lots m tid t sec st) (abs_quantity t) st = (recs, r, st')"
    and "match_sale_to_lots db m tid t st =
      Inr (if 0 < dval r \<and> 0 < dval (abs_quantity t)
           then recs @ [unmatched_closure (abs_quantity t) r] else recs, st')"
proof -
  let ?ppu = "ddiv (dabs (amount t)) (abs_quantity t)"
  obtain recs r st' where
    loop: "sale_loop db t ?ppu (sale_lots m tid t sec st) (abs_quantity t) st = (recs, r, st')"
    by (metis prod_cases3)
  have "match_sale_to_lots db m tid t st =
      Inr (if 0 < dval r \<and> 0 < dval (abs_quantity t)
           then recs @ [unmatched_closure (abs_quantity t) r] else recs, st')"
  proof (cases "0 < dval (abs_quantity t)")
    case True
    then show ?thesis
      using loop assms by (simp add: match_sale_to_lots_def Let_def sale_of_def)
  next
    case False
    then have "recs = []" "st' = st"
      using loop by (cases "sale_lots m tid t sec st"; simp)+
    with False show ?thesis
      using assms by (simp add: match_sale_to_lots_def Let_def sale_of_def)
  qed
  with loop show thesis
    by (rule that)
qed

lemma sorted_sale_lots:
  "sorted (map acquired_at (if m = LIFO then rev (sale_lots m tid t sec st) else sale_lots m tid t sec st))"
  by (simp add: sale_lots_def Let_def find_open_lots_def)

lemma match_sale_totals:
  assumes "db_ok db" and "lot_inv st" and "sale_of t sec"
    and "sale_loop db t ppu (sale_lots m tid t sec st) (abs_quantity t) st = (recs, r, st')"
  shows "qty_ok r"
    and "dval r = dval (abs_quantity t) - min (dval (abs_quantity t)) (open_quantity m tid t sec st)"
    and "(\<Sum>c\<leftarrow>recs. dval (quantity_sold c)) = min (dval (abs_quantity t)) (open_quantity m tid t sec st)"
    and "\<forall>c \<in> set recs. qty_ok (quantity_sold c)"
  using sale_loop_quantities [OF assms(1) _ _ assms(4)] sale_lots_read [OF assms(2), of m tid t sec]
    qty_abs_quantity assms(3)
  by (simp_all add: open_quantity_def sale_of_def)

text \<open>
  C1. Matching a sale takes its quantity from the open lots of the security in the account,
  oldest first (newest first for LIFO): the remaining quantities afterwards are what
  \<open>consume\<close> leaves, which uses up each lot before it touches the next. No other lot changes,
  and the call returns for every sale with a security.
\<close>

theorem sale_consumes_lots_in_order:
  assumes "db_ok db" and "lot_inv st" and "sale_of t sec"
  shows "\<exists>cs st'. match_sale_to_lots db m tid t st = Inr (cs, st') \<and>
    map (\<lambda>l. lot_value st' (lot_id l)) (sale_lots m tid t sec st) =
      map Some (consume (map (\<lambda>l. dval (remaining_quantity l)) (sale_lots m tid t sec st))
                  (dval (abs_quantity t))) \<and>
    (\<forall>i. i \<notin> lot_id ` set (sale_lots m tid t sec st) \<longrightarrow> lot_of st' i = lot_of st i) \<and>
    sorted (map acquired_at (if m = LIFO then rev (sale_lots m tid t sec st)
                             else sale_lots m tid t sec st))"
proof -
  obtain recs r st' ppu where
    loop: "sale_loop db t ppu (sale_lots m tid t sec st) (abs_quantity t) st = (recs, r, st')"
    and res: "match_sale_to_lots db m tid t st =
      Inr (if 0 < dval r \<and> 0 < dval (abs_quantity t)
           then recs @ [unmatched_closure (abs_quantity t) r] else recs, st')"
    by (rule match_sale_loop [OF assms(3)])
  have "qty_ok (abs_quantity t)"
    using assms(3) by (simp add: sale_of_def qty_abs_quantity)
  from sale_loop_lots [OF assms(1) this sale_lots_read [OF assms(2)] sale_lots_distinct [OF assms(2)] loop]
  show ?thesis
    unfolding res using sorted_sale_lots by simp
qed

theorem sale_consumes_lots_in_order_witness:
  "\<exists>cs st'. match_sale_to_lots numeric_24_8 FIFO ''T'' (sample_sale 12) sample_store = Inr (cs, st') \<and>
     map (lot_value st') [0, 1] = [Some 0, Some 3]"
proof -
  have *: "map lot_id (sale_lots FIFO ''T'' (sample_sale 12) ''S'' sample_store) = [0, 1]"
    "consume (map (\<lambda>l. dval (remaining_quantity l)) (sale_lots FIFO ''T'' (sample_sale 12) ''S'' sample_store))
        (dval (abs_quantity (sample_sale 12))) = [0, 3]"
    by code_simp+
  have "map (lot_value st') [0, 1] =
      map (\<lambda>l. lot_value st' (lot_id l)) (sale_lots FIFO ''T'' (sample_sale 12) ''S'' sample_store)" for st'
    unfolding *(1) [symmetric] by simp
  then show ?thesis
    using sale_consumes_lots_in_order [OF numeric_24_8_ok sample_store_inv sample_sale_of(1), of FIFO "''T''"]
    unfolding *(2) by auto
qed

text \<open>
  C2. The closure records account for the whole sale: those that name a lot sum to what could be
  matched, and exactly when the open lots do not suffice one record without a lot carries the
  unmatched rest.
\<close>

theorem sale_closures_account_for_quantity:
  assumes "db_ok db" and "lot_inv st" and "sale_of t sec"
    and "match_sale_to_lots db m tid t st = Inr (cs, st')"
  shows "(\<Sum>c\<leftarrow>filter (\<lambda>c. closure_lot_id c \<noteq> None) cs. dval (quantity_sold c)) =
      min (dval (abs_quantity t)) (open_quantity m tid t sec st) \<and>
    map (\<lambda>c. map_option dval (unmatched_quantity c)) (filter (\<lambda>c. closure_lot_id c = None) cs) =
      (if open_quantity m tid t sec st < dval (abs_quantity t)
       then [Some (dval (abs_quantity t) - open_quantity m tid t sec st)] else [])"
proof -
  obtain recs r st'' ppu where
    loop: "sale_loop db t ppu (sale_lots m tid t sec st) (abs_quantity t) st = (recs, r, st'')"
    and res: "match_sale_to_lots db m tid t st =
      Inr (if 0 < dval r \<and> 0 < dval (abs_quantity t)
           then recs @ [unmatched_closure (abs_quantity t) r] else recs, st'')"
    by (rule match_sale_loop [OF assms(3)])
  note totals = match_sale_totals [OF assms(1-3) loop]
  have named: "filter (\<lambda>c. closure_lot_id c \<noteq> None) recs = recs" "filter (\<lambda>c. closure_lot_id c = None) recs = []"
    using sale_loop_matched [OF loop] by (auto simp: filter_id_conv filter_empty_conv)
  have "0 < dval (abs_quantity t)" if "0 < dval r"
    using that totals(2) open_quantity_nonneg [OF assms(2), of m tid t sec] by (simp add: min_def split: if_splits)
  then show ?thesis
    using res assms(4) named totals(2,3)
    by (auto simp: unmatched_closure_def min_def split: if_splits)
qed

theorem sale_closures_account_for_quantity_witness:
  "\<exists>cs st'. match_sale_to_lots numeric_24_8 FIFO ''T'' (sample_sale 20) sample_store = Inr (cs, st') \<and>
     (\<Sum>c\<leftarrow>filter (\<lambda>c. closure_lot_id c \<noteq> None) cs. dval (quantity_sold c)) = 15 \<and>
     map (\<lambda>c. map_option dval (unmatched_quantity c)) (filter (\<lambda>c. closure_lot_id c = None) cs) = [Some 5]"
proof -
  obtain cs st' where m: "match_sale_to_lots numeric_24_8 FIFO ''T'' (sample_sale 20) sample_store = Inr (cs, st')"
    by (metis match_sale_loop sample_sale_of(2))
  have *: "open_quantity FIFO ''T'' (sample_sale 20) ''S'' sample_store = 15"
    "dval (abs_quantity (sample_sale 20)) = 20"
    by code_simp+
  from sale_closures_account_for_quantity [OF numeric_24_8_ok sample_store_inv sample_sale_of(2) m]
  show ?thesis
    unfolding * using m by simp
qed

subsection \<open>The reconstruction\<close>

text \<open>
  C3. The full reconstruction keeps the lot table well formed, whatever the transactions:
  lot identifiers stay distinct, no remaining quantity is negative or leaves its column, and a
  closed lot has nothing left.
\<close>

theorem compute_all_tax_lots_invariant:
  assumes "db_ok db" and "lot_inv st" and "\<forall>t \<in> set table. txn_ok t"
    and "compute_all_tax_lots db m tid table st = Inr (stats, st')"
  shows "lot_inv st'"
  using lot_machine.run_inv compute_all_facts assms by blast

definition sample_table :: "transaction list" where
  "sample_table =
     [sample_txn ''b1'' ''A'' PURCHASE 0 10 0 PNone,
      sample_txn ''s1'' ''A'' SALE 0 (- 6) (days 2) PNone]"

lemma sample_table_ok: "\<forall>t \<in> set sample_table. txn_ok t"
  by (simp add: sample_table_def sample_txn_ok)

definition other_store :: lot_store where
  "other_store = \<lparr>lots = [sample_lot 0 10 10 0, (sample_lot 1 5 20 0)\<lparr>lot_tenant_id := ''U''\<rparr>],
                  next_lot_id = 2\<rparr>"

lemma other_store_inv: "lot_inv other_store"
  by code_simp

lemma sample_run:
  "\<exists>stats st'. compute_all_tax_lots numeric_24_8 FIFO ''T'' sample_table other_store = Inr (stats, st') \<and>
     map (\<lambda>l. (lot_id l, dval (remaining_quantity l))) (lots st') = [(1, 5), (2, 4)]"
proof -
  have "(case compute_all_tax_lots numeric_24_8 FIFO ''T'' sample_table other_store of
           Inl e \<Rightarrow> False
         | Inr (stats, st') \<Rightarrow>
             map (\<lambda>l. (lot_id l, dval (remaining_quantity l))) (lots st') = [(1, 5), (2, 4)])"
    by code_simp
  then show ?thesis
    by (auto split: sum.splits)
qed

theorem compute_all_tax_lots_invariant_witness:
  "\<exists>stats st'. compute_all_tax_lots numeric_24_8 FIFO ''T'' sample_table other_store = Inr (stats, st') \<and>
     lot_inv st' \<and> length (lots st') = 2"
proof -
  obtain stats st' where *: "compute_all_tax_lots numeric_24_8 FIFO ''T'' sample_table other_store = Inr (stats, st')"
    "map (\<lambda>l. (lot_id l, dval (remaining_quantity l))) (lots st') = [(1, 5), (2, 4)]"
    using sample_run by (elim exE conjE) (rule that)
  have "length (lots st') = 2"
    using arg_cong [OF *(2), of length] by simp
  with * compute_all_tax_lots_invariant [OF numeric_24_8_ok other_store_inv sample_table_ok *(1)]
  show ?thesis
    by blast
qed

text \<open>
  Rebuilding one tenant's lots leaves every other tenant's lots as they were, row by row and
  in order.
\<close>

theorem compute_all_tax_lots_other_tenants:
  assumes "db_ok db" and "lot_inv st" and "\<forall>t \<in> set table. txn_ok t"
    and "compute_all_tax_lots db m tid table st = Inr (stats, st')"
  shows "other_lots tid st' = other_lots tid st"
  using lot_machine.run_obs [OF _ _ compute_all_run [OF assms(4)]] compute_all_facts assms by simp

theorem compute_all_tax_lots_other_tenants_witness:
  "\<exists>stats st'. compute_all_tax_lots numeric_24_8 FIFO ''T'' sample_table other_store = Inr (stats, st') \<and>
     map lot_id (other_lots ''T'' st') = [1]"
proof -
  obtain stats st' where *: "compute_all_tax_lots numeric_24_8 FIFO ''T'' sample_table other_store = Inr (stats, st')"
    using sample_run by (elim exE conjE) (rule that)
  have "map lot_id (other_lots ''T'' other_store) = [1]"
    by code_simp
  with * compute_all_tax_lots_other_tenants [OF numeric_24_8_ok other_store_inv sample_table_ok *]
  show ?thesis
    by auto
qed

text \<open>
  The engine itself raises only on an infinite ratio of a quantity event; without one, every
  lot-relevant transaction of the tenant is processed. A value beyond the 24 digits of a
  \<^verbatim>\<open>Numeric(24, 8)\<close> column is outside this statement: PostgreSQL refuses the flush and the
  reconstruction aborts, while \<open>db\<close> is a total function here.
\<close>

lemma compute_all_tax_lots_total:
  assumes "\<forall>t \<in> set table. quantity_event_ratio (provider_metadata_contract t) \<noteq> InfiniteRatio"
  shows "\<exists>stats st'. compute_all_tax_lots db m tid table st = Inr (stats, st') \<and>
    transactions_processed stats = length (lot_transactions tid table)"
proof -
  have one: "\<exists>acts st'. process_transaction db m tid p t st = Inr (acts, st')"
    if "quantity_event_ratio (provider_metadata_contract t) \<noteq> InfiniteRatio" for p t st
    using that
    by (auto simp: process_transaction_def create_tax_lots_for_purchase_def process_sale_def
          match_sale_to_lots_def process_quantity_event_def Let_def
          split: sum.splits prod.splits ratio.splits)
  have counted: "transactions_processed (foldl count_action s acts) = transactions_processed s" for s acts
  proof (induction acts arbitrary: s)
    case (Cons a acts)
    have "transactions_processed (count_action s a) = transactions_processed s"
      by (cases "(s, a)" rule: count_action.cases) simp_all
    with Cons show ?case
      by simp
  qed simp
  have all: "\<exists>stats' st'. process_all db m tid pairs ts stats st = Inr (stats', st') \<and>
      transactions_processed stats' = transactions_processed stats + length ts"
    if "\<forall>t \<in> set ts. quantity_event_ratio (provider_metadata_contract t) \<noteq> InfiniteRatio"
    for pairs ts stats st
    using that
  proof (induction ts arbitrary: stats st)
    case (Cons t ts)
    obtain acts st1 where "process_transaction db m tid (pairs (txn_id t)) t st = Inr (acts, st1)"
      using one Cons.prems by (metis list.set_intros(1))
    then show ?case
      using Cons.IH [of "foldl count_action (stats\<lparr>transactions_processed := transactions_processed stats + 1\<rparr>) acts" st1]
        Cons.prems counted by simp
  qed simp
  have "\<forall>t \<in> set (lot_transactions tid table).
      quantity_event_ratio (provider_metadata_contract t) \<noteq> InfiniteRatio"
    using assms by (simp add: lot_transactions_def)
  from all [OF this, of "pair_security_transfer_legs (lot_transactions tid table)" zero_stats
      "snd (delete_for_tenant tid st)"]
  show ?thesis
    by (simp add: compute_all_tax_lots_def Let_def zero_stats_def)
qed

subsection \<open>Oversold and partial sales\<close>

lemma foldl_dadd_exact:
  "on_grid 8 a \<Longrightarrow> 0 \<le> dval a \<Longrightarrow> \<forall>d \<in> set ds. qty_ok d \<Longrightarrow> dval a + (\<Sum>d\<leftarrow>ds. dval d) < 10 ^ 20 \<Longrightarrow>
   dval (foldl dadd a ds) = dval a + (\<Sum>d\<leftarrow>ds. dval d)"
proof (induction ds arbitrary: a)
  case (Cons d ds)
  have d: "on_grid 8 d" "0 \<le> dval d"
    using Cons.prems(3) by (simp_all add: qty_ok_def column_value_def)
  have "0 \<le> (\<Sum>d\<leftarrow>ds. dval d)"
    using Cons.prems(3) by (intro sum_list_nonneg_rat) (auto simp: qty_ok_def)
  then have "\<bar>dval a + dval d\<bar> * 10 ^ 8 < 10 ^ prec"
    using Cons.prems(2,4) d(2) by (simp add: prec_def)
  then have "dval (dadd a d) = dval a + dval d" "on_grid 8 (dadd a d)"
    using dadd_exact [OF Cons.prems(1) d(1)] by simp_all
  with Cons.IH [of "dadd a d"] Cons.prems d(2) show ?case
    by simp
qed simp

text \<open>
  When a sale exceeds the open lots, the quantity that the action reports as matched is
  twice what was matched: the record for the unmatched rest repeats the matched quantity in its
  \<^verbatim>\<open>quantity_sold\<close>, and the action sums over all records.
\<close>

theorem oversold_sale_counts_matched_twice:
  assumes "db_ok db" and "lot_inv st" and "sale_of t sec"
    and "open_quantity m tid t sec st < dval (abs_quantity t)"
  shows "\<exists>n matched pl rest st'. process_sale db m tid t st = Inr (LotsMatched n matched pl # rest, st') \<and>
    dval matched = 2 * open_quantity m tid t sec st"
proof -
  let ?Q = "abs_quantity t" and ?T = "open_quantity m tid t sec st"
  obtain recs r st1 ppu where
    loop: "sale_loop db t ppu (sale_lots m tid t sec st) ?Q st = (recs, r, st1)"
    and res: "match_sale_to_lots db m tid t st =
      Inr (if 0 < dval r \<and> 0 < dval ?Q then recs @ [unmatched_closure ?Q r] else recs, st1)"
    by (rule match_sale_loop [OF assms(3)])
  note totals = match_sale_totals [OF assms(1-3) loop]
  have Q: "qty_ok ?Q"
    using assms(3) by (simp add: sale_of_def qty_abs_quantity)
  have T: "0 \<le> ?T"
    by (rule open_quantity_nonneg [OF assms(2)])
  have r: "dval r = dval ?Q - ?T"
    using totals(2) assms(4) by simp
  then have u: "qty_ok (dsub ?Q r)" "dval (dsub ?Q r) = ?T"
    using qty_dsub [OF Q totals(1)] T by simp_all
  let ?sold = "map quantity_sold (recs @ [unmatched_closure ?Q r])"
  have "(\<Sum>d\<leftarrow>?sold. dval d) = 2 * ?T"
    using totals(3) assms(4) u(2) by (simp add: unmatched_closure_def comp_def)
  moreover have "2 * ?T < 10 ^ 20"
    using Q assms(4) by (auto simp: qty_ok_def column_value_def)
  moreover have "\<forall>d \<in> set ?sold. qty_ok d"
    using totals(4) u(1) by (simp add: unmatched_closure_def)
  ultimately have "dval (dsum ?sold) = 2 * ?T"
    unfolding dsum_def by (subst foldl_dadd_exact) simp_all
  moreover have "match_sale_to_lots db m tid t st = Inr (recs @ [unmatched_closure ?Q r], st1)"
    using res r assms(4) T by simp
  ultimately show ?thesis
    by (auto simp: process_sale_def Let_def split: prod.splits)
qed

theorem oversold_sale_counts_matched_twice_witness:
  "\<exists>n matched pl rest st'. process_sale numeric_24_8 FIFO ''T'' (sample_sale 20) sample_store =
       Inr (LotsMatched n matched pl # rest, st') \<and> dval matched = 30"
proof -
  have *: "open_quantity FIFO ''T'' (sample_sale 20) ''S'' sample_store = 15"
    "dval (abs_quantity (sample_sale 20)) = 20"
    by code_simp+
  from oversold_sale_counts_matched_twice
    [OF numeric_24_8_ok sample_store_inv sample_sale_of(2), of FIFO "''T''", unfolded *]
  show ?thesis
    by simp
qed

text \<open>
  A sale that takes only part of the first lot lowers that lot's remaining quantity and
  records nothing else: no closed lot is created for the sold part and the summary's realised
  profit does not change.
\<close>

theorem partial_sale_leaves_no_closed_lot:
  assumes "lot_inv st" and "sale_of t sec" and "0 < dval (abs_quantity t)"
    and "sale_lots m tid t sec st = lot # ls"
    and "dval (abs_quantity t) < dval (remaining_quantity lot)"
  shows "\<exists>c st'. match_sale_to_lots db m tid t st = Inr ([c], st') \<and>
    st' = repo_write (lot\<lparr>remaining_quantity := dsub (remaining_quantity lot) (abs_quantity t)\<rparr>) st \<and>
    summary_realized_pl (get_tax_lot_summary tid acc sc True visible st') =
      summary_realized_pl (get_tax_lot_summary tid acc sc True visible st)"
proof -
  let ?Q = "abs_quantity t"
  let ?st = "repo_write (lot\<lparr>remaining_quantity := dsub (remaining_quantity lot) ?Q\<rparr>) st"
  have "lot \<in> set (sale_lots m tid t sec st)"
    using assms(4) by simp
  then have lot: "lot \<in> set (lots st)" "is_open lot" "qty_ok (remaining_quantity lot)"
    using reads_sale_lots sale_lots_read [OF assms(1)] by (auto simp: reads_def)
  have Q: "qty_ok ?Q" "dmin (remaining_quantity lot) ?Q = ?Q"
    using assms(2,5) by (simp_all add: qty_abs_quantity sale_of_def dmin_def)
  have z: "dval (dsub ?Q ?Q) = 0" "dval (dsub (remaining_quantity lot) ?Q) \<noteq> 0"
    using qty_dsub(2) [OF Q(1) Q(1)] qty_dsub(2) [OF lot(3) Q(1)] assms(5) by simp_all
  have "sale_loop db t ppu ls r s = ([], r, s)" if "dval r = 0" for ppu r s
    using that by (cases ls) simp_all
  then have "match_sale_to_lots db m tid t st =
      Inr ([sale_closure (ddiv (dabs (amount t)) ?Q) lot ?Q], ?st)"
    using assms(2-5) Q(2) z
    by (simp add: match_sale_to_lots_def sale_of_def Let_def lot_after_sale_def)
  moreover have "filter (\<lambda>l. \<not> is_open l) (repo_list P ?st) = filter (\<lambda>l. \<not> is_open l) (repo_list P st)" for P
  proof -
    have "is_open x" if "x \<in> set (lots st)" "lot_id x = lot_id lot" for x
      using that lot(1,2) assms(1) by (metis distinct_map inj_onD lot_inv_def)
    then have "filter (\<lambda>x. \<not> is_open x \<and> P x)
        (put_row lot_id (lot\<lparr>remaining_quantity := dsub (remaining_quantity lot) ?Q\<rparr>) (lots st)) =
        filter (\<lambda>x. \<not> is_open x \<and> P x) (lots st)"
      using lot(2) by (intro filter_put_row) (simp_all add: is_open_def)
    then show ?thesis
      by (simp add: repo_list_def repo_write_def conj_commute)
  qed
  then have "summary_realized_pl (get_tax_lot_summary tid acc sc True visible ?st) =
      summary_realized_pl (get_tax_lot_summary tid acc sc True visible st)"
    by (simp add: get_tax_lot_summary_def Let_def)
  ultimately show ?thesis
    by blast
qed

theorem partial_sale_leaves_no_closed_lot_witness:
  "\<exists>c st'. match_sale_to_lots numeric_24_8 FIFO ''T'' (sample_sale 4) sample_store = Inr ([c], st') \<and>
     summary_realized_pl (get_tax_lot_summary ''T'' None None True None st') =
     summary_realized_pl (get_tax_lot_summary ''T'' None None True None sample_store)"
proof -
  have *: "sale_of (sample_sale 4) ''S''" "0 < dval (abs_quantity (sample_sale 4))"
    "sale_lots FIFO ''T'' (sample_sale 4) ''S'' sample_store = [sample_lot 0 10 10 0, sample_lot 1 5 20 (days 1)]"
    "dval (abs_quantity (sample_sale 4)) < dval (remaining_quantity (sample_lot 0 10 10 0))"
    by code_simp+
  from partial_sale_leaves_no_closed_lot [OF sample_store_inv *] show ?thesis
    by blast
qed

end
