(* ===== verification/Tax_Lot_Transfers.thy ===== *)
theory Tax_Lot_Transfers
  imports Tax_Lot_Samples
begin

text \<open>
  Security transfers: what moving lots to the destination account does to the quantities held
  in each account, that it happens at most once, and which legs are paired.
\<close>

subsection \<open>Quantities held\<close>

text \<open>
  What a tenant holds of a security in an account, in lots whose acquisition date satisfies
  \<open>P\<close>.
\<close>

definition in_position :: "(instant \<Rightarrow> bool) \<Rightarrow> pystr \<Rightarrow> pystr \<Rightarrow> pystr \<Rightarrow> tax_lot \<Rightarrow> bool" where
  "in_position P tid acc sec l \<longleftrightarrow> lot_tenant_id l = tid \<and> lot_account_id l = acc \<and>
     lot_security_id l = Some sec \<and> P (acquired_at l)"

definition lot_weight :: "(instant \<Rightarrow> bool) \<Rightarrow> pystr \<Rightarrow> pystr \<Rightarrow> pystr \<Rightarrow> tax_lot \<Rightarrow> rat" where
  "lot_weight P tid acc sec l =
     (if in_position P tid acc sec l then dval (remaining_quantity l) else 0)"

definition held :: "(instant \<Rightarrow> bool) \<Rightarrow> pystr \<Rightarrow> pystr \<Rightarrow> pystr \<Rightarrow> lot_store \<Rightarrow> rat" where
  "held P tid acc sec st = (\<Sum>l\<leftarrow>lots st. lot_weight P tid acc sec l)"

lemma held_write:
  assumes "lot_inv st" and "l \<in> set (lots st)" and "lot_id l' = lot_id l"
  shows "held P tid acc sec (repo_write l' st) =
    held P tid acc sec st - lot_weight P tid acc sec l + lot_weight P tid acc sec l'"
  using assms by (simp add: held_def repo_write_def lot_inv_def sum_put_row)

lemma lot_weight_id [simp]: "lot_weight P tid acc sec (l\<lparr>lot_id := i\<rparr>) = lot_weight P tid acc sec l"
  by (simp add: lot_weight_def in_position_def)

lemma held_add: "held P tid acc sec (add_lot l st) = held P tid acc sec st + lot_weight P tid acc sec l"
  by (simp add: held_def add_lot_def)

text \<open>What one turn of the moving loop does to a position.\<close>

lemma move_one_held:
  assumes "db_ok db" and "lot_inv st" and "lot \<in> set (lots st)" and "is_open lot" and "fits (lot, q)"
  shows "held P tid acc sec (move_one db tid t dest (lot, q) st) =
    held P tid acc sec st - (if in_position P tid acc sec lot then dval q else 0) +
      (if txn_account_id dest = acc \<and> str_of (txn_security_id dest) = sec \<and> P (acquired_at lot)
       then dval q else 0)"
proof -
  let ?src = "db_lot db (lot_after_move t lot q)"
  let ?new = "db_lot db (moved_lot tid dest ?src q)"
  have ok: "lot_ok lot"
    using assms(2,3) by (rule lot_inv_ok)
  have "held P tid acc sec (repo_write ?src st) =
      held P tid acc sec st - lot_weight P tid acc sec lot + lot_weight P tid acc sec ?src"
    using assms(2,3) by (rule held_write) (simp add: lot_after_move_def Let_def)
  moreover have "lot_weight P tid acc sec ?src =
      (if in_position P tid acc sec lot then dval (remaining_quantity lot) - dval q else 0)"
    unfolding lot_weight_def moved_source_ok(2) [OF assms(1) ok assms(4,5)]
    by (simp add: in_position_def lot_after_move_def Let_def db_lot_def)
  moreover have "dval (db q) = dval q"
    using assms(5) db_okD(3) [OF assms(1)] by (simp add: fits_def qty_ok_def)
  then have "lot_weight P tid acc sec ?new =
      (if txn_account_id dest = acc \<and> str_of (txn_security_id dest) = sec \<and> P (acquired_at lot)
       then dval q else 0)"
    by (simp add: lot_weight_def in_position_def moved_lot_def db_lot_def lot_after_move_def Let_def)
  ultimately show ?thesis
    unfolding move_one_add held_add by (simp add: lot_weight_def)
qed

definition moves :: "pystr \<Rightarrow> lot_store \<Rightarrow> (tax_lot \<times> decimal) list \<Rightarrow> bool" where
  "moves tid st al \<longleftrightarrow> reads tid st (map fst al) \<and> (\<forall>p \<in> set al. fits p) \<and>
     distinct (map (\<lambda>p. lot_id (fst p)) al)"

lemma moves_Cons:
  "moves tid st ((lot, q) # al) \<longleftrightarrow>
     lot \<in> set (lots st) \<and> lot_tenant_id lot = tid \<and> is_open lot \<and> fits (lot, q) \<and>
     lot_id lot \<notin> set (map (\<lambda>p. lot_id (fst p)) al) \<and> moves tid st al"
  by (auto simp: moves_def)

lemma moves_step:
  assumes "moves tid st ((lot, q) # al)"
  shows "moves tid (move_one db tid t dest (lot, q) st) al"
proof -
  have "l \<in> set (lots (move_one db tid t dest (lot, q) st))" if "l \<in> set (map fst al)" for l
  proof -
    from that obtain p where "p \<in> set al" "l = fst p"
      by auto
    then have "lot_id l \<noteq> lot_id lot" "l \<in> set (lots st)"
      using assms by (auto simp: moves_def reads_def image_iff)
    then show ?thesis
      unfolding move_one_add add_lot_def repo_write_def
      by (simp add: put_row_other lot_after_move_def Let_def)
  qed
  with assms show ?thesis
    by (auto simp: moves_def reads_def)
qed

lemma move_one_inv:
  assumes "db_ok db" and "lot_inv st" and "moves tid st ((lot, q) # al)"
  shows "lot_inv (move_one db tid t dest (lot, q) st)"
  using lot_steps_inv [OF move_all_steps [OF assms(1,2) lot_steps.stay, where al = "[(lot, q)]"]] assms
  by (simp add: moves_Cons reads_def)

lemma move_all_held:
  assumes db: "db_ok db"
  shows "lot_inv st \<Longrightarrow> moves tid st al \<Longrightarrow>
    held P tid acc sec (move_all db tid t dest al st) =
      held P tid acc sec st - (\<Sum>p\<leftarrow>al. if in_position P tid acc sec (fst p) then dval (snd p) else 0) +
      (\<Sum>p\<leftarrow>al. if txn_account_id dest = acc \<and> str_of (txn_security_id dest) = sec \<and>
                     P (acquired_at (fst p)) then dval (snd p) else 0)"
proof (induction al arbitrary: st)
  case (Cons p al)
  obtain lot q where p: "p = (lot, q)"
    by fastforce
  note m = Cons.prems [unfolded p]
  note IH = Cons.IH [OF move_one_inv [OF db m] moves_step [OF m(2)]]
  show ?case
    using IH move_one_held [OF db m(1)] m(2) unfolding p moves_Cons by simp
qed simp

text \<open>The legs that a transfer moves between.\<close>

definition transfer_between :: "transaction \<Rightarrow> transaction \<Rightarrow> pystr \<Rightarrow> bool" where
  "transfer_between t dest sec \<longleftrightarrow> txn_ok t \<and> txn_security_id t = Some sec \<and>
     txn_security_id dest = Some sec \<and> txn_account_id t \<noteq> txn_account_id dest"

definition transfer_quantity :: "transaction \<Rightarrow> rat" where
  "transfer_quantity t = (case txn_quantity t of None \<Rightarrow> 0 | Some q \<Rightarrow> \<bar>dval q\<bar>)"

lemma transfer_quantity_val:
  "txn_ok t \<Longrightarrow> dval (dabs (case txn_quantity t of None \<Rightarrow> D0 | Some q \<Rightarrow> q)) = transfer_quantity t"
  using qty_dabs(2) [of D0] by (auto simp: transfer_quantity_def txn_ok_def qty_dabs(2) column_value_def split: option.splits)

lemma transfer_moved:
  assumes "db_ok db" and "lot_inv st" and "transfer_between t dest sec"
    and "transfer_lots_to_destination db tid t dest st = (BasisMoved moved n, st')"
  obtains al where "moves tid st al" and "n = length al" and "al \<noteq> []"
    and "\<forall>p \<in> set al. lot_account_id (fst p) = txn_account_id t \<and> lot_security_id (fst p) = Some sec"
    and "dval moved = transfer_quantity t"
    and "(\<Sum>p\<leftarrow>al. dval (snd p)) = transfer_quantity t"
    and "st' = move_all db tid t dest al st"
proof -
  have tok: "txn_ok t" and sec: "txn_security_id t = Some sec"
    using assms(3) by (simp_all add: transfer_between_def)
  let ?Q = "dabs (case txn_quantity t of None \<Rightarrow> D0 | Some q \<Rightarrow> q)"
  let ?ls = "find_open_lots tid (txn_account_id t) sec st"
  obtain al r m where alloc: "allocate ?ls ?Q D0 = (al, r, m)"
    by (metis prod_cases3)
  have res: "\<not> 0 < dval r" "m = moved" "n = length al" "0 < dval ?Q"
      "st' = move_all db tid t dest al st"
    using assms(4) alloc sec
    by (auto simp: transfer_lots_to_destination_def Let_def str_of_def split: if_splits)
  have d: "distinct (map lot_id ?ls)"
    using open_lots_distinct [OF assms(2)] .
  have spec: "qty_ok r" "(\<Sum>p\<leftarrow>al. dval (snd p)) = dval ?Q - dval r" "dval m = dval ?Q - dval r"
    "\<forall>p \<in> set al. fits p" "set (map fst al) \<subseteq> set ?ls" "distinct (map (\<lambda>p. lot_id (fst p)) al)"
    using allocate_spec [OF transfer_quantity_ok [OF tok] qty_ok_zero _ open_lots_ok [OF assms(2)] alloc]
      transfer_quantity_ok [OF tok] d by (auto simp: qty_ok_def column_value_def)
  have r0: "dval r = 0"
    using spec(1) res(1) by (simp add: qty_ok_def)
  have rd: "reads tid st (map fst al)"
    using spec(5) reads_open_lots by (auto simp: reads_def)
  have "\<forall>p \<in> set al. lot_account_id (fst p) = txn_account_id t \<and> lot_security_id (fst p) = Some sec"
    using spec(5) by (auto simp: find_open_lots_def repo_list_def)
  moreover have "al \<noteq> []"
    using spec(2) r0 res(4) by auto
  moreover have "moves tid st al"
    using spec rd by (simp add: moves_def)
  ultimately show thesis
    using that [of al] spec(2,3) res r0 transfer_quantity_val [OF tok] by simp
qed

lemma sum_if_all:
  fixes f :: "'a \<Rightarrow> rat"
  shows "(\<And>x. x \<in> set xs \<Longrightarrow> P x \<longleftrightarrow> Q x) \<Longrightarrow>
    (\<Sum>x\<leftarrow>xs. if P x then f x else 0) = (\<Sum>x\<leftarrow>xs. if Q x then f x else 0)"
  by (induction xs) auto

text \<open>
  C4. A transfer that reports its basis as moved takes exactly its quantity out of the source
  account and adds it to the destination account; every acquisition date keeps its total over
  the two accounts, so the holding period travels with the units; and no other position of the
  tenant changes. Every other outcome of the call leaves the store as it was.
\<close>

theorem transfer_moves_basis_between_accounts:
  assumes "db_ok db" and "lot_inv st" and "transfer_between t dest sec"
    and "transfer_lots_to_destination db tid t dest st = (a, st')"
  shows "(case a of
      BasisMoved moved n \<Rightarrow>
        dval moved = transfer_quantity t \<and>
        held (\<lambda>_. True) tid (txn_account_id t) sec st' =
          held (\<lambda>_. True) tid (txn_account_id t) sec st - transfer_quantity t \<and>
        held (\<lambda>_. True) tid (txn_account_id dest) sec st' =
          held (\<lambda>_. True) tid (txn_account_id dest) sec st + transfer_quantity t \<and>
        (\<forall>P. held P tid (txn_account_id t) sec st' + held P tid (txn_account_id dest) sec st' =
             held P tid (txn_account_id t) sec st + held P tid (txn_account_id dest) sec st) \<and>
        (\<forall>P acc s. (acc, s) \<notin> {(txn_account_id t, sec), (txn_account_id dest, sec)} \<longrightarrow>
             held P tid acc s st' = held P tid acc s st)
    | _ \<Rightarrow> st' = st)"
proof (cases "\<exists>moved n. a = BasisMoved moved n")
  case True
  then obtain moved n where a: "a = BasisMoved moved n"
    by blast
  obtain al where al: "moves tid st al" "dval moved = transfer_quantity t"
      "\<forall>p \<in> set al. lot_account_id (fst p) = txn_account_id t \<and> lot_security_id (fst p) = Some sec"
      "(\<Sum>p\<leftarrow>al. dval (snd p)) = transfer_quantity t"
      "st' = move_all db tid t dest al st"
    using transfer_moved [OF assms(1-3) assms(4) [unfolded a]] .
  have dest: "str_of (txn_security_id dest) = sec" "txn_account_id t \<noteq> txn_account_id dest"
    using assms(3) by (simp_all add: transfer_between_def str_of_def)
  let ?in = "\<lambda>P. \<Sum>p\<leftarrow>al. if P (acquired_at (fst p)) then dval (snd p) else 0"
  have pos: "(\<Sum>p\<leftarrow>al. if in_position P tid acc s (fst p) then dval (snd p) else 0) =
      (if acc = txn_account_id t \<and> s = sec then ?in P else 0)" for P acc s
  proof -
    have "(\<Sum>p\<leftarrow>al. if in_position P tid acc s (fst p) then dval (snd p) else 0) =
        (\<Sum>p\<leftarrow>al. if (acc = txn_account_id t \<and> s = sec) \<and> P (acquired_at (fst p)) then dval (snd p) else 0)"
      using al(1,3) by (intro sum_if_all) (auto simp: in_position_def moves_def reads_def)
    then show ?thesis
      by (auto simp: sum_list_0)
  qed
  have held: "held P tid acc s st' = held P tid acc s st -
      (if acc = txn_account_id t \<and> s = sec then ?in P else 0) +
      (if acc = txn_account_id dest \<and> s = sec then ?in P else 0)" for P acc s
    unfolding al(5) move_all_held [OF assms(1,2) al(1)] pos dest(1) by (auto simp: sum_list_0)
  have "?in (\<lambda>_. True) = transfer_quantity t"
    using al(4) by simp
  then show ?thesis
    unfolding a using held al(2) dest(2) by auto
next
  case False
  then show ?thesis
    using assms(4)
    by (auto simp: transfer_lots_to_destination_def Let_def split: if_splits prod.splits)
qed

definition sample_out :: transaction where
  "sample_out = sample_txn ''out'' ''A'' TRANSFER (- 100) 12 (days 3) PNone"

definition sample_in :: transaction where
  "sample_in = sample_txn ''in'' ''B'' TRANSFER 100 12 (days 3) PNone"

lemma sample_between: "transfer_between sample_out sample_in ''S''"
  by (simp add: transfer_between_def sample_out_def sample_in_def sample_txn_ok)
     (simp add: sample_txn_def)

lemma sample_moved:
  "\<exists>n st'. transfer_lots_to_destination numeric_24_8 ''T'' sample_out sample_in sample_store =
     (BasisMoved (Dec 12 0) n, st')"
proof -
  have "(case transfer_lots_to_destination numeric_24_8 ''T'' sample_out sample_in sample_store of
           (BasisMoved q n, st') \<Rightarrow> q = Dec 12 0 | _ \<Rightarrow> False)"
    by code_simp
  then show ?thesis
    by (auto split: prod.splits transfer_action.splits)
qed

theorem transfer_moves_basis_between_accounts_witness:
  "\<exists>n st'. transfer_lots_to_destination numeric_24_8 ''T'' sample_out sample_in sample_store =
       (BasisMoved (Dec 12 0) n, st') \<and>
     held (\<lambda>_. True) ''T'' ''A'' ''S'' st' = 3 \<and> held (\<lambda>_. True) ''T'' ''B'' ''S'' st' = 12"
proof -
  obtain n st' where *: "transfer_lots_to_destination numeric_24_8 ''T'' sample_out sample_in sample_store =
      (BasisMoved (Dec 12 0) n, st')"
    using sample_moved by (elim exE)
  have h: "held (\<lambda>_. True) ''T'' ''A'' ''S'' sample_store = 15"
    "held (\<lambda>_. True) ''T'' ''B'' ''S'' sample_store = 0" "transfer_quantity sample_out = 12"
    "txn_account_id sample_out = ''A''" "txn_account_id sample_in = ''B''"
    by code_simp+
  from transfer_moves_basis_between_accounts [OF numeric_24_8_ok sample_store_inv sample_between *]
  show ?thesis
    using * unfolding h transfer_action.case by (elim conjE) (intro exI conjI; simp)
qed

text \<open>
  A transfer is applied at most once: after its basis has been moved, processing it again
  finds the lots it created and leaves the store unchanged.
\<close>

theorem transfer_applied_once:
  assumes "db_ok db" and "lot_inv st" and "transfer_between t dest sec"
    and "transfer_lots_to_destination db tid t dest st = (BasisMoved moved n, st')"
  shows "transfer_lots_to_destination db tid t dest st' = (BasisAlreadyApplied, st')"
proof -
  obtain al where al: "al \<noteq> []" "st' = move_all db tid t dest al st"
    using transfer_moved [OF assms] .
  then obtain ps lot q where "al = ps @ [(lot, q)]"
    by (metis append_butlast_last_id surj_pair)
  moreover have "move_all db tid t dest (xs @ ys) s = move_all db tid t dest ys (move_all db tid t dest xs s)"
    for xs ys s
    by (induction xs arbitrary: s) auto
  ultimately obtain s where "st' = move_one db tid t dest (lot, q) s"
    using al(2) by simp
  then have "find_lots_for_transfer tid (txn_id dest) st' \<noteq> []"
    unfolding move_one_add add_lot_def
    by (simp add: find_lots_for_transfer_def repo_list_def moved_lot_def db_lot_def)
  moreover have "\<not> dle (dabs (case txn_quantity t of None \<Rightarrow> D0 | Some q \<Rightarrow> q)) D0" "\<not> dle D0 (amount t)"
    using assms(4) by (auto simp: transfer_lots_to_destination_def Let_def split: if_splits)
  ultimately show ?thesis
    by (simp add: transfer_lots_to_destination_def Let_def)
qed

theorem transfer_applied_once_witness:
  "\<exists>moved n st'. transfer_lots_to_destination numeric_24_8 ''T'' sample_out sample_in sample_store =
       (BasisMoved moved n, st') \<and>
     transfer_lots_to_destination numeric_24_8 ''T'' sample_out sample_in st' = (BasisAlreadyApplied, st')"
  using sample_moved transfer_applied_once [OF numeric_24_8_ok sample_store_inv sample_between]
  by (elim exE) (intro exI conjI, assumption, blast)

subsection \<open>Pairing of legs\<close>

definition pair_ids :: "transaction \<times> transaction \<Rightarrow> pystr list" where
  "pair_ids p = [txn_id (fst p), txn_id (snd p)]"

lemma pair_ids_pair [simp]: "pair_ids (s, d) = [txn_id s, txn_id d]"
  by (simp add: pair_ids_def)

lemma add_pairs_other:
  "i \<notin> set (concat (map pair_ids ps)) \<Longrightarrow> foldl add_pair m ps i = m i"
  by (induction ps arbitrary: m) (auto simp: add_pair_def pair_ids_def)

lemma add_pairs_lookup:
  "distinct (concat (map pair_ids ps)) \<Longrightarrow> (s, d) \<in> set ps \<Longrightarrow>
   foldl add_pair m ps (txn_id s) = Some d \<and> foldl add_pair m ps (txn_id d) = Some s"
proof (induction ps arbitrary: m)
  case (Cons p ps)
  show ?case
  proof (cases "p = (s, d)")
    case True
    with Cons.prems(1) have "txn_id s \<noteq> txn_id d"
      "txn_id s \<notin> set (concat (map pair_ids ps))" "txn_id d \<notin> set (concat (map pair_ids ps))"
      by (simp_all add: pair_ids_def)
    with True show ?thesis
      using add_pairs_other [of "txn_id s" ps "add_pair m p"] add_pairs_other [of "txn_id d" ps "add_pair m p"]
      by (simp del: set_concat) (simp add: add_pair_def)
  next
    case False
    with Cons show ?thesis
      by simp
  qed
qed simp

lemma add_pairs_range:
  "foldl add_pair m ps i = Some x \<Longrightarrow> m i = None \<Longrightarrow>
   \<exists>(s, d) \<in> set ps. (i = txn_id s \<and> x = d) \<or> (i = txn_id d \<and> x = s)"
proof (induction ps rule: rev_induct)
  case (snoc p ps)
  then show ?case
    by (auto simp: add_pair_def split: prod.splits if_splits)
qed simp

lemma distinct_concat_filter:
  "distinct (concat (map f xs)) \<Longrightarrow> distinct (concat (map f (filter P xs)))"
  by (induction xs) auto

lemma distinct_concat_subset:
  "\<forall>x \<in> set xs. distinct (g x) \<and> set (g x) \<subseteq> set (f x) \<Longrightarrow> distinct (concat (map f xs)) \<Longrightarrow>
   distinct (concat (map g xs))"
  by (induction xs) (auto, blast)

lemma distinct_concat_member: "distinct (concat (map f xs)) \<Longrightarrow> x \<in> set xs \<Longrightarrow> distinct (f x)"
  by (induction xs) auto

lemma zip_pair_ids:
  "distinct (map txn_id xs @ map txn_id ys) \<Longrightarrow>
   distinct (concat (map pair_ids (zip xs ys))) \<and>
   set (concat (map pair_ids (zip xs ys))) \<subseteq> txn_id ` (set xs \<union> set ys)"
proof (induction xs ys rule: list_induct2')
  case (4 x xs y ys)
  then have "distinct (concat (map pair_ids (zip xs ys)))"
    "set (concat (map pair_ids (zip xs ys))) \<subseteq> txn_id ` (set xs \<union> set ys)"
    "txn_id x \<noteq> txn_id y" "txn_id x \<notin> txn_id ` (set xs \<union> set ys)" "txn_id y \<notin> txn_id ` (set xs \<union> set ys)"
    by auto
  then show ?case
    by auto
qed auto

lemma leg_pairs_ids:
  assumes "distinct (map txn_id rows)"
  shows "distinct (concat (map pair_ids (leg_pairs rows)))"
    and "set (concat (map pair_ids (leg_pairs rows))) \<subseteq> txn_id ` set rows"
proof -
  have "distinct (map txn_id (outbound_legs rows))" "distinct (map txn_id (inbound_legs rows))"
    using assms by (simp_all add: outbound_legs_def inbound_legs_def distinct_map inj_on_def)
  moreover have "txn_id ` set (outbound_legs rows) \<inter> txn_id ` set (inbound_legs rows) = {}"
  proof -
    have "inj_on txn_id (set rows)" "set (outbound_legs rows) \<subseteq> set rows" "set (inbound_legs rows) \<subseteq> set rows"
        "set (outbound_legs rows) \<inter> set (inbound_legs rows) = {}"
      using assms by (auto simp: outbound_legs_def inbound_legs_def distinct_map)
    then show ?thesis
      using inj_on_image_Int [of txn_id "set rows"] by (metis image_empty)
  qed
  ultimately have z: "distinct (concat (map pair_ids (zip (outbound_legs rows) (inbound_legs rows))))"
      "set (concat (map pair_ids (zip (outbound_legs rows) (inbound_legs rows)))) \<subseteq>
         txn_id ` (set (outbound_legs rows) \<union> set (inbound_legs rows))"
    using zip_pair_ids [of "outbound_legs rows" "inbound_legs rows"] by simp_all
  then show "distinct (concat (map pair_ids (leg_pairs rows)))"
    by (simp add: leg_pairs_def distinct_concat_filter)
  show "set (concat (map pair_ids (leg_pairs rows))) \<subseteq> txn_id ` set rows"
  proof -
    have "set (concat (map pair_ids (leg_pairs rows))) \<subseteq>
        set (concat (map pair_ids (zip (outbound_legs rows) (inbound_legs rows))))"
      by (auto simp: leg_pairs_def)
    moreover have "set (outbound_legs rows) \<union> set (inbound_legs rows) \<subseteq> set rows"
      by (auto simp: outbound_legs_def inbound_legs_def)
    ultimately show ?thesis
      using z(2) by blast
  qed
qed

definition all_pairs :: "transaction list \<Rightarrow> (transaction \<times> transaction) list" where
  "all_pairs ts = concat (map (\<lambda>(_, rows). leg_pairs rows) (leg_groups ts))"

lemma all_pairs_ids:
  assumes "distinct (map txn_id ts)"
  shows "distinct (concat (map pair_ids (all_pairs ts)))"
proof -
  let ?rows = "concat (map snd (leg_groups ts))"
  have "mset ?rows = mset (filter (\<lambda>t. leg_key t \<noteq> None) ts)"
    unfolding leg_groups_def by (rule group_by_mset)
  then have "mset (map txn_id ?rows) = mset (map txn_id (filter (\<lambda>t. leg_key t \<noteq> None) ts))"
    by (simp only: mset_map)
  then have "distinct (map txn_id ?rows) = distinct (map txn_id (filter (\<lambda>t. leg_key t \<noteq> None) ts))"
    by (rule mset_eq_imp_distinct_iff)
  then have "distinct (map txn_id ?rows)"
    using distinct_map_filter [OF assms] by (simp only:)
  then have d: "distinct (concat (map (\<lambda>g. map txn_id (snd g)) (leg_groups ts)))"
    by (simp add: map_concat comp_def)
  have "distinct (concat (map (\<lambda>g. concat (map pair_ids (leg_pairs (snd g)))) (leg_groups ts)))"
  proof (rule distinct_concat_subset [OF _ d], intro ballI conjI)
    fix g
    assume "g \<in> set (leg_groups ts)"
    then have "distinct (map txn_id (snd g))"
      using distinct_concat_member [OF d] by blast
    then show "distinct (concat (map pair_ids (leg_pairs (snd g))))"
      "set (concat (map pair_ids (leg_pairs (snd g)))) \<subseteq> set (map txn_id (snd g))"
      using leg_pairs_ids by (simp_all only: set_map)
  qed
  moreover have "concat (map pair_ids (concat (map (\<lambda>g. leg_pairs (snd g)) gs))) =
      concat (map (\<lambda>g. concat (map pair_ids (leg_pairs (snd g)))) gs)" for gs :: "(leg_key option \<times> transaction list) list"
    by (induction gs) simp_all
  ultimately show ?thesis
    by (simp add: all_pairs_def case_prod_unfold)
qed

lemma all_pairs_members:
  assumes "(s, d) \<in> set (all_pairs ts)"
  shows "s \<in> set ts" and "d \<in> set ts" and "leg_key s = leg_key d" and "leg_key s \<noteq> None"
    and "txn_account_id s \<noteq> txn_account_id d" and "dval (amount s) < 0" and "0 < dval (amount d)"
proof -
  obtain k rows where g: "(k, rows) \<in> set (leg_groups ts)" and p: "(s, d) \<in> set (leg_pairs rows)"
    using assms by (auto simp: all_pairs_def)
  then have "s \<in> set (outbound_legs rows)" "d \<in> set (inbound_legs rows)"
    by (auto simp: leg_pairs_def dest: set_zip_leftD set_zip_rightD)
  then have sd: "s \<in> set rows" "d \<in> set rows" "dval (amount s) < 0" "0 < dval (amount d)"
    by (simp_all add: outbound_legs_def inbound_legs_def)
  show "txn_account_id s \<noteq> txn_account_id d"
    using p by (simp add: leg_pairs_def)
  have g': "(k, rows) \<in> set (group_by leg_key (filter (\<lambda>t. leg_key t \<noteq> None) ts))"
    using g by (simp add: leg_groups_def)
  then show "leg_key s = leg_key d"
    using group_by_key(2) sd(1,2) by metis
  have "set rows \<subseteq> set (filter (\<lambda>t. leg_key t \<noteq> None) ts)"
    by (rule group_by_members [OF g'])
  then show "s \<in> set ts" "d \<in> set ts" "leg_key s \<noteq> None"
    using sd(1,2) by auto
  show "dval (amount s) < 0" "0 < dval (amount d)"
    by (fact sd)+
qed

text \<open>
  Pairing never guesses: two legs are paired only if they agree on reference, security,
  currency, day and absolute quantity (their grouping key), lie in different accounts and carry
  amounts of opposite sign; and the mapping is symmetric, so a leg has at most one partner.
\<close>

theorem transfer_pairing_sound:
  assumes "distinct (map txn_id ts)" and "pair_security_transfer_legs ts i = Some b"
  shows "\<exists>a \<in> set ts. txn_id a = i \<and> b \<in> set ts \<and> pair_security_transfer_legs ts (txn_id b) = Some a \<and>
    leg_key a = leg_key b \<and> leg_key a \<noteq> None \<and> txn_account_id a \<noteq> txn_account_id b \<and>
    dval (amount a) * dval (amount b) < 0"
proof -
  have eq: "pair_security_transfer_legs ts = foldl add_pair Map.empty (all_pairs ts)"
    by (simp add: pair_security_transfer_legs_def all_pairs_def)
  obtain s d where p: "(s, d) \<in> set (all_pairs ts)" and i: "(i = txn_id s \<and> b = d) \<or> (i = txn_id d \<and> b = s)"
    using add_pairs_range [OF assms(2) [unfolded eq]] by auto
  note look = add_pairs_lookup [OF all_pairs_ids [OF assms(1)] p, of Map.empty, folded eq]
  show ?thesis
    using i look all_pairs_members [OF p] by (elim disjE) (auto simp: mult_less_0_iff)
qed

lemma sample_pairs: "pair_security_transfer_legs [sample_out, sample_in] ''out'' = Some sample_in"
  by code_simp

theorem transfer_pairing_sound_witness:
  "pair_security_transfer_legs [sample_out, sample_in] ''out'' = Some sample_in \<and>
   pair_security_transfer_legs [sample_out, sample_in] (txn_id sample_in) = Some sample_out"
proof -
  have "distinct (map txn_id [sample_out, sample_in])" "txn_id sample_out = ''out''" "txn_id sample_in = ''in''"
    by code_simp+
  with transfer_pairing_sound [of "[sample_out, sample_in]", OF _ sample_pairs] show ?thesis
    using sample_pairs by auto
qed

end
