(* ===== verification/Tax_Lot_Adjustments.thy ===== *)
theory Tax_Lot_Adjustments
  imports Tax_Lot_Samples
begin

text \<open>
  Wash sales and splits: the loss that a wash sale disallows reappears in the cost basis of the
  replacement lots, and a split keeps the cost of a position up to the rounding of the decimal
  context, which the eight-place column then coarsens.
\<close>

subsection \<open>Wash sales\<close>






lemma wash_adjusted_id [simp]: "lot_id (wash_adjusted_lot d lot) = lot_id lot"
  by (simp add: wash_adjusted_lot_def Let_def)








subsection \<open>Splits\<close>

lemma rel_error_scaled:
  fixes x :: rat
  assumes "\<bar>x - y\<bar> \<le> u * \<bar>y\<bar>"
  shows "\<bar>k * x - k * y\<bar> \<le> u * \<bar>k * y\<bar>"
proof -
  have "\<bar>k\<bar> * \<bar>x - y\<bar> \<le> \<bar>k\<bar> * (u * \<bar>y\<bar>)"
    using assms by (intro mult_left_mono) simp_all
  then show ?thesis
    by (simp add: abs_mult [symmetric] right_diff_distrib mult.left_commute)
qed

text \<open>
  C6. A split with a positive ratio keeps the cost of what remains of a lot: before the values
  are stored, units times per-unit basis changes by at most two parts in \<open>10 ^ 27\<close>.
\<close>

theorem split_preserves_cost_basis:
  assumes "0 < dval ratio"
  shows "\<bar>dval (remaining_quantity (scaled_lot ratio lot)) * dval (cost_basis_per_unit (scaled_lot ratio lot)) -
          dval (remaining_quantity lot) * dval (cost_basis_per_unit lot)\<bar>
    \<le> 2 / 10 ^ 27 * \<bar>dval (remaining_quantity lot) * dval (cost_basis_per_unit lot)\<bar>"
proof -
  let ?q = "dval (remaining_quantity lot)" and ?c = "dval (cost_basis_per_unit lot)" and ?r = "dval ratio"
  let ?q' = "dval (dmul (remaining_quantity lot) ratio)" and ?c' = "dval (ddiv (cost_basis_per_unit lot) ratio)"
  have q: "\<bar>?q' - ?q * ?r\<bar> \<le> ulp_bound * \<bar>?q * ?r\<bar>"
    by (rule dmul_error)
  have c: "\<bar>?c' - ?c / ?r\<bar> \<le> 1 / 10 ^ 27 * \<bar>?c / ?r\<bar>"
    using assms by (intro ddiv_error) simp
  have "\<bar>?q' * ?c' - ?q * ?r * ?c'\<bar> \<le> ulp_bound * \<bar>?q * ?r * ?c'\<bar>"
    using rel_error_scaled [OF q, of ?c'] by (simp only: mult.commute)
  moreover have "\<bar>?q * ?r * ?c' - ?q * ?r * (?c / ?r)\<bar> \<le> 1 / 10 ^ 27 * \<bar>?q * ?r * (?c / ?r)\<bar>"
    by (rule rel_error_scaled [OF c])
  moreover have "0 \<le> ulp_bound"
    by (simp add: ulp_bound_def)
  ultimately have e: "\<bar>?q' * ?c' - ?q * ?r * (?c / ?r)\<bar> \<le>
      (ulp_bound + 1 / 10 ^ 27 + ulp_bound * (1 / 10 ^ 27)) * \<bar>?q * ?r * (?c / ?r)\<bar>"
    by (rule abs_error_chain)
  have eq: "?q * ?r * (?c / ?r) = ?q * ?c"
    using assms by simp
  have "ulp_bound + 1 / 10 ^ 27 + ulp_bound * (1 / 10 ^ 27) \<le> 2 / 10 ^ 27"
    by (simp add: ulp_bound_def)
  then have "(ulp_bound + 1 / 10 ^ 27 + ulp_bound * (1 / 10 ^ 27)) * \<bar>?q * ?c\<bar> \<le> 2 / 10 ^ 27 * \<bar>?q * ?c\<bar>"
    by (rule mult_right_mono) simp
  then have "\<bar>?q' * ?c' - ?q * ?c\<bar> \<le> 2 / 10 ^ 27 * \<bar>?q * ?c\<bar>"
    by (rule order_trans [OF e [unfolded eq]])
  then show ?thesis
    by (simp add: scaled_lot_def)
qed

theorem split_preserves_cost_basis_witness:
  "\<bar>dval (remaining_quantity (scaled_lot (Dec 3 0) (sample_lot 0 1 100 0))) *
      dval (cost_basis_per_unit (scaled_lot (Dec 3 0) (sample_lot 0 1 100 0))) - 100\<bar> \<le> 1 / 10 ^ 24"
proof -
  have "0 < dval (Dec 3 0)" "dval (remaining_quantity (sample_lot 0 1 100 0)) = 1"
    "dval (cost_basis_per_unit (sample_lot 0 1 100 0)) = 100"
    by code_simp+
  with split_preserves_cost_basis [of "Dec 3 0" "sample_lot 0 1 100 0"] show ?thesis
    by simp
qed

definition split_store :: lot_store where
  "split_store = \<lparr>lots = [sample_lot 0 1 100 0], next_lot_id = 1\<rparr>"

definition position_cost :: "tax_lot \<Rightarrow> rat" where
  "position_cost l = dval (remaining_quantity l) * dval (cost_basis_per_unit l)"

text \<open>
  Once stored, the cost is not preserved exactly, although the action says so
  (\<^verbatim>\<open>cost_basis_preserved: True\<close>): the per-unit basis is rounded to the eight places
  of its column. One unit bought for 100 is worth 99.99999999 of basis after a 3:1 split.
\<close>

theorem split_rounding_loses_basis:
  "map position_cost (lots split_store) = [100] \<and>
   map position_cost (lots (snd (apply_quantity_event_to_lots numeric_24_8 ''T''
     (sample_txn ''x'' ''A'' SPLIT 1 3 (days 3) PNone) (Dec 3 0) split_store))) = [9999999999 / 10 ^ 8]"
  by code_simp

end
