(* ===== verification/Work_Queue.thy ===== *)
theory Work_Queue
  imports Prelude
begin

text \<open>
  Work queues on a table with leases: a claim picks eligible rows that no concurrent
  transaction has locked (\<^verbatim>\<open>FOR UPDATE SKIP LOCKED\<close>) and marks them so that they
  stop being eligible for the length of the lease. The contract is stated once and used for the
  outbox publisher and for the remediation backlog.
\<close>

text \<open>
  A history of claims by any number of workers: each with its time and the rows locked by
  others at that moment. The result lists the claimed keys in the order of the claims.
\<close>

fun run_claims ::
  "('r \<Rightarrow> 'k) \<Rightarrow> (instant \<Rightarrow> 'k set \<Rightarrow> 'r list \<Rightarrow> 'r list \<times> 'r list) \<Rightarrow> (instant \<times> 'k set) list \<Rightarrow>
   'r list \<Rightarrow> 'k list \<times> 'r list" where
  "run_claims key claim [] rs = ([], rs)"
| "run_claims key claim ((n, L) # cs) rs =
     (case claim n L rs of (got, rs1) \<Rightarrow>
        (case run_claims key claim cs rs1 of (ks, rs2) \<Rightarrow> (map key got @ ks, rs2)))"

lemma sorted_bounds: "sorted xs \<Longrightarrow> x \<in> set xs \<Longrightarrow> hd xs \<le> x \<and> x \<le> last (xs :: int list)"
  by (induction xs) auto

locale claim_queue =
  fixes key :: "'r \<Rightarrow> 'k"
    and eligible :: "instant \<Rightarrow> 'r \<Rightarrow> bool"
    and claim :: "instant \<Rightarrow> 'k set \<Rightarrow> 'r list \<Rightarrow> 'r list \<times> 'r list"
    and lease :: int
  assumes claim_from: "claim n L rs = (got, rs') \<Longrightarrow> g \<in> set got \<Longrightarrow>
      key g \<notin> L \<and> (\<exists>r \<in> set rs. key r = key g \<and> eligible n r)"
    and claim_distinct: "claim n L rs = (got, rs') \<Longrightarrow> distinct (map key rs) \<Longrightarrow> distinct (map key got)"
    and claim_keys: "claim n L rs = (got, rs') \<Longrightarrow> map key rs' = map key rs"
    and claim_leased: "claim n L rs = (got, rs') \<Longrightarrow> r \<in> set rs' \<Longrightarrow> key r \<in> key ` set got \<Longrightarrow>
      n \<le> n' \<Longrightarrow> n' \<le> n + lease \<Longrightarrow> \<not> eligible n' r"
    and claim_frame: "claim n L rs = (got, rs') \<Longrightarrow> r \<in> set rs' \<Longrightarrow> key r \<notin> key ` set got \<Longrightarrow> r \<in> set rs"
begin

text \<open>Rows whose key is held cannot be claimed until the lease of the holders is over.\<close>

definition held_until :: "'k set \<Rightarrow> instant \<Rightarrow> instant \<Rightarrow> 'r list \<Rightarrow> bool" where
  "held_until K t e rs \<longleftrightarrow>
     (\<forall>r \<in> set rs. key r \<in> K \<longrightarrow> (\<forall>n. t \<le> n \<and> n \<le> e \<longrightarrow> \<not> eligible n r))"

lemma claim_avoids_held:
  assumes "distinct (map key rs)" and "held_until K t e rs" and "claim n L rs = (got, rs')"
    and "t \<le> n" and "n \<le> e"
  shows "key ` set got \<inter> K = {}"
proof -
  have "key g \<notin> K" if "g \<in> set got" for g
    using claim_from [OF assms(3) that] assms(2,4,5) by (auto simp: held_until_def)
  then show ?thesis
    by auto
qed

lemma claim_extends_held:
  assumes "held_until K t e rs" and "claim n L rs = (got, rs')" and "t \<le> n" and "e \<le> n + lease"
  shows "held_until (K \<union> key ` set got) n e rs'"
  unfolding held_until_def
proof (intro ballI impI allI)
  fix r n'
  assume r: "r \<in> set rs'" "key r \<in> K \<union> key ` set got" and n': "n \<le> n' \<and> n' \<le> e"
  show "\<not> eligible n' r"
  proof (cases "key r \<in> key ` set got")
    case True
    with claim_leased [OF assms(2) r(1)] n' assms(4) show ?thesis
      by simp
  next
    case False
    with claim_frame [OF assms(2) r(1)] r(2) n' assms(1,3) show ?thesis
      by (auto simp: held_until_def)
  qed
qed

lemma run_claims_distinct:
  "distinct (map key rs) \<Longrightarrow> held_until K t e rs \<Longrightarrow> sorted (map fst cs) \<Longrightarrow>
   \<forall>c \<in> set cs. t \<le> fst c \<and> fst c \<le> e \<and> e \<le> fst c + lease \<Longrightarrow>
   run_claims key claim cs rs = (ks, rs') \<Longrightarrow> distinct ks \<and> set ks \<inter> K = {}"
proof (induction cs arbitrary: rs K t ks rs')
  case (Cons c cs)
  obtain n L where c: "c = (n, L)"
    by fastforce
  obtain got rs1 where claim: "claim n L rs = (got, rs1)"
    by fastforce
  obtain ks2 rs2 where rest: "run_claims key claim cs rs1 = (ks2, rs2)"
    by fastforce
  have ks: "ks = map key got @ ks2"
    using Cons.prems(5) claim rest by (simp add: c)
  have n: "t \<le> n" "n \<le> e" "e \<le> n + lease"
    using Cons.prems(4) by (simp_all add: c)
  have d: "distinct (map key rs1)"
    using claim_keys [OF claim] Cons.prems(1) by simp
  have "distinct ks2 \<and> set ks2 \<inter> (K \<union> key ` set got) = {}"
    using Cons.IH [OF d claim_extends_held [OF Cons.prems(2) claim n(1,3)] _ _ rest] Cons.prems(3,4)
    by (auto simp: c)
  moreover have "key ` set got \<inter> K = {}"
    by (rule claim_avoids_held [OF Cons.prems(1,2) claim n(1,2)])
  ultimately show ?case
    using claim_distinct [OF claim Cons.prems(1)] unfolding ks by auto
qed simp

text \<open>Within one lease no row is handed out twice.\<close>

theorem claims_exclusive:
  assumes "distinct (map key rs)" and "sorted (map fst cs)"
    and "\<forall>c \<in> set cs. \<forall>d \<in> set cs. fst d \<le> fst c + lease"
  shows "distinct (fst (run_claims key claim cs rs))"
proof (cases "cs = []")
  case False
  define t e where "t = fst (hd cs)" and "e = fst (last cs)"
  have "\<forall>c \<in> set cs. t \<le> fst c \<and> fst c \<le> e"
    using False sorted_bounds [OF assms(2)] by (simp add: t_def e_def hd_map last_map)
  moreover have "\<forall>c \<in> set cs. e \<le> fst c + lease"
    using assms(3) False by (simp add: e_def)
  ultimately show ?thesis
    using run_claims_distinct [OF assms(1) _ assms(2), of "{}" t e]
    by (cases "run_claims key claim cs rs") (simp add: held_until_def)
qed simp

end

subsection \<open>Claims that stamp the rows they pick\<close>

definition stamp_rows :: "('r \<Rightarrow> 'k) \<Rightarrow> ('r \<Rightarrow> 'r) \<Rightarrow> 'r list \<Rightarrow> 'r list \<Rightarrow> 'r list" where
  "stamp_rows key f picked rs = update_rows (\<lambda>r. key r \<in> key ` set picked) f rs"

text \<open>Select rows, write the claim into each, return them: the shape of both claim operations.\<close>

definition claim_by ::
  "('r \<Rightarrow> 'k) \<Rightarrow> (instant \<Rightarrow> 'k set \<Rightarrow> 'r list \<Rightarrow> 'r list) \<Rightarrow> (instant \<Rightarrow> 'r \<Rightarrow> 'r) \<Rightarrow>
   instant \<Rightarrow> 'k set \<Rightarrow> 'r list \<Rightarrow> 'r list \<times> 'r list" where
  "claim_by key pick stamp now locked rs =
     (let picked = pick now locked rs
      in (map (stamp now) picked, stamp_rows key (stamp now) picked rs))"

lemma in_stamp_rows:
  assumes "\<And>x. key (f x) = key x" and "r \<in> set (stamp_rows key f picked rs)"
  shows "if key r \<in> key ` set picked then \<exists>x \<in> set rs. r = f x \<and> key x = key r else r \<in> set rs"
  using assms by (auto simp: stamp_rows_def in_update_rows split: if_splits)

locale stamped_queue =
  fixes key :: "'r \<Rightarrow> 'k"
    and eligible :: "instant \<Rightarrow> 'r \<Rightarrow> bool"
    and pick :: "instant \<Rightarrow> 'k set \<Rightarrow> 'r list \<Rightarrow> 'r list"
    and stamp :: "instant \<Rightarrow> 'r \<Rightarrow> 'r"
    and lease :: int
  assumes pick_from: "r \<in> set (pick n L rs) \<Longrightarrow> r \<in> set rs \<and> eligible n r \<and> key r \<notin> L"
    and pick_distinct: "distinct (map key rs) \<Longrightarrow> distinct (map key (pick n L rs))"
    and stamp_key: "key (stamp n r) = key r"
    and stamp_leases: "n \<le> n' \<Longrightarrow> n' \<le> n + lease \<Longrightarrow> \<not> eligible n' (stamp n r)"
begin

lemma claim_by_got:
  assumes "claim_by key pick stamp n L rs = (got, rs')"
  shows "got = map (stamp n) (pick n L rs)" and "rs' = stamp_rows key (stamp n) (pick n L rs) rs"
    and "key ` set got = key ` set (pick n L rs)"
  using assms stamp_key by (auto simp: claim_by_def Let_def image_image)

end

sublocale stamped_queue \<subseteq> claim_queue key eligible "claim_by key pick stamp" lease
proof unfold_locales
  fix n L rs got rs' g
  assume c: "claim_by key pick stamp n L rs = (got, rs')"
  note got = claim_by_got [OF c]
  show "key g \<notin> L \<and> (\<exists>r \<in> set rs. key r = key g \<and> eligible n r)" if "g \<in> set got"
    using that pick_from stamp_key unfolding got(1) by auto
  show "distinct (map key got)" if "distinct (map key rs)"
    using pick_distinct [OF that, of n L] stamp_key unfolding got(1) by (simp add: comp_def)
  show "map key rs' = map key rs"
    unfolding got(2) stamp_rows_def by (rule keys_update_rows) (rule stamp_key)
next
  fix n L rs got rs' r n'
  assume c: "claim_by key pick stamp n L rs = (got, rs')" and r: "r \<in> set rs'"
  note got = claim_by_got [OF c]
  note row = in_stamp_rows [of key "stamp n", OF stamp_key r [unfolded got(2)]]
  show "\<not> eligible n' r" if "key r \<in> key ` set got" and "n \<le> n'" and "n' \<le> n + lease"
    using row that stamp_leases unfolding got(3) by auto
  show "r \<in> set rs" if "key r \<notin> key ` set got"
    using row that unfolding got(3) by simp
qed

end
