(* ===== verification/Py_Time.thy ===== *)
theory Py_Time
  imports Py_Text
begin

text \<open>
  Calendar dates and the ISO text of instants: \<^verbatim>\<open>datetime.isoformat()\<close> of a UTC
  time without its microseconds. A day is its number since 1970-01-01 in the proleptic
  Gregorian calendar.
\<close>

definition civil :: "int \<Rightarrow> int \<times> int \<times> int" where
  "civil day =
     (let z = day + 719468; era = z div 146097; doe = z mod 146097;
          yoe = (doe - doe div 1460 + doe div 36524 - doe div 146096) div 365;
          doy = doe - (365 * yoe + yoe div 4 - yoe div 100);
          mp = (5 * doy + 2) div 153;
          m = (if mp < 10 then mp + 3 else mp - 9);
          y = yoe + era * 400 + (if m \<le> 2 then 1 else 0)
      in (y, m, doy - (153 * mp + 2) div 5 + 1))"

definition day_number :: "int \<Rightarrow> int \<Rightarrow> int \<Rightarrow> int" where
  "day_number y m d =
     (let y' = (if m \<le> 2 then y - 1 else y); era = y' div 400; yoe = y' mod 400;
          doy = (153 * (if m > 2 then m - 3 else m + 9) + 2) div 5 + d - 1;
          doe = yoe * 365 + yoe div 4 - yoe div 100 + doy
      in era * 146097 + doe - 719468)"

definition pad :: "nat \<Rightarrow> int \<Rightarrow> pystr" where
  "pad w n = (let s = show_nat n in replicate (w - length s) (CHR ''0'') @ s)"

definition iso_date :: "int \<Rightarrow> pystr" where
  "iso_date day = (case civil day of (y, m, d) \<Rightarrow> pad 4 y @ ''-'' @ pad 2 m @ ''-'' @ pad 2 d)"

text \<open>\<^verbatim>\<open>t.replace(microsecond=0).isoformat()\<close> of a UTC time.\<close>

definition iso_clock :: "instant \<Rightarrow> pystr" where
  "iso_clock t =
     (let s = t div seconds 1; sod = s mod 86400
      in iso_date (s div 86400) @ ''T'' @ pad 2 (sod div 3600) @ '':'' @ pad 2 (sod div 60 mod 60) @
         '':'' @ pad 2 (sod mod 60))"

definition iso_seconds :: "instant \<Rightarrow> pystr" where
  "iso_seconds t = iso_clock t @ ''+00:00''"

text \<open>\<^verbatim>\<open>t.isoformat()\<close> of a UTC time.\<close>

definition iso_format :: "instant \<Rightarrow> pystr" where
  "iso_format t =
     (let us = t mod seconds 1
      in iso_clock t @ (if us = 0 then [] else ''.'' @ pad 6 us) @ ''+00:00'')"

end
