(* ===== verification/Remediation.thy ===== *)
theory Remediation
  imports Work_Queue Py_Time
begin

text \<open>
  The remediation backlog: its rows (\<^verbatim>\<open>models/remediation.py\<close>), the scheduling and
  error policies (\<^verbatim>\<open>reconciliation/remediation/policies.py\<close>) and the repository
  (\<^verbatim>\<open>reconciliation/remediation/backlog.py\<close>): registration with deduplication,
  fair claiming with leases, guarded transitions and clean-up.

  The digest function, the fresh identifiers and the clock are arguments; scores and delays are
  exact rationals where the code computes in floating point.
\<close>

datatype item_status =
  Pending | Processing | Deferred | Retry_wait | Resolved | Failed | Ignored | Manual_review

record item =
  item_id :: pystr
  item_tenant :: pystr
  provider_key :: pystr
  connection_id :: "pystr option"
  target_id :: "pystr option"
  issue_type :: pystr
  affected_entity_type :: pystr
  affected_entity_id :: pystr
  severity :: pystr
  priority :: int
  item_status :: item_status
  first_detected_at :: instant
  last_seen_at :: instant
  next_attempt_at :: instant
  attempt_count :: int
  rate_limit_deferral_count :: int
  remediation_strategy :: pystr
  dedup_key :: pystr
  batch_key :: "pystr option"
  item_context :: "(pystr \<times> pyval) list"
  claim_token :: "pystr option"
  item_claimed_at :: "instant option"
  lease_expires_at :: "instant option"
  last_error :: "pystr option"
  last_error_category :: "pystr option"
  resolved_at :: "instant option"
  verification_count :: int
  verified_at :: "instant option"
  item_updated_at :: instant

subsection \<open>Policies\<close>

definition trunc :: "decimal \<Rightarrow> int" where
  "trunc d = (if 0 \<le> dexp d then dcoeff d * 10 ^ nat (dexp d)
              else sgn (dcoeff d) * (\<bar>dcoeff d\<bar> div 10 ^ nat (- dexp d)))"

text \<open>
  \<^verbatim>\<open>int(value)\<close>; \<open>None\<close> for a \<^verbatim>\<open>TypeError\<close> or \<^verbatim>\<open>ValueError\<close>. The
  \<^verbatim>\<open>OverflowError\<close> of an infinite float, which a JSON column cannot hold, is left out.
\<close>

definition py_int :: "pyval \<Rightarrow> int option" where
  "py_int v =
     (case v of
        PInt n \<Rightarrow> Some n
      | PBool b \<Rightarrow> Some (if b then 1 else 0)
      | PStr s \<Rightarrow> parse_int s
      | PFloat s \<Rightarrow> (case parse_decimal s of Finite d \<Rightarrow> Some (trunc d) | _ \<Rightarrow> None)
      | _ \<Rightarrow> None)"

definition bounded_int :: "pyval \<Rightarrow> int \<Rightarrow> int \<Rightarrow> int" where
  "bounded_int v lo hi = (case py_int v of Some n \<Rightarrow> max lo (min n hi) | None \<Rightarrow> lo)"

definition severity_weight :: "pystr \<Rightarrow> int" where
  "severity_weight s =
     (if s = ''critical'' then 400 else if s = ''error'' then 300
      else if s = ''info'' then 100 else 200)"

definition request_cost :: "(pystr \<times> pyval) list \<Rightarrow> pyval" where
  "request_cost ctx = (case map_of ctx ''request_cost'' of None \<Rightarrow> PInt 0 | Some v \<Rightarrow> v)"

definition age_hours :: "instant \<Rightarrow> instant \<Rightarrow> rat" where
  "age_hours now first = max 0 (of_int (now - first) / of_int (hours 1))"

definition scheduling_score :: "instant \<Rightarrow> item \<Rightarrow> rat" where
  "scheduling_score now i =
     of_int (severity_weight (lower (severity i))) + of_int (bounded_int (PInt (priority i)) (- 1000) 1000)
     + min (age_hours now (first_detected_at i) / 24) 30
     - of_int (bounded_int (PInt (attempt_count i)) 0 10)
     - of_int (bounded_int (request_cost (item_context i)) 0 100)"

text \<open>The exceptions that reach the executor (\<^verbatim>\<open>connectors/exceptions.py\<close>).\<close>

datatype exc =
    RateLimitError (retry_after: "rat option") (exc_text: pystr)
  | TransientError (exc_text: pystr)
  | TimeoutError (exc_text: pystr)
  | ConnectionError (exc_text: pystr)
  | PermanentError (exc_text: pystr)
  | OtherError (exc_text: pystr)

record classification =
  category :: pystr
  class_status :: item_status

definition auth_markers :: "pystr list" where
  "auth_markers = [''auth'', ''credential'', ''access token'', ''api key'', ''401'', ''reauth'']"

definition classify_error :: "exc \<Rightarrow> classification" where
  "classify_error e =
     (case e of
        RateLimitError _ _ \<Rightarrow> \<lparr>category = ''rate_limit'', class_status = Deferred\<rparr>
      | TransientError _ \<Rightarrow> \<lparr>category = ''transient'', class_status = Retry_wait\<rparr>
      | TimeoutError _ \<Rightarrow> \<lparr>category = ''transient'', class_status = Retry_wait\<rparr>
      | ConnectionError _ \<Rightarrow> \<lparr>category = ''transient'', class_status = Retry_wait\<rparr>
      | PermanentError t \<Rightarrow>
          (if list_ex (\<lambda>m. contains m (lower t)) auth_markers
           then \<lparr>category = ''authentication'', class_status = Manual_review\<rparr>
           else \<lparr>category = ''permanent'', class_status = Failed\<rparr>)
      | OtherError _ \<Rightarrow> \<lparr>category = ''internal'', class_status = Failed\<rparr>)"

text \<open>The delay in seconds; \<open>u\<close> is the factor that \<^verbatim>\<open>random.uniform\<close> returns.\<close>

definition retry_delay :: "rat \<Rightarrow> int \<Rightarrow> rat \<Rightarrow> rat \<Rightarrow> rat" where
  "retry_delay u attempt base cap = min cap (base * 2 ^ nat (max 0 (attempt - 1))) * u"

text \<open>\<^verbatim>\<open>timedelta(seconds=x)\<close> in microseconds, rounded half to even.\<close>

definition round_us :: "rat \<Rightarrow> int" where
  "round_us x = (case quotient_of (x * 1000000) of (p, q) \<Rightarrow> half_even p q)"

definition retry_at :: "rat \<Rightarrow> int \<Rightarrow> instant \<Rightarrow> rat \<Rightarrow> rat \<Rightarrow> instant" where
  "retry_at u attempt now base cap = now + round_us (retry_delay u attempt base cap)"

subsection \<open>Registration\<close>

record issue =
  iss_tenant_id :: pystr
  iss_provider_key :: pystr
  iss_type :: pystr
  iss_entity_type :: pystr
  iss_entity_id :: pystr
  iss_severity :: pystr
  iss_priority :: int
  iss_strategy :: pystr
  iss_context :: "(pystr \<times> pyval) list"
  iss_connection_id :: "pystr option"
  iss_target_id :: "pystr option"
  iss_scope :: "pystr option"
  detected_at :: instant

definition stable :: "pystr option \<Rightarrow> pystr" where
  "stable v = (case v of None \<Rightarrow> [] | Some s \<Rightarrow> s)"

definition or_dash :: "pystr \<Rightarrow> pystr" where
  "or_dash s = (if s = [] then ''-'' else s)"

definition dedup_text :: "issue \<Rightarrow> pystr" where
  "dedup_text i =
     join ''|''
       [''dq:v1'',
        ''tenant='' @ lower (strip (iss_tenant_id i)),
        ''connection='' @ or_dash (lower (strip (stable (iss_connection_id i)))),
        ''target='' @ or_dash (lower (strip (stable (iss_target_id i)))),
        ''provider='' @ lower (strip (iss_provider_key i)),
        ''type='' @ lower (strip (iss_type i)),
        ''entity='' @ lower (strip (iss_entity_type i)) @ '':'' @ iss_entity_id i,
        ''scope='' @ (if truthy (iss_scope i) then the (iss_scope i) else iss_entity_id i)]"

definition deduplication_key :: "(pystr \<Rightarrow> pystr) \<Rightarrow> issue \<Rightarrow> pystr" where
  "deduplication_key sha i = sha (dedup_text i)"

definition ctx_str :: "(pystr \<times> pyval) list \<Rightarrow> pystr \<Rightarrow> pystr \<Rightarrow> pystr" where
  "ctx_str ctx k d = (case map_of ctx k of None \<Rightarrow> d | Some v \<Rightarrow> py_str v)"

text \<open>\<^verbatim>\<open>compatibility_key\<close> of \<^verbatim>\<open>batching.py\<close>, on the fields it reads.\<close>

definition compat_text ::
  "pystr \<Rightarrow> pystr option \<Rightarrow> pystr \<Rightarrow> (pystr \<times> pyval) list \<Rightarrow> pystr" where
  "compat_text provider conn strategy ctx =
     join ''|''
       [provider, or_dash (stable conn), strategy,
        ctx_str ctx ''endpoint_family'' ''default'', ctx_str ctx ''auth_scope'' ''-'',
        ctx_str ctx ''currency'' ''-'', ctx_str ctx ''interval'' ''-'',
        ctx_str ctx ''account_id'' ''-'', ctx_str ctx ''provider_account_id'' ''-'',
        ctx_str ctx ''request_shape'' ''default'', ctx_str ctx ''security_id'' ''-'',
        ctx_str ctx ''identifier'' ''-'', ctx_str ctx ''identifier_type'' ''-'',
        ctx_str ctx ''limit'' ''-'']"

definition resolved_grace :: int where
  "resolved_grace = hours 24"

definition is_boundary :: "issue \<Rightarrow> bool" where
  "is_boundary i \<longleftrightarrow> iss_strategy i = ''coverage_boundary''"

definition boundary_text :: pystr where
  "boundary_text =
     ''Provider coverage starts after the analysis window; no missing transaction is proven.''"

definition generation_key :: "(pystr \<Rightarrow> pystr) \<Rightarrow> issue \<Rightarrow> pystr" where
  "generation_key sha i =
     sha (deduplication_key sha i @ ''|generation='' @ iso_seconds (detected_at i))"

definition new_item :: "pystr \<Rightarrow> pystr \<Rightarrow> bool \<Rightarrow> issue \<Rightarrow> item" where
  "new_item uid key generation i =
     \<lparr>item_id = uid, item_tenant = iss_tenant_id i, provider_key = lower (strip (iss_provider_key i)),
      connection_id = iss_connection_id i, target_id = iss_target_id i, issue_type = iss_type i,
      affected_entity_type = iss_entity_type i, affected_entity_id = iss_entity_id i,
      severity = iss_severity i, priority = iss_priority i,
      item_status = (if is_boundary i then Ignored else Pending),
      first_detected_at = detected_at i, last_seen_at = detected_at i,
      next_attempt_at = detected_at i, attempt_count = 0, rate_limit_deferral_count = 0,
      remediation_strategy = iss_strategy i, dedup_key = key,
      batch_key = Some (take 256 (compat_text (iss_provider_key i) (iss_connection_id i)
                                    (iss_strategy i) (iss_context i))),
      item_context = dict_put ''generation'' (PBool generation) (iss_context i),
      claim_token = None, item_claimed_at = None, lease_expires_at = None,
      last_error = (if is_boundary i then Some boundary_text else None),
      last_error_category = (if is_boundary i then Some ''coverage_boundary'' else None),
      resolved_at = (if is_boundary i then Some (detected_at i) else None),
      verification_count = 0, verified_at = None, item_updated_at = detected_at i\<rparr>"

text \<open>\<^verbatim>\<open>ON CONFLICT (tenant, key) DO UPDATE\<close> with the excluded row.\<close>

definition merge_item :: "item \<Rightarrow> item \<Rightarrow> item" where
  "merge_item new old =
     old\<lparr>last_seen_at := last_seen_at new, severity := severity new, priority := priority new,
         remediation_strategy := remediation_strategy new, batch_key := batch_key new,
         item_context := item_context new, item_status := item_status new,
         last_error := last_error new, last_error_category := last_error_category new,
         resolved_at := resolved_at new\<rparr>"

definition same_key :: "item \<Rightarrow> item \<Rightarrow> bool" where
  "same_key a b \<longleftrightarrow> item_tenant a = item_tenant b \<and> dedup_key a = dedup_key b"

definition upsert :: "item \<Rightarrow> item list \<Rightarrow> item list" where
  "upsert new rs =
     (if list_ex (same_key new) rs then update_rows (same_key new) (merge_item new) rs
      else rs @ [new])"

definition find_item :: "pystr \<Rightarrow> pystr \<Rightarrow> item list \<Rightarrow> item option" where
  "find_item tid key rs = find (\<lambda>r. item_tenant r = tid \<and> dedup_key r = key) rs"

definition in_grace :: "instant \<Rightarrow> item \<Rightarrow> bool" where
  "in_grace now r \<longleftrightarrow> (case resolved_at r of None \<Rightarrow> False | Some t \<Rightarrow> now - t \<le> resolved_grace)"

definition register :: "(pystr \<Rightarrow> pystr) \<Rightarrow> pystr \<Rightarrow> issue \<Rightarrow> item list \<Rightarrow> item list" where
  "register sha uid i rs =
     (let now = detected_at i; key = deduplication_key sha i
      in case find_item (iss_tenant_id i) key rs of
           Some old \<Rightarrow>
             if item_status old = Resolved
             then if in_grace now old
                  then update_rows (\<lambda>r. item_id r = item_id old)
                         (\<lambda>r. r\<lparr>last_seen_at := now, item_context := iss_context i,
                                item_updated_at := now\<rparr>) rs
                  else upsert (new_item uid (generation_key sha i)
                                 (generation_key sha i \<noteq> key) i) rs
             else upsert (new_item uid key False i) rs
         | None \<Rightarrow> upsert (new_item uid key False i) rs)"

subsection \<open>Queries\<close>

definition matches :: "'a option \<Rightarrow> 'a \<Rightarrow> bool" where
  "matches want v \<longleftrightarrow> (case want of None \<Rightarrow> True | Some w \<Rightarrow> v = w)"

definition list_for_tenant ::
  "pystr \<Rightarrow> item_status option \<Rightarrow> pystr option \<Rightarrow> pystr option \<Rightarrow> pystr option \<Rightarrow> pystr option \<Rightarrow>
   nat \<Rightarrow> nat \<Rightarrow> item list \<Rightarrow> item list" where
  "list_for_tenant tid st pk ty sev conn lmt off rs =
     take (min lmt 200) (drop off
       (sort_key (\<lambda>r. (- priority r, first_detected_at r))
         (filter (\<lambda>r. item_tenant r = tid \<and> matches st (item_status r) \<and> matches pk (provider_key r) \<and>
                      matches ty (issue_type r) \<and> matches sev (severity r) \<and>
                      (conn = None \<or> connection_id r = conn)) rs)))"

definition get_item :: "pystr \<Rightarrow> pystr \<Rightarrow> item list \<Rightarrow> item option" where
  "get_item tid iid rs = find (\<lambda>r. item_tenant r = tid \<and> item_id r = iid) rs"

subsection \<open>Claiming\<close>

text \<open>
  \<^verbatim>\<open>_fair_interleave\<close>: take the head of every provider's queue, round after round.
\<close>

function rounds :: "'a list list \<Rightarrow> 'a list" where
  "rounds gs =
     (case filter (\<lambda>g. g \<noteq> []) gs of [] \<Rightarrow> []
      | g # gs' \<Rightarrow> map hd (g # gs') @ rounds (map tl (g # gs')))"
  by pat_completeness auto
termination
proof (relation "measure (\<lambda>gs. sum_list (map length gs))", goal_cases)
  case (2 gs g gs')
  have le: "sum_list (map length (filter (\<lambda>g. g \<noteq> []) gs)) \<le> sum_list (map length gs)" for gs :: "'a list list"
    by (induction gs) auto
  have dec: "sum_list (map length (map tl xs)) \<le> sum_list (map length xs)" for xs :: "'a list list"
    by (induction xs) auto
  have "g \<in> set (filter (\<lambda>g. g \<noteq> []) gs)"
    using 2 by simp
  then have "g \<noteq> []"
    by simp
  then have "sum_list (map length (map tl (g # gs'))) < sum_list (map length (g # gs'))"
    using dec [of gs'] by (cases g) auto
  also have "\<dots> \<le> sum_list (map length gs)"
    using le [of gs] 2 by simp
  finally show ?case
    by simp
qed simp

declare rounds.simps [simp del]

definition fair_interleave :: "item list \<Rightarrow> item list" where
  "fair_interleave rs = rounds (map snd (group_by provider_key rs))"

definition active :: "item_status \<Rightarrow> bool" where
  "active s \<longleftrightarrow> s \<in> {Pending, Retry_wait, Deferred}"

definition due :: "instant \<Rightarrow> item \<Rightarrow> bool" where
  "due now r \<longleftrightarrow>
     (active (item_status r) \<or>
      (item_status r = Processing \<and>
       (case lease_expires_at r of None \<Rightarrow> False | Some e \<Rightarrow> e < now))) \<and>
     next_attempt_at r \<le> now"

definition bounded_limit :: "int \<Rightarrow> nat" where
  "bounded_limit lmt = nat (max 1 (min lmt 200))"

definition candidate_limit :: "int \<Rightarrow> nat" where
  "candidate_limit lmt = min (max (bounded_limit lmt * 4) (bounded_limit lmt)) 200"

definition candidates ::
  "pystr option \<Rightarrow> int \<Rightarrow> instant \<Rightarrow> pystr set \<Rightarrow> item list \<Rightarrow> item list" where
  "candidates tid lmt now locked rs =
     take (candidate_limit lmt)
       (sort_key (\<lambda>r. (- priority r, first_detected_at r))
         (filter (\<lambda>r. due now r \<and> matches tid (item_tenant r) \<and> item_id r \<notin> locked) rs))"

definition claim_order :: "instant \<Rightarrow> item \<Rightarrow> rat \<times> instant \<times> pystr" where
  "claim_order now r = (- scheduling_score now r, first_detected_at r, item_id r)"

definition picked ::
  "pystr option \<Rightarrow> int \<Rightarrow> instant \<Rightarrow> pystr set \<Rightarrow> item list \<Rightarrow> item list" where
  "picked tid lmt now locked rs =
     take (bounded_limit lmt)
       (fair_interleave (sort_key (claim_order now) (candidates tid lmt now locked rs)))"

definition claim_item :: "int \<Rightarrow> (instant \<Rightarrow> pystr \<Rightarrow> pystr) \<Rightarrow> instant \<Rightarrow> item \<Rightarrow> item" where
  "claim_item lease tok now r =
     r\<lparr>item_status := Processing, claim_token := Some (tok now (item_id r)), item_claimed_at := Some now,
       lease_expires_at := Some (now + seconds lease), attempt_count := attempt_count r + 1,
       item_updated_at := now\<rparr>"

text \<open>\<open>tok\<close> gives the fresh token of a row claimed at some time (\<^verbatim>\<open>uuid4()\<close>).\<close>

definition claim ::
  "pystr option \<Rightarrow> int \<Rightarrow> int \<Rightarrow> (instant \<Rightarrow> pystr \<Rightarrow> pystr) \<Rightarrow> instant \<Rightarrow> pystr set \<Rightarrow> item list \<Rightarrow> item list \<times> item list" where
  "claim tid lmt lease tok now locked rs =
     claim_by item_id (picked tid lmt) (claim_item lease tok) now locked rs"

definition claim_due ::
  "int \<Rightarrow> int \<Rightarrow> pystr option \<Rightarrow> (instant \<Rightarrow> pystr \<Rightarrow> pystr) \<Rightarrow> instant \<Rightarrow> pystr set \<Rightarrow> item list \<Rightarrow> item list \<times> item list" where
  "claim_due claim_limit lease_seconds tid tok now locked rs =
     claim tid claim_limit lease_seconds tok now locked rs"

subsection \<open>Transitions and clean-up\<close>

datatype backlog_error = ValueError

definition status_of :: "pystr \<Rightarrow> item_status option" where
  "status_of s =
     map_of [(''pending'', Pending), (''processing'', Processing), (''deferred'', Deferred),
             (''retry_wait'', Retry_wait), (''resolved'', Resolved), (''failed'', Failed),
             (''ignored'', Ignored), (''manual_review'', Manual_review)] s"

definition moved_item ::
  "item_status \<Rightarrow> pystr option \<Rightarrow> pystr option \<Rightarrow> instant option \<Rightarrow> bool \<Rightarrow> instant \<Rightarrow> item \<Rightarrow> item" where
  "moved_item s err cat nxt incr now r =
     r\<lparr>item_status := s, last_error := err, last_error_category := cat,
       next_attempt_at := (case nxt of None \<Rightarrow> now | Some t \<Rightarrow> t),
       lease_expires_at := None, claim_token := None,
       rate_limit_deferral_count := rate_limit_deferral_count r + (if incr then 1 else 0),
       resolved_at := (if s = Resolved then Some now else resolved_at r),
       verified_at := (if s = Resolved then Some now else verified_at r),
       item_updated_at := now\<rparr>"

definition transition_guard ::
  "pystr \<Rightarrow> pystr \<Rightarrow> pystr option \<Rightarrow> item_status list option \<Rightarrow> item \<Rightarrow> bool" where
  "transition_guard tid iid tok allowed_from r \<longleftrightarrow>
     item_id r = iid \<and> item_tenant r = tid \<and>
     (case allowed_from of None \<Rightarrow> True | Some ss \<Rightarrow> item_status r \<in> set ss) \<and>
     (tok = None \<or> claim_token r = tok)"

definition transition ::
  "pystr \<Rightarrow> pystr \<Rightarrow> pystr \<Rightarrow> pystr option \<Rightarrow> item_status list option \<Rightarrow> pystr option \<Rightarrow> pystr option \<Rightarrow>
   instant option \<Rightarrow> bool \<Rightarrow> instant \<Rightarrow> item list \<Rightarrow> backlog_error + (bool \<times> item list)" where
  "transition tid iid status tok allowed_from err cat nxt incr now rs =
     (case status_of status of
        None \<Rightarrow> Inl ValueError
      | Some s \<Rightarrow>
          Inr (list_ex (transition_guard tid iid tok allowed_from) rs,
               update_rows (transition_guard tid iid tok allowed_from)
                 (moved_item s err cat nxt incr now) rs))"

definition expired :: "int \<Rightarrow> instant \<Rightarrow> pystr option \<Rightarrow> item \<Rightarrow> bool" where
  "expired retention_days now tid r \<longleftrightarrow>
     item_status r \<in> {Resolved, Ignored} \<and> item_updated_at r < now - days (max 1 retention_days) \<and>
     matches tid (item_tenant r)"

definition cleanup_terminal :: "int \<Rightarrow> instant \<Rightarrow> pystr option \<Rightarrow> item list \<Rightarrow> nat \<times> item list" where
  "cleanup_terminal retention_days now tid rs =
     (length (filter (expired retention_days now tid) rs),
      filter (\<lambda>r. \<not> expired retention_days now tid r) rs)"

record audit_row =
  audit_provider_key :: pystr
  audit_created_at :: instant

definition cleanup_operator_audit :: "int \<Rightarrow> instant \<Rightarrow> audit_row list \<Rightarrow> nat \<times> audit_row list" where
  "cleanup_operator_audit retention_days now rows =
     (let old = (\<lambda>a. audit_provider_key a = ''remediation'' \<and>
                     audit_created_at a < now - days (max 1 retention_days))
      in (length (filter old rows), filter (\<lambda>a. \<not> old a) rows))"

record credential =
  cred_id :: pystr
  cred_tenant :: pystr
  credential_status :: pystr
  reauth_required_at :: "instant option"
  cred_error_category :: "pystr option"
  cred_last_error :: "pystr option"

definition mark_connection_auth_failure ::
  "pystr \<Rightarrow> pystr option \<Rightarrow> pystr \<Rightarrow> instant \<Rightarrow> credential list \<Rightarrow> bool \<times> credential list" where
  "mark_connection_auth_failure tid conn err now cs =
     (case conn of None \<Rightarrow> (False, cs)
      | Some c \<Rightarrow>
          (list_ex (\<lambda>k. cred_tenant k = tid \<and> cred_id k = c) cs,
           update_rows (\<lambda>k. cred_tenant k = tid \<and> cred_id k = c)
             (\<lambda>k. k\<lparr>credential_status := ''reauth_required'', reauth_required_at := Some now,
                    cred_error_category := Some ''authentication'',
                    cred_last_error := Some (take 512 err)\<rparr>) cs))"

end
