(* ===== verification/Remediation_Props.thy ===== *)
theory Remediation_Props
  imports Remediation
begin

text \<open>
  Correctness of the backlog: claims are exclusive leases (through the \<open>stamped_queue\<close>
  contract), claim batches are fair to providers and bounded, registration keeps the
  deduplication key unique, and a worker that lost its claim cannot move an item.
\<close>

subsection \<open>Fair interleaving\<close>

lemma rounds_mset: "mset (rounds gs) = mset (concat gs)"
proof (induction gs rule: rounds.induct)
  case (1 gs)
  have nonempty: "concat gs = concat (filter (\<lambda>g. g \<noteq> []) gs)"
    by (induction gs) auto
  show ?case
  proof (cases "filter (\<lambda>g. g \<noteq> []) gs")
    case Nil
    then show ?thesis
      by (subst rounds.simps, subst nonempty) simp
  next
    case (Cons g gs')
    have ht: "\<forall>x \<in> set xs. x \<noteq> [] \<Longrightarrow> mset (map hd xs @ concat (map tl xs)) = mset (concat xs)"
      for xs :: "'a list list"
    proof (induction xs)
      case (Cons x xs)
      then show ?case
        by (cases x) auto
    qed simp
    have "\<forall>x \<in> set (g # gs'). x \<noteq> []"
      unfolding Cons [symmetric] by simp
    from ht [OF this] 1 [OF Cons] show ?thesis
      by (subst rounds.simps, subst nonempty) (simp add: Cons)
  qed
qed

lemma fair_interleave_mset: "mset (fair_interleave rs) = mset rs"
  by (simp add: fair_interleave_def rounds_mset group_by_mset)

text \<open>How many of a list come from a provider.\<close>

definition of_provider :: "('a \<Rightarrow> 'p) \<Rightarrow> 'p \<Rightarrow> 'a list \<Rightarrow> nat" where
  "of_provider f p xs = length (filter (\<lambda>x. f x = p) xs)"

lemma of_provider_append [simp]: "of_provider f p (xs @ ys) = of_provider f p xs + of_provider f p ys"
  by (simp add: of_provider_def)

text \<open>Queues of distinct providers.\<close>

definition queues :: "('a \<Rightarrow> 'p) \<Rightarrow> 'a list list \<Rightarrow> bool" where
  "queues f gs \<longleftrightarrow> (\<forall>g \<in> set gs. \<forall>x \<in> set g. f x = f (hd g)) \<and>
     distinct (map (\<lambda>g. f (hd g)) (filter (\<lambda>g. g \<noteq> []) gs))"

lemma of_provider_heads:
  "\<forall>g \<in> set gs. g \<noteq> [] \<Longrightarrow> distinct (map (\<lambda>g. f (hd g)) gs) \<Longrightarrow>
   of_provider f p (map hd gs) = (if p \<in> (\<lambda>g. f (hd g)) ` set gs then 1 else 0)"
  by (induction gs) (auto simp: of_provider_def filter_map comp_def)

lemma of_provider_le:
  "distinct (map f xs) \<Longrightarrow> of_provider f p (take k xs) \<le> 1"
proof -
  assume "distinct (map f xs)"
  then have "distinct (map f (take k xs))"
    by (metis distinct_take take_map)
  moreover have "distinct (map f ys) \<Longrightarrow> of_provider f p ys \<le> 1" for ys
    by (induction ys) (auto simp: of_provider_def filter_empty_conv image_iff)
  ultimately show ?thesis
    by blast
qed

lemma queues_tl:
  assumes "queues f gs"
  shows "queues f (map tl (filter (\<lambda>g. g \<noteq> []) gs))"
proof -
  let ?ne = "filter (\<lambda>g. g \<noteq> []) gs"
  have same: "f (hd (tl g)) = f (hd g)" if "g \<in> set gs" "tl g \<noteq> []" for g
  proof -
    have "hd (tl g) \<in> set g"
      using that(2) by (metis hd_in_set list.set_sel(2) tl_Nil)
    with assms that(1) show ?thesis
      by (simp add: queues_def)
  qed
  have "\<forall>g \<in> set (map tl ?ne). \<forall>x \<in> set g. f x = f (hd g)"
  proof (intro ballI)
    fix t x
    assume "t \<in> set (map tl ?ne)" "x \<in> set t"
    then obtain g where g: "g \<in> set gs" "g \<noteq> []" "t = tl g"
      by auto
    then have "x \<in> set g"
      using \<open>x \<in> set t\<close> list.set_sel(2) [OF g(2)] by simp
    then have "f x = f (hd g)"
      using assms g(1) by (simp add: queues_def)
    moreover have "tl g \<noteq> []"
      using \<open>x \<in> set t\<close> g(3) by auto
    ultimately show "f x = f (hd t)"
      using same [OF g(1)] g(3) by simp
  qed
  moreover have "distinct (map (\<lambda>g. f (hd g)) (filter (\<lambda>g. g \<noteq> []) (map tl ?ne)))"
  proof -
    have "map (\<lambda>g. f (hd g)) (filter (\<lambda>g. g \<noteq> []) (map tl xs)) =
        map (\<lambda>g. f (hd g)) (filter (\<lambda>g. tl g \<noteq> []) xs)" if "set xs \<subseteq> set gs" for xs
      using that same by (induction xs) auto
    moreover have "distinct (map (\<lambda>g. f (hd g)) (filter (\<lambda>g. tl g \<noteq> []) ?ne))"
      using assms by (simp add: queues_def distinct_map_filter del: filter_filter)
    ultimately show ?thesis
      by simp
  qed
  ultimately show ?thesis
    by (simp add: queues_def)
qed

lemma rounds_fair:
  "queues f gs \<Longrightarrow> of_provider f p (take k (rounds gs)) < of_provider f p (rounds gs) \<Longrightarrow>
   of_provider f q (take k (rounds gs)) \<le> of_provider f p (take k (rounds gs)) + 1"
proof (induction gs arbitrary: k rule: rounds.induct)
  case (1 gs)
  let ?ne = "filter (\<lambda>g. g \<noteq> []) gs"
  show ?case
  proof (cases ?ne)
    case Nil
    then have "rounds gs = []"
      by (subst rounds.simps) simp
    with 1 show ?thesis
      by simp
  next
    case (Cons g gs')
    have r: "rounds gs = map hd ?ne @ rounds (map tl ?ne)"
      by (subst rounds.simps) (simp add: Cons)
    have ne: "\<forall>g \<in> set ?ne. g \<noteq> []" and d: "distinct (map (\<lambda>g. f (hd g)) ?ne)"
      using "1.prems"(1) by (simp_all add: queues_def)
    show ?thesis
    proof (cases "k \<le> length ?ne")
      case True
      then have "take k (rounds gs) = take k (map hd ?ne)"
        by (simp add: r)
      moreover have "of_provider f q (take k (map hd ?ne)) \<le> 1"
        by (rule of_provider_le) (use d in \<open>simp add: comp_def\<close>)
      ultimately show ?thesis
        by simp
    next
      case False
      let ?k = "k - length ?ne"
      have t: "take k (rounds gs) = map hd ?ne @ take ?k (rounds (map tl ?ne))"
        using False by (simp add: r)
      have p: "of_provider f p (take ?k (rounds (map tl ?ne))) < of_provider f p (rounds (map tl ?ne))"
        using "1.prems"(2) [unfolded t, unfolded r] by simp
      have IH: "of_provider f q (take ?k (rounds (map tl ?ne))) \<le>
          of_provider f p (take ?k (rounds (map tl ?ne))) + 1"
        using "1.IH" [OF Cons, of ?k] queues_tl [OF "1.prems"(1)] p unfolding Cons by simp
      have "p \<in> (\<lambda>g. f (hd g)) ` set ?ne"
      proof -
        have "\<exists>x \<in> set (rounds (map tl ?ne)). f x = p"
          using p by (auto simp: of_provider_def length_greater_0_conv [symmetric] filter_empty_conv
              simp del: length_greater_0_conv dest!: gr_implies_not0)
        then obtain x where x: "x \<in> set (rounds (map tl ?ne))" "f x = p"
          by blast
        then have "x \<in> set (concat (map tl ?ne))"
          using rounds_mset [of "map tl ?ne"] by (metis set_mset_mset)
        then obtain g where g: "g \<in> set ?ne" "x \<in> set (tl g)"
          by auto
        then have "x \<in> set g" "g \<in> set gs"
          using list.set_sel(2) by fastforce+
        then have "f x = f (hd g)"
          using "1.prems"(1) by (simp add: queues_def)
        with g(1) x(2) show ?thesis
          by auto
      qed
      then have "of_provider f p (map hd ?ne) = 1" "of_provider f q (map hd ?ne) \<le> 1"
        using of_provider_heads [OF ne d] by simp_all
      with IH show ?thesis
        unfolding t by simp
    qed
  qed
qed

lemma queues_groups: "queues provider_key (map snd (group_by provider_key rs))"
proof -
  let ?gs = "group_by provider_key rs"
  have g: "snd x \<noteq> [] \<and> (\<forall>y \<in> set (snd x). provider_key y = fst x)" if "x \<in> set ?gs" for x
    using group_by_inv [of provider_key rs] that by (cases x) auto
  then have h: "provider_key (hd (snd x)) = fst x" if "x \<in> set ?gs" for x
    using that hd_in_set by blast
  have "filter (\<lambda>g. snd g \<noteq> []) ?gs = ?gs"
    using g by (simp add: filter_id_conv)
  then have "map (\<lambda>g. provider_key (hd g)) (filter (\<lambda>g. g \<noteq> []) (map snd ?gs)) = map fst ?gs"
    using h by (simp add: filter_map comp_def)
  then have "distinct (map (\<lambda>g. provider_key (hd g)) (filter (\<lambda>g. g \<noteq> []) (map snd ?gs)))"
    by (simp only: group_by_distinct)
  moreover have "\<forall>g \<in> set (map snd ?gs). \<forall>x \<in> set g. provider_key x = provider_key (hd g)"
    using g by (auto simp: hd_in_set)
  ultimately show ?thesis
    by (simp add: queues_def)
qed

lemma fair_interleave_fair:
  assumes "of_provider provider_key p (take k (fair_interleave rs)) < of_provider provider_key p rs"
  shows "of_provider provider_key q (take k (fair_interleave rs)) \<le>
    of_provider provider_key p (take k (fair_interleave rs)) + 1"
proof -
  have "of_provider provider_key p (fair_interleave rs) = of_provider provider_key p rs"
    using fair_interleave_mset [of rs] unfolding of_provider_def
    by (metis mset_filter size_mset)
  with assms show ?thesis
    unfolding fair_interleave_def by (intro rounds_fair [OF queues_groups]) simp
qed

subsection \<open>Claims\<close>

lemma set_fair_interleave [simp]: "set (fair_interleave rs) = set rs"
  using fair_interleave_mset by (metis set_mset_mset)

lemma picked_from:
  "r \<in> set (picked tid lmt now locked rs) \<Longrightarrow>
   r \<in> set rs \<and> due now r \<and> item_id r \<notin> locked \<and> matches tid (item_tenant r)"
  unfolding picked_def by (drule in_set_takeD) (auto simp: candidates_def dest: in_set_takeD)

lemma picked_distinct:
  assumes "distinct (map item_id rs)"
  shows "distinct (map item_id (picked tid lmt now locked rs))"
proof -
  have c: "distinct (map item_id (candidates tid lmt now locked rs))"
    using assms by (simp add: candidates_def take_map [symmetric] distinct_map inj_on_def)
  have "mset (map item_id (fair_interleave (sort_key (claim_order now) (candidates tid lmt now locked rs)))) =
      mset (map item_id (candidates tid lmt now locked rs))"
    by (simp add: fair_interleave_mset)
  then have "distinct (map item_id (fair_interleave (sort_key (claim_order now) (candidates tid lmt now locked rs))))"
    using c mset_eq_imp_distinct_iff by blast
  then show ?thesis
    by (simp add: picked_def take_map [symmetric])
qed

lemma claim_item_simps [simp]:
  "item_id (claim_item lease tok now r) = item_id r"
  "item_tenant (claim_item lease tok now r) = item_tenant r"
  "provider_key (claim_item lease tok now r) = provider_key r"
  "dedup_key (claim_item lease tok now r) = dedup_key r"
  "claim_token (claim_item lease tok now r) = Some (tok now (item_id r))"
  by (simp_all add: claim_item_def)

interpretation backlog_queue: stamped_queue item_id due "picked tid lmt" "claim_item lease tok" "seconds lease"
  for tid lmt lease tok
  by unfold_locales
     (auto dest: picked_from intro: picked_distinct simp: due_def claim_item_def active_def)

lemma claim_fun: "claim tid lmt lease tok = claim_by item_id (picked tid lmt) (claim_item lease tok)"
  by (intro ext) (simp add: claim_def)

text \<open>
  C8. Claims do not overlap: in a sequence of nothing but claims, by any number of workers within one
  lease, the items handed out are pairwise different, whatever rows are locked. A detection in between
  breaks this: registering the item again sets it back to pending under its running lease
  (\<open>registration_breaks_lease\<close>).
\<close>

theorem backlog_claims_exclusive:
  assumes "distinct (map item_id rs)" and "sorted (map fst cs)"
    and "\<forall>c \<in> set cs. \<forall>d \<in> set cs. fst d \<le> fst c + seconds lease"
  shows "distinct (fst (run_claims item_id (claim tid lmt lease tok) cs rs))"
  unfolding claim_fun by (rule backlog_queue.claims_exclusive [OF assms])

definition sample_item :: "pystr \<Rightarrow> pystr \<Rightarrow> item_status \<Rightarrow> instant option \<Rightarrow> pystr option \<Rightarrow> item" where
  "sample_item i pk s lease tok =
     \<lparr>item_id = i, item_tenant = ''T'', provider_key = pk, connection_id = None, target_id = None,
      issue_type = ''gap'', affected_entity_type = ''account'', affected_entity_id = i,
      severity = ''warning'', priority = 0, item_status = s, first_detected_at = 0, last_seen_at = 0,
      next_attempt_at = 0, attempt_count = 0, rate_limit_deferral_count = 0,
      remediation_strategy = ''refetch'', dedup_key = i, batch_key = None, item_context = [],
      claim_token = tok, item_claimed_at = None, lease_expires_at = lease, last_error = None,
      last_error_category = None, resolved_at = None, verification_count = 0, verified_at = None,
      item_updated_at = 0\<rparr>"

definition sample_backlog :: "item list" where
  "sample_backlog =
     [sample_item ''a'' ''p'' Pending None None, sample_item ''b'' ''p'' Retry_wait None None,
      sample_item ''c'' ''q'' Processing (Some 5) (Some ''t''), sample_item ''d'' ''p'' Failed None None]"

definition sample_token :: "instant \<Rightarrow> pystr \<Rightarrow> pystr" where
  "sample_token now i = i @ show_int now"

definition lone_backlog :: "item list" where
  "lone_backlog = [sample_item ''a'' ''p'' Pending None None]"

theorem backlog_claims_exclusive_witness:
  "distinct (fst (run_claims item_id (claim None 2 300 sample_token)
     [(seconds 10, {}), (seconds 20, {})] lone_backlog)) \<and>
   length (fst (run_claims item_id (claim None 2 300 sample_token)
     [(seconds 10, {}), (seconds 20, {})] lone_backlog)) = 1"
proof
  have d: "distinct (map item_id lone_backlog)"
    by code_simp
  show "distinct (fst (run_claims item_id (claim None 2 300 sample_token)
      [(seconds 10, {}), (seconds 20, {})] lone_backlog))"
    by (rule backlog_claims_exclusive [OF d]) simp_all
  show "length (fst (run_claims item_id (claim None 2 300 sample_token)
      [(seconds 10, {}), (seconds 20, {})] lone_backlog)) = 1"
    by code_simp
qed

text \<open>
  A claim is bounded and fair: it takes at most the requested number of items and never
  more than 200, and if some candidate of a provider is left behind then no other provider got
  more than one item more than that provider.
\<close>

theorem claim_bounded_and_fair:
  assumes "claim tid lmt lease tok now locked rs = (got, rs')"
  shows "length got \<le> nat (max 1 (min lmt 200)) \<and>
    (of_provider provider_key p got < of_provider provider_key p (candidates tid lmt now locked rs) \<longrightarrow>
     of_provider provider_key q got \<le> of_provider provider_key p got + 1)"
proof -
  let ?c = "sort_key (claim_order now) (candidates tid lmt now locked rs)"
  have got: "got = map (claim_item lease tok now) (take (bounded_limit lmt) (fair_interleave ?c))"
    using assms by (simp add: claim_def claim_by_def Let_def picked_def)
  have n: "of_provider provider_key x got =
      of_provider provider_key x (take (bounded_limit lmt) (fair_interleave ?c))" for x
    by (simp add: got of_provider_def filter_map comp_def)
  have "of_provider provider_key p ?c = of_provider provider_key p (candidates tid lmt now locked rs)"
    unfolding of_provider_def by (metis mset_filter mset_sort size_mset)
  then show ?thesis
    using fair_interleave_fair [of p "bounded_limit lmt" ?c q] unfolding n
    by (simp add: got bounded_limit_def)
qed

theorem claim_bounded_and_fair_witness:
  "\<exists>got rs'. claim None 2 300 sample_token (seconds 10) {} sample_backlog = (got, rs') \<and>
     length got \<le> 2 \<and> of_provider provider_key ''q'' got \<le> of_provider provider_key ''p'' got + 1"
proof -
  obtain got rs' where c: "claim None 2 300 sample_token (seconds 10) {} sample_backlog = (got, rs')"
    by fastforce
  have "of_provider provider_key ''p'' (fst (claim None 2 300 sample_token (seconds 10) {} sample_backlog)) <
      of_provider provider_key ''p'' (candidates None 2 (seconds 10) {} sample_backlog)"
    by code_simp
  with claim_bounded_and_fair [OF c, of "''p''" "''q''"] c show ?thesis
    by (intro exI [of _ got] exI [of _ rs']) simp
qed

subsection \<open>A lost claim\<close>

text \<open>
  A worker whose item has been claimed again cannot move it any more: its transition,
  guarded by the token of its own claim, reports failure and changes nothing.
\<close>

theorem lost_claim_cannot_transition:
  assumes "distinct (map item_id rs)"
    and "claim tid1 lmt1 lease1 tok n1 locked1 rs = (got1, rs1)" and "g \<in> set got1"
    and "distinct (map item_id rs1)"
    and "claim tid2 lmt2 lease2 tok n2 locked2 rs1 = (got2, rs2)" and "item_id g \<in> item_id ` set got2"
    and "tok n1 (item_id g) \<noteq> tok n2 (item_id g)" and "status_of status \<noteq> None"
  shows "claim_token g = Some (tok n1 (item_id g)) \<and>
    transition tid (item_id g) status (claim_token g) allowed err cat nxt incr now rs2 = Inr (False, rs2)"
proof -
  have tok: "claim_token g = Some (tok n1 (item_id g))"
    using assms(2,3) by (auto simp: claim_def claim_by_def Let_def)
  have "claim_token r = Some (tok n2 (item_id g))" if r: "r \<in> set rs2" "item_id r = item_id g" for r
  proof -
    note got = backlog_queue.claim_by_got [OF assms(5) [unfolded claim_def]]
    have "r \<in> set (stamp_rows item_id (claim_item lease2 tok n2) (picked tid2 lmt2 n2 locked2 rs1) rs1)"
      using r(1) got(2) by simp
    from in_stamp_rows [OF _ this] r(2) assms(6) show ?thesis
      unfolding got(3) by auto
  qed
  then have "\<not> transition_guard tid (item_id g) (claim_token g) allowed r" if "r \<in> set rs2" for r
    using that tok assms(7) by (auto simp: transition_guard_def)
  then have "update_rows (transition_guard tid (item_id g) (claim_token g) allowed) f rs2 = rs2"
      "\<not> list_ex (transition_guard tid (item_id g) (claim_token g) allowed) rs2" for f
    by (auto simp: update_rows_def list_ex_iff intro!: map_idI)
  then show ?thesis
    using tok assms(8) by (auto simp: transition_def split: option.splits)
qed

theorem lost_claim_cannot_transition_witness:
  "\<exists>(g :: item) rs2. claim_token g = Some (sample_token (seconds 10) ''a'') \<and>
     transition ''T'' ''a'' ''resolved'' (claim_token g) None None None None False (seconds 700) rs2 =
       Inr (False, rs2)"
proof -
  let ?g = "claim_item 300 sample_token (seconds 10) (sample_item ''a'' ''p'' Pending None None)"
  obtain got1 rs1 where c1: "claim None 9 300 sample_token (seconds 10) {} lone_backlog = (got1, rs1)"
    by fastforce
  obtain got2 rs2 where c2: "claim None 9 300 sample_token (seconds 600) {} rs1 = (got2, rs2)"
    by fastforce
  have h: "distinct (map item_id lone_backlog)"
    "?g \<in> set (fst (claim None 9 300 sample_token (seconds 10) {} lone_backlog))"
    "distinct (map item_id (snd (claim None 9 300 sample_token (seconds 10) {} lone_backlog)))"
    "item_id ?g \<in> item_id ` set (fst (claim None 9 300 sample_token (seconds 600) {}
       (snd (claim None 9 300 sample_token (seconds 10) {} lone_backlog))))"
    "sample_token (seconds 10) (item_id ?g) \<noteq> sample_token (seconds 600) (item_id ?g)"
    "status_of ''resolved'' \<noteq> None" "item_id ?g = ''a''"
    by code_simp+
  have "claim_token ?g = Some (sample_token (seconds 10) (item_id ?g)) \<and>
     transition ''T'' (item_id ?g) ''resolved'' (claim_token ?g) None None None None False (seconds 700) rs2 =
       Inr (False, rs2)"
    using h c1 c2 by (intro lost_claim_cannot_transition [OF _ c1 _ _ c2]) simp_all
  then show ?thesis
    unfolding h(7) by (intro exI [of _ ?g] exI [of _ rs2])
qed

end
