(* ===== verification/Remediation_Registry.thy ===== *)
theory Remediation_Registry
  imports Remediation_Props
begin

text \<open>
  Registration and the life of the backlog: the reachable states keep identifiers and
  deduplication keys unique; and two ways in which registration breaks what the backlog
  promises, by handing leased work out again and by piling up generations.
\<close>

definition key_of :: "item \<Rightarrow> pystr \<times> pystr" where
  "key_of r = (item_tenant r, dedup_key r)"

definition item_ok :: "item \<Rightarrow> bool" where
  "item_ok r \<longleftrightarrow> (item_status r = Resolved \<longrightarrow> resolved_at r \<noteq> None)"

definition backlog_inv :: "item list \<Rightarrow> bool" where
  "backlog_inv rs \<longleftrightarrow> distinct (map item_id rs) \<and> distinct (map key_of rs) \<and> (\<forall>r \<in> set rs. item_ok r)"

text \<open>Steps of the backlog by detectors, planners, executors and the retention job.\<close>

inductive backlog_step :: "(pystr \<Rightarrow> pystr) \<Rightarrow> item list \<Rightarrow> item list \<Rightarrow> bool" for sha where
  detect: "uid \<notin> item_id ` set rs \<Longrightarrow> backlog_step sha rs (register sha uid i rs)"
| lease: "claim tid lmt lease_s tok now locked rs = (got, rs') \<Longrightarrow> backlog_step sha rs rs'"
| move: "transition tid iid status tok allowed err cat nxt incr now rs = Inr (ok, rs') \<Longrightarrow>
     backlog_step sha rs rs'"
| clean: "backlog_step sha rs (snd (cleanup_terminal d now tid rs))"

inductive_cases backlog_step_cases: "backlog_step sha rs rs'"

lemma backlog_inv_update:
  assumes "backlog_inv rs" and "\<And>r. item_id (f r) = item_id r" and "\<And>r. key_of (f r) = key_of r"
    and "\<And>r. item_ok r \<Longrightarrow> item_ok (f r)"
  shows "backlog_inv (update_rows P f rs)"
  using assms keys_update_rows [of item_id f P rs] keys_update_rows [of key_of f P rs]
  by (auto simp: backlog_inv_def in_update_rows)

lemma same_key_iff: "same_key a b \<longleftrightarrow> key_of a = key_of b"
  by (auto simp: same_key_def key_of_def)

lemma merge_item_simps [simp]:
  "item_id (merge_item new r) = item_id r" "key_of (merge_item new r) = key_of r"
  by (simp_all add: merge_item_def key_of_def)

lemma backlog_inv_upsert:
  assumes "backlog_inv rs" and "item_id new \<notin> item_id ` set rs" and "item_ok new"
  shows "backlog_inv (upsert new rs)"
proof (cases "list_ex (same_key new) rs")
  case True
  have "item_ok (merge_item new r)" for r
    using assms(3) by (simp add: item_ok_def merge_item_def)
  then show ?thesis
    using True assms(1) by (simp add: upsert_def backlog_inv_update)
next
  case False
  then have "key_of new \<notin> key_of ` set rs"
    by (auto simp: list_ex_iff same_key_iff)
  then show ?thesis
    using False assms by (auto simp: upsert_def backlog_inv_def)
qed

lemma new_item_ok: "item_ok (new_item uid key g i)"
  by (simp add: item_ok_def new_item_def)

lemma new_item_id [simp]: "item_id (new_item uid key g i) = uid"
  by (simp add: new_item_def)

lemma backlog_inv_register:
  assumes "backlog_inv rs" and "uid \<notin> item_id ` set rs"
  shows "backlog_inv (register sha uid i rs)"
proof -
  have "backlog_inv (update_rows P (\<lambda>r. r\<lparr>last_seen_at := a, item_context := c, item_updated_at := t\<rparr>) rs)" for P a c t
    by (rule backlog_inv_update [OF assms(1)]) (simp_all add: key_of_def item_ok_def)
  moreover have "backlog_inv (upsert (new_item uid key g i) rs)" for key g
    using assms new_item_ok by (intro backlog_inv_upsert) simp_all
  ultimately show ?thesis
    by (simp add: register_def Let_def split: option.split)
qed

lemma backlog_step_inv: "backlog_step sha rs rs' \<Longrightarrow> backlog_inv rs \<Longrightarrow> backlog_inv rs'"
proof (induction rule: backlog_step.induct)
  case (detect uid rs i)
  then show ?case
    by (simp add: backlog_inv_register)
next
  case (lease tid lmt lease_s tok now locked rs got rs')
  have "rs' = update_rows (\<lambda>r. item_id r \<in> item_id ` set (picked tid lmt now locked rs))
      (claim_item lease_s tok now) rs"
    using lease.hyps by (simp add: claim_def claim_by_def Let_def stamp_rows_def)
  then show ?case
    using lease.prems by (simp add: backlog_inv_update key_of_def item_ok_def claim_item_def)
next
  case (move tid iid status tok allowed err cat nxt incr now rs ok rs')
  obtain s where "rs' = update_rows (transition_guard tid iid tok allowed) (moved_item s err cat nxt incr now) rs"
    using move.hyps by (auto simp: transition_def split: option.splits)
  then show ?case
    using move.prems by (simp add: backlog_inv_update key_of_def item_ok_def moved_item_def)
next
  case (clean rs d now tid)
  then show ?case
    by (auto simp: backlog_inv_def cleanup_terminal_def distinct_map_filter)
qed

text \<open>
  In every state that registrations, claims, transitions and clean-ups can reach from an
  empty backlog, in any order: item identifiers are unique, no tenant has two items with the same
  deduplication key, and a resolved item carries its resolution time.
\<close>

theorem backlog_reachable_invariant:
  assumes "(backlog_step sha)\<^sup>*\<^sup>* [] rs"
  shows "distinct (map item_id rs) \<and> distinct (map key_of rs) \<and>
    (\<forall>r \<in> set rs. item_status r = Resolved \<longrightarrow> resolved_at r \<noteq> None)"
proof -
  have "backlog_inv rs"
    using assms
  proof (induction rule: rtranclp_induct)
    case base
    then show ?case
      by (simp add: backlog_inv_def)
  next
    case (step rs rs')
    then show ?case
      by (blast intro: backlog_step_inv)
  qed
  then show ?thesis
    by (simp add: backlog_inv_def item_ok_def)
qed

definition sample_issue :: "instant \<Rightarrow> issue" where
  "sample_issue at_time =
     \<lparr>iss_tenant_id = ''T'', iss_provider_key = ''p'', iss_type = ''gap'', iss_entity_type = ''account'',
      iss_entity_id = ''a'', iss_severity = ''warning'', iss_priority = 0, iss_strategy = ''refetch'',
      iss_context = [], iss_connection_id = None, iss_target_id = None, iss_scope = None,
      detected_at = at_time\<rparr>"

theorem backlog_reachable_invariant_witness:
  "length (register id ''u2'' (sample_issue 9) (register id ''u1'' (sample_issue 0) [])) = 1 \<and>
   distinct (map key_of (register id ''u2'' (sample_issue 9) (register id ''u1'' (sample_issue 0) [])))"
proof
  show "length (register id ''u2'' (sample_issue 9) (register id ''u1'' (sample_issue 0) [])) = 1"
    by code_simp
  have "backlog_step id [] (register id ''u1'' (sample_issue 0) [])"
    by (rule backlog_step.detect) simp
  moreover have "backlog_step id (register id ''u1'' (sample_issue 0) [])
      (register id ''u2'' (sample_issue 9) (register id ''u1'' (sample_issue 0) []))"
    by (rule backlog_step.detect) code_simp
  ultimately have "(backlog_step id)\<^sup>*\<^sup>* []
      (register id ''u2'' (sample_issue 9) (register id ''u1'' (sample_issue 0) []))"
    by (meson converse_rtranclp_into_rtranclp rtranclp.rtrancl_refl)
  then show "distinct (map key_of (register id ''u2'' (sample_issue 9) (register id ''u1'' (sample_issue 0) [])))"
    using backlog_reachable_invariant by blast
qed

subsection \<open>Registration of work in progress\<close>

lemma find_item_unique:
  assumes "distinct (map key_of rs)" and "r \<in> set rs" and "key_of r = (tid, k)"
  shows "find_item tid k rs = Some r"
  using assms unfolding find_item_def
proof (induction rs)
  case (Cons x rs)
  then show ?case
    by (cases "x = r") (auto simp: key_of_def image_iff)
qed simp

text \<open>
  Detecting an issue again while its item is being worked on makes the item claimable at
  once: the conflicting insert resets the status to pending although the lease of the current
  worker has not expired, so a second worker can claim it.
\<close>

theorem registration_breaks_lease:
  assumes "distinct (map key_of rs)" and "r \<in> set rs" and "item_status r = Processing"
    and "key_of r = (iss_tenant_id i, deduplication_key sha i)" and "\<not> is_boundary i"
    and "next_attempt_at r \<le> now"
  shows "\<exists>r' \<in> set (register sha uid i rs). item_id r' = item_id r \<and> due now r' \<and>
    lease_expires_at r' = lease_expires_at r \<and> claim_token r' = claim_token r"
proof -
  let ?new = "new_item uid (deduplication_key sha i) False i"
  have "key_of ?new = key_of r"
    using assms(4) by (simp add: key_of_def new_item_def)
  then have same: "same_key ?new r"
    by (simp add: same_key_iff)
  then have "register sha uid i rs = update_rows (same_key ?new) (merge_item ?new) rs"
    using find_item_unique [OF assms(1,2,4)] assms(2,3)
    by (auto simp: register_def Let_def upsert_def list_ex_iff)
  then have "merge_item ?new r \<in> set (register sha uid i rs)"
    using assms(2) same by (auto simp: in_update_rows)
  moreover have "due now (merge_item ?new r)"
    using assms(5,6) by (simp add: due_def active_def merge_item_def new_item_def)
  ultimately show ?thesis
    by (intro bexI [of _ "merge_item ?new r"]) (simp_all add: merge_item_def)
qed

definition busy_item :: item where
  "busy_item = (sample_item ''a'' ''p'' Processing (Some (seconds 300)) (Some ''t''))
     \<lparr>dedup_key := deduplication_key id (sample_issue 0)\<rparr>"

theorem registration_breaks_lease_witness:
  "\<exists>r' \<in> set (register id ''u'' (sample_issue 9) [busy_item]).
     item_id r' = item_id busy_item \<and> due 10 r' \<and> lease_expires_at r' = lease_expires_at busy_item \<and>
     claim_token r' = claim_token busy_item"
proof -
  have "distinct (map key_of [busy_item])" "busy_item \<in> set [busy_item]" "item_status busy_item = Processing"
    "key_of busy_item = (iss_tenant_id (sample_issue 9), deduplication_key id (sample_issue 9))"
    "\<not> is_boundary (sample_issue 9)" "next_attempt_at busy_item \<le> 10"
    by code_simp+
  then show ?thesis
    by (rule registration_breaks_lease)
qed

definition fresh_key :: "pystr \<Rightarrow> pystr \<Rightarrow> item list \<Rightarrow> bool" where
  "fresh_key tid k rs \<longleftrightarrow> (\<forall>r \<in> set rs. key_of r \<noteq> (tid, k))"

lemma find_append_old: "find_item tid k rs = Some old \<Longrightarrow> find_item tid k (rs @ xs) = Some old"
  unfolding find_item_def by (induction rs) (auto split: if_splits)

lemma register_new_generation:
  assumes "find_item (iss_tenant_id i) (deduplication_key sha i) rs = Some old"
    and "item_status old = Resolved" and "\<not> in_grace (detected_at i) old"
    and "fresh_key (iss_tenant_id i) (generation_key sha i) rs"
  shows "\<exists>new. register sha uid i rs = rs @ [new] \<and> key_of new = (iss_tenant_id i, generation_key sha i)"
proof -
  let ?new = "new_item uid (generation_key sha i) (generation_key sha i \<noteq> deduplication_key sha i) i"
  have k: "key_of ?new = (iss_tenant_id i, generation_key sha i)"
    by (simp add: key_of_def new_item_def)
  then have "\<not> list_ex (same_key ?new) rs"
    using assms(4) by (auto simp: list_ex_iff same_key_iff fresh_key_def)
  then have "register sha uid i rs = rs @ [?new]"
    using assms(1-3) by (simp add: register_def Let_def upsert_def)
  with k show ?thesis
    by blast
qed

text \<open>
  An issue that comes back after the grace period is not deduplicated any more: the lookup
  uses the key of the first generation, the insert a key with the second of detection, so every
  further detection adds another item.
\<close>

theorem returning_issue_piles_up:
  assumes "find_item (iss_tenant_id i) (deduplication_key sha i) rs = Some old"
    and "item_status old = Resolved" and "\<not> in_grace (detected_at i) old" and "\<not> in_grace later old"
    and "fresh_key (iss_tenant_id i) (generation_key sha i) rs"
    and "fresh_key (iss_tenant_id i) (generation_key sha (i\<lparr>detected_at := later\<rparr>)) rs"
    and "generation_key sha i \<noteq> generation_key sha (i\<lparr>detected_at := later\<rparr>)"
  shows "length (register sha u2 (i\<lparr>detected_at := later\<rparr>) (register sha u1 i rs)) = length rs + 2"
proof -
  let ?j = "i\<lparr>detected_at := later\<rparr>"
  obtain new where r1: "register sha u1 i rs = rs @ [new]"
    and k: "key_of new = (iss_tenant_id i, generation_key sha i)"
    using register_new_generation [OF assms(1,2,3,5)] by blast
  have j: "deduplication_key sha ?j = deduplication_key sha i" "iss_tenant_id ?j = iss_tenant_id i"
    by (simp_all add: deduplication_key_def dedup_text_def)
  have "find_item (iss_tenant_id ?j) (deduplication_key sha ?j) (rs @ [new]) = Some old"
    unfolding j by (rule find_append_old [OF assms(1)])
  moreover have "fresh_key (iss_tenant_id ?j) (generation_key sha ?j) (rs @ [new])"
    using assms(6,7) k by (simp add: fresh_key_def)
  ultimately obtain new2 where "register sha u2 ?j (rs @ [new]) = (rs @ [new]) @ [new2]"
    using register_new_generation [of ?j sha "rs @ [new]" old u2] assms(2,4) by auto
  then show ?thesis
    by (simp add: r1)
qed

definition resolved_item :: item where
  "resolved_item = (sample_item ''a'' ''p'' Resolved None None)
     \<lparr>dedup_key := deduplication_key id (sample_issue 0), resolved_at := Some 0\<rparr>"

theorem returning_issue_piles_up_witness:
  "length (register id ''u2'' ((sample_issue (days 2))\<lparr>detected_at := days 3\<rparr>)
     (register id ''u1'' (sample_issue (days 2)) [resolved_item])) = 3"
proof -
  have "find_item (iss_tenant_id (sample_issue (days 2))) (deduplication_key id (sample_issue (days 2)))
      [resolved_item] = Some resolved_item"
    "item_status resolved_item = Resolved" "\<not> in_grace (detected_at (sample_issue (days 2))) resolved_item"
    "\<not> in_grace (days 3) resolved_item"
    "fresh_key (iss_tenant_id (sample_issue (days 2))) (generation_key id (sample_issue (days 2))) [resolved_item]"
    "fresh_key (iss_tenant_id (sample_issue (days 2)))
       (generation_key id ((sample_issue (days 2))\<lparr>detected_at := days 3\<rparr>)) [resolved_item]"
    "generation_key id (sample_issue (days 2)) \<noteq> generation_key id ((sample_issue (days 2))\<lparr>detected_at := days 3\<rparr>)"
    by code_simp+
  from returning_issue_piles_up [OF this] show ?thesis
    by simp
qed

end
