(* ===== verification/Redis.thy ===== *)
theory Redis
  imports Prelude
begin

text \<open>
  The part of Redis the program uses: string keys with integer values and an optional expiry.
  Expired keys are absent. One command is one step.
\<close>

type_synonym redis = "pystr \<Rightarrow> (int \<times> instant option) option"

definition live :: "instant \<Rightarrow> redis \<Rightarrow> pystr \<Rightarrow> int option" where
  "live now db k =
     (case db k of None \<Rightarrow> None
      | Some (v, None) \<Rightarrow> Some v
      | Some (v, Some e) \<Rightarrow> if now < e then Some v else None)"

text \<open>\<^verbatim>\<open>TTL\<close>: seconds to live, rounded; \<open>-1\<close> without expiry, \<open>-2\<close> without key.\<close>

definition ttl :: "instant \<Rightarrow> redis \<Rightarrow> pystr \<Rightarrow> int" where
  "ttl now db k =
     (if live now db k = None then - 2
      else case db k of Some (v, Some e) \<Rightarrow> (e - now + 500000) div 1000000 | _ \<Rightarrow> - 1)"

text \<open>\<^verbatim>\<open>INCR\<close> keeps the expiry of a live key; \<^verbatim>\<open>EXPIRE\<close> sets it.\<close>

definition redis_incr :: "instant \<Rightarrow> pystr \<Rightarrow> redis \<Rightarrow> int \<times> redis" where
  "redis_incr now k db =
     (case live now db k of
        None \<Rightarrow> (1, db(k \<mapsto> (1, None)))
      | Some v \<Rightarrow> (v + 1, db(k \<mapsto> (v + 1, snd (the (db k))))))"

definition redis_expire :: "instant \<Rightarrow> pystr \<Rightarrow> int \<Rightarrow> redis \<Rightarrow> redis" where
  "redis_expire now k secs db =
     (case live now db k of None \<Rightarrow> db | Some v \<Rightarrow> db(k \<mapsto> (v, Some (now + seconds secs))))"

end
