(* ===== verification/Window_Limiter.thy ===== *)
theory Window_Limiter
  imports Prelude
begin

text \<open>
  Rate limiters: the contract that within any window no more than the allowed amount is admitted.
  A limiter is a function that admits or refuses an event at a time; what it has accounted for
  since some instant bounds from above what it admitted since then. Interpreted for the webhook
  counter, the connector throttle and the remediation quota.
\<close>

text \<open>A history of events: the admitted ones, with their times, and the final state.\<close>

fun run_limiter ::
  "(instant \<Rightarrow> 'e \<Rightarrow> 's \<Rightarrow> bool \<times> 's) \<Rightarrow> (instant \<times> 'e) list \<Rightarrow> 's \<Rightarrow> (instant \<times> 'e) list \<times> 's" where
  "run_limiter admit [] s = ([], s)"
| "run_limiter admit ((n, e) # es) s =
     (case admit n e s of (ok, s1) \<Rightarrow>
        (case run_limiter admit es s1 of (adm, s2) \<Rightarrow> (if ok then (n, e) # adm else adm, s2)))"

text \<open>Every event of the history is possible in the state in which it happens.\<close>

fun possible ::
  "(instant \<Rightarrow> 'e \<Rightarrow> 's \<Rightarrow> bool) \<Rightarrow> (instant \<Rightarrow> 'e \<Rightarrow> 's \<Rightarrow> bool \<times> 's) \<Rightarrow> (instant \<times> 'e) list \<Rightarrow> 's \<Rightarrow> bool" where
  "possible valid admit [] s \<longleftrightarrow> True"
| "possible valid admit ((n, e) # es) s \<longleftrightarrow> valid n e s \<and> possible valid admit es (snd (admit n e s))"

lemma run_limiter_sub: "set (fst (run_limiter admit es s)) \<subseteq> set es"
proof (induction es arbitrary: s)
  case (Cons ev es)
  show ?case
    using Cons.IH [of "snd (admit (fst ev) (snd ev) s)"] by (cases ev) (auto split: prod.splits)
qed simp

lemma possible_stateless:
  "\<forall>(n, e) \<in> set es. P e \<Longrightarrow> possible (\<lambda>n e s. P e) admit es s"
  by (induction es arbitrary: s) auto

text \<open>What was admitted from \<open>since\<close> up to, and not including, \<open>til\<close>.\<close>

definition admitted_within :: "('e \<Rightarrow> int) \<Rightarrow> instant \<Rightarrow> instant \<Rightarrow> (instant \<times> 'e) list \<Rightarrow> int" where
  "admitted_within weight since til adm = (\<Sum>(n, e) \<leftarrow> adm. if since \<le> n \<and> n < til then weight e else 0)"

lemma admitted_within_simps [simp]:
  "admitted_within weight since til [] = 0"
  "admitted_within weight since til ((n, e) # adm) =
     (if since \<le> n \<and> n < til then weight e else 0) + admitted_within weight since til adm"
  by (simp_all add: admitted_within_def)

lemma admitted_within_count:
  "admitted_within (\<lambda>e. 1) since til adm = int (length (filter (\<lambda>(n, e). since \<le> n \<and> n < til) adm))"
  by (induction adm) (auto split: if_splits)

lemma admitted_within_outside:
  "\<forall>(n, e) \<in> set adm. n < since \<or> til \<le> n \<Longrightarrow> admitted_within weight since til adm = 0"
  by (induction adm) auto

lemma admitted_within_late:
  assumes "\<forall>(n, e) \<in> set es. til \<le> n"
  shows "admitted_within weight since til (fst (run_limiter admit es s)) = 0"
  using assms run_limiter_sub [of admit es s] by (intro admitted_within_outside) auto

locale window_limiter =
  fixes admit :: "instant \<Rightarrow> 'e \<Rightarrow> 's \<Rightarrow> bool \<times> 's"
    and weight :: "'e \<Rightarrow> int"
    and valid :: "instant \<Rightarrow> 'e \<Rightarrow> 's \<Rightarrow> bool"
    and used :: "'s \<Rightarrow> instant \<Rightarrow> instant \<Rightarrow> int"
    and inv :: "instant \<Rightarrow> 's \<Rightarrow> bool"
    and window cap :: int
  assumes admit_inv: "inv t s \<Longrightarrow> t \<le> n \<Longrightarrow> valid n e s \<Longrightarrow> admit n e s = (ok, s') \<Longrightarrow> inv n s'"
    and admit_used: "inv t s \<Longrightarrow> t \<le> n \<Longrightarrow> valid n e s \<Longrightarrow> n < since + window \<Longrightarrow> admit n e s = (ok, s') \<Longrightarrow>
      used s since t + (if ok \<and> since \<le> n then weight e else 0) \<le> used s' since n"
    and used_cap: "inv t s \<Longrightarrow> t < since + window \<Longrightarrow> used s since t \<le> cap"
begin

lemma run_used:
  "inv t s \<Longrightarrow> sorted (t # map fst es) \<Longrightarrow> t < since + window \<Longrightarrow> possible valid admit es s \<Longrightarrow>
   used s since t + admitted_within weight since (since + window) (fst (run_limiter admit es s)) \<le> cap"
proof (induction es arbitrary: t s)
  case Nil
  then show ?case
    using used_cap [of t s since] by simp
next
  case (Cons ev es)
  obtain n e where ev: "ev = (n, e)"
    by fastforce
  show ?case
  proof (cases "n < since + window")
    case False
    then have "\<forall>(n', e) \<in> set (ev # es). since + window \<le> n'"
      using Cons.prems(2) by (auto simp: ev)
    then show ?thesis
      using used_cap [OF Cons.prems(1,3)] by (simp only: admitted_within_late)
  next
    case True
    obtain ok s1 where a: "admit n e s = (ok, s1)"
      by fastforce
    have n: "t \<le> n" and v: "valid n e s"
      using Cons.prems by (auto simp: ev)
    have "used s1 since n + admitted_within weight since (since + window) (fst (run_limiter admit es s1)) \<le> cap"
      using Cons.IH [OF admit_inv [OF Cons.prems(1) n v a] _ True] Cons.prems(2,4) a by (simp add: ev)
    moreover have "used s since t + (if ok \<and> since \<le> n then weight e else 0) \<le> used s1 since n"
      by (rule admit_used [OF Cons.prems(1) n v True a])
    ultimately show ?thesis
      using True by (auto simp: ev a split: if_splits prod.splits)
  qed
qed

text \<open>
  From a state that has accounted for nothing negative, whatever the history, the amount
  admitted within a window stays within the cap.
\<close>

theorem never_above_cap:
  assumes "inv t s" and "0 \<le> used s since t" and "sorted (t # map fst es)" and "t < since + window"
    and "possible valid admit es s"
  shows "admitted_within weight since (since + window) (fst (run_limiter admit es s)) \<le> cap"
  using run_used [OF assms(1,3-5)] assms(2) by simp

end

end
