(* ===== verification/Remediation_Quota.thy ===== *)
theory Remediation_Quota
  imports Remediation Redis Window_Limiter
begin

text \<open>
  Batching of claimed work (\<^verbatim>\<open>reconciliation/remediation/batching.py\<close>) and the
  quota shared by all workers (\<^verbatim>\<open>reconciliation/remediation/rate_limit.py\<close>). Redis is
  a map from keys to a value and an expiry, with the commands the reservation script uses; the
  script runs atomically.
\<close>

subsection \<open>Batching\<close>

definition compatibility_key :: "item \<Rightarrow> pystr" where
  "compatibility_key i = compat_text (provider_key i) (connection_id i) (remediation_strategy i) (item_context i)"

definition group_compatible :: "item list \<Rightarrow> (pystr \<times> item list) list" where
  "group_compatible items = group_by compatibility_key items"

record batch =
  compatibility :: pystr
  batch_items :: "item list"

text \<open>\<^verbatim>\<open>group[start : start + limit]\<close> for \<^verbatim>\<open>start in range(0, len(group), limit)\<close>.\<close>

function chunks :: "nat \<Rightarrow> 'a list \<Rightarrow> 'a list list" where
  "chunks n xs = (if xs = [] \<or> n = 0 then [] else take n xs # chunks n (drop n xs))"
  by pat_completeness auto
termination
  by (relation "measure (\<lambda>(n, xs). length xs)") auto

declare chunks.simps [simp del]

definition create_batches :: "item list \<Rightarrow> int \<Rightarrow> backlog_error + batch list" where
  "create_batches items batch_limit =
     (if batch_limit < 1 then Inl ValueError
      else Inr (concat (map (\<lambda>(key, group). map (\<lambda>c. \<lparr>compatibility = key, batch_items = c\<rparr>)
                                                (chunks (nat batch_limit) group))
                            (group_compatible items))))"

lemma chunks_concat: "0 < n \<Longrightarrow> concat (chunks n xs) = xs"
  by (induction n xs rule: chunks.induct) (subst chunks.simps, auto)

lemma chunks_size: "c \<in> set (chunks n xs) \<Longrightarrow> c \<noteq> [] \<and> length c \<le> n \<and> set c \<subseteq> set xs"
proof (induction n xs rule: chunks.induct)
  case (1 n xs)
  show ?case
  proof (cases "xs = [] \<or> n = 0")
    case True
    with 1 show ?thesis
      by (subst (asm) chunks.simps) simp
  next
    case False
    then have "c = take n xs \<or> c \<in> set (chunks n (drop n xs))"
      using 1 by (subst (asm) chunks.simps) simp
    then show ?thesis
      using 1(1) [OF False] False by (auto dest: in_set_takeD in_set_dropD)
  qed
qed

text \<open>
  Batching partitions the work: every item is in exactly one batch, each batch holds between
  one item and the limit, and all items of a batch have its compatibility key. Only a
  non-positive limit is refused.
\<close>

theorem create_batches_partition:
  assumes "1 \<le> batch_limit"
  shows "\<exists>bs. create_batches items batch_limit = Inr bs \<and>
    mset (concat (map batch_items bs)) = mset items \<and>
    (\<forall>b \<in> set bs. batch_items b \<noteq> [] \<and> int (length (batch_items b)) \<le> batch_limit \<and>
       (\<forall>i \<in> set (batch_items b). compatibility_key i = compatibility b))"
proof -
  let ?n = "nat batch_limit"
  let ?bs = "concat (map (\<lambda>(key, group). map (\<lambda>c. \<lparr>compatibility = key, batch_items = c\<rparr>)
      (chunks ?n group)) (group_compatible items))"
  have n: "0 < ?n"
    using assms by simp
  have "concat (map batch_items (concat (map (\<lambda>(key, group). map (\<lambda>c. \<lparr>compatibility = key, batch_items = c\<rparr>)
      (chunks ?n group)) gs))) = concat (map snd gs)" for gs
    by (induction gs) (auto simp: comp_def chunks_concat [OF n])
  then have "mset (concat (map batch_items ?bs)) = mset items"
    using group_by_mset [of compatibility_key items] by (simp only: group_compatible_def)
  moreover have "batch_items b \<noteq> [] \<and> int (length (batch_items b)) \<le> batch_limit \<and>
      (\<forall>i \<in> set (batch_items b). compatibility_key i = compatibility b)" if "b \<in> set ?bs" for b
  proof -
    from that obtain key group c where g: "(key, group) \<in> set (group_by compatibility_key items)"
      and c: "c \<in> set (chunks ?n group)" and b: "b = \<lparr>compatibility = key, batch_items = c\<rparr>"
      by (auto simp: group_compatible_def)
    then show ?thesis
      using chunks_size [OF c] group_by_key(2) [OF g] assms by (auto simp: b)
  qed
  ultimately show ?thesis
    using assms by (intro exI [of _ ?bs]) (auto simp: create_batches_def)
qed

definition plain_item :: "pystr \<Rightarrow> pystr \<Rightarrow> item" where
  "plain_item i pk = new_item i i False
     \<lparr>iss_tenant_id = ''T'', iss_provider_key = pk, iss_type = ''gap'', iss_entity_type = ''account'',
      iss_entity_id = i, iss_severity = ''warning'', iss_priority = 0, iss_strategy = ''refetch'',
      iss_context = [], iss_connection_id = None, iss_target_id = None, iss_scope = None, detected_at = 0\<rparr>"

theorem create_batches_partition_witness:
  "\<exists>bs. create_batches [plain_item ''a'' ''p'', plain_item ''b'' ''q'', plain_item ''c'' ''p''] 2 = Inr bs \<and>
     mset (concat (map batch_items bs)) = mset [plain_item ''a'' ''p'', plain_item ''b'' ''q'', plain_item ''c'' ''p'']"
  using create_batches_partition [of 2 "[plain_item ''a'' ''p'', plain_item ''b'' ''q'', plain_item ''c'' ''p'']"]
  by fastforce

subsection \<open>Coalescing days\<close>

fun coalesce :: "int \<Rightarrow> int \<Rightarrow> int \<Rightarrow> int list \<Rightarrow> (int \<times> int) list" where
  "coalesce max_window start previous [] = [(start, previous)]"
| "coalesce max_window start previous (current # rest) =
     (if current \<noteq> previous + 1 \<or> current - start + 1 > max_window
      then (start, previous) # coalesce max_window current current rest
      else coalesce max_window start current rest)"

definition coalesce_days :: "int list \<Rightarrow> int \<Rightarrow> (int \<times> int) list" where
  "coalesce_days ds max_window =
     (case sort (remdups ds) of [] \<Rightarrow> [] | d # rest \<Rightarrow> coalesce max_window d d rest)"

text \<open>A range ends for a reason: the next day is missing, or the range is full.\<close>

definition breaks_after :: "int \<Rightarrow> int \<times> int \<Rightarrow> int \<times> int \<Rightarrow> bool" where
  "breaks_after w r n =
     (case (r, n) of ((a, b), (c, d)) \<Rightarrow> b + 1 < c \<or> (b + 1 = c \<and> b - a + 1 = max 1 w))"

lemma coalesce_covers:
  "start \<le> previous \<Longrightarrow> previous - start + 1 \<le> max 1 w \<Longrightarrow> sorted (previous # ds) \<Longrightarrow> distinct (previous # ds) \<Longrightarrow>
   concat (map (\<lambda>(a, b). [a..b]) (coalesce w start previous ds)) = [start..previous] @ ds \<and>
   (\<forall>(a, b) \<in> set (coalesce w start previous ds). a \<le> b \<and> b - a + 1 \<le> max 1 w) \<and>
   fst (hd (coalesce w start previous ds)) = start \<and> coalesce w start previous ds \<noteq> [] \<and>
   successively (breaks_after w) (coalesce w start previous ds)"
proof (induction ds arbitrary: start previous)
  case (Cons d ds)
  show ?case
  proof (cases "d \<noteq> previous + 1 \<or> d - start + 1 > w")
    case True
    have IH: "fst (hd (coalesce w d d ds)) = d" "coalesce w d d ds \<noteq> []" "successively (breaks_after w) (coalesce w d d ds)"
      using Cons.IH [of d d] Cons.prems by simp_all
    have "breaks_after w (start, previous) (d, e)" for e
      using True Cons.prems by (auto simp: breaks_after_def)
    then have "successively (breaks_after w) ((start, previous) # coalesce w d d ds)"
      using IH by (cases "coalesce w d d ds") (auto simp: successively_Cons)
    with True Cons.IH [of d d] Cons.prems show ?thesis
      by auto
  next
    case False
    then have "[start..d] = [start..previous] @ [d]"
      using Cons.prems(1) upto_rec2 [of start d] by simp
    with Cons.IH [of start d] Cons.prems False show ?thesis
      by auto
  qed
qed auto

text \<open>
  C9. Coalescing loses and invents no day: written out, the ranges are exactly the distinct days
  in ascending order, so they do not overlap, and no range is longer than the maximal window. It
  merges as much as it may: a range ends only where a day is missing or the window is full.
\<close>

theorem coalesce_days_exact:
  "concat (map (\<lambda>(a, b). [a..b]) (coalesce_days ds w)) = sort (remdups ds) \<and>
   (\<forall>(a, b) \<in> set (coalesce_days ds w). a \<le> b \<and> b - a + 1 \<le> max 1 w) \<and>
   successively (\<lambda>(a, b) (c, d). b + 1 < c \<or> (b + 1 = c \<and> b - a + 1 = max 1 w)) (coalesce_days ds w)"
proof (cases "sort (remdups ds)")
  case Nil
  then show ?thesis
    by (simp add: coalesce_days_def)
next
  case (Cons d rest)
  have "sorted (d # rest)" "distinct (d # rest)"
    unfolding Cons [symmetric] by simp_all
  with coalesce_covers [of d d w rest] Cons show ?thesis
    by (simp add: coalesce_days_def breaks_after_def [abs_def] case_prod_unfold)
qed

theorem coalesce_days_exact_witness:
  "concat (map (\<lambda>(a, b). [a..b]) (coalesce_days [5, 3, 4, 9, 3] 2)) = [3, 4, 5, 9] \<and>
   coalesce_days [5, 3, 4, 9, 3] 2 = [(3, 4), (5, 5), (9, 9)]"
proof
  have "sort (remdups [5, 3, 4, 9, 3 :: int]) = [3, 4, 5, 9]"
    by code_simp
  then show "concat (map (\<lambda>(a, b). [a..b]) (coalesce_days [5, 3, 4, 9, 3] 2)) = [3, 4, 5, 9]"
    using coalesce_days_exact [of "[5, 3, 4, 9, 3]" 2] by simp
  show "coalesce_days [5, 3, 4, 9, 3] 2 = [(3, 4), (5, 5), (9, 9)]"
    by code_simp
qed

subsection \<open>The shared quota\<close>

record quota_policy =
  requests :: int
  window_seconds :: int
  endpoint_family :: pystr
  concurrency :: "int option"

record reservation =
  allowed :: bool
  res_retry_at :: "instant option"
  res_reason :: "pystr option"

text \<open>The Lua script: the reply and the store.\<close>

definition reserve_script ::
  "pystr \<Rightarrow> pystr \<Rightarrow> int \<Rightarrow> int \<Rightarrow> int \<Rightarrow> instant \<Rightarrow> redis \<Rightarrow> (int \<times> int \<times> int) \<times> redis" where
  "reserve_script k cd cost reqs win now db =
     (if live now db cd \<noteq> None then ((0, ttl now db cd, 2), db)
      else let count = (case live now db k of None \<Rightarrow> 0 | Some v \<Rightarrow> v)
           in if count + cost > reqs then ((0, ttl now db k, 1), db)
              else ((1, 0, 0), db(k \<mapsto> (count + cost, Some (now + seconds win)))))"

definition quota_key :: "pystr \<Rightarrow> pystr \<Rightarrow> pystr \<Rightarrow> pystr \<Rightarrow> pystr" where
  "quota_key prefix provider scope family = join '':'' [prefix, provider, scope, family]"

definition reserve ::
  "pystr \<Rightarrow> pystr \<Rightarrow> pystr \<Rightarrow> quota_policy \<Rightarrow> int \<Rightarrow> instant \<Rightarrow> redis option \<Rightarrow> reservation \<times> redis option" where
  "reserve prefix provider scope policy cost now r =
     (case r of
        None \<Rightarrow> (\<lparr>allowed = False, res_retry_at = None, res_reason = Some ''redis_not_configured''\<rparr>, None)
      | Some db \<Rightarrow>
          (let k = quota_key prefix provider scope (endpoint_family policy)
           in case reserve_script k (k @ '':cooldown'') cost (requests policy) (window_seconds policy) now db of
                ((ok, t, why), db') \<Rightarrow>
                  (if ok \<noteq> 0 then (\<lparr>allowed = True, res_retry_at = None, res_reason = None\<rparr>, Some db')
                   else (\<lparr>allowed = False, res_retry_at = Some (now + seconds (max t 1)),
                          res_reason = Some (if why = 2 then ''cooldown'' else ''quota_exhausted'')\<rparr>, Some db'))))"

definition cooldown ::
  "pystr \<Rightarrow> pystr \<Rightarrow> pystr \<Rightarrow> pystr \<Rightarrow> instant \<Rightarrow> instant \<Rightarrow> redis option \<Rightarrow> redis option" where
  "cooldown prefix provider scope family until now r =
     (case r of None \<Rightarrow> None
      | Some db \<Rightarrow>
          (let d = until - now; s = max 1 (sgn d * (\<bar>d\<bar> div seconds 1))
           in Some (db(quota_key prefix provider scope family @ '':cooldown'' \<mapsto> (1, Some (now + seconds s))))))"

definition is_cooled_down :: "pystr \<Rightarrow> pystr \<Rightarrow> pystr \<Rightarrow> pystr \<Rightarrow> instant \<Rightarrow> redis option \<Rightarrow> bool" where
  "is_cooled_down prefix provider scope family now r =
     (case r of None \<Rightarrow> False
      | Some db \<Rightarrow> live now db (quota_key prefix provider scope family @ '':cooldown'') \<noteq> None)"

text \<open>
  \<^verbatim>\<open>parse_retry_after\<close>: \<open>float(value)\<close>, or else an HTTP date read by
  \<open>parsedate\<close> (the instant, or \<open>None\<close> when it raises). NaN counts as no delay.
\<close>

datatype py_float = Real rat | Plus_inf | Minus_inf | Nan | No_float

definition to_float :: "pyval \<Rightarrow> py_float" where
  "to_float v =
     (let txt = (\<lambda>s. case parse_decimal s of Finite d \<Rightarrow> Real (dval d)
                    | Infinite neg \<Rightarrow> (if neg then Minus_inf else Plus_inf)
                    | NotANumber \<Rightarrow> Nan | Invalid \<Rightarrow> No_float)
      in case v of PInt n \<Rightarrow> Real (of_int n) | PBool b \<Rightarrow> Real (if b then 1 else 0)
         | PFloat s \<Rightarrow> txt s | PStr s \<Rightarrow> txt s | _ \<Rightarrow> No_float)"

definition capped_delay :: "instant \<Rightarrow> rat \<Rightarrow> rat \<Rightarrow> instant" where
  "capped_delay now cap_seconds x = now + round_us (min (max 0 x) cap_seconds)"

definition parse_retry_after ::
  "(pystr \<Rightarrow> instant option) \<Rightarrow> pyval \<Rightarrow> instant \<Rightarrow> rat \<Rightarrow> instant option" where
  "parse_retry_after parsedate v now cap_seconds =
     (if v = PNone then None
      else case to_float v of
             Real x \<Rightarrow> Some (capped_delay now cap_seconds x)
           | Plus_inf \<Rightarrow> Some (now + round_us cap_seconds)
           | Minus_inf \<Rightarrow> Some (now + round_us (min 0 cap_seconds))
           | Nan \<Rightarrow> Some (now + round_us (min 0 cap_seconds))
           | No_float \<Rightarrow>
               (case parsedate (py_str v) of None \<Rightarrow> None
                | Some t \<Rightarrow> Some (capped_delay now cap_seconds (of_int (t - now) / 1000000))))"

text \<open>The reservation script as a limiter on one key.\<close>

definition quota_admit ::
  "pystr \<Rightarrow> pystr \<Rightarrow> int \<Rightarrow> int \<Rightarrow> instant \<Rightarrow> int \<Rightarrow> redis \<Rightarrow> bool \<times> redis" where
  "quota_admit k cd reqs win now cost db =
     (case reserve_script k cd cost reqs win now db of ((ok, _, _), db') \<Rightarrow> (ok \<noteq> 0, db'))"

definition quota_used :: "pystr \<Rightarrow> int \<Rightarrow> redis \<Rightarrow> instant \<Rightarrow> instant \<Rightarrow> int" where
  "quota_used k win db since t =
     (case db k of Some (c, Some e) \<Rightarrow> if since \<le> e - seconds win then c else 0 | _ \<Rightarrow> 0)"

definition quota_inv :: "pystr \<Rightarrow> int \<Rightarrow> int \<Rightarrow> instant \<Rightarrow> redis \<Rightarrow> bool" where
  "quota_inv k reqs win t db \<longleftrightarrow> 0 \<le> reqs \<and>
     (case db k of None \<Rightarrow> True | Some (c, None) \<Rightarrow> False
      | Some (c, Some e) \<Rightarrow> 0 \<le> c \<and> c \<le> reqs \<and> e - seconds win \<le> t)"

lemma quota_admit_cases:
  assumes "quota_admit k cd reqs win now cost db = (ok, db')"
  obtains (refused) "\<not> ok" and "db' = db"
  | (granted) count where "ok" and "count = (case live now db k of None \<Rightarrow> 0 | Some v \<Rightarrow> v)"
      and "count + cost \<le> reqs" and "db' = db(k \<mapsto> (count + cost, Some (now + seconds win)))"
proof -
  define count where "count = (case live now db k of None \<Rightarrow> 0 | Some v \<Rightarrow> v)"
  show thesis
  proof (cases "live now db cd \<noteq> None \<or> count + cost > reqs")
    case True
    then have "\<not> ok" "db' = db"
      using assms unfolding quota_admit_def reserve_script_def Let_def count_def by (auto split: if_splits)
    then show thesis
      by (rule refused)
  next
    case False
    then have "ok" "db' = db(k \<mapsto> (count + cost, Some (now + seconds win)))"
      using assms unfolding quota_admit_def reserve_script_def Let_def count_def by simp_all
    with False show thesis
      by (intro granted [OF _ count_def]) simp_all
  qed
qed

interpretation quota_window: window_limiter "quota_admit k cd reqs win" "\<lambda>c. c" "\<lambda>n c db. 0 \<le> c"
  "quota_used k win" "quota_inv k reqs win" "seconds win" reqs for k cd reqs win
proof unfold_locales
  fix t db n cost ok db'
  assume inv: "quota_inv k reqs win t db" and n: "t \<le> n" and c: "0 \<le> cost"
    and a: "quota_admit k cd reqs win n cost db = (ok, db')"
  show "quota_inv k reqs win n db'"
    using a
  proof (cases rule: quota_admit_cases)
    case refused
    with inv n show ?thesis
      by (auto simp: quota_inv_def split: option.splits)
  next
    case (granted count)
    have "0 \<le> count"
      using inv granted(2) by (auto simp: quota_inv_def live_def split: option.splits if_splits)
    with granted c inv show ?thesis
      by (simp add: quota_inv_def)
  qed
  fix since
  assume w: "n < since + seconds win"
  show "quota_used k win db since t + (if ok \<and> since \<le> n then cost else 0) \<le> quota_used k win db' since n"
    using a
  proof (cases rule: quota_admit_cases)
    case refused
    then show ?thesis
      by (simp add: quota_used_def)
  next
    case (granted count)
    have "0 \<le> count"
      using inv granted(2) by (auto simp: quota_inv_def live_def split: option.splits if_splits)
    moreover have "quota_used k win db since t \<le> count \<and> (quota_used k win db since t \<noteq> 0 \<longrightarrow> since \<le> n)"
      using inv granted(2) n w calculation
      by (auto simp: quota_inv_def quota_used_def live_def split: option.splits if_splits)
    ultimately show ?thesis
      using granted by (auto simp: quota_used_def)
  qed
next
  fix t db since
  assume "quota_inv k reqs win t db"
  then show "quota_used k win db since t \<le> reqs"
    by (auto simp: quota_inv_def quota_used_def split: option.splits)
qed

text \<open>
  C10. The quota holds for any number of workers and any history: whatever reservations they
  attempt, the costs granted within any window of the policy's length never exceed its number of
  requests.
\<close>

theorem quota_never_exceeded:
  assumes "0 \<le> reqs" and "db k = None" and "sorted (map fst es)" and "\<forall>(n, cost) \<in> set es. 0 \<le> cost"
  shows "(\<Sum>(n, cost) \<leftarrow> fst (run_limiter (quota_admit k cd reqs win) es db).
    if since \<le> n \<and> n < since + seconds win then cost else 0) \<le> reqs"
proof (cases "0 < seconds win")
  case True
  define t where "t = Min (insert since (set (map fst es)))"
  have t: "t \<le> since" "\<forall>n \<in> set (map fst es). t \<le> n"
    unfolding t_def by simp_all
  have "possible (\<lambda>n c db. 0 \<le> c) (quota_admit k cd reqs win) es db"
    using assms(4) by (intro possible_stateless) auto
  moreover have "sorted (t # map fst es)" "t < since + seconds win"
    using assms(3) t True by auto
  moreover have "quota_inv k reqs win t db" "0 \<le> quota_used k win db since t"
    using assms(1,2) by (simp_all add: quota_inv_def quota_used_def)
  ultimately have "admitted_within (\<lambda>c. c) since (since + seconds win) (fst (run_limiter (quota_admit k cd reqs win) es db)) \<le> reqs"
    by (intro quota_window.never_above_cap) 
  then show ?thesis
    by (simp only: admitted_within_def)
next
  case False
  then have "admitted_within (\<lambda>c. c) since (since + seconds win) (fst (run_limiter (quota_admit k cd reqs win) es db)) = 0"
    by (intro admitted_within_outside) auto
  with assms(1) show ?thesis
    by (simp only: admitted_within_def)
qed

theorem quota_never_exceeded_witness:
  "fst (run_limiter (quota_admit ''k'' ''c'' 2 60) [(0, 1), (5, 1), (9, 1)] Map.empty) = [(0, 1), (5, 1)] \<and>
   (\<Sum>(n, cost) \<leftarrow> fst (run_limiter (quota_admit ''k'' ''c'' 2 60) [(0, 1), (5, 1), (9, 1)] Map.empty).
      if 3 \<le> n \<and> n < 3 + seconds 60 then cost else 0) \<le> 2"
proof
  show "fst (run_limiter (quota_admit ''k'' ''c'' 2 60) [(0, 1), (5, 1), (9, 1)] Map.empty) = [(0, 1), (5, 1)]"
    by code_simp
  show "(\<Sum>(n, cost) \<leftarrow> fst (run_limiter (quota_admit ''k'' ''c'' 2 60) [(0, 1), (5, 1), (9, 1)] Map.empty).
      if 3 \<le> n \<and> n < 3 + seconds 60 then cost else 0) \<le> 2"
    by (rule quota_never_exceeded) simp_all
qed

text \<open>
  The window is not fixed: each grant extends the life of the counter, so spaced-out requests
  are refused although no window of the policy's length holds more than one of them.
\<close>

theorem quota_window_slides:
  "fst (run_limiter (quota_admit ''k'' ''c'' 2 60) [(0, 1), (seconds 50, 1), (seconds 100, 1)] Map.empty) =
     [(0, 1), (seconds 50, 1)]"
  by code_simp

end
