(* ===== verification/Remediation_Executor.thy ===== *)
theory Remediation_Executor
  imports Remediation_Registry Remediation_Quota
begin

text \<open>
  The executor of claimed work (\<^verbatim>\<open>reconciliation/remediation/executor.py\<close>): one
  item at a time or a compatible batch, with quota, time limit, verification and error
  classification. Strategies and the connector factory are injected into it, as they are here;
  each provider call has a duration and an outcome. While a provider call runs, other workers may
  change the backlog (\<open>meanwhile\<close>). Metrics and log records are left out. The database and
  Redis answer every command, and closing a connector does not raise.
\<close>

subsection \<open>Collaborators and state\<close>

record verification =
  ver_resolved :: bool
  ver_reason :: "pystr option"

record 'c strategy =
  strategy_key :: pystr
  quota_cost :: int
  supports :: "item \<Rightarrow> bool"
  run_one :: "item \<Rightarrow> 'c option \<Rightarrow> int \<times> exc option"
  verify :: "item \<Rightarrow> 'c option \<Rightarrow> int \<times> (exc + verification)"
  run_batch :: "(item list \<Rightarrow> int \<times> (exc + (pystr \<Rightarrow> pystr option))) option"

record 'c executor =
  strategies :: "pystr \<Rightarrow> 'c strategy option"
  quota_prefix :: "pystr option"
  quota_policies :: "pystr \<Rightarrow> quota_policy option"
  max_verification_attempts :: int
  max_execution_seconds :: int
  retry_base_seconds :: rat
  retry_cap_seconds :: rat
  connector_factory :: "(item \<Rightarrow> exc + 'c option) option"

text \<open>
  \<open>quota_prefix\<close> is the key prefix of the quota coordinator, \<open>None\<close> without one.
  The places at which the executor reads the clock, and what the world does during one item.
\<close>

datatype reading = At_reserve | At_retry | At_verify | At_failure | At_move

record env =
  clock :: "reading \<Rightarrow> instant"
  jitter_factor :: rat
  meanwhile :: "item list \<Rightarrow> item list"

record 'c world =
  backlog :: "item list"
  credentials :: "credential list"
  quota_store :: "redis option"
  open_connectors :: "'c list"

subsection \<open>Helpers\<close>

definition status_text :: "item_status \<Rightarrow> pystr" where
  "status_text s =
     (case s of Pending \<Rightarrow> ''pending'' | Processing \<Rightarrow> ''processing'' | Deferred \<Rightarrow> ''deferred''
      | Retry_wait \<Rightarrow> ''retry_wait'' | Resolved \<Rightarrow> ''resolved'' | Failed \<Rightarrow> ''failed''
      | Ignored \<Rightarrow> ''ignored'' | Manual_review \<Rightarrow> ''manual_review'')"

lemma status_of_text [simp]: "status_of (status_text s) = Some s"
  by (cases s) (simp_all add: status_text_def status_of_def)

definition exec_retry_at :: "'c executor \<Rightarrow> env \<Rightarrow> item \<Rightarrow> instant" where
  "exec_retry_at x e i =
     retry_at (jitter_factor e) (attempt_count i) (clock e At_retry) (retry_base_seconds x) (retry_cap_seconds x)"

text \<open>A call of \<^verbatim>\<open>self.backlog.transition\<close> with the token of the item.\<close>

definition move ::
  "item \<Rightarrow> item_status \<Rightarrow> pystr option \<Rightarrow> pystr option \<Rightarrow> instant option \<Rightarrow> bool \<Rightarrow> env \<Rightarrow> 'c world \<Rightarrow> 'c world" where
  "move i s err cat nxt incr e w =
     (case transition (item_tenant i) (item_id i) (status_text s) (claim_token i) None err cat nxt incr
             (clock e At_move) (backlog w) of
        Inl _ \<Rightarrow> w
      | Inr (_, rs) \<Rightarrow> w\<lparr>backlog := rs\<rparr>)"

definition quota_scope :: "item \<Rightarrow> pystr" where
  "quota_scope i = (if truthy (connection_id i) then the (connection_id i) else item_tenant i)"

text \<open>\<^verbatim>\<open>asyncio.timeout\<close> around a call that takes \<open>d\<close> microseconds.\<close>

definition timed :: "'c executor \<Rightarrow> int \<Rightarrow> exc + 'a \<Rightarrow> exc + 'a" where
  "timed x d r = (if seconds (max 1 (max_execution_seconds x)) < d then Inl (TimeoutError []) else r)"

definition provider_call :: "'c executor \<Rightarrow> 'c strategy \<Rightarrow> item \<Rightarrow> 'c option \<Rightarrow> exc + verification" where
  "provider_call x s i c =
     (case run_one s i c of
        (d, Some ex) \<Rightarrow> timed x d (Inl ex)
      | (d, None) \<Rightarrow>
          (case verify s i (if startswith ''wealthfolio_'' (strategy_key s) then c else None) of
             (d', r) \<Rightarrow> timed x (d + d') r))"

text \<open>
  \<^verbatim>\<open>_record_verification\<close> changes the loaded object; the flush before the next statement
  writes its changed columns by primary key.
\<close>

definition record_verification :: "instant \<Rightarrow> verification \<Rightarrow> item \<Rightarrow> item" where
  "record_verification now v i =
     i\<lparr>verified_at := Some now,
       item_context := (case ver_reason v of None \<Rightarrow> item_context i
                        | Some r \<Rightarrow> dict_put ''last_verification_reason'' (PStr (take 256 r)) (item_context i))\<rparr>"

definition flush_item :: "verification \<Rightarrow> item \<Rightarrow> item list \<Rightarrow> item list" where
  "flush_item v i rs =
     update_rows (\<lambda>r. item_id r = item_id i)
       (\<lambda>r. r\<lparr>verification_count := verification_count i, verified_at := verified_at i,
              item_context := (case ver_reason v of None \<Rightarrow> item_context r | Some _ \<Rightarrow> item_context i)\<rparr>) rs"

definition verified_item :: "env \<Rightarrow> verification \<Rightarrow> item \<Rightarrow> item" where
  "verified_item e v i =
     record_verification (clock e At_verify) v (i\<lparr>verification_count := verification_count i + 1\<rparr>)"

definition outcome_status :: "'c executor \<Rightarrow> verification \<Rightarrow> item \<Rightarrow> item_status" where
  "outcome_status x v i =
     (if ver_resolved v then Resolved
      else if max_verification_attempts x \<le> verification_count i then Manual_review
      else Retry_wait)"

definition is_rate_limit :: "exc \<Rightarrow> bool" where
  "is_rate_limit ex \<longleftrightarrow> (case ex of RateLimitError _ _ \<Rightarrow> True | _ \<Rightarrow> False)"

text \<open>The delay a provider asked for, if the exception carries one.\<close>

definition provider_delay :: "exc \<Rightarrow> rat option" where
  "provider_delay ex = (case ex of RateLimitError d _ \<Rightarrow> d | _ \<Rightarrow> None)"

subsection \<open>One item\<close>

text \<open>
  The part of the error handlers that \<^verbatim>\<open>execute\<close> and
  \<^verbatim>\<open>_transition_batch_failure\<close> share: the next attempt, after publishing an
  authentication failure and a cool-down.
\<close>

definition publish_failure ::
  "'c executor \<Rightarrow> env \<Rightarrow> quota_policy option \<Rightarrow> exc \<Rightarrow> item \<Rightarrow> 'c world \<Rightarrow> instant \<times> 'c world" where
  "publish_failure x e policy ex i w =
     (let w1 = (if category (classify_error ex) = ''authentication''
                then w\<lparr>credentials := snd (mark_connection_auth_failure (item_tenant i) (connection_id i)
                         ''remediation authentication failed'' (clock e At_failure) (credentials w))\<rparr>
                else w)
      in case provider_delay ex of
           None \<Rightarrow> (exec_retry_at x e i, w1)
         | Some d \<Rightarrow>
             (let nxt = capped_delay (clock e At_failure) 3600 d
              in (nxt,
                  case (quota_prefix x, policy) of
                    (Some pre, Some p) \<Rightarrow>
                      w1\<lparr>quota_store := cooldown pre (provider_key i) (quota_scope i) (endpoint_family p) nxt
                           (clock e At_failure) (quota_store w1)\<rparr>
                  | _ \<Rightarrow> w1)))"

definition fail_item :: "exc \<Rightarrow> instant \<Rightarrow> env \<Rightarrow> item \<Rightarrow> 'c world \<Rightarrow> 'c world" where
  "fail_item ex nxt e i w =
     move i (class_status (classify_error ex)) (Some (take 512 (exc_text ex)))
       (Some (category (classify_error ex))) (Some nxt) (is_rate_limit ex) e w"

definition handle_failure ::
  "'c executor \<Rightarrow> env \<Rightarrow> quota_policy option \<Rightarrow> exc \<Rightarrow> item \<Rightarrow> 'c world \<Rightarrow> item_status \<times> 'c world" where
  "handle_failure x e policy ex i w =
     (case publish_failure x e policy ex i w of (nxt, w1) \<Rightarrow>
        (class_status (classify_error ex), fail_item ex nxt e i w1))"

definition settle_verified ::
  "'c executor \<Rightarrow> env \<Rightarrow> verification \<Rightarrow> item \<Rightarrow> 'c world \<Rightarrow> item_status \<times> 'c world" where
  "settle_verified x e v i w =
     (let i1 = verified_item e v i; s = outcome_status x v i1;
          nxt = (if s = Resolved then None else Some (exec_retry_at x e i1))
      in (s, move i1 s None None nxt False e (w\<lparr>backlog := flush_item v i1 (backlog w)\<rparr>)))"

definition defer_item :: "reservation \<Rightarrow> 'c executor \<Rightarrow> env \<Rightarrow> item \<Rightarrow> 'c world \<Rightarrow> 'c world" where
  "defer_item res x e i w =
     move i Deferred None (Some ''rate_limit'')
       (Some (case res_retry_at res of Some t \<Rightarrow> t | None \<Rightarrow> exec_retry_at x e i)) True e w"

definition let_others_run :: "env \<Rightarrow> 'c world \<Rightarrow> 'c world" where
  "let_others_run e w = w\<lparr>backlog := meanwhile e (backlog w)\<rparr>"

text \<open>The body of the \<^verbatim>\<open>try\<close> block once the connector is there.\<close>

definition attempt ::
  "'c executor \<Rightarrow> env \<Rightarrow> 'c strategy \<Rightarrow> item \<Rightarrow> 'c option \<Rightarrow> 'c world \<Rightarrow> item_status \<times> 'c world" where
  "attempt x e s i c w =
     (case (quota_prefix x, quota_policies x (remediation_strategy i)) of
        (Some pre, Some p) \<Rightarrow>
          (case reserve pre (provider_key i) (quota_scope i) p (quota_cost s) (clock e At_reserve) (quota_store w) of
             (res, q) \<Rightarrow>
               (let w1 = w\<lparr>quota_store := q\<rparr>
                in if \<not> allowed res then (Deferred, defer_item res x e i w1)
                   else let w2 = let_others_run e w1
                        in case provider_call x s i c of
                             Inl ex \<Rightarrow> handle_failure x e (Some p) ex i w2
                           | Inr v \<Rightarrow> settle_verified x e v i w2))
      | _ \<Rightarrow>
          (Deferred, move i Deferred None (Some ''quota_policy_missing'') (Some (exec_retry_at x e i)) False e w))"

definition close_connector :: "'c option \<Rightarrow> 'c world \<Rightarrow> 'c world" where
  "close_connector c w =
     (case c of None \<Rightarrow> w | Some k \<Rightarrow> w\<lparr>open_connectors := remove1 k (open_connectors w)\<rparr>)"

definition opened :: "'c option \<Rightarrow> 'c world \<Rightarrow> 'c world" where
  "opened c w = (case c of None \<Rightarrow> w | Some k \<Rightarrow> w\<lparr>open_connectors := k # open_connectors w\<rparr>)"

definition usable_strategy :: "'c executor \<Rightarrow> item \<Rightarrow> 'c strategy option" where
  "usable_strategy x i =
     (case strategies x (remediation_strategy i) of
        None \<Rightarrow> None
      | Some s \<Rightarrow> if supports s i then Some s else None)"

definition execute ::
  "'c executor \<Rightarrow> env \<Rightarrow> item \<Rightarrow> 'c option \<Rightarrow> 'c world \<Rightarrow> item_status \<times> 'c world" where
  "execute x e i c w =
     (case usable_strategy x i of
        None \<Rightarrow>
          (Manual_review,
           move i Manual_review (Some ''No remediation strategy is registered'') (Some ''unsupported'')
             None False e w)
      | Some s \<Rightarrow>
          (case (c, connector_factory x) of
             (None, Some mk) \<Rightarrow>
               (case mk i of
                  Inl ex \<Rightarrow> handle_failure x e None ex i w
                | Inr own \<Rightarrow>
                    (case attempt x e s i own (opened own w) of (st, w1) \<Rightarrow> (st, close_connector own w1)))
           | _ \<Rightarrow> attempt x e s i c w))"

subsection \<open>A batch\<close>

fun execute_each ::
  "'c executor \<Rightarrow> (pystr \<Rightarrow> env) \<Rightarrow> 'c option \<Rightarrow> item list \<Rightarrow> 'c world \<Rightarrow> item_status list \<times> 'c world" where
  "execute_each x es c [] w = ([], w)"
| "execute_each x es c (i # is) w =
     (case execute x (es (item_id i)) i c w of (st, w1) \<Rightarrow>
        (case execute_each x es c is w1 of (sts, w2) \<Rightarrow> (st # sts, w2)))"

text \<open>
  The loop after a successful batch call. An exception of \<^verbatim>\<open>verify\<close> leaves the loop, and
  the function: \<open>Inl\<close>, with the state reached so far.
\<close>

definition settle_batch_item ::
  "'c executor \<Rightarrow> env \<Rightarrow> verification \<Rightarrow> item \<Rightarrow> 'c world \<Rightarrow> item_status \<times> 'c world" where
  "settle_batch_item x e v i w =
     (let i1 = verified_item e v i; s = outcome_status x v i1;
          nxt = (if s = Retry_wait then Some (exec_retry_at x e i1) else None)
      in (s, move i1 s None None nxt False e (w\<lparr>backlog := flush_item v i1 (backlog w)\<rparr>)))"

fun settle_each ::
  "'c executor \<Rightarrow> (pystr \<Rightarrow> env) \<Rightarrow> 'c strategy \<Rightarrow> (pystr \<Rightarrow> pystr option) \<Rightarrow> item list \<Rightarrow> 'c world \<Rightarrow>
   (exc + item_status list) \<times> 'c world" where
  "settle_each x es s outcomes [] w = (Inr [], w)"
| "settle_each x es s outcomes (i # is) w =
     (let e = es (item_id i); cont = (\<lambda>st w1.
            case settle_each x es s outcomes is w1 of
              (Inl ex, w2) \<Rightarrow> (Inl ex, w2) | (Inr sts, w2) \<Rightarrow> (Inr (st # sts), w2))
      in if outcomes (item_id i) \<noteq> Some ''success''
         then cont Retry_wait (move i Retry_wait None (Some ''partial_failure'') (Some (exec_retry_at x e i)) False e w)
         else case snd (verify s i None) of
                Inl ex \<Rightarrow> (Inl ex, let_others_run e w)
              | Inr v \<Rightarrow> (case settle_batch_item x e v i (let_others_run e w) of (st, w1) \<Rightarrow> cont st w1))"

fun move_each :: "(item \<Rightarrow> 'c world \<Rightarrow> 'c world) \<Rightarrow> item list \<Rightarrow> 'c world \<Rightarrow> 'c world" where
  "move_each f [] w = w"
| "move_each f (i # is) w = move_each f is (f i w)"

definition transition_batch_failure ::
  "'c executor \<Rightarrow> env \<Rightarrow> (pystr \<Rightarrow> env) \<Rightarrow> exc \<Rightarrow> item list \<Rightarrow> 'c world \<Rightarrow> item_status list \<times> 'c world" where
  "transition_batch_failure x e es ex is w =
     (let i0 = hd is
      in case publish_failure x e (quota_policies x (remediation_strategy i0)) ex i0 w of (nxt, w1) \<Rightarrow>
           (map (\<lambda>_. class_status (classify_error ex)) is,
            move_each (\<lambda>i. fail_item ex nxt (es (item_id i)) i) is w1))"

text \<open>\<^verbatim>\<open>except TimeoutError\<close> replaces the text of the exception.\<close>

definition batch_exc :: "exc \<Rightarrow> exc" where
  "batch_exc ex =
     (case ex of TimeoutError _ \<Rightarrow> TimeoutError ''remediation execution timed out'' | _ \<Rightarrow> ex)"

definition returns :: "'a \<times> 'w \<Rightarrow> (exc + 'a) \<times> 'w" where
  "returns r = (case r of (a, w) \<Rightarrow> (Inr a, w))"

definition run_whole_batch ::
  "'c executor \<Rightarrow> env \<Rightarrow> (pystr \<Rightarrow> env) \<Rightarrow> 'c strategy \<Rightarrow> (item list \<Rightarrow> int \<times> (exc + (pystr \<Rightarrow> pystr option))) \<Rightarrow>
   pystr \<Rightarrow> quota_policy \<Rightarrow> item list \<Rightarrow> 'c world \<Rightarrow> (exc + item_status list) \<times> 'c world" where
  "run_whole_batch x e es s run pre p is w =
     (let i0 = hd is
      in case reserve pre (provider_key i0) (quota_scope i0) p (quota_cost s) (clock e At_reserve) (quota_store w) of
           (res, q) \<Rightarrow>
             (let w1 = w\<lparr>quota_store := q\<rparr>
              in if \<not> allowed res
                 then (Inr (map (\<lambda>_. Deferred) is), move_each (\<lambda>i. defer_item res x (es (item_id i)) i) is w1)
                 else let w2 = let_others_run e w1
                      in case (case run is of (d, r) \<Rightarrow> timed x d r) of
                           Inl ex \<Rightarrow> returns (transition_batch_failure x e es (batch_exc ex) is w2)
                         | Inr outcomes \<Rightarrow> settle_each x es s outcomes is w2))"

definition execute_batch ::
  "'c executor \<Rightarrow> env \<Rightarrow> (pystr \<Rightarrow> env) \<Rightarrow> batch \<Rightarrow> 'c world \<Rightarrow> (exc + item_status list) \<times> 'c world" where
  "execute_batch x e es b w =
     (case batch_items b of
        [] \<Rightarrow> (Inr [], w)
      | i0 # _ \<Rightarrow>
          (let is = batch_items b; one_by_one = returns (execute_each x es None is w)
           in case strategies x (remediation_strategy i0) of
                None \<Rightarrow> one_by_one
              | Some s \<Rightarrow>
                  (case run_batch s of
                     None \<Rightarrow>
                       (case (startswith ''wealthfolio_'' (strategy_key s), connector_factory x) of
                          (True, Some mk) \<Rightarrow>
                            (case mk i0 of
                               Inl ex \<Rightarrow> (Inl ex, w)
                             | Inr c \<Rightarrow>
                                 (case execute_each x es c is (opened c w) of (sts, w1) \<Rightarrow>
                                    (Inr sts, close_connector c w1)))
                        | _ \<Rightarrow> one_by_one)
                   | Some run \<Rightarrow>
                       (case (quota_prefix x, quota_policies x (remediation_strategy i0)) of
                          (Some pre, Some p) \<Rightarrow> run_whole_batch x e es s run pre p is w
                        | _ \<Rightarrow> one_by_one))))"

end
