(* ===== verification/Remediation_Execution.thy ===== *)
theory Remediation_Execution
  imports Remediation_Executor
begin

text \<open>
  What the executor guarantees: every claim it holds is settled by one execution, work is resolved
  by a positive verification only, and an execution whose claim was lost decides nothing.
\<close>

text \<open>The worker holds the claim of item \<open>i\<close>; the item has been settled with a status.\<close>

definition held :: "item \<Rightarrow> item list \<Rightarrow> bool" where
  "held i rs \<longleftrightarrow> distinct (map item_id rs) \<and>
     (\<exists>r \<in> set rs. item_id r = item_id i \<and> item_tenant r = item_tenant i \<and> claim_token r = claim_token i)"

definition settled :: "item_status \<Rightarrow> item \<Rightarrow> item list \<Rightarrow> bool" where
  "settled s i rs \<longleftrightarrow> (\<exists>r \<in> set rs. item_id r = item_id i) \<and>
     (\<forall>r \<in> set rs. item_id r = item_id i \<longrightarrow>
        item_status r = s \<and> claim_token r = None \<and> lease_expires_at r = None)"

text \<open>Rows with identifiers in \<open>B\<close> are the same before and after.\<close>

definition kept :: "pystr set \<Rightarrow> item list \<Rightarrow> item list \<Rightarrow> bool" where
  "kept B rs rs' \<longleftrightarrow> (distinct (map item_id rs) \<longrightarrow> distinct (map item_id rs')) \<and>
     (\<forall>r. item_id r \<in> B \<longrightarrow> (r \<in> set rs' \<longleftrightarrow> r \<in> set rs))"

lemma kept_refl [simp]: "kept B rs rs"
  by (simp add: kept_def)

lemma kept_trans: "kept B rs rs1 \<Longrightarrow> kept B rs1 rs2 \<Longrightarrow> kept B rs rs2"
  unfolding kept_def by metis

lemma kept_subset: "kept B rs rs' \<Longrightarrow> A \<subseteq> B \<Longrightarrow> kept A rs rs'"
  unfolding kept_def by blast

lemma kept_held: "kept B rs rs' \<Longrightarrow> item_id i \<in> B \<Longrightarrow> held i rs \<Longrightarrow> held i rs'"
  unfolding kept_def held_def by metis

lemma kept_settled: "kept B rs rs' \<Longrightarrow> item_id i \<in> B \<Longrightarrow> settled s i rs \<Longrightarrow> settled s i rs'"
  unfolding kept_def settled_def by metis

lemma kept_update_rows:
  assumes "\<And>r. P r \<Longrightarrow> item_id r = iid" and "\<And>r. item_id (f r) = item_id r"
  shows "kept (B - {iid}) rs (update_rows P f rs)"
proof -
  have "map item_id (update_rows P f rs) = map item_id rs"
    by (rule keys_update_rows) (rule assms(2))
  moreover have "r \<in> set (update_rows P f rs) \<longleftrightarrow> r \<in> set rs" if r: "item_id r \<noteq> iid" for r
  proof -
    have "r = (if P y then f y else y) \<longleftrightarrow> r = y" for y
      using assms r by (cases "P y") metis+
    then show ?thesis
      unfolding in_update_rows by simp
  qed
  ultimately show ?thesis
    by (simp add: kept_def)
qed

text \<open>One item is settled, the others of \<open>B\<close> are not touched.\<close>

definition settles :: "pystr set \<Rightarrow> item_status \<Rightarrow> item \<Rightarrow> item list \<Rightarrow> item list \<Rightarrow> bool" where
  "settles B s i rs rs' \<longleftrightarrow> settled s i rs' \<and> kept (B - {item_id i}) rs rs'"

lemma settles_after: "kept (B - {item_id i}) rs rs1 \<Longrightarrow> settles B s i rs1 rs2 \<Longrightarrow> settles B s i rs rs2"
  unfolding settles_def using kept_trans by blast

lemma move_backlog:
  "backlog (move i s err cat nxt incr e w) =
     update_rows (transition_guard (item_tenant i) (item_id i) (claim_token i) None)
       (moved_item s err cat nxt incr (clock e At_move)) (backlog w)"
  by (simp add: move_def transition_def)

lemma move_frame [simp]:
  "open_connectors (move i s err cat nxt incr e w) = open_connectors w"
  "credentials (move i s err cat nxt incr e w) = credentials w"
  "quota_store (move i s err cat nxt incr e w) = quota_store w"
  by (simp_all add: move_def transition_def)

lemma moved_item_fields [simp]:
  "item_id (moved_item s err cat nxt incr now r) = item_id r"
  "item_tenant (moved_item s err cat nxt incr now r) = item_tenant r"
  "item_status (moved_item s err cat nxt incr now r) = s"
  "claim_token (moved_item s err cat nxt incr now r) = None"
  "lease_expires_at (moved_item s err cat nxt incr now r) = None"
  by (simp_all add: moved_item_def)

lemma verified_item_fields [simp]:
  "item_id (verified_item e v i) = item_id i"
  "item_tenant (verified_item e v i) = item_tenant i"
  "claim_token (verified_item e v i) = claim_token i"
  "attempt_count (verified_item e v i) = attempt_count i"
  "verification_count (verified_item e v i) = verification_count i + 1"
  by (simp_all add: verified_item_def record_verification_def)

lemma held_cong: "item_id j = item_id i \<Longrightarrow> item_tenant j = item_tenant i \<Longrightarrow> claim_token j = claim_token i \<Longrightarrow>
    held j rs = held i rs"
  by (simp add: held_def)

lemma settled_cong: "item_id j = item_id i \<Longrightarrow> settled s j rs = settled s i rs"
  by (simp add: settled_def)

lemma move_settles:
  assumes "held i (backlog w)"
  shows "settled s i (backlog (move i s err cat nxt incr e w))"
proof -
  from assms obtain q where d: "distinct (map item_id (backlog w))" and q: "q \<in> set (backlog w)"
    "item_id q = item_id i" "item_tenant q = item_tenant i" "claim_token q = claim_token i"
    by (auto simp: held_def)
  have g: "transition_guard (item_tenant i) (item_id i) (claim_token i) None q"
    using q by (simp add: transition_guard_def)
  have one: "r = q" if "r \<in> set (backlog w)" "item_id r = item_id i" for r
    by (rule distinct_key_eq [OF d that(1) q(1)]) (simp add: that q)
  let ?f = "moved_item s err cat nxt incr (clock e At_move)"
  let ?rs = "update_rows (transition_guard (item_tenant i) (item_id i) (claim_token i) None) ?f (backlog w)"
  have "?f q \<in> set ?rs"
    using q(1) g by (auto simp: in_update_rows)
  moreover have "r = ?f q" if "r \<in> set ?rs" "item_id r = item_id i" for r
  proof -
    from that(1) obtain y where y: "y \<in> set (backlog w)"
      and r: "r = (if transition_guard (item_tenant i) (item_id i) (claim_token i) None y then ?f y else y)"
      by (auto simp: in_update_rows)
    have "item_id y = item_id i"
      using that(2) r by (simp split: if_splits)
    with one [OF y] r g show ?thesis
      by simp
  qed
  ultimately have "settled s i ?rs"
    using q(2) unfolding settled_def by (metis moved_item_fields(1,3,4,5))
  then show ?thesis
    by (simp only: move_backlog)
qed

lemma move_kept: "kept (B - {item_id i}) (backlog w) (backlog (move i s err cat nxt incr e w))"
  unfolding move_backlog by (rule kept_update_rows) (simp_all add: transition_guard_def)

lemma move_settles_only:
  "held i (backlog w) \<Longrightarrow> settles B s i (backlog w) (backlog (move i s err cat nxt incr e w))"
  by (simp add: settles_def move_settles move_kept)

lemma flush_item_kept: "kept (B - {item_id i}) rs (flush_item v i rs)"
  unfolding flush_item_def by (rule kept_update_rows) simp_all

lemma held_map:
  "held i rs \<longleftrightarrow> distinct (map item_id rs) \<and>
     (item_id i, item_tenant i, claim_token i) \<in> set (map (\<lambda>r. (item_id r, item_tenant r, claim_token r)) rs)"
  unfolding held_def set_map image_iff prod.inject by metis

lemma flush_item_held: "held j (flush_item v i rs) = held j rs"
proof -
  have "map item_id (flush_item v i rs) = map item_id rs"
    "map (\<lambda>r. (item_id r, item_tenant r, claim_token r)) (flush_item v i rs) =
     map (\<lambda>r. (item_id r, item_tenant r, claim_token r)) rs"
    unfolding flush_item_def by (rule keys_update_rows, simp)+
  then show ?thesis
    unfolding held_map by (simp only:)
qed

subsection \<open>Settling\<close>

lemma publish_failure_frame:
  "publish_failure x e policy ex i w = (nxt, w1) \<Longrightarrow>
   backlog w1 = backlog w \<and> open_connectors w1 = open_connectors w"
  by (auto simp: publish_failure_def Let_def split: option.splits prod.splits if_splits)

lemma class_status_cases: "class_status (classify_error ex) \<in> {Deferred, Retry_wait, Manual_review, Failed}"
  by (cases ex) (auto simp: classify_error_def)

lemma handle_failure_settles:
  assumes "held i (backlog w)" and "handle_failure x e policy ex i w = (st, w')"
  shows "settles B st i (backlog w) (backlog w') \<and> st = class_status (classify_error ex) \<and>
    open_connectors w' = open_connectors w"
proof -
  obtain nxt w1 where p: "publish_failure x e policy ex i w = (nxt, w1)"
    by fastforce
  note f = publish_failure_frame [OF p]
  have "settles B (class_status (classify_error ex)) i (backlog w1) (backlog (fail_item ex nxt e i w1))"
    unfolding fail_item_def using assms(1) f by (intro move_settles_only) simp
  with assms(2) f show ?thesis
    by (auto simp: handle_failure_def p fail_item_def)
qed

lemma verified_move_settles:
  assumes "held i (backlog w)"
  shows "settles B s i (backlog w) (backlog (move (verified_item e v i) s err cat nxt incr e
    (w\<lparr>backlog := flush_item v (verified_item e v i) (backlog w)\<rparr>)))"
proof -
  let ?i = "verified_item e v i"
  let ?w = "w\<lparr>backlog := flush_item v ?i (backlog w)\<rparr>"
  have "held ?i (backlog ?w)"
    using assms by (simp add: flush_item_held held_cong [of ?i i])
  then have "settles B s ?i (backlog ?w) (backlog (move ?i s err cat nxt incr e ?w))"
    by (rule move_settles_only)
  then have "settles B s i (backlog ?w) (backlog (move ?i s err cat nxt incr e ?w))"
    by (simp add: settles_def settled_cong [of ?i i])
  moreover have "kept (B - {item_id i}) (backlog w) (backlog ?w)"
    using flush_item_kept [of B ?i "backlog w" v] by simp
  ultimately show ?thesis
    by (rule settles_after [rotated])
qed

lemma settle_verified_settles:
  assumes "held i (backlog w)" and "settle_verified x e v i w = (st, w')"
  shows "settles B st i (backlog w) (backlog w') \<and> st = outcome_status x v (verified_item e v i) \<and>
    open_connectors w' = open_connectors w"
  using assms(2) verified_move_settles [OF assms(1)] by (auto simp: settle_verified_def Let_def)

lemma outcome_status_cases: "outcome_status x v i \<in> {Resolved, Manual_review, Retry_wait}"
  by (simp add: outcome_status_def)

definition final_status :: "item_status \<Rightarrow> bool" where
  "final_status s \<longleftrightarrow> s \<in> {Deferred, Retry_wait, Manual_review, Failed, Resolved}"

lemma final_status_intros [simp]:
  "final_status (class_status (classify_error ex))" "final_status (outcome_status x v i)"
  "final_status Deferred" "final_status Manual_review" "final_status Retry_wait"
  using class_status_cases [of ex] outcome_status_cases [of x v i] by (auto simp: final_status_def)

lemma attempt_settles:
  assumes "held i (backlog w)" and "held i (meanwhile e (backlog w))"
    and "kept (B - {item_id i}) (backlog w) (meanwhile e (backlog w))" and "attempt x e s i c w = (st, w')"
  shows "settles B st i (backlog w) (backlog w') \<and> final_status st \<and> open_connectors w' = open_connectors w"
proof (cases "\<exists>pre p. quota_prefix x = Some pre \<and> quota_policies x (remediation_strategy i) = Some p")
  case False
  then have "st = Deferred"
    "w' = move i Deferred None (Some ''quota_policy_missing'') (Some (exec_retry_at x e i)) False e w"
    using assms(4) by (auto simp: attempt_def split: option.splits)
  then show ?thesis
    using assms(1) by (simp add: move_settles_only)
next
  case True
  then obtain pre p where x: "quota_prefix x = Some pre" "quota_policies x (remediation_strategy i) = Some p"
    by blast
  obtain res q where r: "reserve pre (provider_key i) (quota_scope i) p (quota_cost s) (clock e At_reserve)
      (quota_store w) = (res, q)"
    by fastforce
  let ?w2 = "let_others_run e (w\<lparr>quota_store := q\<rparr>)"
  have h2: "held i (backlog ?w2)" "open_connectors ?w2 = open_connectors w"
    "kept (B - {item_id i}) (backlog w) (backlog ?w2)"
    using assms(2,3) by (simp_all add: let_others_run_def)
  consider (deferred) "\<not> allowed res" | (failed) ex where "allowed res" "provider_call x s i c = Inl ex"
    | (verified) v where "allowed res" "provider_call x s i c = Inr v"
    by (meson sumE)
  then show ?thesis
  proof cases
    case deferred
    then have "st = Deferred" "w' = defer_item res x e i (w\<lparr>quota_store := q\<rparr>)"
      using assms(4) x r by (simp_all add: attempt_def)
    then show ?thesis
      using move_settles_only [of i "w\<lparr>quota_store := q\<rparr>"] assms(1) by (simp add: defer_item_def)
  next
    case (failed ex)
    then have "handle_failure x e (Some p) ex i ?w2 = (st, w')"
      using assms(4) x r by (simp add: attempt_def)
    note fin = handle_failure_settles [OF h2(1) this]
    have "settles B st i (backlog w) (backlog w')"
      using settles_after [OF h2(3)] fin by blast
    with fin h2(2) show ?thesis
      by auto
  next
    case (verified v)
    then have "settle_verified x e v i ?w2 = (st, w')"
      using assms(4) x r by (simp add: attempt_def)
    note fin = settle_verified_settles [OF h2(1) this]
    have "settles B st i (backlog w) (backlog w')"
      using settles_after [OF h2(3)] fin by blast
    with fin h2(2) show ?thesis
      by auto
  qed
qed

lemma opened_fields [simp]:
  "backlog (opened c w) = backlog w" "backlog (close_connector c w) = backlog w"
  "quota_store (opened c w) = quota_store w" "quota_store (close_connector c w) = quota_store w"
  by (simp_all add: opened_def close_connector_def split: option.split)

lemma close_opened: "open_connectors w1 = open_connectors (opened c w) \<Longrightarrow>
    open_connectors (close_connector c w1) = open_connectors w"
  by (simp add: opened_def close_connector_def split: option.splits)

text \<open>The cases of \<^verbatim>\<open>execute\<close>, shared by the properties below.\<close>

lemma execute_cases:
  assumes "execute x e i c w = (st, w')"
  obtains (unsupported) "usable_strategy x i = None" and "st = Manual_review"
      and "w' = move i Manual_review (Some ''No remediation strategy is registered'') (Some ''unsupported'') None False e w"
  | (no_connector) s mk ex where "usable_strategy x i = Some s" and "c = None" and "connector_factory x = Some mk"
      and "mk i = Inl ex" and "handle_failure x e None ex i w = (st, w')"
  | (owned) s mk own w1 where "usable_strategy x i = Some s" and "c = None" and "connector_factory x = Some mk"
      and "mk i = Inr own" and "attempt x e s i own (opened own w) = (st, w1)" and "w' = close_connector own w1"
  | (given) s where "usable_strategy x i = Some s" and "attempt x e s i c w = (st, w')"
  using assms unfolding execute_def by (auto split: option.splits sum.splits prod.splits)

lemma execute_settles_only:
  assumes "held i (backlog w)" and "held i (meanwhile e (backlog w))"
    and "kept (B - {item_id i}) (backlog w) (meanwhile e (backlog w))" and "execute x e i c w = (st, w')"
  shows "settles B st i (backlog w) (backlog w') \<and> final_status st \<and> open_connectors w' = open_connectors w"
  using assms(4)
proof (cases rule: execute_cases)
  case unsupported
  with assms(1) show ?thesis
    by (simp add: move_settles_only)
next
  case (no_connector s mk ex)
  show ?thesis
    using handle_failure_settles [OF assms(1) no_connector(5)] by auto
next
  case (owned s mk own w1)
  with attempt_settles [of i "opened own w" e B x s own st w1] assms(1,2,3) show ?thesis
    by (simp add: close_opened)
next
  case (given s)
  with attempt_settles [OF assms(1,2,3)] show ?thesis
    by blast
qed

text \<open>
  C11. Executing an item whose claim the worker holds (and still holds when the provider call
  ends) settles it on every path: the row gets the returned status, which is deferred,
  retry\_wait, manual\_review, failed or resolved, and loses its token and lease. Every connector
  the execution opened has been closed.
\<close>

theorem execute_settles:
  assumes "held i (backlog w)" and "held i (meanwhile e (backlog w))" and "execute x e i c w = (st, w')"
  shows "settled st i (backlog w') \<and> st \<in> {Deferred, Retry_wait, Manual_review, Failed, Resolved} \<and>
    open_connectors w' = open_connectors w"
proof -
  have "kept ({} - {item_id i}) (backlog w) (meanwhile e (backlog w))"
    using assms(2) by (simp add: kept_def held_def)
  from execute_settles_only [OF assms(1,2) this assms(3)] show ?thesis
    by (simp add: settles_def final_status_def)
qed

definition sample_strategy :: "bool \<Rightarrow> unit strategy" where
  "sample_strategy good =
     \<lparr>strategy_key = ''refetch'', quota_cost = 1, supports = (\<lambda>i. True),
      run_one = (\<lambda>i c. (seconds 2, None)),
      verify = (\<lambda>i c. (seconds 1, Inr \<lparr>ver_resolved = good, ver_reason = Some ''checked''\<rparr>)), run_batch = None\<rparr>"

definition sample_executor :: "unit strategy \<Rightarrow> unit executor" where
  "sample_executor s =
     \<lparr>strategies = [''refetch'' \<mapsto> s], quota_prefix = Some ''q'',
      quota_policies = [''refetch'' \<mapsto> \<lparr>requests = 5, window_seconds = 60, endpoint_family = ''f'', concurrency = None\<rparr>],
      max_verification_attempts = 3, max_execution_seconds = 300, retry_base_seconds = 30,
      retry_cap_seconds = 3600, connector_factory = Some (\<lambda>i. Inr (Some ()))\<rparr>"

definition calm :: "instant \<Rightarrow> env" where
  "calm now = \<lparr>clock = (\<lambda>_. now), jitter_factor = 1, meanwhile = (\<lambda>rs. rs)\<rparr>"

definition claimed_row :: "pystr \<Rightarrow> item" where
  "claimed_row i = sample_item i ''p'' Processing (Some (seconds 300)) (Some (''t'' @ i))"

definition sample_world :: "item list \<Rightarrow> unit world" where
  "sample_world rs = \<lparr>backlog = rs, credentials = [], quota_store = Some Map.empty, open_connectors = []\<rparr>"

theorem execute_settles_witness:
  "fst (execute (sample_executor (sample_strategy True)) (calm 7) (claimed_row ''a'') None
     (sample_world [claimed_row ''a'', claimed_row ''b''])) = Resolved \<and>
   settled Resolved (claimed_row ''a'') (backlog (snd (execute (sample_executor (sample_strategy True)) (calm 7)
     (claimed_row ''a'') None (sample_world [claimed_row ''a'', claimed_row ''b'']))))"
proof -
  let ?w = "sample_world [claimed_row ''a'', claimed_row ''b'']"
  let ?r = "execute (sample_executor (sample_strategy True)) (calm 7) (claimed_row ''a'') None ?w"
  have h: "held (claimed_row ''a'') (backlog ?w)" "held (claimed_row ''a'') (meanwhile (calm 7) (backlog ?w))"
    by code_simp+
  obtain st w' where r: "?r = (st, w')"
    by fastforce
  have "fst ?r = Resolved"
    by code_simp
  with execute_settles [OF h r] r show ?thesis
    by simp
qed

subsection \<open>Resolution\<close>

lemma handle_failure_not_resolved: "fst (handle_failure x e policy ex i w) \<noteq> Resolved"
  using class_status_cases [of ex] by (auto simp: handle_failure_def split: prod.splits)

lemma settle_verified_resolved: "fst (settle_verified x e v i w) = Resolved \<longleftrightarrow> ver_resolved v"
  by (simp add: settle_verified_def Let_def outcome_status_def)

lemma attempt_resolved:
  "fst (attempt x e s i c w) = Resolved \<longleftrightarrow>
     (\<exists>pre p v. quota_prefix x = Some pre \<and> quota_policies x (remediation_strategy i) = Some p \<and>
        allowed (fst (reserve pre (provider_key i) (quota_scope i) p (quota_cost s) (clock e At_reserve) (quota_store w))) \<and>
        provider_call x s i c = Inr v \<and> ver_resolved v)"
  by (simp add: attempt_def Let_def handle_failure_not_resolved settle_verified_resolved
      split: option.splits prod.splits sum.splits)

lemma reserve_allowed:
  "allowed (fst (reserve pre provider scope p cost now q)) \<longleftrightarrow>
     (\<exists>db. q = Some db \<and> live now db (quota_key pre provider scope (endpoint_family p) @ '':cooldown'') = None \<and>
        (case live now db (quota_key pre provider scope (endpoint_family p)) of None \<Rightarrow> 0 | Some n \<Rightarrow> n) + cost
          \<le> requests p)"
  by (auto simp: reserve_def reserve_script_def Let_def split: option.splits)

lemma provider_call_verified:
  "provider_call x s i k = Inr v \<longleftrightarrow>
     (\<exists>d d'. run_one s i k = (d, None) \<and>
        verify s i (if startswith ''wealthfolio_'' (strategy_key s) then k else None) = (d', Inr v) \<and>
        d + d' \<le> seconds (max 1 (max_execution_seconds x)))"
  by (auto simp: provider_call_def timed_def split: prod.splits option.splits)

lemma usable_strategy_Some:
  "usable_strategy x i = Some s \<longleftrightarrow> strategies x (remediation_strategy i) = Some s \<and> supports s i"
  by (auto simp: usable_strategy_def split: option.splits)

text \<open>
  C12. Only verification resolves work: an execution reports resolved exactly when the strategy
  registered for the item supports it; a connector was handed in, is not needed or could be made; there
  is a quota coordinator with a policy for the strategy and a store; the counter of the item's provider
  and scope is not cooled down and has room for the cost of the call when the clock is read; the provider
  call raised nothing; verification answered that the work is done; and both together took no longer than
  the time limit, at least one second.
\<close>

theorem execute_resolves_iff_verified:
  "fst (execute x e i c w) = Resolved \<longleftrightarrow>
     (\<exists>s k pre p db d d' v. strategies x (remediation_strategy i) = Some s \<and> supports s i \<and>
        (case (c, connector_factory x) of (None, Some mk) \<Rightarrow> mk i = Inr k | _ \<Rightarrow> k = c) \<and>
        quota_prefix x = Some pre \<and> quota_policies x (remediation_strategy i) = Some p \<and> quota_store w = Some db \<and>
        live (clock e At_reserve) db
          (quota_key pre (provider_key i) (quota_scope i) (endpoint_family p) @ '':cooldown'') = None \<and>
        (case live (clock e At_reserve) db (quota_key pre (provider_key i) (quota_scope i) (endpoint_family p)) of
           None \<Rightarrow> 0 | Some n \<Rightarrow> n) + quota_cost s \<le> requests p \<and>
        run_one s i k = (d, None) \<and>
        verify s i (if startswith ''wealthfolio_'' (strategy_key s) then k else None) = (d', Inr v) \<and>
        d + d' \<le> seconds (max 1 (max_execution_seconds x)) \<and> ver_resolved v)"
proof -
  have o: "fst (case attempt x e s i own (opened own w) of (st, w1) \<Rightarrow> (st, close_connector own w1)) =
      fst (attempt x e s i own (opened own w))" for s own
    by (simp split: prod.splits)
  have q: "quota_store (opened own w) = quota_store w" for own
    by (simp add: opened_def split: option.split)
  have "fst (execute x e i c w) = Resolved \<longleftrightarrow>
     (\<exists>s k pre p v. usable_strategy x i = Some s \<and>
        (case (c, connector_factory x) of (None, Some mk) \<Rightarrow> mk i = Inr k | _ \<Rightarrow> k = c) \<and>
        quota_prefix x = Some pre \<and> quota_policies x (remediation_strategy i) = Some p \<and>
        allowed (fst (reserve pre (provider_key i) (quota_scope i) p (quota_cost s) (clock e At_reserve) (quota_store w))) \<and>
        provider_call x s i k = Inr v \<and> ver_resolved v)"
    by (auto simp: execute_def o q handle_failure_not_resolved attempt_resolved split: option.splits sum.splits)
  then show ?thesis
    unfolding reserve_allowed provider_call_verified usable_strategy_Some by blast
qed

subsection \<open>A lost claim\<close>

definition lost :: "item \<Rightarrow> item list \<Rightarrow> bool" where
  "lost i rs \<longleftrightarrow> claim_token i \<noteq> None \<and> (\<forall>r \<in> set rs. item_id r = item_id i \<longrightarrow> claim_token r \<noteq> claim_token i)"

text \<open>A row without the columns that record verification evidence.\<close>

definition control :: "item \<Rightarrow> item" where
  "control r = r\<lparr>verification_count := 0, verified_at := None, item_context := []\<rparr>"

lemma move_lost:
  assumes "lost i (backlog w)"
  shows "backlog (move i s err cat nxt incr e w) = backlog w"
proof -
  have "\<not> transition_guard (item_tenant i) (item_id i) (claim_token i) None r" if "r \<in> set (backlog w)" for r
    using assms that by (auto simp: lost_def transition_guard_def)
  then show ?thesis
    unfolding move_backlog update_rows_def by (auto intro!: map_idI)
qed

lemma control_flush [simp]: "map control (flush_item v i rs) = map control rs"
  unfolding flush_item_def by (rule keys_update_rows) (simp add: control_def)

lemma lost_flush: "lost i rs \<Longrightarrow> lost (verified_item e v i) (flush_item v (verified_item e v i) rs)"
  unfolding lost_def flush_item_def by (fastforce simp: in_update_rows split: if_splits)

lemma handle_failure_lost:
  "lost i (backlog w) \<Longrightarrow> backlog (snd (handle_failure x e policy ex i w)) = backlog w"
  by (cases "publish_failure x e policy ex i w")
     (simp add: handle_failure_def fail_item_def publish_failure_frame move_lost)

lemma settle_verified_lost:
  "lost i (backlog w) \<Longrightarrow> map control (backlog (snd (settle_verified x e v i w))) = map control (backlog w)"
  by (simp add: settle_verified_def Let_def move_lost lost_flush)

lemma attempt_lost:
  assumes "lost i (backlog w)" and "lost i (meanwhile e (backlog w))"
  shows "map control (backlog (snd (attempt x e s i c w))) \<in>
    {map control (backlog w), map control (meanwhile e (backlog w))}"
  using assms
  by (simp add: attempt_def Let_def let_others_run_def defer_item_def move_lost handle_failure_lost
      settle_verified_lost split: option.splits prod.splits sum.splits)

text \<open>
  An execution that lost its claim, because the lease ran out and another worker claimed the
  item, decides nothing: no row's status, token, lease, schedule or error is changed by it. Only
  the verification columns may be written.
\<close>

theorem lost_execution_decides_nothing:
  assumes "lost i (backlog w)" and "lost i (meanwhile e (backlog w))" and "execute x e i c w = (st, w')"
  shows "map control (backlog w') \<in> {map control (backlog w), map control (meanwhile e (backlog w))}"
  using assms(3)
proof (cases rule: execute_cases)
  case unsupported
  with assms(1) show ?thesis
    by (simp add: move_lost)
next
  case (no_connector s mk ex)
  with handle_failure_lost [OF assms(1), of x e None ex] show ?thesis
    by simp
next
  case (owned s mk own w1)
  with attempt_lost [of i "opened own w" e x s own] assms(1,2) show ?thesis
    by simp
next
  case (given s)
  with attempt_lost [OF assms(1,2), of x s c] show ?thesis
    by simp
qed

theorem lost_execution_decides_nothing_witness:
  "map control (backlog (snd (execute (sample_executor (sample_strategy True)) (calm 7) (claimed_row ''a'') None
     (sample_world [(claimed_row ''a'')\<lparr>claim_token := Some ''other''\<rparr>])))) =
   map control [(claimed_row ''a'')\<lparr>claim_token := Some ''other''\<rparr>]"
proof -
  let ?rs = "[(claimed_row ''a'')\<lparr>claim_token := Some ''other''\<rparr>]"
  obtain st w' where r: "execute (sample_executor (sample_strategy True)) (calm 7) (claimed_row ''a'') None
      (sample_world ?rs) = (st, w')"
    by fastforce
  have "lost (claimed_row ''a'') (backlog (sample_world ?rs))"
    "lost (claimed_row ''a'') (meanwhile (calm 7) (backlog (sample_world ?rs)))"
    by code_simp+
  from lost_execution_decides_nothing [OF this r] have "map control (backlog w') = map control ?rs"
    by (simp add: sample_world_def calm_def)
  with r show ?thesis
    by simp
qed

end
