(* ===== verification/Remediation_Batch_Run.thy ===== *)
theory Remediation_Batch_Run
  imports Remediation_Execution
begin

text \<open>
  Batches of the remediation executor: a batch that returns has settled every one of its items,
  whichever of its five paths it took; and the one way in which it does not return.
\<close>

text \<open>Other workers leave the rows of the batch alone.\<close>

definition undisturbed :: "pystr set \<Rightarrow> env \<Rightarrow> bool" where
  "undisturbed B e \<longleftrightarrow> (\<forall>rs. kept B rs (meanwhile e rs))"

definition settling :: "pystr set \<Rightarrow> item_status \<Rightarrow> item \<Rightarrow> 'c world \<Rightarrow> 'c world \<Rightarrow> bool" where
  "settling B s i w w1 \<longleftrightarrow>
     (item_id i \<in> B \<longrightarrow> held i (backlog w) \<longrightarrow> settles B s i (backlog w) (backlog w1) \<and> final_status s)"

fun chain :: "pystr set \<Rightarrow> (item_status \<times> item) list \<Rightarrow> 'c world \<Rightarrow> 'c world \<Rightarrow> bool" where
  "chain B [] w w' \<longleftrightarrow> w' = w"
| "chain B ((s, i) # l) w w' \<longleftrightarrow> (\<exists>w1. settling B s i w w1 \<and> chain B l w1 w')"

lemma chain_settles:
  "chain B l w w' \<Longrightarrow> distinct (map (\<lambda>(s, i). item_id i) l) \<Longrightarrow> \<forall>(s, i) \<in> set l. item_id i \<in> B \<and> held i (backlog w) \<Longrightarrow>
   kept (B - (\<lambda>(s, i). item_id i) ` set l) (backlog w) (backlog w') \<and>
   (\<forall>(s, i) \<in> set l. settled s i (backlog w') \<and> final_status s)"
proof (induction B l w w' rule: chain.induct)
  case (2 B s i l w w')
  then obtain w1 where w1: "settling B s i w w1" "chain B l w1 w'"
    by auto
  have s: "settled s i (backlog w1)" "kept (B - {item_id i}) (backlog w) (backlog w1)" "final_status s"
    using w1(1) 2(4) by (auto simp: settling_def settles_def)
  have new: "item_id j \<in> B - {item_id i}" if "(t, j) \<in> set l" for t j
    using 2(3,4) that by force
  have "\<forall>(t, j) \<in> set l. item_id j \<in> B \<and> held j (backlog w1)"
    using 2(4) new kept_held [OF s(2)] by fastforce
  with 2(1) [OF w1(2)] 2(3) have IH: "kept (B - (\<lambda>(s, i). item_id i) ` set l) (backlog w1) (backlog w')"
    "\<forall>(s, i) \<in> set l. settled s i (backlog w') \<and> final_status s"
    by simp_all
  have "item_id i \<in> B - (\<lambda>(s, i). item_id i) ` set l"
    using 2(3,4) by auto
  then have "settled s i (backlog w')"
    using kept_settled [OF IH(1)] s(1) by blast
  moreover have "kept (B - (\<lambda>(s, i). item_id i) ` set ((s, i) # l)) (backlog w) (backlog w')"
  proof (rule kept_trans)
    show "kept (B - (\<lambda>(s, i). item_id i) ` set ((s, i) # l)) (backlog w) (backlog w1)"
      by (rule kept_subset [OF s(2)]) auto
    show "kept (B - (\<lambda>(s, i). item_id i) ` set ((s, i) # l)) (backlog w1) (backlog w')"
      by (rule kept_subset [OF IH(1)]) auto
  qed
  ultimately show ?case
    using IH(2) s(3) by simp
qed simp

lemma execute_settling:
  assumes "undisturbed B e" and "execute x e i c w = (st, w')"
  shows "settling B st i w w'"
  unfolding settling_def
proof (intro impI)
  assume i: "item_id i \<in> B" "held i (backlog w)"
  have k: "kept B (backlog w) (meanwhile e (backlog w))"
    using assms(1) by (simp add: undisturbed_def)
  from execute_settles_only [OF i(2) kept_held [OF k i] kept_subset [OF k] assms(2)]
  show "settles B st i (backlog w) (backlog w') \<and> final_status st"
    by blast
qed

lemma execute_each_chain:
  "\<forall>i \<in> set is. undisturbed B (es (item_id i)) \<Longrightarrow> execute_each x es c is w = (sts, w') \<Longrightarrow>
   length sts = length is \<and> chain B (zip sts is) w w'"
proof (induction "is" arbitrary: w sts)
  case (Cons i "is")
  obtain st w1 where e: "execute x (es (item_id i)) i c w = (st, w1)"
    by fastforce
  obtain sts1 where r: "execute_each x es c is w1 = (sts1, w')" "sts = st # sts1"
    using Cons.prems(2) e by (auto split: prod.splits)
  with Cons.IH [OF _ r(1)] execute_settling [OF _ e, of B] Cons.prems(1) show ?case
    by auto
qed simp

lemma move_each_chain:
  "\<forall>i \<in> set is. \<forall>w. settling B s i w (f i w) \<Longrightarrow>
   chain B (zip (map (\<lambda>_. s) is) is) w (move_each f is w)"
  by (induction "is" arbitrary: w) auto

lemma move_settling: "final_status s \<Longrightarrow> settling B s i w (move i s err cat nxt incr e w)"
  by (simp add: settling_def move_settles_only)

lemma settle_batch_item_settling:
  assumes "undisturbed B e" and "settle_batch_item x e v i (let_others_run e w) = (st, w')"
  shows "settling B st i w w'"
  unfolding settling_def
proof (intro impI)
  assume i: "item_id i \<in> B" "held i (backlog w)"
  have k: "kept B (backlog w) (backlog (let_others_run e w))"
    using assms(1) by (simp add: undisturbed_def let_others_run_def)
  have "settles B st i (backlog (let_others_run e w)) (backlog w')"
    using assms(2) verified_move_settles [OF kept_held [OF k i]] by (auto simp: settle_batch_item_def Let_def)
  moreover have "final_status st"
    using assms(2) by (auto simp: settle_batch_item_def Let_def)
  ultimately show "settles B st i (backlog w) (backlog w') \<and> final_status st"
    using settles_after kept_subset [OF k] by blast
qed

lemma settle_each_chain:
  "\<forall>i \<in> set is. undisturbed B (es (item_id i)) \<Longrightarrow> settle_each x es s outcomes is w = (Inr sts, w') \<Longrightarrow>
   length sts = length is \<and> chain B (zip sts is) w w'"
proof (induction "is" arbitrary: w sts)
  case (Cons i "is")
  let ?e = "es (item_id i)"
  have step: "\<exists>st w1 sts1. settling B st i w w1 \<and> settle_each x es s outcomes is w1 = (Inr sts1, w') \<and> sts = st # sts1"
  proof (cases "outcomes (item_id i) \<noteq> Some ''success''")
    case True
    let ?w1 = "move i Retry_wait None (Some ''partial_failure'') (Some (exec_retry_at x ?e i)) False ?e w"
    have "\<exists>sts1. settle_each x es s outcomes is ?w1 = (Inr sts1, w') \<and> sts = Retry_wait # sts1"
      using Cons.prems(2) True by (auto simp: Let_def split: prod.splits sum.splits)
    with move_settling show ?thesis
      by (metis final_status_intros(5))
  next
    case False
    then obtain v where v: "snd (verify s i None) = Inr v"
      using Cons.prems(2) by (cases "snd (verify s i None)") (auto simp: Let_def)
    obtain st w1 where b: "settle_batch_item x ?e v i (let_others_run ?e w) = (st, w1)"
      by fastforce
    have "\<exists>sts1. settle_each x es s outcomes is w1 = (Inr sts1, w') \<and> sts = st # sts1"
      using Cons.prems(2) False v b by (auto simp: Let_def split: prod.splits sum.splits)
    with settle_batch_item_settling [OF _ b] Cons.prems(1) show ?thesis
      by fastforce
  qed
  then obtain st w1 sts1 where "settling B st i w w1" "settle_each x es s outcomes is w1 = (Inr sts1, w')" "sts = st # sts1"
    by blast
  with Cons.IH [of w1 sts1] Cons.prems(1) show ?case
    by auto
qed simp

lemma transition_batch_failure_chain:
  assumes "transition_batch_failure x e es ex is w = (sts, w')"
  shows "\<exists>w1. backlog w1 = backlog w \<and> length sts = length is \<and> chain B (zip sts is) w1 w'"
proof -
  obtain nxt w1 where p: "publish_failure x e (quota_policies x (remediation_strategy (hd is))) ex (hd is) w = (nxt, w1)"
    by fastforce
  have "chain B (zip (map (\<lambda>_. class_status (classify_error ex)) is) is) w1
      (move_each (\<lambda>i. fail_item ex nxt (es (item_id i)) i) is w1)"
    by (rule move_each_chain) (simp add: fail_item_def move_settling)
  with assms publish_failure_frame [OF p] show ?thesis
    by (auto simp: transition_batch_failure_def Let_def p)
qed

lemma run_whole_batch_chain:
  assumes "run_whole_batch x e es s run pre p is w = (Inr sts, w')"
    and "undisturbed B e" and "\<forall>i \<in> set is. undisturbed B (es (item_id i))"
  shows "\<exists>w1. kept B (backlog w) (backlog w1) \<and> length sts = length is \<and> chain B (zip sts is) w1 w'"
proof -
  obtain res q where r: "reserve pre (provider_key (hd is)) (quota_scope (hd is)) p (quota_cost s)
      (clock e At_reserve) (quota_store w) = (res, q)"
    by fastforce
  let ?w1 = "w\<lparr>quota_store := q\<rparr>"
  let ?out = "case run is of (d, r) \<Rightarrow> timed x d r"
  have k: "kept B (backlog w) (backlog (let_others_run e ?w1))"
    using assms(2) by (simp add: undisturbed_def let_others_run_def)
  consider (deferred) "\<not> allowed res" | (failed) ex where "allowed res" "?out = Inl ex"
    | (ran) outcomes where "allowed res" "?out = Inr outcomes"
    by (meson sumE)
  then show ?thesis
  proof cases
    case deferred
    have "chain B (zip (map (\<lambda>_. Deferred) is) is) ?w1 (move_each (\<lambda>i. defer_item res x (es (item_id i)) i) is ?w1)"
      by (rule move_each_chain) (simp add: defer_item_def move_settling)
    with deferred assms(1) r show ?thesis
      by (intro exI [of _ ?w1]) (auto simp: run_whole_batch_def)
  next
    case (failed ex)
    then have "transition_batch_failure x e es (batch_exc ex) is (let_others_run e ?w1) = (sts, w')"
      using assms(1) r by (simp add: run_whole_batch_def returns_def split: prod.splits)
    from transition_batch_failure_chain [OF this, of B] obtain w2 where
      "backlog w2 = backlog (let_others_run e ?w1)" "length sts = length is" "chain B (zip sts is) w2 w'"
      by blast
    with k show ?thesis
      by (intro exI [of _ w2]) simp
  next
    case (ran outcomes)
    then have "settle_each x es s outcomes is (let_others_run e ?w1) = (Inr sts, w')"
      using assms(1) r by (simp add: run_whole_batch_def)
    from settle_each_chain [OF assms(3) this] k show ?thesis
      by auto
  qed
qed

lemma execute_batch_chain:
  fixes x :: "'c executor"
  assumes "execute_batch x e es b w = (Inr sts, w')" and "batch_items b \<noteq> []"
    and "undisturbed B e" and "\<forall>i \<in> set (batch_items b). undisturbed B (es (item_id i))"
  shows "\<exists>(w1 :: 'c world) w2. kept B (backlog w) (backlog w1) \<and> backlog w' = backlog w2 \<and>
    length sts = length (batch_items b) \<and> chain B (zip sts (batch_items b)) w1 w2"
proof -
  obtain i0 is0 where i0: "batch_items b = i0 # is0"
    using assms(2) by (cases "batch_items b") auto
  have each: "\<exists>(w1 :: 'c world) w2. kept B (backlog w) (backlog w1) \<and> backlog w' = backlog w2 \<and>
      length sts = length (batch_items b) \<and> chain B (zip sts (batch_items b)) w1 w2"
    if "execute_each x es c (batch_items b) v = (sts, u)" "backlog v = backlog w" "backlog u = backlog w'" for c v u
    using execute_each_chain [OF assms(4) that(1)] that(2,3)
    by (intro exI [of _ v] exI [of _ u]) simp
  consider (one) "returns (execute_each x es None (batch_items b) w) = (Inr sts, w')"
    | (shared) c u where "execute_each x es c (batch_items b) (opened c w) = (sts, u)" "w' = close_connector c u"
    | (whole) s run pre p where "run_whole_batch x e es s run pre p (batch_items b) w = (Inr sts, w')"
    using assms(1) unfolding execute_batch_def i0 Let_def list.case
    by (auto split: option.splits bool.splits prod.splits sum.splits)
  then show ?thesis
  proof cases
    case one
    then show ?thesis
      by (intro each [of None w w']) (auto simp: returns_def split: prod.splits)
  next
    case (shared c u)
    then show ?thesis
      by (intro each [of c "opened c w" u]) simp_all
  next
    case whole
    from run_whole_batch_chain [OF whole assms(3,4)] show ?thesis
      by auto
  qed
qed

text \<open>
  A batch that returns has settled every one of its items with the status it reports for it,
  whether it ran item by item, with a shared connector, as one provider call, was deferred by the
  quota or failed as a whole, as long as the worker held the claims of the batch and other workers
  leave its rows alone.
\<close>

theorem execute_batch_settles:
  fixes x :: "'c executor"
  assumes "distinct (map item_id (batch_items b))" and "\<forall>i \<in> set (batch_items b). held i (backlog w)"
    and "undisturbed (item_id ` set (batch_items b)) e"
    and "\<forall>i \<in> set (batch_items b). undisturbed (item_id ` set (batch_items b)) (es (item_id i))"
    and "execute_batch x e es b w = (Inr sts, w')"
  shows "list_all2 (\<lambda>st i. settled st i (backlog w') \<and> st \<in> {Deferred, Retry_wait, Manual_review, Failed, Resolved})
    sts (batch_items b)"
proof (cases "batch_items b = []")
  case True
  then show ?thesis
    using assms(5) by (simp add: execute_batch_def)
next
  case False
  let ?B = "item_id ` set (batch_items b)"
  obtain w1 w2 :: "'c world" where c: "kept ?B (backlog w) (backlog w1)" "backlog w' = backlog w2"
    "length sts = length (batch_items b)" "chain ?B (zip sts (batch_items b)) w1 w2"
    using execute_batch_chain [OF assms(5) False assms(3,4)] by blast
  have "map (\<lambda>(s, i). item_id i) (zip sts (batch_items b)) = map item_id (batch_items b)"
    using map_map [of item_id snd "zip sts (batch_items b)"] c(3) by (simp add: case_prod_unfold comp_def)
  then have "distinct (map (\<lambda>(s, i). item_id i) (zip sts (batch_items b)))"
    using assms(1) by simp
  moreover have "\<forall>(s, i) \<in> set (zip sts (batch_items b)). item_id i \<in> ?B \<and> held i (backlog w1)"
    using assms(2) kept_held [OF c(1)] by (auto dest: set_zip_rightD)
  ultimately have "\<forall>(s, i) \<in> set (zip sts (batch_items b)). settled s i (backlog w2) \<and> final_status s"
    using chain_settles [OF c(4)] by blast
  then show ?thesis
    using c(2,3) by (simp add: list_all2_iff final_status_def)
qed

definition batch_strategy :: "exc + verification \<Rightarrow> unit strategy" where
  "batch_strategy r =
     (sample_strategy True)\<lparr>verify := (\<lambda>i c. (seconds 1, r)),
       run_batch := Some (\<lambda>is. (seconds 5, Inr (\<lambda>k. if k = ''c'' then Some ''missing'' else Some ''success'')))\<rparr>"

definition sample_batch :: batch where
  "sample_batch = \<lparr>compatibility = ''k'', batch_items = [claimed_row ''a'', claimed_row ''b'', claimed_row ''c'']\<rparr>"

theorem execute_batch_settles_witness:
  "\<exists>w'. execute_batch (sample_executor (batch_strategy (Inr \<lparr>ver_resolved = True, ver_reason = None\<rparr>)))
       (calm 7) (\<lambda>i. calm 9) sample_batch (sample_world (batch_items sample_batch)) =
     (Inr [Resolved, Resolved, Retry_wait], w') \<and>
   list_all2 (\<lambda>st i. settled st i (backlog w') \<and> st \<in> {Deferred, Retry_wait, Manual_review, Failed, Resolved})
     [Resolved, Resolved, Retry_wait] (batch_items sample_batch)"
proof -
  let ?x = "sample_executor (batch_strategy (Inr \<lparr>ver_resolved = True, ver_reason = None\<rparr>))"
  let ?w = "sample_world (batch_items sample_batch)"
  obtain r w' where x: "execute_batch ?x (calm 7) (\<lambda>i. calm 9) sample_batch ?w = (r, w')"
    by fastforce
  have "fst (execute_batch ?x (calm 7) (\<lambda>i. calm 9) sample_batch ?w) = Inr [Resolved, Resolved, Retry_wait]"
    by code_simp
  with x have r: "execute_batch ?x (calm 7) (\<lambda>i. calm 9) sample_batch ?w = (Inr [Resolved, Resolved, Retry_wait], w')"
    by simp
  have h: "distinct (map item_id (batch_items sample_batch))"
    "\<forall>i \<in> set (batch_items sample_batch). held i (backlog ?w)"
    by code_simp+
  have u: "undisturbed B (calm n)" for B n
    by (simp add: undisturbed_def calm_def)
  from execute_batch_settles [OF h u _ r] u r show ?thesis
    by blast
qed

text \<open>
  A batch whose verification raises does not return: the exception leaves the loop, and the
  items not reached yet keep their claims, although the comment of the failure path promises that
  no claim is left processing. They come back when their leases run out.
\<close>

theorem batch_verification_error_escapes:
  "fst (execute_batch (sample_executor (batch_strategy (Inl (TransientError ''down''))))
     (calm 7) (\<lambda>i. calm 9) sample_batch (sample_world (batch_items sample_batch))) = Inl (TransientError ''down'')"
  "backlog (snd (execute_batch (sample_executor (batch_strategy (Inl (TransientError ''down''))))
     (calm 7) (\<lambda>i. calm 9) sample_batch (sample_world (batch_items sample_batch)))) = batch_items sample_batch"
  by code_simp+

end
