(* ===== verification/Connector_Limiter.thy ===== *)
theory Connector_Limiter
  imports Window_Limiter Remediation
begin

text \<open>
  Throttling and retries of connector calls (\<^verbatim>\<open>connectors/rate_limiter.py\<close>). Every
  reading of the monotonic clock is an argument, in microseconds; what
  \<^verbatim>\<open>random.uniform\<close> returns and what the provider answers are arguments, too. Delays
  are exact rationals where the code computes in floating point.
\<close>

subsection \<open>The throttle\<close>

record rate_limit_policy =
  max_requests :: int
  window_us :: int
  backoff_base :: rat
  backoff_cap :: rat
  max_retries :: int
  jitter :: rat

text \<open>
  One call of \<^verbatim>\<open>acquire\<close> reads the clock on entry, once per remembered time when it
  prunes again after waiting, and for the time it appends.
\<close>

record readings =
  entry :: instant
  pruning :: "nat \<Rightarrow> instant"

definition prune :: "instant \<Rightarrow> instant list \<Rightarrow> instant list" where
  "prune cutoff ts = filter (\<lambda>t. cutoff < t) ts"

fun prune_reading :: "int \<Rightarrow> (nat \<Rightarrow> instant) \<Rightarrow> nat \<Rightarrow> instant list \<Rightarrow> instant list" where
  "prune_reading w clk k [] = []"
| "prune_reading w clk k (t # ts) =
     (if clk k - w < t then t # prune_reading w clk (Suc k) ts else prune_reading w clk (Suc k) ts)"

definition full :: "rate_limit_policy \<Rightarrow> instant list \<Rightarrow> bool" where
  "full p ts \<longleftrightarrow> max_requests p \<le> int (length ts)"

definition sleep_for :: "rate_limit_policy \<Rightarrow> readings \<Rightarrow> instant list \<Rightarrow> int" where
  "sleep_for p r ts = hd ts + window_us p - entry r"

definition acquire :: "rate_limit_policy \<Rightarrow> instant \<Rightarrow> readings \<Rightarrow> instant list \<Rightarrow> instant list" where
  "acquire p stamp r ts =
     (if max_requests p \<le> 0 then ts
      else let ts1 = prune (entry r - window_us p) ts;
               ts2 = (if full p ts1 then prune_reading (window_us p) (pruning r) 0 ts1 else ts1)
           in ts2 @ [stamp])"

text \<open>
  Readings the clock can give: it does not run backwards, and \<^verbatim>\<open>asyncio.sleep\<close> does not
  return before its delay has passed.
\<close>

definition possible_readings :: "rate_limit_policy \<Rightarrow> instant \<Rightarrow> readings \<Rightarrow> instant list \<Rightarrow> bool" where
  "possible_readings p stamp r ts \<longleftrightarrow>
     (\<forall>t \<in> set ts. t \<le> entry r) \<and> entry r \<le> stamp \<and>
     (\<forall>k < length ts. entry r \<le> pruning r k \<and> pruning r k \<le> stamp) \<and>
     (let ts1 = prune (entry r - window_us p) ts
      in full p ts1 \<longrightarrow> (\<forall>k < length ts. entry r + sleep_for p r ts1 \<le> pruning r k))"

lemma prune_reading_sub: "set (prune_reading w clk k ts) \<subseteq> set ts"
  by (induction w clk k ts rule: prune_reading.induct) auto

lemma prune_reading_length: "length (prune_reading w clk k ts) \<le> length ts"
  by (induction w clk k ts rule: prune_reading.induct) auto

text \<open>What was accounted since an instant is still remembered.\<close>

definition since_count :: "instant \<Rightarrow> instant list \<Rightarrow> nat" where
  "since_count since ts = length (filter (\<lambda>t. since \<le> t) ts)"

lemma since_count_prune: "cutoff < since \<Longrightarrow> since_count since (prune cutoff ts) = since_count since ts"
  unfolding since_count_def prune_def by (induction ts) auto

lemma since_count_prune_reading:
  "\<forall>j. k \<le> j \<and> j < k + length ts \<longrightarrow> clk j - w < since \<Longrightarrow>
   since_count since (prune_reading w clk k ts) = since_count since ts"
proof (induction w clk k ts rule: prune_reading.induct)
  case (2 w clk k t ts)
  have "clk k - w < since"
    using 2(3) by simp
  moreover have "\<forall>j. Suc k \<le> j \<and> j < Suc k + length ts \<longrightarrow> clk j - w < since"
    using 2(3) by simp
  ultimately show ?case
    using 2(1,2) by (auto simp: since_count_def)
qed simp

lemma since_count_length: "since_count since ts \<le> length ts"
  by (simp add: since_count_def)

definition slots_inv :: "rate_limit_policy \<Rightarrow> instant \<Rightarrow> instant list \<Rightarrow> bool" where
  "slots_inv p t ts \<longleftrightarrow> 0 < max_requests p \<and> int (length ts) \<le> max_requests p \<and> (\<forall>x \<in> set ts. x \<le> t)"

text \<open>Waiting frees a slot: the oldest time is gone when the sleep is over.\<close>

lemma wait_frees_slot:
  assumes "ts \<noteq> []" and "\<forall>k < length ts. entry r + sleep_for p r ts \<le> pruning r k"
  shows "length (prune_reading (window_us p) (pruning r) 0 ts) < length ts"
proof -
  obtain t ts' where ts: "ts = t # ts'"
    using assms(1) by (cases ts) auto
  have "\<not> pruning r 0 - window_us p < t"
    using assms(2) by (auto simp: ts sleep_for_def)
  then show ?thesis
    using prune_reading_length [of "window_us p" "pruning r" 1 ts'] by (simp add: ts)
qed

lemma acquire_slots:
  assumes "slots_inv p t ts" and "possible_readings p stamp r ts"
  shows "int (length (acquire p stamp r ts)) \<le> max_requests p"
proof -
  let ?ts1 = "prune (entry r - window_us p) ts"
  have len: "length ?ts1 \<le> length ts"
    by (simp add: prune_def)
  show ?thesis
  proof (cases "full p ?ts1")
    case True
    then have "?ts1 \<noteq> []"
      using assms(1) by (auto simp: full_def slots_inv_def)
    moreover have "\<forall>k < length ?ts1. entry r + sleep_for p r ?ts1 \<le> pruning r k"
      using assms(2) True len by (simp add: possible_readings_def Let_def)
    ultimately have "length (prune_reading (window_us p) (pruning r) 0 ?ts1) < length ?ts1"
      by (rule wait_frees_slot)
    then show ?thesis
      using assms(1) len True by (simp add: acquire_def Let_def slots_inv_def)
  next
    case False
    then show ?thesis
      using assms(1) by (simp add: acquire_def Let_def full_def slots_inv_def)
  qed
qed

definition acquire_admit :: "rate_limit_policy \<Rightarrow> instant \<Rightarrow> readings \<Rightarrow> instant list \<Rightarrow> bool \<times> instant list" where
  "acquire_admit p stamp r ts = (True, acquire p stamp r ts)"

interpretation throttle: window_limiter "acquire_admit p" "\<lambda>r. 1" "possible_readings p"
  "\<lambda>ts since t. int (since_count since ts)" "slots_inv p" "window_us p" "max_requests p" for p
proof unfold_locales
  fix t ts n r ok ts'
  assume inv: "slots_inv p t ts" and n: "t \<le> n" and v: "possible_readings p n r ts"
    and a: "acquire_admit p n r ts = (ok, ts')"
  have ts': "ts' = acquire p n r ts" and ok: "ok"
    using a by (simp_all add: acquire_admit_def)
  let ?ts1 = "prune (entry r - window_us p) ts"
  let ?ts2 = "if full p ?ts1 then prune_reading (window_us p) (pruning r) 0 ?ts1 else ?ts1"
  have acq: "acquire p n r ts = ?ts2 @ [n]"
    using inv by (simp add: acquire_def Let_def slots_inv_def)
  have "set ?ts2 \<subseteq> set ts"
    using prune_reading_sub [of "window_us p" "pruning r" 0 ?ts1] by (auto simp: prune_def split: if_splits)
  moreover have "x \<le> n" if "x \<in> set ts" for x
    using that inv n by (auto simp: slots_inv_def)
  ultimately have "\<forall>x \<in> set (?ts2 @ [n]). x \<le> n"
    by auto
  then show "slots_inv p n ts'"
    using inv acquire_slots [OF inv v] unfolding ts' slots_inv_def acq by blast
  fix since
  assume w: "n < since + window_us p"
  have "entry r - window_us p < since"
    using v w by (simp add: possible_readings_def)
  then have one: "since_count since ?ts1 = since_count since ts"
    by (rule since_count_prune)
  have "pruning r j - window_us p < since" if "j < length ?ts1" for j
  proof -
    have "length ?ts1 \<le> length ts"
      by (simp add: prune_def)
    with that have "j < length ts"
      by (rule less_le_trans)
    with v have "pruning r j \<le> n"
      unfolding possible_readings_def by blast
    with w show ?thesis
      by linarith
  qed
  then have "since_count since ?ts2 = since_count since ts"
    using one by (simp add: since_count_prune_reading)
  then show "int (since_count since ts) + (if ok \<and> since \<le> n then 1 else 0) \<le> int (since_count since ts')"
    unfolding ts' acq by (simp add: since_count_def)
next
  fix t ts since
  assume "slots_inv p t ts" "t < since + window_us p"
  then show "int (since_count since ts) \<le> max_requests p"
    using since_count_length [of since ts] by (simp add: slots_inv_def)
qed

text \<open>
  C13. The throttle keeps the provider's limit: whatever callers ask for slots, no window of the
  policy's length contains more requests than it allows, given a clock that does not run backwards
  and sleeps that are not cut short.
\<close>

theorem connector_rate_never_exceeded:
  assumes "0 < max_requests p" and "sorted (map fst es)"
    and "possible (possible_readings p) (acquire_admit p) es []"
  shows "length (filter (\<lambda>(n, r). since \<le> n \<and> n < since + window_us p) es) \<le> nat (max_requests p)"
proof (cases "0 < window_us p")
  case True
  define t where "t = Min (insert since (set (map fst es)))"
  have t: "t \<le> since" "\<forall>n \<in> set (map fst es). t \<le> n"
    unfolding t_def by simp_all
  have all: "fst (run_limiter (acquire_admit p) es ts) = es" for ts
  proof (induction es arbitrary: ts)
    case (Cons ev es)
    show ?case
      using Cons.IH [of "acquire p (fst ev) (snd ev) ts"]
      by (cases ev) (auto simp: acquire_admit_def split: prod.splits)
  qed simp
  have "sorted (t # map fst es)" "t < since + window_us p" "slots_inv p t []" "0 \<le> int (since_count since [])"
    using assms(1,2) t True by (auto simp: slots_inv_def)
  then have "admitted_within (\<lambda>r. 1) since (since + window_us p) (fst (run_limiter (acquire_admit p) es [])) \<le> max_requests p"
    using assms(3) by (intro throttle.never_above_cap)
  then show ?thesis
    using assms(1) by (simp only: all admitted_within_count)
next
  case False
  then have "filter (\<lambda>(n, r). since \<le> n \<and> n < since + window_us p) es = []"
    by (auto simp: filter_empty_conv)
  then show ?thesis
    by simp
qed

definition sample_policy :: rate_limit_policy where
  "sample_policy = \<lparr>max_requests = 2, window_us = 100, backoff_base = 1, backoff_cap = 120, max_retries = 5, jitter = 1 / 10\<rparr>"

definition sample_calls :: "(instant \<times> readings) list" where
  "sample_calls =
     [(1, \<lparr>entry = 1, pruning = (\<lambda>_. 1)\<rparr>), (5, \<lparr>entry = 4, pruning = (\<lambda>_. 4)\<rparr>),
      (110, \<lparr>entry = 7, pruning = (\<lambda>_. 105)\<rparr>)]"

theorem connector_rate_never_exceeded_witness:
  "length (filter (\<lambda>(n, r). 3 \<le> n \<and> n < 3 + window_us sample_policy) sample_calls) \<le> nat (max_requests sample_policy)"
proof (rule connector_rate_never_exceeded)
  show "0 < max_requests sample_policy" "sorted (map fst sample_calls)"
    by code_simp+
  show "possible (possible_readings sample_policy) (acquire_admit sample_policy) sample_calls []"
    by (simp add: sample_calls_def sample_policy_def possible_readings_def acquire_admit_def acquire_def
        prune_def full_def sleep_for_def)
qed

subsection \<open>Backoff and retries\<close>

text \<open>\<open>u\<close> is what \<^verbatim>\<open>random.uniform(-jitter, jitter)\<close> returned.\<close>

definition backoff_delay :: "rate_limit_policy \<Rightarrow> rat \<Rightarrow> nat \<Rightarrow> rat" where
  "backoff_delay p u attempt = min (backoff_base p * 2 ^ attempt) (backoff_cap p) * (1 + u)"

definition retry_sleep :: "rate_limit_policy \<Rightarrow> rat \<Rightarrow> exc \<Rightarrow> nat \<Rightarrow> rat" where
  "retry_sleep p u ex attempt =
     (case ex of
        RateLimitError (Some d) _ \<Rightarrow> max (backoff_delay p u attempt) d
      | _ \<Rightarrow> backoff_delay p u attempt)"

definition exhausted :: "rate_limit_policy \<Rightarrow> exc option \<Rightarrow> exc" where
  "exhausted p seen =
     (case seen of
        Some (RateLimitError d t) \<Rightarrow> RateLimitError d t
      | Some ex \<Rightarrow> TransientError (''All '' @ show_int (max_retries p) @ '' retries exhausted: '' @ exc_text ex)
      | None \<Rightarrow> TransientError (''All '' @ show_int (max_retries p) @ '' retries exhausted''))"

definition is_permanent :: "exc \<Rightarrow> bool" where
  "is_permanent ex \<longleftrightarrow> (case ex of PermanentError _ \<Rightarrow> True | _ \<Rightarrow> False)"

record 'a retry_run =
  outcome :: "exc + 'a"
  calls :: nat
  sleeps :: "rat list"
  slots :: "instant list"

text \<open>
  The loop over the attempts that are left. \<open>clk\<close> gives the readings and the stamp of the
  slot of an attempt, \<open>call\<close> the provider's answer.
\<close>

fun retry_loop ::
  "rate_limit_policy \<Rightarrow> (nat \<Rightarrow> instant \<times> readings) \<Rightarrow> (nat \<Rightarrow> rat) \<Rightarrow> (nat \<Rightarrow> exc + 'a) \<Rightarrow>
   exc option \<Rightarrow> nat list \<Rightarrow> instant list \<Rightarrow> 'a retry_run" where
  "retry_loop p clk us call seen [] ts =
     \<lparr>outcome = Inl (exhausted p seen), calls = 0, sleeps = [], slots = ts\<rparr>"
| "retry_loop p clk us call seen (a # as) ts =
     (let ts1 = acquire p (fst (clk a)) (snd (clk a)) ts
      in case call a of
           Inr v \<Rightarrow> \<lparr>outcome = Inr v, calls = 1, sleeps = [], slots = ts1\<rparr>
         | Inl ex \<Rightarrow>
             if is_permanent ex then \<lparr>outcome = Inl ex, calls = 1, sleeps = [], slots = ts1\<rparr>
             else let rest = retry_loop p clk us call (Some ex) as ts1
                  in rest\<lparr>calls := Suc (calls rest),
                          sleeps := (if int a < max_retries p then [retry_sleep p (us a) ex a] else []) @ sleeps rest\<rparr>)"

definition retry ::
  "rate_limit_policy \<Rightarrow> (nat \<Rightarrow> instant \<times> readings) \<Rightarrow> (nat \<Rightarrow> rat) \<Rightarrow> (nat \<Rightarrow> exc + 'a) \<Rightarrow> instant list \<Rightarrow> 'a retry_run" where
  "retry p clk us call ts = retry_loop p clk us call None [0..<nat (max_retries p + 1)] ts"

text \<open>The attempt that ends the loop: a result or a permanent error.\<close>

definition decisive :: "exc + 'a \<Rightarrow> bool" where
  "decisive r \<longleftrightarrow> (case r of Inr _ \<Rightarrow> True | Inl ex \<Rightarrow> is_permanent ex)"

lemma backoff_delay_bounds:
  assumes "0 \<le> backoff_base p" and "0 \<le> backoff_cap p" and "\<bar>u\<bar> \<le> jitter p" and "jitter p \<le> 1"
  shows "0 \<le> backoff_delay p u a" and "backoff_delay p u a \<le> backoff_cap p * (1 + jitter p)"
proof -
  let ?c = "min (backoff_base p * 2 ^ a) (backoff_cap p)"
  have c: "0 \<le> ?c" "?c \<le> backoff_cap p"
    using assms by simp_all
  have u: "0 \<le> 1 + u" "1 + u \<le> 1 + jitter p"
    using assms by linarith+
  show "0 \<le> backoff_delay p u a"
    unfolding backoff_delay_def using c(1) u(1) by (rule mult_nonneg_nonneg)
  show "backoff_delay p u a \<le> backoff_cap p * (1 + jitter p)"
    unfolding backoff_delay_def using c u by (intro mult_mono) auto
qed

lemma retry_loop_outcome:
  "retry_loop p clk us call seen as ts = run \<Longrightarrow>
   (case find (\<lambda>a. decisive (call a)) as of
      Some a \<Rightarrow> outcome run = call a \<and> calls run = Suc (length (takeWhile (\<lambda>b. \<not> decisive (call b)) as))
    | None \<Rightarrow> calls run = length as \<and>
        outcome run = Inl (exhausted p (if as = [] then seen else case call (List.last as) of Inl ex \<Rightarrow> Some ex | Inr _ \<Rightarrow> None)))"
proof (induction p clk us call seen as ts arbitrary: run rule: retry_loop.induct)
  case (2 p clk us call seen a as ts)
  show ?case
  proof (cases "call a")
    case (Inr v)
    then show ?thesis
      using 2(2) by (auto simp: decisive_def Let_def)
  next
    case (Inl ex)
    show ?thesis
    proof (cases "is_permanent ex")
      case True
      then show ?thesis
        using 2(2) Inl by (auto simp: decisive_def Let_def)
    next
      case False
      let ?rest = "retry_loop p clk us call (Some ex) as (acquire p (fst (clk a)) (snd (clk a)) ts)"
      have run: "outcome run = outcome ?rest" "calls run = Suc (calls ?rest)"
        using 2(2) Inl False by (auto simp: Let_def)
      have d: "\<not> decisive (call a)"
        using Inl False by (simp add: decisive_def)
      from 2(1) [OF refl Inl False refl] show ?thesis
        unfolding run using d Inl by (auto split: option.splits)
    qed
  qed
qed auto

lemma find_upt_first:
  "find P [0..<n] = Some k \<Longrightarrow> P k \<and> k < n \<and> (\<forall>j < k. \<not> P j) \<and> length (takeWhile (\<lambda>j. \<not> P j) [0..<n]) = k"
proof -
  assume f: "find P [0..<n] = Some k"
  then obtain i where i: "i < n" "P i" "k = i" "\<forall>j < i. \<not> P j"
    unfolding find_Some_iff by auto
  have "takeWhile (\<lambda>j. \<not> P j) [0..<n] = [0..<k]"
    using takeWhile_eq_take_P_nth [of i "[0..<n]" "\<lambda>j. \<not> P j"] i by (simp add: take_upt)
  with i show ?thesis
    by simp
qed

lemma retry_sleep_hint: "provider_hint = Some d \<Longrightarrow> d \<le> retry_sleep p u (RateLimitError provider_hint t) a"
  by (simp add: retry_sleep_def)

text \<open>
  A call with retries ends after at most the allowed number of attempts, with the result of
  the first attempt that succeeds or fails permanently and no further call after it; when every
  attempt fails otherwise, all of them are made and the last failure is reported, a rate limit
  unchanged and anything else as a transient error.
\<close>

theorem retry_stops_at_first_decisive:
  assumes "0 \<le> max_retries p"
  shows "(\<exists>k \<le> nat (max_retries p). decisive (call k) \<and> (\<forall>j < k. \<not> decisive (call j)) \<and>
      outcome (retry p clk us call ts) = call k \<and> calls (retry p clk us call ts) = k + 1) \<or>
    ((\<forall>k \<le> nat (max_retries p). \<not> decisive (call k)) \<and>
     calls (retry p clk us call ts) = nat (max_retries p) + 1 \<and>
     (\<exists>ex. call (nat (max_retries p)) = Inl ex \<and> outcome (retry p clk us call ts) = Inl (exhausted p (Some ex))))"
proof -
  define n where "n = nat (max_retries p)"
  have n: "[0..<nat (max_retries p + 1)] = [0..<Suc n]"
    using assms by (simp add: n_def nat_add_distrib)
  note out = retry_loop_outcome [of p clk us call None "[0..<Suc n]" ts, OF refl]
  show ?thesis
  proof (cases "find (\<lambda>a. decisive (call a)) [0..<Suc n]")
    case (Some k)
    from find_upt_first [OF this] out Some show ?thesis
      unfolding retry_def n n_def [symmetric] by (auto simp del: upt_Suc)
  next
    case None
    then have no: "\<not> decisive (call k)" if "k \<le> n" for k
      using that by (simp add: find_None_iff del: upt_Suc)
    then obtain ex where ex: "call n = Inl ex"
      by (cases "call n") (fastforce simp: decisive_def)+
    have "calls (retry p clk us call ts) = Suc n" "outcome (retry p clk us call ts) = Inl (exhausted p (Some ex))"
      using out None ex unfolding retry_def n by (simp_all del: upt_Suc)
    with no ex show ?thesis
      unfolding n_def by simp
  qed
qed

definition flaky :: "nat \<Rightarrow> exc + int" where
  "flaky k = (if k < 2 then Inl (RateLimitError (Some 7) ''limit'') else Inr 42)"

theorem retry_stops_at_first_decisive_witness:
  "\<exists>k \<le> 5. decisive (flaky k) \<and>
     outcome (retry sample_policy (\<lambda>k. (0, \<lparr>entry = 0, pruning = (\<lambda>_. 0)\<rparr>)) (\<lambda>k. 0) flaky []) = flaky k \<and>
     calls (retry sample_policy (\<lambda>k. (0, \<lparr>entry = 0, pruning = (\<lambda>_. 0)\<rparr>)) (\<lambda>k. 0) flaky []) = k + 1"
proof -
  have p: "0 \<le> max_retries sample_policy" "nat (max_retries sample_policy) = 5"
    by code_simp+
  have "decisive (flaky 2)"
    by code_simp
  then have "\<not> (\<forall>k \<le> 5. \<not> decisive (flaky k))"
    using le_numeral_extra by (auto intro!: exI [of _ 2])
  with retry_stops_at_first_decisive [OF p(1), of flaky "\<lambda>k. (0, \<lparr>entry = 0, pruning = (\<lambda>_. 0)\<rparr>)" "\<lambda>k. 0" "[]"]
  show ?thesis
    unfolding p(2) by blast
qed

end
