(* ===== verification/Outbox.thy ===== *)
theory Outbox
  imports Work_Queue Py_Text
begin

text \<open>
  The transactional outbox: the messages (\<^verbatim>\<open>models/outbox.py\<close>), their emission
  inside a unit of work (\<^verbatim>\<open>sync/outbox.py\<close>) and the polling publisher
  (\<^verbatim>\<open>sync/outbox_publisher.py\<close>).

  A table is the list of its rows. The identifiers of the rows that other transactions have
  locked are an argument of the claim; the clock is an argument of every operation that reads
  it. A handler is registered code: what the publisher sees of it is whether the call returns
  (\<open>None\<close>) or raises, with the text of the traceback.
\<close>

datatype outbox_status = PENDING | PROCESSING | SENT | FAILED

record outbox_message =
  msg_id :: nat
  aggregate_id :: pystr
  aggregate_type :: pystr
  event_type :: pystr
  idempotency_key :: "pystr option"
  payload :: pyval
  msg_status :: outbox_status
  msg_claimed_at :: "instant option"
  published_at :: "instant option"
  error_message :: "pystr option"
  msg_created_at :: instant

record outbox =
  messages :: "outbox_message list"
  next_msg_id :: nat

datatype outbox_error = IntegrityError

subsection \<open>Emission\<close>

definition has_key :: "pystr option \<Rightarrow> outbox_message list \<Rightarrow> bool" where
  "has_key k ms \<longleftrightarrow> k \<noteq> None \<and> (\<exists>m \<in> set ms. idempotency_key m = k)"

text \<open>
  Adding a message; the flush of the caller's transaction enforces the unique index on the
  idempotency key.
\<close>

definition add_outbox_message ::
  "instant \<Rightarrow> pystr \<Rightarrow> pystr \<Rightarrow> pystr \<Rightarrow> pyval \<Rightarrow> pystr option \<Rightarrow> outbox \<Rightarrow>
   outbox_error + (outbox_message \<times> outbox)" where
  "add_outbox_message now aid aty ev pl k ob =
     (if has_key k (messages ob) then Inl IntegrityError
      else let m = \<lparr>msg_id = next_msg_id ob, aggregate_id = aid, aggregate_type = aty,
                    event_type = ev, idempotency_key = k,
                    payload = (if pl = PNone then PDict [] else pl), msg_status = PENDING,
                    msg_claimed_at = None, published_at = None, error_message = None,
                    msg_created_at = now\<rparr>
           in Inr (m, \<lparr>messages = messages ob @ [m], next_msg_id = Suc (next_msg_id ob)\<rparr>))"

definition opt_str :: "pystr option \<Rightarrow> pyval" where
  "opt_str s = (case s of None \<Rightarrow> PNone | Some t \<Rightarrow> PStr t)"

definition or_empty :: "pyval \<Rightarrow> pyval" where
  "or_empty d = (if d = PNone then PDict [] else d)"

definition outbox_entity_created ::
  "instant \<Rightarrow> pystr \<Rightarrow> pystr \<Rightarrow> pystr \<Rightarrow> pyval \<Rightarrow> pystr option \<Rightarrow> outbox \<Rightarrow>
   outbox_error + (outbox_message \<times> outbox)" where
  "outbox_entity_created now tid ety eid ed pk ob =
     add_outbox_message now eid ety (ety @ ''.created'')
       (PDict [(''tenant_id'', PStr tid), (''entity_id'', PStr eid), (''entity_type'', PStr ety),
               (''data'', or_empty ed), (''provider_key'', opt_str pk)])
       (Some (ety @ '':'' @ eid @ '':created'')) ob"

definition outbox_reconciliation_completed ::
  "instant \<Rightarrow> pystr \<Rightarrow> pystr \<Rightarrow> int \<Rightarrow> pyval \<Rightarrow> outbox \<Rightarrow> outbox_error + (outbox_message \<times> outbox)" where
  "outbox_reconciliation_completed now run tid n sm ob =
     add_outbox_message now run ''reconciliation'' ''reconciliation.completed''
       (PDict [(''run_id'', PStr run), (''tenant_id'', PStr tid), (''finding_count'', PInt n),
               (''summary'', or_empty sm)])
       (Some (''reconciliation:'' @ run @ '':completed'')) ob"

definition outbox_sync_completed ::
  "instant \<Rightarrow> pystr \<Rightarrow> pystr \<Rightarrow> pystr \<Rightarrow> int \<Rightarrow> int \<Rightarrow> int \<Rightarrow> int \<Rightarrow> outbox \<Rightarrow>
   outbox_error + (outbox_message \<times> outbox)" where
  "outbox_sync_completed now tid run pk accs txns hs un ob =
     add_outbox_message now run ''sync_run'' ''sync.completed''
       (PDict [(''tenant_id'', PStr tid), (''provider_key'', PStr pk), (''accounts'', PInt accs),
               (''transactions'', PInt txns), (''holdings'', PInt hs),
               (''unresolved_securities'', PInt un)])
       (Some (''sync:'' @ run @ '':completed'')) ob"

definition updated_key :: "pystr \<Rightarrow> pystr \<Rightarrow> pystr" where
  "updated_key ety eid = ety @ '':'' @ eid @ '':updated''"

definition outbox_entity_updated ::
  "instant \<Rightarrow> pystr \<Rightarrow> pystr \<Rightarrow> pystr \<Rightarrow> pyval \<Rightarrow> pystr option \<Rightarrow> bool \<Rightarrow> outbox \<Rightarrow>
   outbox_error + (outbox_message \<times> outbox)" where
  "outbox_entity_updated now tid ety eid changed pk deduplicate ob =
     (case (if deduplicate
            then find (\<lambda>m. idempotency_key m = Some (updated_key ety eid)) (messages ob)
            else None) of
        Some m \<Rightarrow> Inr (m, ob)
      | None \<Rightarrow>
          add_outbox_message now eid ety (ety @ ''.updated'')
            (PDict [(''tenant_id'', PStr tid), (''entity_id'', PStr eid), (''entity_type'', PStr ety),
                    (''changed_fields'', or_empty changed), (''provider_key'', opt_str pk)])
            (Some (updated_key ety eid)) ob)"

subsection \<open>Claiming\<close>

definition claim_timeout :: int where
  "claim_timeout = minutes 5"

definition eligible_message :: "instant \<Rightarrow> outbox_message \<Rightarrow> bool" where
  "eligible_message now m \<longleftrightarrow>
     msg_status m = PENDING \<or>
     (msg_status m = PROCESSING \<and>
      (case msg_claimed_at m of None \<Rightarrow> True | Some c \<Rightarrow> c < now - claim_timeout))"

definition claim_message :: "instant \<Rightarrow> outbox_message \<Rightarrow> outbox_message" where
  "claim_message now m = m\<lparr>msg_status := PROCESSING, msg_claimed_at := Some now\<rparr>"

definition pending_batch :: "nat \<Rightarrow> instant \<Rightarrow> nat set \<Rightarrow> outbox_message list \<Rightarrow> outbox_message list" where
  "pending_batch batch now locked ms =
     take batch (sort_key msg_created_at
       (filter (\<lambda>m. eligible_message now m \<and> msg_id m \<notin> locked) ms))"

definition fetch_pending ::
  "nat \<Rightarrow> instant \<Rightarrow> nat set \<Rightarrow> outbox_message list \<Rightarrow> outbox_message list \<times> outbox_message list" where
  "fetch_pending batch now locked ms =
     claim_by msg_id (pending_batch batch) claim_message now locked ms"

definition count_pending :: "outbox_message list \<Rightarrow> nat" where
  "count_pending ms = length (filter (\<lambda>m. msg_status m = PENDING) ms)"

subsection \<open>Dispatch\<close>

type_synonym handler = "outbox_message \<Rightarrow> pystr option"
type_synonym registry = "(pystr \<times> handler list) list"

definition register_handler :: "pystr \<Rightarrow> handler \<Rightarrow> registry \<Rightarrow> registry" where
  "register_handler ev h reg = group_add ev h reg"

definition handlers_at :: "registry \<Rightarrow> pystr \<Rightarrow> handler list" where
  "handlers_at reg ev = (case map_of reg ev of None \<Rightarrow> [] | Some hs \<Rightarrow> hs)"

definition handlers_for :: "registry \<Rightarrow> pystr \<Rightarrow> handler list" where
  "handlers_for reg ev = handlers_at reg ev @ handlers_at reg ''*''"

definition handler_errors :: "handler list \<Rightarrow> outbox_message \<Rightarrow> pystr list" where
  "handler_errors hs m = concat (map (\<lambda>h. case h m of None \<Rightarrow> [] | Some e \<Rightarrow> [e]) hs)"

definition sent_message :: "instant \<Rightarrow> outbox_message \<Rightarrow> outbox_message" where
  "sent_message now m = m\<lparr>msg_status := SENT, published_at := Some now, msg_claimed_at := None\<rparr>"

definition failed_message :: "pystr list \<Rightarrow> outbox_message \<Rightarrow> outbox_message" where
  "failed_message errors m =
     m\<lparr>msg_status := FAILED, error_message := Some (take 2048 (join ''; '' errors)), msg_claimed_at := None\<rparr>"

definition mark_sent :: "instant \<Rightarrow> outbox_message \<Rightarrow> outbox_message list \<Rightarrow> outbox_message list" where
  "mark_sent now message ms = update_rows (\<lambda>m. msg_id m = msg_id message) (sent_message now) ms"

definition dispatch ::
  "registry \<Rightarrow> instant \<Rightarrow> outbox_message \<Rightarrow> outbox_message list \<Rightarrow> bool \<times> outbox_message list" where
  "dispatch reg now message ms =
     (let hs = handlers_for reg (event_type message)
      in if hs = [] then (True, mark_sent now message ms)
         else let errors = handler_errors hs message
              in if errors = []
                 then (True, update_rows (\<lambda>m. msg_id m = msg_id message) (sent_message now) ms)
                 else (False, update_rows (\<lambda>m. msg_id m = msg_id message) (failed_message errors) ms))"

text \<open>The loop of a tick; \<open>clock\<close> gives the time at which each message is finished.\<close>

fun dispatch_all ::
  "registry \<Rightarrow> (nat \<Rightarrow> instant) \<Rightarrow> outbox_message list \<Rightarrow> outbox_message list \<Rightarrow> nat \<times> outbox_message list" where
  "dispatch_all reg clock [] ms = (0, ms)"
| "dispatch_all reg clock (m # rest) ms =
     (case dispatch reg (clock (msg_id m)) m ms of
        (ok, ms1) \<Rightarrow>
          (case dispatch_all reg clock rest ms1 of
             (n, ms2) \<Rightarrow> ((if ok then 1 else 0) + n, ms2)))"

definition run_once ::
  "registry \<Rightarrow> nat \<Rightarrow> instant \<Rightarrow> (nat \<Rightarrow> instant) \<Rightarrow> nat set \<Rightarrow> outbox_message list \<Rightarrow> nat \<times> outbox_message list" where
  "run_once reg batch now clock locked ms =
     (case fetch_pending batch now locked ms of
        (claimed, ms1) \<Rightarrow> if claimed = [] then (0, ms1) else dispatch_all reg clock claimed ms1)"

definition has_been_processed :: "pystr \<Rightarrow> outbox_message list \<Rightarrow> bool" where
  "has_been_processed k ms \<longleftrightarrow> (\<exists>m \<in> set ms. idempotency_key m = Some k \<and> msg_status m = SENT)"

definition is_duplicate :: "pystr \<Rightarrow> outbox_message list \<Rightarrow> bool" where
  "is_duplicate k ms \<longleftrightarrow> (\<exists>m \<in> set ms. idempotency_key m = Some k)"

subsection \<open>Claims are leases\<close>

lemma claim_message_id [simp]: "msg_id (claim_message now m) = msg_id m"
  by (simp add: claim_message_def)

lemma pending_batch_from:
  "m \<in> set (pending_batch batch now locked ms) \<Longrightarrow>
   m \<in> set ms \<and> eligible_message now m \<and> msg_id m \<notin> locked"
  unfolding pending_batch_def by (drule in_set_takeD) auto

lemma pending_batch_distinct:
  "distinct (map msg_id ms) \<Longrightarrow> distinct (map msg_id (pending_batch batch now locked ms))"
  by (simp add: pending_batch_def take_map [symmetric] distinct_map inj_on_def)

lemma claimed_not_eligible: "now \<le> n \<Longrightarrow> n \<le> now + claim_timeout \<Longrightarrow> \<not> eligible_message n (claim_message now m)"
  by (simp add: eligible_message_def claim_message_def)

interpretation outbox_queue: stamped_queue msg_id eligible_message "pending_batch batch" claim_message
  claim_timeout for batch
  by unfold_locales (auto dest: pending_batch_from intro: pending_batch_distinct simp: claimed_not_eligible)

lemma fetch_pending_fun: "fetch_pending batch = claim_by msg_id (pending_batch batch) claim_message"
  by (intro ext) (simp add: fetch_pending_def)

text \<open>
  C7. Publishers do not compete: however many of them poll, and whatever rows each finds
  locked, no message is handed out twice within the claim timeout.
\<close>

theorem outbox_claims_exclusive:
  assumes "distinct (map msg_id ms)" and "sorted (map fst cs)"
    and "\<forall>c \<in> set cs. \<forall>d \<in> set cs. fst d \<le> fst c + claim_timeout"
  shows "distinct (fst (run_claims msg_id (fetch_pending batch) cs ms))"
  unfolding fetch_pending_fun by (rule outbox_queue.claims_exclusive [OF assms])

definition sample_message :: "nat \<Rightarrow> outbox_status \<Rightarrow> instant option \<Rightarrow> outbox_message" where
  "sample_message i s c =
     \<lparr>msg_id = i, aggregate_id = ''a'', aggregate_type = ''account'', event_type = ''account.created'',
      idempotency_key = None, payload = PDict [], msg_status = s, msg_claimed_at = c,
      published_at = None, error_message = None, msg_created_at = int i\<rparr>"

definition sample_messages :: "outbox_message list" where
  "sample_messages =
     [sample_message 0 PENDING None, sample_message 1 PROCESSING (Some 0), sample_message 2 PENDING None,
      sample_message 3 FAILED None]"

theorem outbox_claims_exclusive_witness:
  "fst (run_claims msg_id (fetch_pending 2) [(minutes 10, {}), (minutes 11, {}), (minutes 15, {})] sample_messages) =
     [0, 1, 2] \<and>
   distinct (fst (run_claims msg_id (fetch_pending 2) [(minutes 10, {}), (minutes 11, {}), (minutes 15, {})]
     sample_messages))"
proof
  show "fst (run_claims msg_id (fetch_pending 2) [(minutes 10, {}), (minutes 11, {}), (minutes 15, {})]
      sample_messages) = [0, 1, 2]"
    by code_simp
  show "distinct (fst (run_claims msg_id (fetch_pending 2)
      [(minutes 10, {}), (minutes 11, {}), (minutes 15, {})] sample_messages))"
    by (rule outbox_claims_exclusive)
       (simp_all add: claim_timeout_def sample_messages_def sample_message_def)
qed

text \<open>
  Nothing is stranded: when the batch is large enough, a poll hands out exactly the
  unlocked messages that are pending or whose claim has timed out, so the work of a crashed
  publisher is recovered. Sent and failed messages are never among them.
\<close>

theorem fetch_pending_complete:
  assumes "length (filter (\<lambda>m. eligible_message now m \<and> msg_id m \<notin> locked) ms) \<le> batch"
  shows "msg_id ` set (fst (fetch_pending batch now locked ms)) =
    msg_id ` {m \<in> set ms. msg_id m \<notin> locked \<and>
       (msg_status m = PENDING \<or>
        msg_status m = PROCESSING \<and>
          (case msg_claimed_at m of None \<Rightarrow> True | Some c \<Rightarrow> c + claim_timeout < now))}"
proof -
  have "set (pending_batch batch now locked ms) = {m \<in> set ms. eligible_message now m \<and> msg_id m \<notin> locked}"
    using assms by (auto simp: pending_batch_def)
  then have "set (pending_batch batch now locked ms) = {m \<in> set ms. msg_id m \<notin> locked \<and>
       (msg_status m = PENDING \<or>
        msg_status m = PROCESSING \<and>
          (case msg_claimed_at m of None \<Rightarrow> True | Some c \<Rightarrow> c + claim_timeout < now))}"
    by (auto simp: eligible_message_def less_diff_eq split: option.splits)
  then show ?thesis
    by (simp add: fetch_pending_def claim_by_def Let_def image_image)
qed

theorem fetch_pending_complete_witness:
  "msg_id ` set (fst (fetch_pending 20 (minutes 10) {0} sample_messages)) = {1, 2}"
proof -
  have b: "length (filter (\<lambda>m. eligible_message (minutes 10) m \<and> msg_id m \<notin> {0}) sample_messages) \<le> 20"
    by code_simp
  show ?thesis
    unfolding fetch_pending_complete [OF b] set_filter [symmetric] by code_simp
qed

subsection \<open>A tick\<close>

text \<open>What a tick should make of a claimed message.\<close>

definition finished :: "registry \<Rightarrow> (nat \<Rightarrow> instant) \<Rightarrow> outbox_message \<Rightarrow> outbox_message \<Rightarrow> outbox_message" where
  "finished reg clock message m =
     (let errors = handler_errors (handlers_for reg (event_type message)) message
      in if errors = [] then sent_message (clock (msg_id message)) m else failed_message errors m)"

definition accepted :: "registry \<Rightarrow> outbox_message \<Rightarrow> bool" where
  "accepted reg m \<longleftrightarrow> handler_errors (handlers_for reg (event_type m)) m = []"

lemma finished_id [simp]: "msg_id (finished reg clock message m) = msg_id m"
  by (simp add: finished_def Let_def sent_message_def failed_message_def)

lemma dispatch_finished:
  "dispatch reg (clock (msg_id message)) message ms =
     (accepted reg message, update_rows (\<lambda>m. msg_id m = msg_id message) (finished reg clock message) ms)"
proof -
  have "handler_errors [] message = []"
    by (simp add: handler_errors_def)
  then show ?thesis
    unfolding dispatch_def mark_sent_def accepted_def finished_def Let_def
    by (cases "handlers_for reg (event_type message) = []") simp_all
qed

lemma dispatch_all_finished:
  "distinct (map msg_id rest) \<Longrightarrow> dispatch_all reg clock rest ms = (n, ms') \<Longrightarrow>
   n = length (filter (accepted reg) rest) \<and>
   ms' = map (\<lambda>x. case find (\<lambda>m. msg_id m = msg_id x) rest of None \<Rightarrow> x | Some m \<Rightarrow> finished reg clock m x) ms"
proof (induction rest arbitrary: ms n ms')
  case (Cons m rest)
  obtain n2 where step: "dispatch_all reg clock rest
      (update_rows (\<lambda>x. msg_id x = msg_id m) (finished reg clock m) ms) = (n2, ms')"
    and n: "n = (if accepted reg m then 1 else 0) + n2"
    using Cons.prems(2) by (auto simp: dispatch_finished split: prod.splits)
  have fresh: "find (\<lambda>y. msg_id y = msg_id m) rest = None"
    using Cons.prems(1) by (auto simp: find_None_iff image_iff)
  show ?case
    using Cons.IH [OF _ step] Cons.prems(1) n fresh
    by (auto simp: update_rows_def split: option.splits)
qed simp

lemma find_claimed:
  assumes "distinct (map msg_id ms)" and "x \<in> set ms" and "set picked \<subseteq> set ms"
    and "\<And>m. msg_id (f m) = msg_id m"
  shows "find (\<lambda>m. msg_id m = msg_id x) (map f picked) = (if x \<in> set picked then Some (f x) else None)"
  using assms(3)
proof (induction picked)
  case (Cons p picked)
  have "msg_id p = msg_id x \<longleftrightarrow> p = x"
    using assms(1,2) Cons.prems by (auto simp: distinct_map dest: inj_onD)
  with Cons assms(4) show ?case
    by auto
qed simp

lemma map_id_iff:
  assumes "distinct (map msg_id ms)" and "x \<in> set ms" and "set picked \<subseteq> set ms"
  shows "msg_id x \<in> msg_id ` set picked \<longleftrightarrow> x \<in> set picked"
  using assms by (auto simp: distinct_map dest: inj_onD)

text \<open>
  One tick of the publisher: every message it claimed ends as sent, if all its handlers
  returned (in particular if it has none), and as failed otherwise; no other message changes;
  and the result counts the messages that were sent.
\<close>

theorem run_once_outcome:
  assumes "distinct (map msg_id ms)" and "run_once reg batch now clock locked ms = (n, ms')"
  shows "n = length (filter (\<lambda>m. accepted reg (claim_message now m)) (pending_batch batch now locked ms)) \<and>
    ms' = map (\<lambda>m. if m \<in> set (pending_batch batch now locked ms)
                    then finished reg clock (claim_message now m) (claim_message now m) else m) ms"
proof -
  let ?p = "pending_batch batch now locked ms"
  let ?c = "map (claim_message now) ?p"
  have sub: "set ?p \<subseteq> set ms"
    using pending_batch_from by blast
  have ms1: "update_rows (\<lambda>m. msg_id m \<in> msg_id ` set ?p) (claim_message now) ms =
      map (\<lambda>m. if m \<in> set ?p then claim_message now m else m) ms"
    using map_id_iff [OF assms(1) _ sub] by (simp add: update_rows_def)
  have d: "distinct (map msg_id ?c)"
    using pending_batch_distinct [OF assms(1)] by (simp add: comp_def)
  have "dispatch_all reg clock ?c (map (\<lambda>m. if m \<in> set ?p then claim_message now m else m) ms) = (n, ms')"
    using assms(2) unfolding run_once_def fetch_pending_def claim_by_def Let_def stamp_rows_def ms1
    by (auto split: if_splits)
  from dispatch_all_finished [OF d this] show ?thesis
    using find_claimed [OF assms(1) _ sub, of _ "claim_message now"]
    by (auto simp: filter_map comp_def)
qed

definition sample_registry :: registry where
  "sample_registry = register_handler ''account.created'' (\<lambda>m. if msg_id m = 0 then Some ''boom'' else None) []"

theorem run_once_outcome_witness:
  "\<exists>ms'. run_once sample_registry 20 (minutes 10) (\<lambda>_. minutes 10) {} sample_messages = (2, ms') \<and>
     map msg_status ms' = [FAILED, SENT, SENT, FAILED]"
proof -
  obtain n ms' where r: "run_once sample_registry 20 (minutes 10) (\<lambda>_. minutes 10) {} sample_messages = (n, ms')"
    by fastforce
  have d: "distinct (map msg_id sample_messages)"
    by code_simp
  have "length (filter (\<lambda>m. accepted sample_registry (claim_message (minutes 10) m))
      (pending_batch 20 (minutes 10) {} sample_messages)) = 2"
    "map msg_status (map (\<lambda>m. if m \<in> set (pending_batch 20 (minutes 10) {} sample_messages)
      then finished sample_registry (\<lambda>_. minutes 10) (claim_message (minutes 10) m) (claim_message (minutes 10) m)
      else m) sample_messages) = [FAILED, SENT, SENT, FAILED]"
    by code_simp+
  with run_once_outcome [OF d r] r show ?thesis
    by (intro exI [of _ ms']) simp
qed

subsection \<open>The life of the table\<close>

text \<open>
  Steps of the whole system, in any interleaving: a unit of work emits a message, a publisher
  claims a batch, a publisher finishes a message it holds a copy of.
\<close>

inductive outbox_step :: "outbox \<Rightarrow> outbox \<Rightarrow> bool" where
  emit: "add_outbox_message now aid aty ev pl k ob = Inr (m, ob') \<Longrightarrow> outbox_step ob ob'"
| claim: "fetch_pending batch now locked (messages ob) = (got, ms) \<Longrightarrow>
     outbox_step ob (ob\<lparr>messages := ms\<rparr>)"
| finish: "dispatch reg now m (messages ob) = (ok, ms) \<Longrightarrow> outbox_step ob (ob\<lparr>messages := ms\<rparr>)"

inductive_cases outbox_step_cases: "outbox_step ob ob'"

definition message_ok :: "outbox_message \<Rightarrow> bool" where
  "message_ok m \<longleftrightarrow> (msg_status m = PROCESSING \<longleftrightarrow> msg_claimed_at m \<noteq> None) \<and>
     (msg_status m = SENT \<longrightarrow> published_at m \<noteq> None) \<and>
     (msg_status m = FAILED \<longrightarrow> error_message m \<noteq> None)"

definition keys_of :: "outbox_message list \<Rightarrow> pystr list" where
  "keys_of ms = concat (map (\<lambda>m. case idempotency_key m of None \<Rightarrow> [] | Some k \<Rightarrow> [k]) ms)"

definition outbox_inv :: "outbox \<Rightarrow> bool" where
  "outbox_inv ob \<longleftrightarrow> distinct (map msg_id (messages ob)) \<and> distinct (keys_of (messages ob)) \<and>
     (\<forall>m \<in> set (messages ob). msg_id m < next_msg_id ob \<and> message_ok m)"

lemma keys_of_update:
  "(\<And>m. idempotency_key (f m) = idempotency_key m) \<Longrightarrow> keys_of (update_rows P f ms) = keys_of ms"
  by (induction ms) (auto simp: keys_of_def update_rows_def)

lemma outbox_inv_update:
  assumes "outbox_inv ob" and "\<And>m. msg_id (f m) = msg_id m" and "\<And>m. idempotency_key (f m) = idempotency_key m"
    and "\<And>m. message_ok (f m)"
  shows "outbox_inv (ob\<lparr>messages := update_rows P f (messages ob)\<rparr>)"
  using assms keys_of_update [of f P "messages ob"] keys_update_rows [of msg_id f P "messages ob"]
  by (auto simp: outbox_inv_def in_update_rows)

lemma keys_of_has: "k \<in> set (keys_of ms) \<longleftrightarrow> has_key (Some k) ms"
  by (induction ms) (auto simp: keys_of_def has_key_def split: option.splits)

lemma outbox_inv_emit:
  assumes "outbox_inv ob" and "add_outbox_message now aid aty ev pl k ob = Inr (m, ob')"
  shows "outbox_inv ob'"
proof -
  have "k' \<notin> set (keys_of (messages ob))" if "k = Some k'" for k'
    using assms(2) that keys_of_has by (auto simp: add_outbox_message_def split: if_splits)
  with assms show ?thesis
    by (fastforce simp: outbox_inv_def add_outbox_message_def Let_def keys_of_def message_ok_def
        less_Suc_eq split: if_splits option.splits)
qed

lemma outbox_step_inv: "outbox_step ob ob' \<Longrightarrow> outbox_inv ob \<Longrightarrow> outbox_inv ob'"
proof (induction rule: outbox_step.induct)
  case (emit now aid aty ev pl k ob m ob')
  then show ?case
    by (rule outbox_inv_emit [rotated])
next
  case (claim batch now locked ob got ms)
  have ms: "ms = update_rows (\<lambda>m. msg_id m \<in> msg_id ` set (pending_batch batch now locked (messages ob)))
      (claim_message now) (messages ob)"
    using claim.hyps by (simp add: fetch_pending_def claim_by_def Let_def stamp_rows_def)
  show ?case
    unfolding ms using claim.prems
    by (rule outbox_inv_update) (simp_all add: claim_message_def message_ok_def)
next
  case (finish reg now m ob ok ms)
  have ms: "ms = update_rows (\<lambda>x. msg_id x = msg_id m) (finished reg (\<lambda>_. now) m) (messages ob)"
    using finish.hyps dispatch_finished [of reg "\<lambda>_. now" m "messages ob"] by simp
  show ?case
    unfolding ms using finish.prems
    by (rule outbox_inv_update)
       (simp_all add: finished_def sent_message_def failed_message_def message_ok_def Let_def)
qed

text \<open>
  In every state that emissions, claims and dispatches can reach, in any interleaving of
  any number of publishers: identifiers and idempotency keys are unique, a message carries a
  claim time exactly while it is being processed, a sent message has its publication time and a
  failed one its error.
\<close>

theorem outbox_reachable_invariant:
  assumes "outbox_step\<^sup>*\<^sup>* \<lparr>messages = [], next_msg_id = 0\<rparr> ob"
  shows "outbox_inv ob"
  using assms
proof (induction rule: rtranclp_induct)
  case base
  then show ?case
    by (simp add: outbox_inv_def keys_of_def)
next
  case (step ob ob')
  then show ?case
    by (blast intro: outbox_step_inv)
qed

definition sample_outbox :: outbox where
  "sample_outbox =
     (case outbox_entity_created 0 ''T'' ''account'' ''a'' PNone None \<lparr>messages = [], next_msg_id = 0\<rparr> of
        Inr (m, ob) \<Rightarrow> ob | Inl _ \<Rightarrow> \<lparr>messages = [], next_msg_id = 0\<rparr>)"

theorem outbox_reachable_invariant_witness:
  "length (messages sample_outbox) = 1 \<and> outbox_inv sample_outbox"
proof
  show "length (messages sample_outbox) = 1"
    by code_simp
  have "outbox_entity_created 0 ''T'' ''account'' ''a'' PNone None \<lparr>messages = [], next_msg_id = 0\<rparr> =
      Inr (hd (messages sample_outbox), sample_outbox)"
    by code_simp
  then have "outbox_step \<lparr>messages = [], next_msg_id = 0\<rparr> sample_outbox"
    unfolding outbox_entity_created_def by (rule outbox_step.emit)
  then show "outbox_inv sample_outbox"
    by (intro outbox_reachable_invariant) (rule r_into_rtranclp)
qed

text \<open>
  Only the first update of an entity is ever announced: once a message with its key exists,
  in whatever state, a further update either fails on the unique key or, with
  \<^verbatim>\<open>deduplicate\<close>, is dropped in favour of the old message.
\<close>

theorem second_entity_update_not_emitted:
  assumes "outbox_entity_updated now tid ety eid changed pk d ob = Inr (m, ob')"
  shows "outbox_entity_updated now' tid' ety eid changed' pk' False ob' = Inl IntegrityError \<and>
    (\<exists>m'. outbox_entity_updated now' tid' ety eid changed' pk' True ob' = Inr (m', ob'))"
proof -
  have "\<exists>x \<in> set (messages ob'). idempotency_key x = Some (updated_key ety eid)"
    using assms
    by (auto simp: outbox_entity_updated_def add_outbox_message_def Let_def find_Some_iff
        split: option.splits if_splits)
  then have "has_key (Some (updated_key ety eid)) (messages ob')"
    "\<exists>x. find (\<lambda>m. idempotency_key m = Some (updated_key ety eid)) (messages ob') = Some x"
    by (auto simp: has_key_def find_None_iff split: option.splits
        intro: option.exhaust [of "find (\<lambda>m. idempotency_key m = Some (updated_key ety eid)) (messages ob')"])
  then show ?thesis
    by (auto simp: outbox_entity_updated_def add_outbox_message_def)
qed

theorem second_entity_update_not_emitted_witness:
  "\<exists>m ob'. outbox_entity_updated 0 ''T'' ''account'' ''a'' PNone None False sample_outbox = Inr (m, ob') \<and>
     outbox_entity_updated 9 ''T'' ''account'' ''a'' PNone None False ob' = Inl IntegrityError"
proof -
  have "(case outbox_entity_updated 0 ''T'' ''account'' ''a'' PNone None False sample_outbox of
      Inl e \<Rightarrow> False | Inr _ \<Rightarrow> True)"
    by code_simp
  then obtain m ob' where
    *: "outbox_entity_updated 0 ''T'' ''account'' ''a'' PNone None False sample_outbox = Inr (m, ob')"
    by (auto split: sum.splits)
  from second_entity_update_not_emitted [OF *] * show ?thesis
    by (intro exI [of _ m] exI [of _ ob']) simp
qed

end
