(* ===== verification/Py_Json.thy ===== *)
theory Py_Json
  imports Py_Text
begin

text \<open>
  \<^verbatim>\<open>json.dumps(value, sort_keys=True)\<close> with the default separators and
  \<^verbatim>\<open>ensure_ascii\<close>.
\<close>

definition json_char :: "char \<Rightarrow> pystr" where
  "json_char c =
     (if c = CHR 0x22 then [CHR 0x5C, c]
      else if c = CHR 0x5C then [c, c]
      else if code c = 10 then [CHR 0x5C, CHR ''n'']
      else if code c = 13 then [CHR 0x5C, CHR ''r'']
      else if code c = 9 then [CHR 0x5C, CHR ''t'']
      else if code c = 8 then [CHR 0x5C, CHR ''b'']
      else if code c = 12 then [CHR 0x5C, CHR ''f'']
      else if code c < 32 \<or> 126 < code c
      then [CHR 0x5C, CHR ''u'', CHR ''0'', CHR ''0'', hex_char (code c div 16), hex_char (code c mod 16)]
      else [c])"

definition json_str :: "pystr \<Rightarrow> pystr" where
  "json_str s = [CHR 0x22] @ concat (map json_char s) @ [CHR 0x22]"

definition json_float :: "pystr \<Rightarrow> pystr" where
  "json_float s =
     (if s = ''nan'' then ''NaN'' else if s = ''inf'' then ''Infinity''
      else if s = ''-inf'' then ''-Infinity'' else s)"

definition json_entry :: "pystr \<times> pystr \<Rightarrow> pystr" where
  "json_entry e = json_str (fst e) @ '': '' @ snd e"

fun json_dumps :: "pyval \<Rightarrow> pystr" where
  "json_dumps PNone = ''null''"
| "json_dumps (PBool b) = (if b then ''true'' else ''false'')"
| "json_dumps (PInt n) = show_int n"
| "json_dumps (PFloat s) = json_float s"
| "json_dumps (PStr s) = json_str s"
| "json_dumps (PList vs) = ''['' @ join '', '' (map json_dumps vs) @ '']''"
| "json_dumps (PDict d) =
     ''{'' @ join '', '' (map json_entry (sort_key fst (map (\<lambda>(k, v). (k, json_dumps v)) d))) @ ''}''"

lemma length_join: "length (join sep xs) = sum_list (map length xs) + length sep * (length xs - 1)"
  by (induction sep xs rule: join.induct) auto

text \<open>An object with one more entry has a longer text.\<close>

lemma json_dumps_entry_longer:
  "length (json_dumps (PDict d)) < length (json_dumps (PDict (d @ [(k, v)])))"
proof -
  let ?f = "\<lambda>(k, v). (k, json_dumps v)"
  have len: "length (join '', '' (map json_entry (sort_key fst xs))) =
      sum_list (map (\<lambda>e. length (json_entry e)) xs) + 2 * (length xs - 1)" for xs :: "(pystr \<times> pystr) list"
  proof -
    have "sum_list (map (\<lambda>e. length (json_entry e)) (sort_key fst xs)) = sum_list (map (\<lambda>e. length (json_entry e)) xs)"
      unfolding sum_mset_sum_list [symmetric] by simp
    then show ?thesis
      by (simp add: length_join comp_def)
  qed
  have "0 < length (json_entry (k, json_dumps v))"
    by (simp add: json_entry_def json_str_def)
  then have "2 * (length d - Suc 0) < length (json_entry (k, json_dumps v)) + 2 * length d"
    by linarith
  then show ?thesis
    by (simp add: len)
qed

end
