(* ===== verification/Webhook.thy ===== *)
theory Webhook
  imports Outbox Window_Limiter Redis Py_Json Py_Time
begin

text \<open>
  Outgoing webhooks (\<^verbatim>\<open>models/webhook.py\<close>, \<^verbatim>\<open>services/webhook.py\<close>):
  destination checks, rate limits, fan-out of events, delivery attempts with their log, and the
  retry worker.

  Arguments of the model: URL splitting, address parsing and name resolution (\<open>net\<close>), the keyed
  hash, and for each attempt the clock readings, the state of the Redis connection and the answer
  of the HTTP client (\<open>attempt_env\<close>). A row of the delivery log is identified by its position
  in the order of insertion.
\<close>

subsection \<open>Data\<close>

record webhook =
  wh_id :: pystr
  wh_tenant :: pystr
  wh_url :: pystr
  wh_secret :: pystr
  wh_events :: "pystr list"
  is_active :: bool
  wh_description :: "pystr option"
  rate_limit_max_per_minute :: int
  wh_created_at :: instant

datatype delivery_status = D_PENDING | DELIVERED | D_FAILED | RATE_LIMITED

record delivery =
  dl_id :: nat
  dl_webhook_id :: pystr
  dl_tenant :: pystr
  dl_event_type :: pystr
  dl_event_id :: "pystr option"
  dl_payload :: "(pystr \<times> pyval) list"
  dl_status :: delivery_status
  attempt_number :: int
  max_attempts :: int
  next_retry_at :: "instant option"
  response_status_code :: "int option"
  response_body :: "pystr option"
  duration_ms :: "int option"
  dl_error :: "pystr option"

record wh_state =
  webhooks :: "webhook list"
  deliveries :: "delivery list"
  wh_redis :: "redis option"
  windows :: "pystr \<Rightarrow> instant list option"

record wh_settings =
  webhook_max_retries :: int
  webhook_retry_base_delay :: rat

subsection \<open>The local rate counter\<close>

definition is_allowed ::
  "instant \<Rightarrow> pystr \<Rightarrow> int \<Rightarrow> int \<Rightarrow> (pystr \<Rightarrow> instant list option) \<Rightarrow> bool \<times> (pystr \<Rightarrow> instant list option)" where
  "is_allowed now key max_per_window window_us ws =
     (let timestamps = filter (\<lambda>t. now - window_us < t) (case ws key of None \<Rightarrow> [] | Some ts \<Rightarrow> ts)
      in if max_per_window \<le> int (length timestamps) then (False, ws(key \<mapsto> timestamps))
         else (True, ws(key \<mapsto> timestamps @ [now])))"

subsection \<open>Destinations\<close>

record address =
  is_private :: bool
  is_loopback :: bool
  is_link_local :: bool
  is_multicast :: bool
  is_reserved :: bool
  is_unspecified :: bool

record url_parts =
  scheme :: pystr
  hostname :: "pystr option"
  url_port :: "int option"

record net =
  urlsplit :: "pystr \<Rightarrow> url_parts"
  ip_address :: "pystr \<Rightarrow> address option"
  getaddrinfo :: "pystr \<Rightarrow> int \<Rightarrow> address list option"

datatype url_error = No_hostname | Not_resolved | Private_destination | Bad_scheme | Http_not_loopback

definition url_error_text :: "url_error \<Rightarrow> pystr" where
  "url_error_text e =
     (case e of
        No_hostname \<Rightarrow> ''Webhook URL must include a hostname''
      | Not_resolved \<Rightarrow> ''Webhook hostname could not be resolved''
      | Private_destination \<Rightarrow> ''Private webhook destinations are not allowed''
      | Bad_scheme \<Rightarrow> ''Webhook URL must use HTTPS or a loopback HTTP URL''
      | Http_not_loopback \<Rightarrow> ''HTTP is only allowed for loopback webhook destinations'')"

text \<open>The addresses the check looks at; \<open>None\<close> when the name cannot be resolved.\<close>

definition addresses_of :: "net \<Rightarrow> url_parts \<Rightarrow> pystr \<Rightarrow> bool \<Rightarrow> address list option" where
  "addresses_of n parts host resolve =
     (case ip_address n host of
        Some a \<Rightarrow> Some [a]
      | None \<Rightarrow>
          if resolve
          then getaddrinfo n host (case url_port parts of None \<Rightarrow> 443 | Some p \<Rightarrow> if p = 0 then 443 else p)
          else Some [])"

definition blocked :: "address \<Rightarrow> bool" where
  "blocked a \<longleftrightarrow> is_private a \<or> is_loopback a \<or> is_link_local a \<or> is_multicast a \<or> is_reserved a \<or> is_unspecified a"

definition is_loopback_host :: "pystr \<Rightarrow> address list \<Rightarrow> bool" where
  "is_loopback_host host addresses \<longleftrightarrow>
     list_ex is_loopback addresses \<or> lower host = ''localhost'' \<or> endswith ''.localhost'' (lower host)"

definition validate_webhook_url :: "net \<Rightarrow> pystr \<Rightarrow> bool \<Rightarrow> url_error option" where
  "validate_webhook_url n url resolve =
     (let parts = urlsplit n url
      in if \<not> truthy (hostname parts) then Some No_hostname
         else let host = the (hostname parts)
              in case addresses_of n parts host resolve of
                   None \<Rightarrow> Some Not_resolved
                 | Some addresses \<Rightarrow>
                     if scheme parts = ''https''
                     then if list_ex blocked addresses then Some Private_destination else None
                     else if scheme parts \<noteq> ''http'' then Some Bad_scheme
                     else if \<not> is_loopback_host host addresses then Some Http_not_loopback
                     else None)"

subsection \<open>Registration\<close>

definition create_webhook ::
  "net \<Rightarrow> pystr \<Rightarrow> pystr \<Rightarrow> instant \<Rightarrow> pystr \<Rightarrow> pystr \<Rightarrow> pystr list \<Rightarrow> pystr option \<Rightarrow> pystr option \<Rightarrow> int \<Rightarrow>
   wh_state \<Rightarrow> url_error + (webhook \<times> wh_state)" where
  "create_webhook n uid fresh_secret now tid url events secret descr lmt st =
     (case validate_webhook_url n url False of
        Some e \<Rightarrow> Inl e
      | None \<Rightarrow>
          (let wh = \<lparr>wh_id = uid, wh_tenant = tid, wh_url = url,
                     wh_secret = (if truthy secret then the secret else fresh_secret), wh_events = events,
                     is_active = True, wh_description = descr, rate_limit_max_per_minute = lmt,
                     wh_created_at = now\<rparr>
           in Inr (wh, st\<lparr>webhooks := webhooks st @ [wh]\<rparr>)))"

definition list_webhooks :: "pystr \<Rightarrow> pystr option \<Rightarrow> wh_state \<Rightarrow> webhook list" where
  "list_webhooks tid event st =
     filter (\<lambda>w. wh_tenant w = tid \<and> (truthy event \<longrightarrow> the event \<in> set (wh_events w))) (webhooks st)"

definition find_webhook :: "pystr \<Rightarrow> wh_state \<Rightarrow> webhook option" where
  "find_webhook wid st = find (\<lambda>w. wh_id w = wid) (webhooks st)"

definition get_webhook :: "pystr \<Rightarrow> pystr \<Rightarrow> wh_state \<Rightarrow> webhook option" where
  "get_webhook wid tid st =
     (case find_webhook wid st of None \<Rightarrow> None | Some w \<Rightarrow> if wh_tenant w \<noteq> tid then None else Some w)"

definition delete_webhook :: "pystr \<Rightarrow> pystr \<Rightarrow> wh_state \<Rightarrow> bool \<times> wh_state" where
  "delete_webhook wid tid st =
     (case find_webhook wid st of
        None \<Rightarrow> (False, st)
      | Some w \<Rightarrow>
          if wh_tenant w \<noteq> tid then (False, st)
          else (True, st\<lparr>webhooks := filter (\<lambda>x. wh_id x \<noteq> wid) (webhooks st)\<rparr>))"

subsection \<open>Signatures\<close>

definition sign_payload :: "(pystr \<Rightarrow> pystr \<Rightarrow> pystr) \<Rightarrow> (pystr \<times> pyval) list \<Rightarrow> pystr \<Rightarrow> pystr" where
  "sign_payload hmac pl secret = hmac secret (json_dumps (PDict pl))"

definition verify_signature ::
  "(pystr \<Rightarrow> pystr \<Rightarrow> pystr) \<Rightarrow> (pystr \<times> pyval) list \<Rightarrow> pystr \<Rightarrow> pystr \<Rightarrow> bool" where
  "verify_signature hmac pl signature secret \<longleftrightarrow> sign_payload hmac pl secret = signature"

subsection \<open>Attempts\<close>

text \<open>
  The Redis connection of an attempt: it works, it fails at once, or it fails after the counter
  was incremented.
\<close>

datatype connection = Up | Down | Lost_after_incr

datatype http_answer =
    Response int pystr
  | Timed_out
  | Request_error pystr pystr
  | Other_error pystr

record attempt_env =
  started :: instant
  finished :: instant
  wall :: instant
  connection :: connection
  answer :: http_answer

definition rate_key :: "webhook \<Rightarrow> instant \<Rightarrow> pystr" where
  "rate_key wh now = ''finance-sync:webhook-rate:'' @ wh_id wh @ '':'' @ show_int (now div minutes 1)"

definition is_rate_allowed :: "attempt_env \<Rightarrow> webhook \<Rightarrow> wh_state \<Rightarrow> bool \<times> wh_state" where
  "is_rate_allowed e wh st =
     (let local = (\<lambda>s. case is_allowed (started e) (wh_id wh) (rate_limit_max_per_minute wh) (seconds 60) (windows s) of
                         (ok, ws) \<Rightarrow> (ok, s\<lparr>windows := ws\<rparr>))
      in case wh_redis st of
           None \<Rightarrow> local st
         | Some db \<Rightarrow>
             if connection e = Down then local st
             else (case redis_incr (wall e) (rate_key wh (wall e)) db of
                     (cnt, db1) \<Rightarrow>
                       if cnt = 1 \<and> connection e = Lost_after_incr then local (st\<lparr>wh_redis := Some db1\<rparr>)
                       else let db2 = (if cnt = 1 then redis_expire (wall e) (rate_key wh (wall e)) 61 db1 else db1)
                            in (cnt \<le> rate_limit_max_per_minute wh, st\<lparr>wh_redis := Some db2\<rparr>)))"

text \<open>The response part of an attempt: success, status code, body and error text.\<close>

definition post_outcome ::
  "net \<Rightarrow> attempt_env \<Rightarrow> webhook \<Rightarrow> bool \<times> int \<times> pystr option \<times> pystr option" where
  "post_outcome n e wh =
     (case validate_webhook_url n (wh_url wh) True of
        Some err \<Rightarrow> (False, 0, None, Some (''Unexpected error: '' @ url_error_text err))
      | None \<Rightarrow>
          (case answer e of
             Response c body \<Rightarrow>
               (200 \<le> c \<and> c < 300, c, if body = [] then None else Some (take 2048 body),
                if 200 \<le> c \<and> c < 300 then None else Some (''HTTP '' @ show_int c))
           | Timed_out \<Rightarrow> (False, 0, None, Some ''Request timed out'')
           | Request_error cls txt \<Rightarrow> (False, 0, None, Some (''Request error: '' @ cls @ '': '' @ txt))
           | Other_error txt \<Rightarrow> (False, 0, None, Some (''Unexpected error: '' @ txt))))"

definition took_ms :: "attempt_env \<Rightarrow> int" where
  "took_ms e = (finished e - started e) div 1000"

definition rate_limited_log :: "attempt_env \<Rightarrow> delivery \<Rightarrow> delivery" where
  "rate_limited_log e d =
     d\<lparr>dl_status := RATE_LIMITED, response_status_code := Some 429, duration_ms := Some (took_ms e),
       dl_error := Some ''Rate limited: too many requests in the last 60 seconds''\<rparr>"

definition delivered_log :: "attempt_env \<Rightarrow> int \<Rightarrow> pystr option \<Rightarrow> delivery \<Rightarrow> delivery" where
  "delivered_log e c body d =
     d\<lparr>dl_status := DELIVERED, response_status_code := Some c, response_body := body,
       duration_ms := Some (took_ms e)\<rparr>"

text \<open>\<^verbatim>\<open>timedelta(seconds=delay)\<close>, rounded half to even to microseconds.\<close>

definition retry_delay_us :: "wh_settings \<Rightarrow> int \<Rightarrow> int" where
  "retry_delay_us cfg attempt =
     (case quotient_of (webhook_retry_base_delay cfg * 2 ^ nat (attempt - 1) * 1000000) of (p, q) \<Rightarrow> half_even p q)"

definition failed_log :: "wh_settings \<Rightarrow> attempt_env \<Rightarrow> int \<Rightarrow> pystr option \<Rightarrow> pystr option \<Rightarrow> delivery \<Rightarrow> delivery" where
  "failed_log cfg e c body err d =
     d\<lparr>dl_status := D_FAILED, response_status_code := Some c, response_body := body,
       duration_ms := Some (took_ms e), dl_error := err,
       next_retry_at := (if attempt_number d < max_attempts d
                         then Some (wall e + retry_delay_us cfg (attempt_number d)) else next_retry_at d)\<rparr>"

definition save_log :: "delivery \<Rightarrow> wh_state \<Rightarrow> wh_state" where
  "save_log d st = st\<lparr>deliveries := put_row dl_id d (deliveries st)\<rparr>"

definition attempt_delivery ::
  "wh_settings \<Rightarrow> net \<Rightarrow> attempt_env \<Rightarrow> delivery \<Rightarrow> webhook \<Rightarrow> wh_state \<Rightarrow> wh_state" where
  "attempt_delivery cfg n e d wh st =
     (case is_rate_allowed e wh st of
        (False, st1) \<Rightarrow> save_log (rate_limited_log e d) st1
      | (True, st1) \<Rightarrow>
          (case post_outcome n e wh of
             (True, c, body, err) \<Rightarrow> save_log (delivered_log e c body d) st1
           | (False, c, body, err) \<Rightarrow> save_log (failed_log cfg e c body err d) st1))"

subsection \<open>Dispatch\<close>

definition unsigned_payload :: "instant \<Rightarrow> pystr \<Rightarrow> pyval \<Rightarrow> pystr option \<Rightarrow> (pystr \<times> pyval) list" where
  "unsigned_payload now event data event_id =
     [(''event_type'', PStr event), (''occurred_at'', PStr (iso_format now)), (''data'', data),
      (''event_id'', case event_id of None \<Rightarrow> PNone | Some i \<Rightarrow> PStr i)]"

definition signed_payload ::
  "(pystr \<Rightarrow> pystr \<Rightarrow> pystr) \<Rightarrow> pystr \<Rightarrow> (pystr \<times> pyval) list \<Rightarrow> (pystr \<times> pyval) list" where
  "signed_payload hmac secret p = dict_put ''signature'' (PStr (sign_payload hmac p secret)) p"

definition new_delivery ::
  "wh_settings \<Rightarrow> (pystr \<Rightarrow> pystr \<Rightarrow> pystr) \<Rightarrow> instant \<Rightarrow> webhook \<Rightarrow> pystr \<Rightarrow> pyval \<Rightarrow> pystr option \<Rightarrow> nat \<Rightarrow> delivery" where
  "new_delivery cfg hmac now wh event data event_id k =
     \<lparr>dl_id = k, dl_webhook_id = wh_id wh, dl_tenant = wh_tenant wh, dl_event_type = event,
      dl_event_id = event_id,
      dl_payload = signed_payload hmac (wh_secret wh) (unsigned_payload now event data event_id),
      dl_status = D_PENDING, attempt_number = 1, max_attempts = webhook_max_retries cfg,
      next_retry_at = None, response_status_code = None, response_body = None, duration_ms = None,
      dl_error = None\<rparr>"

definition deliver ::
  "wh_settings \<Rightarrow> net \<Rightarrow> (pystr \<Rightarrow> pystr \<Rightarrow> pystr) \<Rightarrow> attempt_env \<Rightarrow> webhook \<Rightarrow> pystr \<Rightarrow> pyval \<Rightarrow>
   pystr option \<Rightarrow> wh_state \<Rightarrow> wh_state" where
  "deliver cfg n hmac e wh event data event_id st =
     (let d = new_delivery cfg hmac (wall e) wh event data event_id (length (deliveries st))
      in attempt_delivery cfg n e d wh (st\<lparr>deliveries := deliveries st @ [d]\<rparr>))"

definition active_webhooks_for_event :: "pystr \<Rightarrow> pystr option \<Rightarrow> wh_state \<Rightarrow> webhook list" where
  "active_webhooks_for_event event tid st =
     sort_key wh_created_at
       (filter (\<lambda>w. is_active w \<and> event \<in> set (wh_events w) \<and> (truthy tid \<longrightarrow> Some (wh_tenant w) = tid)) (webhooks st))"

fun deliver_each ::
  "wh_settings \<Rightarrow> net \<Rightarrow> (pystr \<Rightarrow> pystr \<Rightarrow> pystr) \<Rightarrow> (pystr \<Rightarrow> attempt_env) \<Rightarrow> webhook list \<Rightarrow> pystr \<Rightarrow> pyval \<Rightarrow>
   pystr option \<Rightarrow> wh_state \<Rightarrow> wh_state" where
  "deliver_each cfg n hmac es [] event data event_id st = st"
| "deliver_each cfg n hmac es (wh # whs) event data event_id st =
     deliver_each cfg n hmac es whs event data event_id
       (deliver cfg n hmac (es (wh_id wh)) wh event data event_id st)"

definition dispatch_event ::
  "wh_settings \<Rightarrow> net \<Rightarrow> (pystr \<Rightarrow> pystr \<Rightarrow> pystr) \<Rightarrow> (pystr \<Rightarrow> attempt_env) \<Rightarrow> pystr \<Rightarrow> pyval \<Rightarrow>
   pystr option \<Rightarrow> pystr option \<Rightarrow> wh_state \<Rightarrow> nat \<times> wh_state" where
  "dispatch_event cfg n hmac es event data event_id tid st =
     (let whs = active_webhooks_for_event event tid st
      in (length whs, deliver_each cfg n hmac es whs event data event_id st))"

text \<open>The tenant of an outbox message is read from its payload.\<close>

definition payload_tenant :: "pyval \<Rightarrow> pystr option" where
  "payload_tenant p =
     (case p of PDict d \<Rightarrow> (case dict_get d ''tenant_id'' of PStr t \<Rightarrow> Some t | _ \<Rightarrow> None) | _ \<Rightarrow> None)"

definition handle_outbox_message ::
  "wh_settings \<Rightarrow> net \<Rightarrow> (pystr \<Rightarrow> pystr \<Rightarrow> pystr) \<Rightarrow> (pystr \<Rightarrow> attempt_env) \<Rightarrow> outbox_message \<Rightarrow> wh_state \<Rightarrow>
   nat \<times> wh_state" where
  "handle_outbox_message cfg n hmac es m st =
     dispatch_event cfg n hmac es (event_type m) (payload m) (Some (show_int (int (msg_id m))))
       (payload_tenant (payload m)) st"

subsection \<open>The retry worker\<close>

definition retry_due :: "instant \<Rightarrow> delivery \<Rightarrow> bool" where
  "retry_due now d \<longleftrightarrow>
     dl_status d = D_FAILED \<and> (case next_retry_at d of None \<Rightarrow> False | Some t \<Rightarrow> t \<le> now) \<and>
     attempt_number d < max_attempts d"

definition due_deliveries :: "instant \<Rightarrow> wh_state \<Rightarrow> delivery list" where
  "due_deliveries now st = take 100 (filter (retry_due now) (deliveries st))"

definition cancelled_log :: "delivery \<Rightarrow> delivery" where
  "cancelled_log d = d\<lparr>dl_error := Some ''Webhook no longer active; retry cancelled''\<rparr>"

definition find_delivery :: "nat \<Rightarrow> wh_state \<Rightarrow> delivery option" where
  "find_delivery k st = find (\<lambda>r. dl_id r = k) (deliveries st)"

definition retry_one ::
  "wh_settings \<Rightarrow> net \<Rightarrow> attempt_env \<Rightarrow> delivery \<Rightarrow> wh_state \<Rightarrow> nat \<times> wh_state" where
  "retry_one cfg n e d st =
     (case find_webhook (dl_webhook_id d) st of
        Some wh \<Rightarrow>
          if is_active wh
          then (case find_delivery (dl_id d) st of
                  None \<Rightarrow> (0, st)
                | Some fresh \<Rightarrow>
                    (1, attempt_delivery cfg n e (fresh\<lparr>attempt_number := attempt_number d + 1\<rparr>) wh st))
          else (0, st\<lparr>deliveries := update_rows (\<lambda>r. dl_id r = dl_id d) cancelled_log (deliveries st)\<rparr>)
      | None \<Rightarrow> (0, st\<lparr>deliveries := update_rows (\<lambda>r. dl_id r = dl_id d) cancelled_log (deliveries st)\<rparr>))"

fun retry_each ::
  "wh_settings \<Rightarrow> net \<Rightarrow> (nat \<Rightarrow> attempt_env) \<Rightarrow> delivery list \<Rightarrow> wh_state \<Rightarrow> nat \<times> wh_state" where
  "retry_each cfg n es [] st = (0, st)"
| "retry_each cfg n es (d # ds) st =
     (case retry_one cfg n (es (dl_id d)) d st of (k, st1) \<Rightarrow>
        (case retry_each cfg n es ds st1 of (j, st2) \<Rightarrow> (k + j, st2)))"

definition retry_due_deliveries ::
  "wh_settings \<Rightarrow> net \<Rightarrow> (nat \<Rightarrow> attempt_env) \<Rightarrow> instant \<Rightarrow> wh_state \<Rightarrow> nat \<times> wh_state" where
  "retry_due_deliveries cfg n es now st = retry_each cfg n es (due_deliveries now st) st"

end
