(* ===== verification/Webhook_Correctness.thy ===== *)
theory Webhook_Correctness
  imports Webhook_Props
begin

text \<open>
  The properties of the webhook service as a whole: tenants, histories, destinations, signatures
  and the retry worker.
\<close>

subsection \<open>Tenants\<close>

text \<open>A message that the unit of work of a tenant emitted.\<close>

definition emitted :: "pystr \<Rightarrow> outbox_message \<Rightarrow> bool" where
  "emitted tid m \<longleftrightarrow> (\<exists>now ob ob'.
     (\<exists>ety eid ed pk. outbox_entity_created now tid ety eid ed pk ob = Inr (m, ob')) \<or>
     (\<exists>ety eid ch pk. outbox_entity_updated now tid ety eid ch pk False ob = Inr (m, ob')) \<or>
     (\<exists>run c sm. outbox_reconciliation_completed now run tid c sm ob = Inr (m, ob')) \<or>
     (\<exists>run pk a b c d. outbox_sync_completed now tid run pk a b c d ob = Inr (m, ob')))"

lemma emitted_tenant: "emitted tid m \<Longrightarrow> payload_tenant (payload m) = Some tid"
  by (auto simp: emitted_def outbox_entity_created_def outbox_entity_updated_def
      outbox_reconciliation_completed_def outbox_sync_completed_def add_outbox_message_def Let_def
      payload_tenant_def dict_get_def split: if_splits)

text \<open>
  C14. Deliveries stay with their tenant: handling a message that a tenant's unit of work emitted
  adds one log row per targeted webhook and changes no other row, and every targeted webhook is an
  active one of that tenant that subscribes to the event.
\<close>

theorem deliveries_stay_with_tenant:
  assumes "emitted tid m" and "tid \<noteq> []" and "log_inv st"
    and "handle_outbox_message cfg n hmac es m st = (targets, st')"
  shows "\<exists>new. deliveries st' = deliveries st @ new \<and> length new = targets \<and>
    (\<forall>d \<in> set new. dl_tenant d = tid \<and>
       (\<exists>w \<in> set (webhooks st). wh_id w = dl_webhook_id d \<and> wh_tenant w = tid \<and> is_active w \<and>
          event_type m \<in> set (wh_events w)))"
proof -
  let ?whs = "active_webhooks_for_event (event_type m) (Some tid) st"
  have whs: "w \<in> set (webhooks st) \<and> wh_tenant w = tid \<and> is_active w \<and> event_type m \<in> set (wh_events w)"
    if "w \<in> set ?whs" for w
    using that assms(2) by (simp add: active_webhooks_for_event_def)
  have ids: "map dl_id (deliveries st) = [0..<length (deliveries st)]"
    using assms(3) by (simp add: log_inv_def)
  have st': "targets = length ?whs"
    "st' = deliver_each cfg n hmac es ?whs (event_type m) (payload m) (Some (show_int (int (msg_id m)))) st"
    using assms(4) by (simp_all add: handle_outbox_message_def dispatch_event_def emitted_tenant [OF assms(1)] Let_def)
  obtain new where "deliveries st' = deliveries st @ new"
    and all: "list_all2 (\<lambda>d wh. row_ok d \<and> dl_webhook_id d = wh_id wh \<and> dl_tenant d = wh_tenant wh \<and>
      dl_event_type d = event_type m) new ?whs"
    using deliver_each_rows [OF ids] unfolding st'(2) by blast
  moreover have "dl_tenant d = tid \<and> (\<exists>w \<in> set (webhooks st). wh_id w = dl_webhook_id d \<and> wh_tenant w = tid \<and>
      is_active w \<and> event_type m \<in> set (wh_events w))" if "d \<in> set new" for d
  proof -
    from that all obtain w where "w \<in> set ?whs" "dl_webhook_id d = wh_id w" "dl_tenant d = wh_tenant w"
      unfolding list_all2_conv_all_nth by (metis in_set_conv_nth nth_mem)
    with whs [of w] show ?thesis
      by auto
  qed
  ultimately show ?thesis
    using list_all2_lengthD [OF all] st'(1) by (intro exI [of _ new]) simp
qed

definition sample_webhook :: "pystr \<Rightarrow> pystr \<Rightarrow> webhook" where
  "sample_webhook i t =
     \<lparr>wh_id = i, wh_tenant = t, wh_url = ''u'', wh_secret = ''s'', wh_events = [''account.created''],
      is_active = True, wh_description = None, rate_limit_max_per_minute = 60, wh_created_at = 0\<rparr>"

definition public_net :: net where
  "public_net =
     \<lparr>urlsplit = (\<lambda>u. \<lparr>scheme = ''https'', hostname = Some ''h'', url_port = None\<rparr>),
      ip_address = (\<lambda>h. None), getaddrinfo = (\<lambda>h p. Some [])\<rparr>"

definition replying :: "int \<Rightarrow> attempt_env" where
  "replying c = \<lparr>started = 0, finished = 5000, wall = 0, connection = Up, answer = Response c ''ok''\<rparr>"

definition sample_hooks :: wh_state where
  "sample_hooks = \<lparr>webhooks = [sample_webhook ''w1'' ''T'', sample_webhook ''w2'' ''U''], deliveries = [],
     wh_redis = None, windows = (\<lambda>_. None)\<rparr>"

definition sample_cfg :: wh_settings where
  "sample_cfg = \<lparr>webhook_max_retries = 5, webhook_retry_base_delay = 10\<rparr>"

theorem deliveries_stay_with_tenant_witness:
  "\<exists>m ob targets st'. outbox_entity_created 0 ''T'' ''account'' ''a1'' PNone None \<lparr>messages = [], next_msg_id = 0\<rparr> = Inr (m, ob) \<and>
     handle_outbox_message sample_cfg public_net (\<lambda>s t. s) (\<lambda>_. replying 200) m sample_hooks = (targets, st') \<and>
     targets = 1 \<and> (\<forall>d \<in> set (deliveries st'). dl_tenant d = ''T'')"
proof -
  let ?ob = "\<lparr>messages = [], next_msg_id = 0\<rparr> :: outbox"
  obtain m ob where m: "outbox_entity_created 0 ''T'' ''account'' ''a1'' PNone None ?ob = Inr (m, ob)"
    by (simp add: outbox_entity_created_def add_outbox_message_def has_key_def Let_def)
  obtain targets st' where h: "handle_outbox_message sample_cfg public_net (\<lambda>s t. s) (\<lambda>_. replying 200) m sample_hooks = (targets, st')"
    by fastforce
  have "emitted ''T'' m"
    unfolding emitted_def using m by blast
  moreover have "event_type m = ''account.created''"
    using m by (auto simp: outbox_entity_created_def add_outbox_message_def Let_def has_key_def)
  ultimately have ev: "event_type m = ''account.created''" "emitted ''T'' m"
    by simp_all
  have inv: "log_inv sample_hooks" "deliveries sample_hooks = []"
    by (simp_all add: log_inv_def sample_hooks_def)
  have "targets = length (active_webhooks_for_event ''account.created'' (Some ''T'') sample_hooks)"
    using h by (simp add: handle_outbox_message_def dispatch_event_def emitted_tenant [OF ev(2)] ev(1) Let_def)
  also have "\<dots> = 1"
    by code_simp
  finally have "targets = 1" .
  with m h deliveries_stay_with_tenant [OF ev(2) _ inv(1) h] inv(2) show ?thesis
    by auto
qed

subsection \<open>Histories\<close>

text \<open>
  What happens to the service: registrations and deletions, switching a webhook on or off, events
  and runs of the retry worker.
\<close>

datatype wh_event =
    Register net pystr pystr instant pystr pystr "pystr list" "pystr option" "pystr option" int
  | Remove pystr pystr
  | Switch pystr bool
  | Event net "pystr \<Rightarrow> pystr \<Rightarrow> pystr" "pystr \<Rightarrow> attempt_env" outbox_message
  | Retry net "nat \<Rightarrow> attempt_env" instant

fun wh_step :: "wh_settings \<Rightarrow> wh_event \<Rightarrow> wh_state \<Rightarrow> unit + wh_state" where
  "wh_step cfg (Register n uid sec now tid url evs s0 descr lmt) st =
     Inr (case create_webhook n uid sec now tid url evs s0 descr lmt st of Inl _ \<Rightarrow> st | Inr (_, st') \<Rightarrow> st')"
| "wh_step cfg (Remove wid tid) st = Inr (snd (delete_webhook wid tid st))"
| "wh_step cfg (Switch wid on) st =
     Inr (st\<lparr>webhooks := update_rows (\<lambda>w. wh_id w = wid) (\<lambda>w. w\<lparr>is_active := on\<rparr>) (webhooks st)\<rparr>)"
| "wh_step cfg (Event n hmac es m) st = Inr (snd (handle_outbox_message cfg n hmac es m st))"
| "wh_step cfg (Retry n es now) st = Inr (snd (retry_due_deliveries cfg n es now st))"

lemma log_inv_put_row:
  "log_inv st \<Longrightarrow> row_ok d \<Longrightarrow> deliveries st' = put_row dl_id d (deliveries st) \<Longrightarrow> log_inv st'"
  by (auto simp: log_inv_def table_simps dest: in_put_row)

lemma log_inv_cancel:
  "log_inv st \<Longrightarrow> log_inv (st\<lparr>deliveries := update_rows P cancelled_log (deliveries st)\<rparr>)"
proof -
  assume inv: "log_inv st"
  have "map dl_id (update_rows P cancelled_log (deliveries st)) = map dl_id (deliveries st)"
    by (rule keys_update_rows) (simp add: cancelled_log_def)
  moreover have "row_ok (cancelled_log d) = row_ok d" for d
    by (simp add: row_ok_def cancelled_log_def split: delivery_status.split)
  ultimately show ?thesis
    using inv by (auto simp: log_inv_def in_update_rows table_simps)
qed

text \<open>The retry worker attempts a row at most once and never beyond its limit.\<close>

definition limits :: "wh_state \<Rightarrow> (nat \<times> int) list" where
  "limits st = map (\<lambda>d. (dl_id d, max_attempts d)) (deliveries st)"

lemma retry_one_log:
  assumes "log_inv st" and "(dl_id d, max_attempts d) \<in> set (limits st)" and "1 \<le> attempt_number d"
    and "attempt_number d < max_attempts d"
  shows "log_inv (snd (retry_one cfg n e d st)) \<and> limits (snd (retry_one cfg n e d st)) = limits st"
proof -
  let ?c = "st\<lparr>deliveries := update_rows (\<lambda>r. dl_id r = dl_id d) cancelled_log (deliveries st)\<rparr>"
  have cancel: "log_inv ?c" "limits ?c = limits st"
    using log_inv_cancel [OF assms(1)] by (simp_all add: limits_def keys_update_rows cancelled_log_def)
  have "log_inv (attempt_delivery cfg n e (fresh\<lparr>attempt_number := attempt_number d + 1\<rparr>) wh st) \<and>
      limits (attempt_delivery cfg n e (fresh\<lparr>attempt_number := attempt_number d + 1\<rparr>) wh st) = limits st"
    if fresh: "find_delivery (dl_id d) st = Some fresh" for fresh wh
  proof -
    let ?f = "fresh\<lparr>attempt_number := attempt_number d + 1\<rparr>"
    have f: "fresh \<in> set (deliveries st)" "dl_id fresh = dl_id d"
      using fresh by (auto simp: find_delivery_def find_Some_iff)
    have dist: "distinct (map dl_id (deliveries st))"
      using assms(1) by (simp add: log_inv_def)
    obtain r where r: "r \<in> set (deliveries st)" "dl_id r = dl_id d" "max_attempts r = max_attempts d"
      using assms(2) by (auto simp: limits_def)
    have "r = fresh"
      by (rule distinct_key_eq [OF dist r(1) f(1)]) (simp add: r f)
    with r(3) have mx: "max_attempts fresh = max_attempts d"
      by simp
    obtain d' where d': "deliveries (attempt_delivery cfg n e ?f wh st) = put_row dl_id d' (deliveries st)"
      "identity d' = identity ?f" "row_ok d'"
      using attempt_delivery_row [of cfg n e ?f wh st] assms(3,4) mx by auto
    have k: "dl_id d' = dl_id d" "max_attempts d' = max_attempts d"
      using d'(2) f mx by (simp_all add: identity_def)
    have "(dl_id (if dl_id x = dl_id d' then d' else x), max_attempts (if dl_id x = dl_id d' then d' else x)) =
        (dl_id x, max_attempts x)" if x: "x \<in> set (deliveries st)" for x
    proof (cases "dl_id x = dl_id d")
      case True
      then have "x = fresh"
        using distinct_key_eq [OF dist x f(1)] f(2) by simp
      with k f mx show ?thesis
        by simp
    qed (use k in simp)
    then have "limits (attempt_delivery cfg n e ?f wh st) = limits st"
      by (simp add: limits_def d'(1) put_row_def)
    with log_inv_put_row [OF assms(1) d'(3,1)] show ?thesis
      by blast
  qed
  then show ?thesis
    using cancel assms(1) by (simp add: retry_one_def split: option.splits)
qed

lemma retry_each_log:
  "log_inv st \<Longrightarrow> \<forall>d \<in> set ds. (dl_id d, max_attempts d) \<in> set (limits st) \<and> 1 \<le> attempt_number d \<and>
     attempt_number d < max_attempts d \<Longrightarrow>
   log_inv (snd (retry_each cfg n es ds st)) \<and> limits (snd (retry_each cfg n es ds st)) = limits st"
proof (induction ds arbitrary: st)
  case (Cons d ds)
  let ?st = "snd (retry_one cfg n (es (dl_id d)) d st)"
  have one: "log_inv ?st" "limits ?st = limits st"
    using retry_one_log [OF Cons.prems(1)] Cons.prems(2) by simp_all
  then have "log_inv (snd (retry_each cfg n es ds ?st)) \<and> limits (snd (retry_each cfg n es ds ?st)) = limits ?st"
    using Cons.prems(2) by (intro Cons.IH) simp_all
  with one show ?case
    by (simp split: prod.splits) (metis snd_conv)
qed simp

lemma retry_due_log:
  assumes "log_inv st"
  shows "log_inv (snd (retry_due_deliveries cfg n es now st))"
proof -
  have "(dl_id d, max_attempts d) \<in> set (limits st) \<and> 1 \<le> attempt_number d \<and> attempt_number d < max_attempts d"
    if "d \<in> set (due_deliveries now st)" for d
  proof -
    have d: "d \<in> set (deliveries st)" "retry_due now d"
      using that by (auto simp: due_deliveries_def dest: in_set_takeD)
    then show ?thesis
      using assms by (auto simp: limits_def log_inv_def row_ok_def retry_due_def)
  qed
  with retry_each_log [OF assms] show ?thesis
    unfolding retry_due_deliveries_def by blast
qed

lemma handle_outbox_log:
  assumes "log_inv st"
  shows "log_inv (snd (handle_outbox_message cfg n hmac es m st))"
proof -
  let ?whs = "active_webhooks_for_event (event_type m) (payload_tenant (payload m)) st"
  have ids: "map dl_id (deliveries st) = [0..<length (deliveries st)]"
    using assms by (simp add: log_inv_def)
  obtain new where new: "deliveries (snd (handle_outbox_message cfg n hmac es m st)) = deliveries st @ new"
    "map dl_id (deliveries st @ new) = [0..<length (deliveries st @ new)]"
    "list_all2 (\<lambda>d wh. row_ok d \<and> dl_webhook_id d = wh_id wh \<and> dl_tenant d = wh_tenant wh \<and>
      dl_event_type d = event_type m) new ?whs"
    using deliver_each_rows [OF ids, of cfg n hmac es ?whs] unfolding handle_outbox_message_def dispatch_event_def Let_def snd_conv
    by blast
  have "\<forall>d \<in> set new. row_ok d"
    using new(3) unfolding list_all2_conv_all_nth by (metis in_set_conv_nth)
  with assms new(1,2) show ?thesis
    by (auto simp: log_inv_def)
qed

interpretation webhook_machine: step_machine "wh_step cfg" log_inv "\<lambda>_. True" "\<lambda>_. ()" for cfg
proof unfold_locales
  fix st ev st'
  assume inv: "log_inv st" and s: "wh_step cfg ev st = Inr st'"
  show "log_inv st'"
  proof (cases ev)
    case (Register n uid sec now tid url evs s0 descr lmt)
    with inv s show ?thesis
      by (auto simp: create_webhook_def Let_def log_inv_def split: option.splits)
  next
    case (Remove wid tid)
    with inv s show ?thesis
      by (auto simp: delete_webhook_def log_inv_def split: option.splits if_splits)
  next
    case (Switch wid on)
    with inv s show ?thesis
      by (auto simp: log_inv_def)
  qed (use inv s in \<open>auto simp: handle_outbox_log retry_due_log\<close>)
qed simp

text \<open>
  C15. In every history of registrations, deletions, events and retry runs the delivery log stays
  sound: rows are numbered in order, no row is attempted more often than its limit allows, a
  delivered row carries a 2xx status, a rate-limited one a 429, and a failed row with attempts
  left has a time for the next one.
\<close>

theorem delivery_log_invariant:
  assumes "run_steps (wh_step cfg) evs \<lparr>webhooks = whs, deliveries = [], wh_redis = r, windows = ws\<rparr> = Inr st"
  shows "map dl_id (deliveries st) = [0..<length (deliveries st)] \<and>
    (\<forall>d \<in> set (deliveries st). 1 \<le> attempt_number d \<and> attempt_number d \<le> max 1 (max_attempts d) \<and>
       (case dl_status d of
          D_PENDING \<Rightarrow> False
        | DELIVERED \<Rightarrow> (\<exists>c. response_status_code d = Some c \<and> 200 \<le> c \<and> c < 300)
        | RATE_LIMITED \<Rightarrow> response_status_code d = Some 429
        | D_FAILED \<Rightarrow> attempt_number d < max_attempts d \<longrightarrow> next_retry_at d \<noteq> None))"
proof -
  have "log_inv \<lparr>webhooks = whs, deliveries = [], wh_redis = r, windows = ws\<rparr>"
    by (simp add: log_inv_def)
  from webhook_machine.run_inv [OF this _ assms] show ?thesis
    by (simp add: log_inv_def row_ok_def)
qed

definition account_created :: outbox_message where
  "account_created =
     \<lparr>msg_id = 0, aggregate_id = ''a1'', aggregate_type = ''account'', event_type = ''account.created'',
      idempotency_key = None, payload = PDict [(''tenant_id'', PStr ''T'')], msg_status = PENDING,
      msg_claimed_at = None, published_at = None, error_message = None, msg_created_at = 0\<rparr>"

theorem delivery_log_invariant_witness:
  "\<exists>st. run_steps (wh_step sample_cfg)
       [Event public_net (\<lambda>s t. s) (\<lambda>_. replying 500) account_created, Retry public_net (\<lambda>_. replying 204) (seconds 99)]
       \<lparr>webhooks = [sample_webhook ''w1'' ''T''], deliveries = [], wh_redis = None, windows = (\<lambda>_. None)\<rparr> = Inr st \<and>
     map dl_id (deliveries st) = [0..<length (deliveries st)] \<and>
     map (\<lambda>d. (dl_status d, attempt_number d)) (deliveries st) = [(DELIVERED, 2)]"
proof -
  let ?run = "run_steps (wh_step sample_cfg)
       [Event public_net (\<lambda>s t. s) (\<lambda>_. replying 500) account_created, Retry public_net (\<lambda>_. replying 204) (seconds 99)]
       \<lparr>webhooks = [sample_webhook ''w1'' ''T''], deliveries = [], wh_redis = None, windows = (\<lambda>_. None)\<rparr>"
  obtain st where r: "?run = Inr st"
    by simp
  have "map (\<lambda>d. (dl_status d, attempt_number d)) (case ?run of Inl _ \<Rightarrow> [] | Inr st \<Rightarrow> deliveries st) = [(DELIVERED, 2)]"
    by code_simp
  then have "map (\<lambda>d. (dl_status d, attempt_number d)) (deliveries st) = [(DELIVERED, 2)]"
    by (simp only: r sum.case)
  with r delivery_log_invariant [OF r] show ?thesis
    by (intro exI [of _ st]) (simp only: simp_thms)
qed

subsection \<open>Destinations\<close>

text \<open>
  An allowed destination: the host is there, its addresses can be looked up, and either the URL is HTTPS
  and none of them is private, loopback, link-local, multicast, reserved or unspecified, or it is HTTP
  and the host is a loopback one.
\<close>

definition allowed_destination :: "net \<Rightarrow> pystr \<Rightarrow> bool" where
  "allowed_destination n url \<longleftrightarrow> (\<exists>host addrs. hostname (urlsplit n url) = Some host \<and> host \<noteq> [] \<and>
     addresses_of n (urlsplit n url) host True = Some addrs \<and>
     (scheme (urlsplit n url) = ''https'' \<and>
        (\<forall>a \<in> set addrs. \<not> (is_private a \<or> is_loopback a \<or> is_link_local a \<or> is_multicast a \<or> is_reserved a \<or> is_unspecified a)) \<or>
      scheme (urlsplit n url) = ''http'' \<and> is_loopback_host host addrs))"

definition answered_ok :: "attempt_env \<Rightarrow> bool" where
  "answered_ok e \<longleftrightarrow> (case answer e of Response c body \<Rightarrow> 200 \<le> c \<and> c < 300 | _ \<Rightarrow> False)"

lemma attempt_delivery_outcome:
  "webhooks (attempt_delivery cfg n e d wh st) = webhooks st \<and>
   (\<exists>d'. deliveries (attempt_delivery cfg n e d wh st) = put_row dl_id d' (deliveries st) \<and>
      dl_id d' = dl_id d \<and> dl_webhook_id d' = dl_webhook_id d \<and>
      (dl_status d' = DELIVERED \<longrightarrow> allowed_destination n (wh_url wh) \<and> answered_ok e))"
proof -
  obtain ok st1 where r: "is_rate_allowed e wh st = (ok, st1)"
    by fastforce
  obtain good c body err where o: "post_outcome n e wh = (good, c, body, err)"
    by (metis prod_cases4)
  have "allowed_destination n (wh_url wh) \<and> answered_ok e" if good
    using o that by (auto simp: post_outcome_def validate_webhook_url_def Let_def truthy_def blocked_def list_ex_iff
        allowed_destination_def answered_ok_def split: option.splits http_answer.splits if_splits)
  with is_rate_allowed_frame [OF r] r o show ?thesis
    by (auto simp: attempt_delivery_def save_log_def rate_limited_log_def delivered_log_def failed_log_def
        split: bool.split)
qed

text \<open>The rows by id and webhook, and those of them that are delivered.\<close>

definition row_keys :: "wh_state \<Rightarrow> (nat \<times> pystr) list" where
  "row_keys st = map (\<lambda>d. (dl_id d, dl_webhook_id d)) (deliveries st)"

definition delivered_keys :: "wh_state \<Rightarrow> (nat \<times> pystr) set" where
  "delivered_keys st = {(dl_id d, dl_webhook_id d) |d. d \<in> set (deliveries st) \<and> dl_status d = DELIVERED}"

lemma delivered_keys_map:
  "delivered_keys st = {k. (DELIVERED, k) \<in> set (map (\<lambda>d. (dl_status d, dl_id d, dl_webhook_id d)) (deliveries st))}"
  by (force simp: delivered_keys_def)

lemma delivered_keys_put:
  assumes "deliveries st' = put_row dl_id d' (deliveries st)" and "dl_status d' = DELIVERED \<longrightarrow> (dl_id d', dl_webhook_id d') \<in> K"
  shows "delivered_keys st' \<subseteq> delivered_keys st \<union> K"
  using assms by (auto simp: delivered_keys_def dest!: in_put_row)

lemma deliver_each_destinations:
  "webhooks (deliver_each cfg n hmac es whs ev data eid st) = webhooks st \<and>
   delivered_keys (deliver_each cfg n hmac es whs ev data eid st) \<subseteq> delivered_keys st \<union>
     {(k, w). \<exists>wh \<in> set whs. wh_id wh = w \<and> allowed_destination n (wh_url wh) \<and> answered_ok (es w)}"
proof (induction whs arbitrary: st)
  case (Cons wh whs)
  let ?d = "new_delivery cfg hmac (wall (es (wh_id wh))) wh ev data eid (length (deliveries st))"
  let ?st = "st\<lparr>deliveries := deliveries st @ [?d]\<rparr>" and ?st' = "deliver cfg n hmac (es (wh_id wh)) wh ev data eid st"
  have d: "dl_webhook_id ?d = wh_id wh" "dl_status ?d = D_PENDING"
    by (simp_all add: new_delivery_def)
  have st': "?st' = attempt_delivery cfg n (es (wh_id wh)) ?d wh ?st"
    by (simp add: deliver_def Let_def)
  obtain d' where o: "webhooks ?st' = webhooks st" "deliveries ?st' = put_row dl_id d' (deliveries ?st)"
    "dl_webhook_id d' = wh_id wh" "dl_status d' = DELIVERED \<longrightarrow> allowed_destination n (wh_url wh) \<and> answered_ok (es (wh_id wh))"
    using attempt_delivery_outcome [of cfg n "es (wh_id wh)" ?d wh ?st] d(1) unfolding st' by auto
  have "delivered_keys ?st = delivered_keys st"
    using d(2) by (auto simp: delivered_keys_def)
  then have "delivered_keys ?st' \<subseteq> delivered_keys st \<union>
      {(k, w). w = wh_id wh \<and> allowed_destination n (wh_url wh) \<and> answered_ok (es w)}"
    using delivered_keys_put [OF o(2), of "{(k, w). w = wh_id wh \<and> allowed_destination n (wh_url wh) \<and> answered_ok (es w)}"] o(3,4)
    by simp
  with Cons.IH [of ?st'] o(1) show ?case
    by auto
qed simp

lemma retry_one_destinations:
  fixes cfg n e d st
  defines "st' \<equiv> snd (retry_one cfg n e d st)"
  assumes "distinct (map dl_id (deliveries st))" and "(dl_id d, dl_webhook_id d) \<in> set (row_keys st)"
  shows "webhooks st' = webhooks st \<and> row_keys st' = row_keys st \<and>
    delivered_keys st' \<subseteq> delivered_keys st \<union>
      {(k, w). k = dl_id d \<and> (\<exists>wh \<in> set (webhooks st). wh_id wh = w \<and> is_active wh \<and>
         allowed_destination n (wh_url wh) \<and> answered_ok e)}"
proof -
  let ?c = "st\<lparr>deliveries := update_rows (\<lambda>r. dl_id r = dl_id d) cancelled_log (deliveries st)\<rparr>"
  let ?K = "{(k, w). k = dl_id d \<and> (\<exists>wh \<in> set (webhooks st). wh_id wh = w \<and> is_active wh \<and>
         allowed_destination n (wh_url wh) \<and> answered_ok e)}"
  have cancel: "row_keys ?c = row_keys st" "delivered_keys ?c = delivered_keys st"
    unfolding row_keys_def delivered_keys_map by (simp_all add: keys_update_rows cancelled_log_def)
  obtain r where r: "r \<in> set (deliveries st)" "dl_id r = dl_id d" "dl_webhook_id r = dl_webhook_id d"
    using assms(3) by (auto simp: row_keys_def)
  have "delivered_keys st' \<subseteq> delivered_keys st \<union> ?K \<and> webhooks st' = webhooks st \<and> row_keys st' = row_keys st"
    if wh: "find_webhook (dl_webhook_id d) st = Some wh" "is_active wh" and fresh: "find_delivery (dl_id d) st = Some fresh"
    for wh fresh
  proof -
    let ?f = "fresh\<lparr>attempt_number := attempt_number d + 1\<rparr>"
    have f: "fresh \<in> set (deliveries st)" "dl_id fresh = dl_id d"
      using fresh by (auto simp: find_delivery_def find_Some_iff)
    have "r = fresh"
      by (rule distinct_key_eq [OF assms(2) r(1) f(1)]) (simp add: r f)
    with r have key: "dl_webhook_id fresh = dl_webhook_id d"
      by simp
    have w: "wh \<in> set (webhooks st)" "wh_id wh = dl_webhook_id d"
      using wh(1) by (auto simp: find_webhook_def find_Some_iff)
    have st': "st' = attempt_delivery cfg n e ?f wh st"
      using wh fresh by (simp add: st'_def retry_one_def)
    obtain d' where o: "webhooks st' = webhooks st" "deliveries st' = put_row dl_id d' (deliveries st)"
      "dl_id d' = dl_id d" "dl_webhook_id d' = dl_webhook_id d"
      "dl_status d' = DELIVERED \<longrightarrow> allowed_destination n (wh_url wh) \<and> answered_ok e"
      using attempt_delivery_outcome [of cfg n e ?f wh st] f(2) key unfolding st' by auto
    have "delivered_keys st' \<subseteq> delivered_keys st \<union> ?K"
      by (rule delivered_keys_put [OF o(2)]) (use o(3-5) w wh(2) in auto)
    moreover have "(dl_id x, dl_webhook_id x) = (dl_id (if dl_id x = dl_id d' then d' else x),
        dl_webhook_id (if dl_id x = dl_id d' then d' else x))" if x: "x \<in> set (deliveries st)" for x
    proof (cases "dl_id x = dl_id d")
      case True
      then have "x = r"
        using distinct_key_eq [OF assms(2) x r(1)] r(2) by simp
      with o(3,4) r show ?thesis
        by simp
    qed (use o(3) in simp)
    then have "row_keys st' = row_keys st"
      by (simp add: row_keys_def o(2) put_row_def)
    ultimately show ?thesis
      using o(1) by simp
  qed
  then show ?thesis
    using cancel by (cases "find_webhook (dl_webhook_id d) st"; cases "find_delivery (dl_id d) st")
      (auto simp: st'_def retry_one_def split: if_splits)
qed

lemma retry_each_destinations:
  "distinct (map dl_id (deliveries st)) \<Longrightarrow> \<forall>d \<in> set ds. (dl_id d, dl_webhook_id d) \<in> set (row_keys st) \<Longrightarrow>
   webhooks (snd (retry_each cfg n es ds st)) = webhooks st \<and>
   delivered_keys (snd (retry_each cfg n es ds st)) \<subseteq> delivered_keys st \<union>
     {(k, w). \<exists>wh \<in> set (webhooks st). wh_id wh = w \<and> is_active wh \<and>
        allowed_destination n (wh_url wh) \<and> answered_ok (es k)}"
proof (induction ds arbitrary: st)
  case (Cons d ds)
  let ?st = "snd (retry_one cfg n (es (dl_id d)) d st)"
  note one = retry_one_destinations [OF Cons.prems(1), of d cfg n "es (dl_id d)"]
  have "map dl_id (deliveries s) = map fst (row_keys s)" for s
    by (simp add: row_keys_def)
  then have "distinct (map dl_id (deliveries ?st))"
    using one Cons.prems by (metis list.set_intros(1))
  then have "webhooks (snd (retry_each cfg n es ds ?st)) = webhooks ?st \<and>
     delivered_keys (snd (retry_each cfg n es ds ?st)) \<subseteq> delivered_keys ?st \<union>
     {(k, w). \<exists>wh \<in> set (webhooks ?st). wh_id wh = w \<and> is_active wh \<and>
        allowed_destination n (wh_url wh) \<and> answered_ok (es k)}"
    using one Cons.prems(2) by (intro Cons.IH) auto
  moreover have "snd (retry_each cfg n es (d # ds) st) = snd (retry_each cfg n es ds ?st)"
    by (simp split: prod.split)
  ultimately show ?case
    using one Cons.prems(2) by auto
qed simp

text \<open>
  C16. A delivery is only ever reported for an allowed destination, at a first attempt as at a retry:
  when an event or a run of the retry worker makes a row delivered that was not delivered before, an
  active webhook with the row's webhook id had an allowed destination by the addresses looked up for
  this attempt, and the receiver answered this attempt with a 2xx status. (The HTTP client resolves
  the name once more when it connects.)
\<close>

theorem delivered_only_to_allowed_destinations:
  assumes "map dl_id (deliveries st) = [0..<length (deliveries st)]" and "wh_step cfg ev st = Inr st'"
    and "d \<in> set (deliveries st')" and "dl_status d = DELIVERED"
    and "\<forall>r \<in> set (deliveries st). dl_id r = dl_id d \<longrightarrow> dl_status r \<noteq> DELIVERED"
  shows "\<exists>wh \<in> set (webhooks st). wh_id wh = dl_webhook_id d \<and> is_active wh \<and>
    (case ev of
       Event n hmac es m \<Rightarrow> allowed_destination n (wh_url wh) \<and> answered_ok (es (wh_id wh))
     | Retry n es now \<Rightarrow> allowed_destination n (wh_url wh) \<and> answered_ok (es (dl_id d))
     | _ \<Rightarrow> False)"
proof -
  have d: "(dl_id d, dl_webhook_id d) \<in> delivered_keys st'" "(dl_id d, dl_webhook_id d) \<notin> delivered_keys st"
    using assms(3-5) by (auto simp: delivered_keys_def)
  show ?thesis
  proof (cases ev)
    case (Event n hmac es m)
    let ?whs = "active_webhooks_for_event (event_type m) (payload_tenant (payload m)) st"
    have "st' = deliver_each cfg n hmac es ?whs (event_type m) (payload m) (Some (show_int (int (msg_id m)))) st"
      using assms(2) by (simp add: Event handle_outbox_message_def dispatch_event_def Let_def)
    then have "(dl_id d, dl_webhook_id d) \<in>
        {(k, w). \<exists>wh \<in> set ?whs. wh_id wh = w \<and> allowed_destination n (wh_url wh) \<and> answered_ok (es w)}"
      using d deliver_each_destinations [of cfg n hmac es ?whs "event_type m" "payload m"
        "Some (show_int (int (msg_id m)))" st] by (simp only:) (meson Un_iff subsetD)
    then obtain wh where "wh \<in> set ?whs" "wh_id wh = dl_webhook_id d" "allowed_destination n (wh_url wh)"
      "answered_ok (es (wh_id wh))"
      by auto
    moreover have "wh \<in> set (webhooks st) \<and> is_active wh"
      using calculation(1) by (simp add: active_webhooks_for_event_def)
    ultimately show ?thesis
      by (auto simp: Event)
  next
    case (Retry n es now)
    let ?due = "due_deliveries now st"
    have "\<forall>d \<in> set ?due. (dl_id d, dl_webhook_id d) \<in> set (row_keys st)"
      by (auto simp: due_deliveries_def row_keys_def dest!: in_set_takeD)
    moreover have "distinct (map dl_id (deliveries st))"
      by (simp add: assms(1))
    ultimately have "delivered_keys st' \<subseteq> delivered_keys st \<union>
       {(k, w). \<exists>wh \<in> set (webhooks st). wh_id wh = w \<and> is_active wh \<and>
          allowed_destination n (wh_url wh) \<and> answered_ok (es k)}"
      using assms(2) retry_each_destinations [of st ?due cfg n es] by (simp add: Retry retry_due_deliveries_def)
    with d show ?thesis
      by (auto simp: Retry)
  qed (use assms(2) d in \<open>auto simp: delivered_keys_def create_webhook_def delete_webhook_def Let_def
         split: option.splits if_splits\<close>)
qed

definition resolved_net :: net where
  "resolved_net = public_net
     \<lparr>getaddrinfo := \<lambda>h p. if h = ''h'' \<and> p = 443
        then Some [\<lparr>is_private = False, is_loopback = False, is_link_local = False, is_multicast = False,
                    is_reserved = False, is_unspecified = False\<rparr>] else None\<rparr>"

definition after_outage :: wh_state where
  "after_outage = snd (handle_outbox_message sample_cfg resolved_net (\<lambda>s t. s) (\<lambda>_. replying 500) account_created sample_hooks)"

theorem delivered_only_to_allowed_destinations_witness:
  "\<exists>st' d. wh_step sample_cfg (Retry resolved_net (\<lambda>_. replying 204) (seconds 99)) after_outage = Inr st' \<and>
     deliveries st' = [d] \<and> dl_status d = DELIVERED \<and> attempt_number d = 2 \<and>
     (\<exists>wh \<in> set (webhooks after_outage). wh_id wh = dl_webhook_id d \<and> allowed_destination resolved_net (wh_url wh))"
proof -
  let ?ev = "Retry resolved_net (\<lambda>_. replying 204) (seconds 99)"
  obtain st' where s: "wh_step sample_cfg ?ev after_outage = Inr st'"
    by simp
  have "map (\<lambda>d. (dl_status d, attempt_number d)) (case wh_step sample_cfg ?ev after_outage of Inl _ \<Rightarrow> [] | Inr st \<Rightarrow> deliveries st) =
      [(DELIVERED, 2)]"
    by code_simp
  then obtain d where d: "deliveries st' = [d]" "dl_status d = DELIVERED" "attempt_number d = 2"
    unfolding s by auto
  have "map dl_id (deliveries after_outage) = [0..<length (deliveries after_outage)]"
    "\<forall>r \<in> set (deliveries after_outage). dl_status r \<noteq> DELIVERED"
    by code_simp+
  with delivered_only_to_allowed_destinations [OF _ s, of d] d s show ?thesis
    by auto
qed

subsection \<open>Signatures\<close>

lemma signed_payload_append:
  "signed_payload hmac secret (unsigned_payload now ev data eid) =
     unsigned_payload now ev data eid @
       [(''signature'', PStr (sign_payload hmac (unsigned_payload now ev data eid) secret))]"
  by (simp add: signed_payload_def unsigned_payload_def)

text \<open>
  A receiver can verify what was sent, but only after taking the signature out: for a keyed
  hash that does not collide, the signature of a delivered payload verifies against the payload
  without its signature entry, and never against the payload as it was received.
\<close>

theorem signature_verifies_without_itself:
  assumes "inj (hmac secret)" and "p = signed_payload hmac secret (unsigned_payload now ev data eid)"
  shows "\<exists>sig. dict_get p ''signature'' = PStr sig \<and>
    verify_signature hmac (filter (\<lambda>(k, v). k \<noteq> ''signature'') p) sig secret \<and>
    \<not> verify_signature hmac p sig secret"
proof -
  let ?u = "unsigned_payload now ev data eid"
  let ?sig = "sign_payload hmac ?u secret"
  have p: "p = ?u @ [(''signature'', PStr ?sig)]"
    using assms(2) by (simp only: signed_payload_append)
  have "dict_get p ''signature'' = PStr ?sig" "filter (\<lambda>(k, v). k \<noteq> ''signature'') p = ?u"
    by (simp_all add: p dict_get_def unsigned_payload_def)
  moreover have "json_dumps (PDict p) \<noteq> json_dumps (PDict ?u)"
    using json_dumps_entry_longer [of ?u "''signature''" "PStr ?sig"] unfolding p by (metis less_irrefl)
  then have "sign_payload hmac p secret \<noteq> ?sig"
    using assms(1) by (simp add: sign_payload_def inj_eq)
  ultimately show ?thesis
    by (simp add: verify_signature_def)
qed

theorem signature_verifies_without_itself_witness:
  "\<exists>sig. dict_get (signed_payload (\<lambda>s t. s @ t) ''key'' (unsigned_payload 0 ''e'' PNone None)) ''signature'' = PStr sig \<and>
     \<not> verify_signature (\<lambda>s t. s @ t) (signed_payload (\<lambda>s t. s @ t) ''key'' (unsigned_payload 0 ''e'' PNone None)) sig ''key''"
proof -
  have "inj ((\<lambda>s t. s @ t) ''key'' :: pystr \<Rightarrow> pystr)"
    by (simp add: inj_def)
  from signature_verifies_without_itself [of "\<lambda>s t. s @ t" "''key''", OF this refl, of 0 "''e''" PNone None] show ?thesis
    by blast
qed

subsection \<open>The retry worker\<close>

definition gone :: "wh_state \<Rightarrow> delivery \<Rightarrow> bool" where
  "gone st d \<longleftrightarrow> (case find_webhook (dl_webhook_id d) st of None \<Rightarrow> True | Some w \<Rightarrow> \<not> is_active w)"

text \<open>The first hundred rows of the log are due, and their webhooks are deleted or inactive.\<close>

definition clogged :: "instant \<Rightarrow> wh_state \<Rightarrow> bool" where
  "clogged now st \<longleftrightarrow> 100 \<le> length (deliveries st) \<and>
     (\<forall>d \<in> set (take 100 (deliveries st)). retry_due now d \<and> gone st d)"

definition cancel_rows :: "nat set \<Rightarrow> delivery list \<Rightarrow> delivery list" where
  "cancel_rows ks ds = map (\<lambda>r. if dl_id r \<in> ks then cancelled_log r else r) ds"

lemma retry_each_gone:
  "\<forall>d \<in> set ds. gone st d \<Longrightarrow>
   retry_each cfg n es ds st = (0, st\<lparr>deliveries := cancel_rows (dl_id ` set ds) (deliveries st)\<rparr>)"
proof (induction ds arbitrary: st)
  case (Cons d ds)
  let ?st = "st\<lparr>deliveries := update_rows (\<lambda>r. dl_id r = dl_id d) cancelled_log (deliveries st)\<rparr>"
  have one: "retry_one cfg n (es (dl_id d)) d st = (0, ?st)"
    using Cons.prems by (cases "find_webhook (dl_webhook_id d) st") (auto simp: retry_one_def gone_def)
  have "\<forall>d \<in> set ds. gone ?st d"
    using Cons.prems by (simp add: gone_def find_webhook_def)
  from Cons.IH [OF this] have "retry_each cfg n es ds ?st = (0, ?st\<lparr>deliveries := cancel_rows (dl_id ` set ds) (deliveries ?st)\<rparr>)" .
  moreover have "cancel_rows (dl_id ` set ds) (deliveries ?st) = cancel_rows (dl_id ` set (d # ds)) (deliveries st)"
    by (simp add: cancel_rows_def update_rows_def cancelled_log_def)
  ultimately show ?case
    by (simp add: one)
qed (simp add: cancel_rows_def)

lemma take_filter_prefix:
  "n \<le> length xs \<Longrightarrow> \<forall>x \<in> set (take n xs). P x \<Longrightarrow> take n (filter P xs) = take n xs"
  by (induction xs arbitrary: n) (auto simp: take_Cons split: nat.splits)

text \<open>
  Retries of deleted or deactivated webhooks are never given up: when a hundred of them head
  the log, every run of the retry worker from then on picks just these, retries nothing, and
  leaves them as they were but for the error text, so the deliveries behind them are never retried.
\<close>

theorem inactive_retries_clog_worker:
  assumes "clogged now st" and "now \<le> later"
    and "retry_due_deliveries cfg n es later st = (retried, st')"
  shows "retried = 0 \<and> clogged now st' \<and>
    (\<forall>d \<in> set (deliveries st). dl_id d \<notin> dl_id ` set (take 100 (deliveries st)) \<longrightarrow> d \<in> set (deliveries st'))"
proof -
  have due: "retry_due later d" if "retry_due now d" for d
    using that assms(2) by (auto simp: retry_due_def split: option.splits)
  have sel: "due_deliveries later st = take 100 (deliveries st)"
    unfolding due_deliveries_def using assms(1) due by (intro take_filter_prefix) (auto simp: clogged_def)
  have "\<forall>d \<in> set (take 100 (deliveries st)). gone st d"
    using assms(1) by (simp add: clogged_def)
  from retry_each_gone [OF this] assms(3) have r: "retried = 0"
    "st' = st\<lparr>deliveries := cancel_rows (dl_id ` set (take 100 (deliveries st))) (deliveries st)\<rparr>"
    by (simp_all add: retry_due_deliveries_def sel)
  have "retry_due now (cancelled_log d) = retry_due now d" "gone st (cancelled_log d) = gone st d" for d
    by (simp_all add: retry_due_def gone_def cancelled_log_def)
  moreover have "gone st' d = gone st d" for d
    by (simp add: r(2) gone_def find_webhook_def)
  ultimately have "clogged now st'"
    using assms(1) unfolding clogged_def r(2) cancel_rows_def by (auto simp: take_map)
  moreover have "d \<in> set (deliveries st')" if "d \<in> set (deliveries st)"
    "dl_id d \<notin> dl_id ` set (take 100 (deliveries st))" for d
    using that by (force simp: r(2) cancel_rows_def)
  ultimately show ?thesis
    using r(1) by blast
qed

definition stale_row :: "nat \<Rightarrow> delivery" where
  "stale_row k =
     \<lparr>dl_id = k, dl_webhook_id = ''w9'', dl_tenant = ''T'', dl_event_type = ''e'', dl_event_id = None,
      dl_payload = [], dl_status = D_FAILED, attempt_number = 1, max_attempts = 5, next_retry_at = Some 0,
      response_status_code = Some 500, response_body = None, duration_ms = None, dl_error = None\<rparr>"

definition stale_hooks :: wh_state where
  "stale_hooks = \<lparr>webhooks = [], deliveries = map stale_row [0..<100], wh_redis = None, windows = (\<lambda>_. None)\<rparr>"

theorem inactive_retries_clog_worker_witness:
  "\<exists>st'. retry_due_deliveries sample_cfg public_net (\<lambda>_. replying 200) 5 stale_hooks = (0, st') \<and> clogged 1 st'"
proof -
  obtain k st' where r: "retry_due_deliveries sample_cfg public_net (\<lambda>_. replying 200) 5 stale_hooks = (k, st')"
    by fastforce
  have "clogged 1 stale_hooks"
    by (auto simp: clogged_def stale_hooks_def gone_def find_webhook_def retry_due_def stale_row_def)
  from inactive_retries_clog_worker [OF this _ r] r show ?thesis
    by auto
qed

end
