(* ===== verification/Schedule_Spec.thy ===== *)
theory Schedule_Spec
  imports Py_Time
begin

text \<open>
  Recurrences of sync schedules (\<^verbatim>\<open>sync/schedule_spec.py\<close>): validation and
  normalisation of the JSON, the instants of the next runs and the summary text.

  Local times are wall-clock readings in microseconds since 1970-01-01 00:00. The time-zone
  database is an argument: a zone maps an instant to its wall-clock reading and fold, and a
  reading with a fold back to an instant. Arithmetic and comparison of two readings of the same
  zone ignore its offsets, as they do for \<^verbatim>\<open>datetime\<close> objects that share their
  \<^verbatim>\<open>tzinfo\<close>, and a sum has fold zero.
\<close>

record zone =
  local_of :: "instant \<Rightarrow> int \<times> bool"
  utc_of :: "int \<Rightarrow> bool \<Rightarrow> instant"

type_synonym zones = "pystr \<Rightarrow> zone option"

text \<open>
  The reasons for a \<^verbatim>\<open>ScheduleValidationError\<close>; \<open>Unhashable\<close> is the
  \<^verbatim>\<open>TypeError\<close> of looking up a list or an object in a set.
\<close>

datatype schedule_error =
    Not_an_object | Unsupported_frequency | Unknown_timezone | Interval_not_integer | Interval_out_of_range
  | Invalid_time | Weekdays_empty | Weekday_not_integer | Weekday_out_of_range | Unhashable

definition min_interval_hours :: int where
  "min_interval_hours = 1"

definition max_interval_hours :: int where
  "max_interval_hours = 168"

definition supported_frequencies :: "pystr list" where
  "supported_frequencies = [''daily'', ''weekdays'', ''weekly'', ''hourly'']"

definition allowed_schedule_fields :: "pystr list" where
  "allowed_schedule_fields = [''frequency'', ''time'', ''weekdays'', ''interval_hours'']"

definition sanitise_schedule :: "pyval \<Rightarrow> (pystr \<times> pyval) list" where
  "sanitise_schedule schedule =
     (case schedule of PDict d \<Rightarrow> filter (\<lambda>(k, v). k \<in> set allowed_schedule_fields) d | _ \<Rightarrow> [])"

definition validate_timezone :: "zones \<Rightarrow> pystr \<Rightarrow> schedule_error + zone" where
  "validate_timezone tz name = (case tz name of None \<Rightarrow> Inl Unknown_timezone | Some z \<Rightarrow> Inr z)"

definition default_time :: pystr where
  "default_time = ''07:00''"

definition parse_time :: "pystr \<Rightarrow> schedule_error + int \<times> int" where
  "parse_time v =
     (if CHR '':'' \<notin> set v then Inl Invalid_time
      else case (parse_int (takeWhile (\<lambda>c. c \<noteq> CHR '':'') v), parse_int (tl (dropWhile (\<lambda>c. c \<noteq> CHR '':'') v))) of
             (Some h, Some m) \<Rightarrow> if 0 \<le> h \<and> h < 24 \<and> 0 \<le> m \<and> m < 60 then Inr (h, m) else Inl Invalid_time
           | _ \<Rightarrow> Inl Invalid_time)"

definition format_time :: "int \<times> int \<Rightarrow> pystr" where
  "format_time t = pad 2 (fst t) @ '':'' @ pad 2 (snd t)"

fun check_weekdays :: "pyval list \<Rightarrow> schedule_error + int list" where
  "check_weekdays [] = Inr []"
| "check_weekdays (v # vs) =
     (case v of
        PInt d \<Rightarrow>
          if 0 \<le> d \<and> d \<le> 6
          then (case check_weekdays vs of Inl e \<Rightarrow> Inl e | Inr ds \<Rightarrow> Inr (d # ds))
          else Inl Weekday_out_of_range
      | _ \<Rightarrow> Inl Weekday_not_integer)"

definition validate_hourly :: "(pystr \<times> pyval) list \<Rightarrow> schedule_error + (pystr \<times> pyval) list" where
  "validate_hourly d =
     (case dict_get d ''interval_hours'' of
        PInt n \<Rightarrow>
          if min_interval_hours \<le> n \<and> n \<le> max_interval_hours
          then Inr [(''frequency'', PStr ''hourly''), (''interval_hours'', PInt n)]
          else Inl Interval_out_of_range
      | _ \<Rightarrow> Inl Interval_not_integer)"

definition validate_daily_like :: "pystr \<Rightarrow> (pystr \<times> pyval) list \<Rightarrow> schedule_error + (pystr \<times> pyval) list" where
  "validate_daily_like f d =
     (let raw = dict_get d ''time''
      in case parse_time (if raw = PNone then default_time else py_str raw) of
           Inl e \<Rightarrow> Inl e
         | Inr t \<Rightarrow>
             (let normalised = [(''frequency'', PStr f), (''time'', PStr (format_time t))]
              in if f = ''weekly''
                 then (case dict_get d ''weekdays'' of
                         PList vs \<Rightarrow>
                           if vs = [] then Inl Weekdays_empty
                           else (case check_weekdays vs of
                                   Inl e \<Rightarrow> Inl e
                                 | Inr ds \<Rightarrow> Inr (normalised @ [(''weekdays'', PList (map PInt (sort (remdups ds))))]))
                       | _ \<Rightarrow> Inl Weekdays_empty)
                 else if f = ''weekdays''
                 then Inr (normalised @ [(''weekdays'', PList (map PInt [0, 1, 2, 3, 4]))])
                 else Inr normalised))"

definition validate_schedule :: "zones \<Rightarrow> pyval \<Rightarrow> pystr \<Rightarrow> schedule_error + (pystr \<times> pyval) list" where
  "validate_schedule tz schedule timezone =
     (case schedule of
        PDict d \<Rightarrow>
          (case dict_get d ''frequency'' of
             PStr f \<Rightarrow>
               if f \<notin> set supported_frequencies then Inl Unsupported_frequency
               else (case validate_timezone tz timezone of
                       Inl e \<Rightarrow> Inl e
                     | Inr _ \<Rightarrow> if f = ''hourly'' then validate_hourly d else validate_daily_like f d)
           | PList _ \<Rightarrow> Inl Unhashable
           | PDict _ \<Rightarrow> Inl Unhashable
           | _ \<Rightarrow> Inl Unsupported_frequency)
      | _ \<Rightarrow> Inl Not_an_object)"

subsection \<open>Next instants\<close>

text \<open>The loop of \<^verbatim>\<open>_next_hourly\<close>; the guard allows ten thousand steps.\<close>

fun hourly_from :: "zone \<Rightarrow> int \<Rightarrow> int \<Rightarrow> nat \<Rightarrow> instant list" where
  "hourly_from z interval cursor 0 = []"
| "hourly_from z interval cursor (Suc k) =
     (let c = cursor + hours interval in utc_of z c False # hourly_from z interval c k)"

definition next_hourly :: "zone \<Rightarrow> int \<Rightarrow> instant \<Rightarrow> int \<Rightarrow> instant list" where
  "next_hourly z interval after cnt = hourly_from z interval (fst (local_of z after)) (min (nat cnt) 10000)"

definition weekday :: "int \<Rightarrow> int" where
  "weekday day = (day + 3) mod 7"

text \<open>
  The loop of \<^verbatim>\<open>_next_daily_like\<close>: \<open>fuel\<close> days are left before the guard stops it,
  \<open>k\<close> instants are still wanted.
\<close>

fun daily_from :: "zone \<Rightarrow> (int \<Rightarrow> bool) \<Rightarrow> int \<Rightarrow> int \<Rightarrow> int \<Rightarrow> nat \<Rightarrow> nat \<Rightarrow> instant list" where
  "daily_from z on tod wall day k 0 = []"
| "daily_from z on tod wall day k (Suc fuel) =
     (if k = 0 then []
      else if on (weekday day) \<and> wall < days day + tod
      then utc_of z (days day + tod) False # daily_from z on tod wall (day + 1) (k - 1) fuel
      else daily_from z on tod wall (day + 1) k fuel)"

definition weekdays_of :: "(pystr \<times> pyval) list \<Rightarrow> int \<Rightarrow> bool" where
  "weekdays_of d n =
     (if dict_get d ''frequency'' = PStr ''weekly''
      then (case dict_get d ''weekdays'' of PList vs \<Rightarrow> PInt n \<in> set vs | _ \<Rightarrow> False)
      else if dict_get d ''frequency'' = PStr ''weekdays'' then n \<in> {0, 1, 2, 3, 4}
      else True)"

definition time_of_day :: "int \<times> int \<Rightarrow> int" where
  "time_of_day t = minutes (60 * fst t + snd t)"

definition next_daily_like :: "zone \<Rightarrow> (pystr \<times> pyval) list \<Rightarrow> instant \<Rightarrow> int \<Rightarrow> schedule_error + instant list" where
  "next_daily_like z d after cnt =
     (case parse_time (py_str (dict_get d ''time'')) of
        Inl e \<Rightarrow> Inl e
      | Inr t \<Rightarrow>
          (let wall = fst (local_of z after)
           in Inr (daily_from z (weekdays_of d) (time_of_day t) wall (wall div days 1) (nat cnt) 400)))"

definition next_run_instants ::
  "zones \<Rightarrow> pyval \<Rightarrow> pystr \<Rightarrow> instant \<Rightarrow> int \<Rightarrow> schedule_error + instant list" where
  "next_run_instants tz schedule timezone after cnt =
     (case validate_schedule tz schedule timezone of
        Inl e \<Rightarrow> Inl e
      | Inr d \<Rightarrow>
          (case validate_timezone tz timezone of
             Inl e \<Rightarrow> Inl e
           | Inr z \<Rightarrow>
               if dict_get d ''frequency'' = PStr ''hourly''
               then (case dict_get d ''interval_hours'' of
                       PInt n \<Rightarrow> Inr (next_hourly z n after cnt) | _ \<Rightarrow> Inl Interval_not_integer)
               else next_daily_like z d after cnt))"

subsection \<open>Summary and default\<close>

definition weekday_names :: "pystr list" where
  "weekday_names = [''maandag'', ''dinsdag'', ''woensdag'', ''donderdag'', ''vrijdag'', ''zaterdag'', ''zondag'']"

definition int_vals :: "pyval \<Rightarrow> int list" where
  "int_vals v = (case v of PList vs \<Rightarrow> List.map_filter (\<lambda>x. case x of PInt n \<Rightarrow> Some n | _ \<Rightarrow> None) vs | _ \<Rightarrow> [])"

definition human_readable :: "zones \<Rightarrow> pyval \<Rightarrow> pystr \<Rightarrow> schedule_error + pystr" where
  "human_readable tz schedule timezone =
     (case validate_schedule tz schedule timezone of
        Inl Unhashable \<Rightarrow> Inl Unhashable
      | Inl _ \<Rightarrow> Inr ''Ongeldig schema''
      | Inr d \<Rightarrow>
          (let t = (case dict_get d ''time'' of PStr s \<Rightarrow> s | _ \<Rightarrow> []); f = dict_get d ''frequency''
           in Inr (if f = PStr ''daily'' then ''Elke dag om '' @ t
                   else if f = PStr ''weekdays'' then ''Elke werkdag om '' @ t
                   else if f = PStr ''weekly''
                   then ''Wekelijks ('' @
                        join '', '' (map (\<lambda>n. weekday_names ! nat n) (sort (int_vals (dict_get d ''weekdays'')))) @
                        '') om '' @ t
                   else if f = PStr ''hourly'' then ''Elke '' @ py_str (dict_get d ''interval_hours'') @ '' uur''
                   else ''Ongeldig schema'')))"

definition default_schedule :: "(pystr \<times> pyval) list" where
  "default_schedule =
     [(''frequency'', PStr ''weekdays''), (''time'', PStr default_time),
      (''weekdays'', PList (map PInt [0, 1, 2, 3, 4]))]"

end
