(* ===== verification/Sync_Schedule.thy ===== *)
theory Sync_Schedule
  imports Schedule_Spec Py_Json
begin

text \<open>
  The sync-schedule service (\<^verbatim>\<open>services/sync_schedule.py\<close>) on the table of
  \<^verbatim>\<open>models/sync_schedule.py\<close>: resolving time zones, computing the next run, reading,
  editing and creating schedules within a tenant, and the audit log.

  Arguments of the model: the time-zone database, the readings of the clock, the fresh identifier
  of an inserted row, and the text redactor. The \<^verbatim>\<open>schedule\<close> column holds an object.
\<close>

subsection \<open>Rows\<close>

definition scope_ingestion :: pystr where
  "scope_ingestion = ''ingestion''"

definition scope_export :: pystr where
  "scope_export = ''export''"

definition ingestion_schedulable_providers :: "pystr list" where
  "ingestion_schedulable_providers = [''bunq'', ''trading212'']"

definition export_schedulable_exporters :: "pystr list" where
  "export_schedulable_exporters =
     [''wealthfolio'', ''actual-budget'', ''firefly'', ''ghostfolio'', ''investbrain'', ''securo'']"

definition default_timezone :: pystr where
  "default_timezone = ''Europe/Amsterdam''"

definition fallback_timezone :: pystr where
  "fallback_timezone = ''UTC''"

record sync_schedule =
  sched_id :: pystr
  tenant_id :: pystr
  scope :: pystr
  target_id :: pystr
  enabled :: bool
  schedule :: "(pystr \<times> pyval) list"
  schema_version :: int
  timezone :: pystr
  version :: int
  next_run_at :: "instant option"
  last_scheduled_at :: "instant option"
  last_run_at :: "instant option"
  last_run_status :: "pystr option"
  last_run_error :: "pystr option"
  created_by :: "pystr option"
  updated_by :: "pystr option"
  created_at :: instant
  updated_at :: instant

record audit_entry =
  audit_tenant :: pystr
  connection_id :: "pystr option"
  provider_key :: pystr
  action :: pystr
  detail :: pyval
  audit_actor :: "pystr option"
  audit_role :: "pystr option"

record schedule_db =
  schedules :: "sync_schedule list"
  audit_log :: "audit_entry list"

datatype service_error = Schedule_not_found | Schedule_conflict | Schedule_invalid schedule_error

subsection \<open>Pure helpers\<close>

definition resolve_tenant_timezone :: "zones \<Rightarrow> pystr option \<Rightarrow> pystr \<Rightarrow> pystr" where
  "resolve_tenant_timezone tz tenant_timezone fallback =
     (case find (\<lambda>c. truthy c \<and> tz (the c) \<noteq> None) [tenant_timezone, Some fallback, Some fallback_timezone] of
        Some (Some c) \<Rightarrow> c
      | _ \<Rightarrow> fallback_timezone)"

text \<open>\<^verbatim>\<open>except ScheduleValidationError: return None\<close>; a \<^verbatim>\<open>TypeError\<close> passes.\<close>

definition none_if_invalid :: "schedule_error + 'a \<Rightarrow> schedule_error + 'a option" where
  "none_if_invalid r =
     (case r of Inr x \<Rightarrow> Inr (Some x) | Inl Unhashable \<Rightarrow> Inl Unhashable | Inl _ \<Rightarrow> Inr None)"

definition compute_next_run ::
  "zones \<Rightarrow> sync_schedule \<Rightarrow> instant \<Rightarrow> int \<Rightarrow> schedule_error + instant list option" where
  "compute_next_run tz r after cnt =
     (if \<not> enabled r \<or> schedule r = [] then Inr None
      else none_if_invalid (next_run_instants tz (PDict (schedule r)) (timezone r) after cnt))"

text \<open>The same for a plain object, with its own or the given time zone.\<close>

definition compute_next_run_dict ::
  "zones \<Rightarrow> (pystr \<times> pyval) list \<Rightarrow> instant \<Rightarrow> int \<Rightarrow> pystr option \<Rightarrow> schedule_error + instant list option" where
  "compute_next_run_dict tz spec after cnt tzname =
     (let own = dict_get spec ''timezone'';
          name = (if truthy tzname then the tzname else if py_true own then py_str own else fallback_timezone)
      in if spec = [] then Inr None else none_if_invalid (next_run_instants tz (PDict spec) name after cnt))"

text \<open>\<^verbatim>\<open>(compute_next_run(...) or [None])[0]\<close>.\<close>

definition first_run :: "schedule_error + instant list option \<Rightarrow> schedule_error + instant option" where
  "first_run r =
     (case r of Inl e \<Rightarrow> Inl e | Inr (Some (t # ts)) \<Rightarrow> Inr (Some t) | Inr _ \<Rightarrow> Inr None)"

definition default_schedule_payload :: "(pystr \<times> pyval) list" where
  "default_schedule_payload =
     [(''frequency'', PStr ''weekdays''), (''time'', PStr ''07:00''),
      (''weekdays'', PList (map PInt [0, 1, 2, 3, 4]))]"

fun sanitise_value :: "(pystr \<Rightarrow> pystr) \<Rightarrow> pyval \<Rightarrow> pyval" where
  "sanitise_value redact (PStr s) = PStr (redact s)"
| "sanitise_value redact (PList vs) = PList (map (sanitise_value redact) vs)"
| "sanitise_value redact (PDict d) = PDict (map (\<lambda>(k, v). (k, sanitise_value redact v)) d)"
| "sanitise_value redact v = v"

definition sanitise_audit_detail :: "(pystr \<Rightarrow> pystr) \<Rightarrow> (pystr \<times> pyval) list \<Rightarrow> (pystr \<times> pyval) list" where
  "sanitise_audit_detail redact d = map (\<lambda>(k, v). (k, sanitise_value redact v)) d"

text \<open>
  \<^verbatim>\<open>==\<close> of JSON values: objects are equal whatever the order of their keys, booleans
  are the integers zero and one, and a float without fraction is an integer.
\<close>

definition float_int :: "pystr \<Rightarrow> int option" where
  "float_int s =
     (if drop (length s - 2) s = ''.0'' then parse_int (take (length s - 2) s) else None)"

fun py_norm :: "pyval \<Rightarrow> pyval" where
  "py_norm (PBool b) = PInt (if b then 1 else 0)"
| "py_norm (PFloat s) = (case float_int s of Some n \<Rightarrow> PInt n | None \<Rightarrow> PFloat s)"
| "py_norm (PList vs) = PList (map py_norm vs)"
| "py_norm (PDict d) = PDict (sort_key fst (map (\<lambda>(k, v). (k, py_norm v)) d))"
| "py_norm v = v"

definition py_eq :: "pyval \<Rightarrow> pyval \<Rightarrow> bool" where
  "py_eq v w \<longleftrightarrow> py_norm v = py_norm w"

subsection \<open>Queries\<close>

definition list_for_tenant ::
  "pystr \<Rightarrow> pystr option \<Rightarrow> nat \<Rightarrow> nat \<Rightarrow> schedule_db \<Rightarrow> sync_schedule list" where
  "list_for_tenant tenant sc limit offset db =
     take limit (drop offset (sort_key (\<lambda>r. - created_at r)
       (filter (\<lambda>r. tenant_id r = tenant \<and> (sc = None \<or> sc = Some (scope r))) (schedules db))))"

definition get_for_tenant :: "pystr \<Rightarrow> pystr \<Rightarrow> schedule_db \<Rightarrow> service_error + sync_schedule" where
  "get_for_tenant tenant i db =
     (case find (\<lambda>r. sched_id r = i \<and> tenant_id r = tenant) (schedules db) of
        None \<Rightarrow> Inl Schedule_not_found | Some r \<Rightarrow> Inr r)"

definition preview ::
  "zones \<Rightarrow> instant \<Rightarrow> pystr \<Rightarrow> pystr \<Rightarrow> int \<Rightarrow> schedule_db \<Rightarrow> service_error + sync_schedule \<times> instant list" where
  "preview tz now tenant i cnt db =
     (case get_for_tenant tenant i db of
        Inl e \<Rightarrow> Inl e
      | Inr r \<Rightarrow>
          (case compute_next_run tz r now cnt of
             Inl e \<Rightarrow> Inl (Schedule_invalid e)
           | Inr ts \<Rightarrow> Inr (r, case ts of None \<Rightarrow> [] | Some ts \<Rightarrow> ts)))"

subsection \<open>Mutations\<close>

record edit =
  new_schedule :: "pyval option"
  new_timezone :: "pystr option"
  new_enabled :: "bool option"
  base_version :: "int option"
  actor_user_id :: "pystr option"
  actor_role :: "pystr option"
  actor_api_key_id :: "pystr option"

definition max_detail_chars :: nat where
  "max_detail_chars = 2000"

text \<open>
  The audit entry; only the length of the encoded detail matters, which does not depend on the
  order of the keys.
\<close>

definition audit ::
  "(pystr \<Rightarrow> pystr) \<Rightarrow> pystr \<Rightarrow> sync_schedule \<Rightarrow> pystr \<Rightarrow> (pystr \<times> pyval) list \<times> pystr \<Rightarrow> (pystr \<times> pyval) list \<times> pystr \<Rightarrow>
   (pystr \<times> pyval) list \<Rightarrow> edit \<Rightarrow> audit_entry" where
  "audit redact tenant r act old new changed e =
     (let d = sanitise_audit_detail redact
                [(''scope'', PStr (scope r)), (''target_id'', PStr (target_id r)), (''changed'', PDict changed),
                 (''old_schedule'', PDict (sanitise_schedule (PDict (fst old)))), (''old_timezone'', PStr (snd old)),
                 (''new_schedule'', PDict (sanitise_schedule (PDict (fst new)))), (''new_timezone'', PStr (snd new)),
                 (''enabled'', PBool (enabled r))];
          d1 = (if length (json_dumps (PDict d)) > max_detail_chars
                then [(''truncated'', PBool True), (''scope'', PStr (scope r))] else d)
      in \<lparr>audit_tenant = tenant,
          connection_id = (if scope r = scope_ingestion then Some (target_id r) else None),
          provider_key = scope r, action = act, detail = PDict d1,
          audit_actor = or_else (actor_user_id e) (actor_api_key_id e), audit_role = actor_role e\<rparr>)"

text \<open>
  The part of \<^verbatim>\<open>update\<close> between reading the row and flushing it: the checks and the new
  values of the row, \<open>None\<close> when nothing changed. \<open>t1\<close> and \<open>t2\<close> are the
  readings of the clock for \<^verbatim>\<open>updated_at\<close> and for the next run.
\<close>

definition edited_schedule :: "zones \<Rightarrow> edit \<Rightarrow> sync_schedule \<Rightarrow> schedule_error + (pystr \<times> pyval) list" where
  "edited_schedule tz e r =
     (case new_schedule e of
        None \<Rightarrow> Inr (schedule r)
      | Some s \<Rightarrow> validate_schedule tz s (if truthy (new_timezone e) then the (new_timezone e) else timezone r))"

definition edited_timezone :: "zones \<Rightarrow> edit \<Rightarrow> sync_schedule \<Rightarrow> schedule_error + pystr" where
  "edited_timezone tz e r =
     (case new_timezone e of
        None \<Rightarrow> Inr (timezone r)
      | Some n \<Rightarrow> (case validate_timezone tz n of Inl err \<Rightarrow> Inl err | Inr _ \<Rightarrow> Inr n))"

definition plan_update ::
  "zones \<Rightarrow> instant \<Rightarrow> instant \<Rightarrow> edit \<Rightarrow> sync_schedule \<Rightarrow> service_error + sync_schedule option" where
  "plan_update tz t1 t2 e r =
     (if base_version e \<noteq> None \<and> base_version e \<noteq> Some (version r) then Inl Schedule_conflict
      else case edited_schedule tz e r of
        Inl err \<Rightarrow> Inl (Schedule_invalid err)
      | Inr s \<Rightarrow>
          (case edited_timezone tz e r of
             Inl err \<Rightarrow> Inl (Schedule_invalid err)
           | Inr z \<Rightarrow>
               (let on = (case new_enabled e of None \<Rightarrow> enabled r | Some b \<Rightarrow> b)
                in if py_eq (PDict s) (PDict (schedule r)) \<and> z = timezone r \<and> on = enabled r then Inr None
                   else let r1 = r\<lparr>schedule := s, timezone := z, enabled := on, version := version r + 1,
                                   updated_by := or_else (actor_user_id e) (actor_api_key_id e), updated_at := t1\<rparr>
                        in if \<not> on then Inr (Some (r1\<lparr>next_run_at := None\<rparr>))
                           else case first_run (compute_next_run tz r1 t2 1) of
                                  Inl err \<Rightarrow> Inl (Schedule_invalid err)
                                | Inr nr \<Rightarrow> Inr (Some (r1\<lparr>next_run_at := nr\<rparr>)))))"

text \<open>The flush writes the columns that changed, by primary key.\<close>

definition set_columns :: "sync_schedule \<Rightarrow> sync_schedule \<Rightarrow> sync_schedule \<Rightarrow> sync_schedule" where
  "set_columns old new cur = cur
     \<lparr>schedule := (if py_eq (PDict (schedule new)) (PDict (schedule old)) then schedule cur else schedule new),
      timezone := (if timezone new = timezone old then timezone cur else timezone new),
      enabled := (if enabled new = enabled old then enabled cur else enabled new),
      version := (if version new = version old then version cur else version new),
      updated_by := (if updated_by new = updated_by old then updated_by cur else updated_by new),
      updated_at := (if updated_at new = updated_at old then updated_at cur else updated_at new),
      next_run_at := (if next_run_at new = next_run_at old then next_run_at cur else next_run_at new)\<rparr>"

definition changed_fields :: "sync_schedule \<Rightarrow> sync_schedule \<Rightarrow> (pystr \<times> pyval) list" where
  "changed_fields old new =
     [(''schedule'', PBool (\<not> py_eq (PDict (schedule new)) (PDict (schedule old)))),
      (''timezone'', PBool (timezone new \<noteq> timezone old)), (''enabled'', PBool (enabled new \<noteq> enabled old))]"

definition flush_update ::
  "(pystr \<Rightarrow> pystr) \<Rightarrow> pystr \<Rightarrow> edit \<Rightarrow> sync_schedule \<Rightarrow> sync_schedule \<Rightarrow> schedule_db \<Rightarrow> schedule_db" where
  "flush_update redact tenant e old new db = db
     \<lparr>schedules := update_rows (\<lambda>x. sched_id x = sched_id old) (set_columns old new) (schedules db),
      audit_log := audit_log db @
        [audit redact tenant new ''schedule.update'' (schedule old, timezone old) (schedule new, timezone new)
           (changed_fields old new) e]\<rparr>"

definition update ::
  "zones \<Rightarrow> (pystr \<Rightarrow> pystr) \<Rightarrow> instant \<Rightarrow> instant \<Rightarrow> pystr \<Rightarrow> pystr \<Rightarrow> edit \<Rightarrow> schedule_db \<Rightarrow>
   service_error + sync_schedule \<times> schedule_db" where
  "update tz redact t1 t2 tenant i e db =
     (case get_for_tenant tenant i db of
        Inl err \<Rightarrow> Inl err
      | Inr r \<Rightarrow>
          (case plan_update tz t1 t2 e r of
             Inl err \<Rightarrow> Inl err
           | Inr None \<Rightarrow> Inr (r, db)
           | Inr (Some r1) \<Rightarrow> Inr (r1, flush_update redact tenant e r r1 db)))"

definition reset_to_default ::
  "zones \<Rightarrow> (pystr \<Rightarrow> pystr) \<Rightarrow> instant \<Rightarrow> instant \<Rightarrow> pystr \<Rightarrow> pystr \<Rightarrow> int option \<Rightarrow>
   pystr option \<times> pystr option \<times> pystr option \<Rightarrow> schedule_db \<Rightarrow> service_error + sync_schedule \<times> schedule_db" where
  "reset_to_default tz redact t1 t2 tenant i ver actor db =
     update tz redact t1 t2 tenant i
       \<lparr>new_schedule = Some (PDict default_schedule_payload),
        new_timezone = Some (resolve_tenant_timezone tz None default_timezone), new_enabled = Some True,
        base_version = ver, actor_user_id = fst actor, actor_role = fst (snd actor),
        actor_api_key_id = snd (snd actor)\<rparr> db"

subsection \<open>Default creation\<close>

definition sched_key :: "sync_schedule \<Rightarrow> pystr \<times> pystr \<times> pystr" where
  "sched_key r = (tenant_id r, scope r, target_id r)"

text \<open>
  \<open>meanwhile\<close> are the rows that other transactions committed between the first read and the
  flush; \<open>t\<close> is the clock of the default values and \<open>nid\<close> the fresh identifier.
\<close>

definition ensure_for_scope ::
  "zones \<Rightarrow> instant \<Rightarrow> pystr \<Rightarrow> sync_schedule list \<Rightarrow> pystr \<Rightarrow> pystr \<Rightarrow> pystr \<Rightarrow> pystr option \<Rightarrow> pystr option \<Rightarrow>
   schedule_db \<Rightarrow> service_error + sync_schedule \<times> schedule_db" where
  "ensure_for_scope tz t nid meanwhile tenant sc target tzname actor db =
     (case find (\<lambda>r. sched_key r = (tenant, sc, target)) (schedules db) of
        Some r \<Rightarrow> Inr (r, db)
      | None \<Rightarrow>
          (let r = \<lparr>sched_id = nid, tenant_id = tenant, scope = sc, target_id = target, enabled = True,
                    schedule = default_schedule_payload, schema_version = 1,
                    timezone = resolve_tenant_timezone tz tzname default_timezone, version = 1, next_run_at = None,
                    last_scheduled_at = None, last_run_at = None, last_run_status = None, last_run_error = None,
                    created_by = actor, updated_by = actor, created_at = t, updated_at = t\<rparr>
           in case first_run (compute_next_run tz r t 1) of
                Inl err \<Rightarrow> Inl (Schedule_invalid err)
              | Inr nr \<Rightarrow>
                  (let now_there = schedules db @ meanwhile; r1 = r\<lparr>next_run_at := nr\<rparr>
                   in case find (\<lambda>x. sched_key x = (tenant, sc, target)) now_there of
                        Some winner \<Rightarrow> Inr (winner, db\<lparr>schedules := now_there\<rparr>)
                      | None \<Rightarrow> Inr (r1, db\<lparr>schedules := now_there @ [r1]\<rparr>))))"

definition ensure_schedule_for_connection ::
  "zones \<Rightarrow> instant \<Rightarrow> pystr \<Rightarrow> sync_schedule list \<Rightarrow> pystr \<Rightarrow> pystr \<Rightarrow> pystr \<Rightarrow> pystr option \<Rightarrow> schedule_db \<Rightarrow>
   service_error + sync_schedule option \<times> schedule_db" where
  "ensure_schedule_for_connection tz t nid meanwhile tenant conn provider tzname db =
     (if provider \<notin> set ingestion_schedulable_providers then Inr (None, db)
      else map_sum id (\<lambda>(r, d). (Some r, d))
             (ensure_for_scope tz t nid meanwhile tenant scope_ingestion conn tzname None db))"

definition ensure_schedule_for_exporter ::
  "zones \<Rightarrow> instant \<Rightarrow> pystr \<Rightarrow> sync_schedule list \<Rightarrow> pystr \<Rightarrow> pystr \<Rightarrow> pystr option \<Rightarrow> schedule_db \<Rightarrow>
   service_error + sync_schedule option \<times> schedule_db" where
  "ensure_schedule_for_exporter tz t nid meanwhile tenant exporter tzname db =
     (if exporter \<notin> set export_schedulable_exporters then Inr (None, db)
      else map_sum id (\<lambda>(r, d). (Some r, d))
             (ensure_for_scope tz t nid meanwhile tenant scope_export exporter tzname None db))"

definition describe_schedule :: "zones \<Rightarrow> sync_schedule \<Rightarrow> schedule_error + pystr" where
  "describe_schedule tz r = human_readable tz (PDict (schedule r)) (timezone r)"

end
