(* ===== verification/Schedule_Spec_Props.thy ===== *)
theory Schedule_Spec_Props
  imports Schedule_Spec
begin

text \<open>
  Properties of recurrences: normal forms are stable, the computed instants are exactly the next
  ones of the recurrence, and as many as asked for; and what happens when clocks change.
\<close>

subsection \<open>Normal forms\<close>

lemma code_digit_char: "0 \<le> d \<Longrightarrow> d \<le> 9 \<Longrightarrow> code (digit_char d) = 48 + nat d"
  by (simp add: code_def digit_char_def)

lemma digit_char_plain:
  assumes "0 \<le> d" and "d \<le> 9"
  shows "is_digit (digit_char d)" and "\<not> is_space (digit_char d)" and "digit_char d \<noteq> CHR ''-''"
    and "digit_char d \<noteq> CHR ''+''" and "digit_char d \<noteq> CHR ''_''" and "digit_char d \<noteq> CHR '':''"
proof -
  note c = code_digit_char [OF assms]
  show "is_digit (digit_char d)" "\<not> is_space (digit_char d)"
    using assms c by (auto simp: is_digit_def is_space_def)
  have "code (CHR ''-'') = 45" "code (CHR ''+'') = 43" "code (CHR ''_'') = 95" "code (CHR '':'') = 58"
    by (simp_all add: code_def)
  then show "digit_char d \<noteq> CHR ''-''" "digit_char d \<noteq> CHR ''+''" "digit_char d \<noteq> CHR ''_''" "digit_char d \<noteq> CHR '':''"
    using assms c by auto
qed

lemma parse_two_digits:
  assumes a: "0 \<le> a" "a \<le> 9" and b: "0 \<le> b" "b \<le> 9"
  shows "parse_int [digit_char a, digit_char b] = Some (10 * a + b)"
proof -
  note plain = digit_char_plain [OF a] digit_char_plain [OF b]
  have "strip [digit_char a, digit_char b] = [digit_char a, digit_char b]"
    using plain by (simp add: strip_def)
  moreover have "int_text [digit_char a, digit_char b]"
    using plain by (auto simp: int_text_def startswith_def)
  moreover have "digits_val [digit_char a, digit_char b] = 10 * a + b"
    using a b by (simp add: digits_val_def code_digit_char)
  ultimately show ?thesis
    using plain by (simp add: parse_int_def take_sign_def)
qed

lemma two_digits:
  assumes "0 \<le> n" and "n < 60"
  shows "parse_int (pad 2 n) = Some n" and "CHR '':'' \<notin> set (pad 2 n)"
proof -
  have n: "0 \<le> n div 10" "n div 10 \<le> 9" "0 \<le> n mod 10" "n mod 10 \<le> 9"
    using assms by (auto simp: div_less_iff_less_mult)
  have "show_nat n = (if n < 10 then [digit_char n] else [digit_char (n div 10), digit_char (n mod 10)])"
    using assms n(2) by (simp add: show_nat.simps [of n] show_nat.simps [of "n div 10"])
  moreover have "digit_char 0 = CHR ''0''"
    by code_simp
  ultimately have p: "pad 2 n = [digit_char (n div 10), digit_char (n mod 10)]"
    using assms by (auto simp: pad_def)
  show "parse_int (pad 2 n) = Some n"
    unfolding p parse_two_digits [OF n] by simp
  show "CHR '':'' \<notin> set (pad 2 n)"
    unfolding p using digit_char_plain(6) [OF n(1,2)] digit_char_plain(6) [OF n(3,4)] by auto
qed

lemma parse_time_range: "parse_time v = Inr (h, m) \<Longrightarrow> 0 \<le> h \<and> h < 24 \<and> 0 \<le> m \<and> m < 60"
  by (auto simp: parse_time_def split: if_splits option.splits)

lemma parse_format_time:
  assumes "0 \<le> h" and "h < 24" and "0 \<le> m" and "m < 60"
  shows "parse_time (format_time (h, m)) = Inr (h, m)"
proof -
  have h: "parse_int (pad 2 h) = Some h" "CHR '':'' \<notin> set (pad 2 h)"
    and m: "parse_int (pad 2 m) = Some m"
    using two_digits assms by simp_all
  have "takeWhile (\<lambda>c. c \<noteq> CHR '':'') (pad 2 h @ CHR '':'' # pad 2 m) = pad 2 h"
    "dropWhile (\<lambda>c. c \<noteq> CHR '':'') (pad 2 h @ CHR '':'' # pad 2 m) = CHR '':'' # pad 2 m"
    using h(2) by (auto simp: takeWhile_append dropWhile_append3)
  then show ?thesis
    using h m assms by (simp add: parse_time_def format_time_def)
qed

lemma check_weekdays_Inr: "check_weekdays vs = Inr ds \<Longrightarrow> vs = map PInt ds \<and> (\<forall>d \<in> set ds. 0 \<le> d \<and> d \<le> 6)"
  by (induction vs arbitrary: ds) (auto split: pyval.splits if_splits sum.splits)

lemma check_weekdays_ok: "\<forall>d \<in> set ds. 0 \<le> d \<and> d \<le> 6 \<Longrightarrow> check_weekdays (map PInt ds) = Inr ds"
  by (induction ds) auto

lemma sort_remdups_twice [simp]: "sort (remdups (sort (remdups ds))) = sort (remdups (ds :: int list))"
  by (simp add: distinct_remdups_id sorted_sort_id)

text \<open>What a valid schedule looks like after normalisation.\<close>

lemma validate_schedule_cases:
  assumes "validate_schedule tz s tzname = Inr d"
  obtains (hourly) n z where "tz tzname = Some z" and "1 \<le> n" and "n \<le> 168"
      and "d = [(''frequency'', PStr ''hourly''), (''interval_hours'', PInt n)]"
  | (daily) h m z where "tz tzname = Some z" and "0 \<le> h" "h < 24" "0 \<le> m" "m < 60"
      and "d = [(''frequency'', PStr ''daily''), (''time'', PStr (format_time (h, m)))]"
  | (weekdays) h m z where "tz tzname = Some z" and "0 \<le> h" "h < 24" "0 \<le> m" "m < 60"
      and "d = [(''frequency'', PStr ''weekdays''), (''time'', PStr (format_time (h, m))),
                (''weekdays'', PList (map PInt [0, 1, 2, 3, 4]))]"
  | (weekly) h m z ds where "tz tzname = Some z" and "0 \<le> h" "h < 24" "0 \<le> m" "m < 60"
      and "ds \<noteq> []" and "\<forall>x \<in> set ds. 0 \<le> x \<and> x \<le> 6" and "sort (remdups ds) = ds"
      and "d = [(''frequency'', PStr ''weekly''), (''time'', PStr (format_time (h, m))),
                (''weekdays'', PList (map PInt ds))]"
proof -
  obtain kv f where s: "s = PDict kv" "dict_get kv ''frequency'' = PStr f"
    and f: "f \<in> set supported_frequencies"
    using assms by (auto simp: validate_schedule_def split: pyval.splits if_splits)
  obtain z where z: "tz tzname = Some z"
    using assms s by (auto simp: validate_schedule_def validate_timezone_def split: if_splits option.splits)
  have v: "(if f = ''hourly'' then validate_hourly kv else validate_daily_like f kv) = Inr d"
    using assms s f z by (simp add: validate_schedule_def validate_timezone_def)
  show thesis
  proof (cases "f = ''hourly''")
    case True
    with v obtain n where "1 \<le> n" "n \<le> 168" "d = [(''frequency'', PStr ''hourly''), (''interval_hours'', PInt n)]"
      by (auto simp: validate_hourly_def min_interval_hours_def max_interval_hours_def split: pyval.splits if_splits)
    with z show thesis
      by (intro hourly)
  next
    case False
    then obtain h m where t: "parse_time (if dict_get kv ''time'' = PNone then default_time else py_str (dict_get kv ''time'')) = Inr (h, m)"
      using v by (auto simp: validate_daily_like_def Let_def split: sum.splits)
    note r = parse_time_range [OF t]
    show thesis
    proof (cases "f = ''weekly''")
      case True
      with v t obtain vs ds where "check_weekdays vs = Inr ds" "vs \<noteq> []"
        and d: "d = [(''frequency'', PStr ''weekly''), (''time'', PStr (format_time (h, m))),
                  (''weekdays'', PList (map PInt (sort (remdups ds))))]"
        by (auto simp: validate_daily_like_def Let_def split: pyval.splits if_splits sum.splits)
      moreover have "sort (remdups ds) \<noteq> [] \<longleftrightarrow> ds \<noteq> []"
        by (metis set_empty set_remdups set_sort)
      ultimately show thesis
        using check_weekdays_Inr [of vs ds] r z by (intro weekly [of z h m "sort (remdups ds)"]) auto
    next
      case False
      have range: "0 \<le> h" "h < 24" "0 \<le> m" "m < 60"
        using r by simp_all
      show thesis
      proof (cases "f = ''weekdays''")
        case True
        with v t have "d = [(''frequency'', PStr ''weekdays''), (''time'', PStr (format_time (h, m))),
            (''weekdays'', PList (map PInt [0, 1, 2, 3, 4]))]"
          by (simp add: validate_daily_like_def Let_def)
        with z range show thesis
          by (rule weekdays)
      next
        case no: False
        with f False \<open>f \<noteq> ''hourly''\<close> have "f = ''daily''"
          by (simp add: supported_frequencies_def)
        with v t have "d = [(''frequency'', PStr ''daily''), (''time'', PStr (format_time (h, m)))]"
          by (simp add: validate_daily_like_def Let_def)
        with z range show thesis
          by (rule daily)
      qed
    qed
  qed
qed

lemma validate_schedule_stable:
  assumes "validate_schedule tz s tzname = Inr d"
  shows "validate_schedule tz (PDict d) tzname = Inr d"
  using assms
proof (cases rule: validate_schedule_cases)
  case (hourly n z)
  then show ?thesis
    by (simp add: validate_schedule_def validate_timezone_def validate_hourly_def supported_frequencies_def
        min_interval_hours_def max_interval_hours_def dict_get_def)
next
  case (daily h m z)
  then show ?thesis
    by (simp add: validate_schedule_def validate_timezone_def validate_daily_like_def supported_frequencies_def
        dict_get_def py_str_def parse_format_time)
next
  case (weekdays h m z)
  then show ?thesis
    by (simp add: validate_schedule_def validate_timezone_def validate_daily_like_def supported_frequencies_def
        dict_get_def py_str_def parse_format_time)
next
  case (weekly h m z ds)
  then show ?thesis
    by (simp add: validate_schedule_def validate_timezone_def validate_daily_like_def supported_frequencies_def
        dict_get_def py_str_def parse_format_time check_weekdays_ok)
qed

text \<open>
  C17. Validation is a round trip: a normalised schedule is valid again and is its own normal form,
  so storing, reading and editing a schedule never changes its meaning.
\<close>

theorem validate_schedule_normal_form:
  assumes "validate_schedule tz s tzname = Inr d"
  shows "validate_schedule tz (PDict d) tzname = Inr d"
  using assms by (rule validate_schedule_stable)

definition utc_zone :: zone where
  "utc_zone = \<lparr>local_of = (\<lambda>t. (t, False)), utc_of = (\<lambda>w f. w)\<rparr>"

definition only_utc :: zones where
  "only_utc = [''UTC'' \<mapsto> utc_zone]"

theorem validate_schedule_normal_form_witness:
  "validate_schedule only_utc (PDict [(''frequency'', PStr ''weekly''), (''time'', PStr '' 7:5''), (''weekdays'', PList [PInt 4, PInt 0, PInt 4])]) ''UTC'' =
     Inr [(''frequency'', PStr ''weekly''), (''time'', PStr ''07:05''), (''weekdays'', PList [PInt 0, PInt 4])] \<and>
   validate_schedule only_utc (PDict [(''frequency'', PStr ''weekly''), (''time'', PStr ''07:05''), (''weekdays'', PList [PInt 0, PInt 4])]) ''UTC'' =
     Inr [(''frequency'', PStr ''weekly''), (''time'', PStr ''07:05''), (''weekdays'', PList [PInt 0, PInt 4])]"
proof -
  have v: "validate_schedule only_utc (PDict [(''frequency'', PStr ''weekly''), (''time'', PStr '' 7:5''), (''weekdays'', PList [PInt 4, PInt 0, PInt 4])]) ''UTC'' =
      Inr [(''frequency'', PStr ''weekly''), (''time'', PStr ''07:05''), (''weekdays'', PList [PInt 0, PInt 4])]"
    by (simp add: validate_schedule_def validate_timezone_def only_utc_def) code_simp
  with validate_schedule_normal_form [OF v] show ?thesis
    by blast
qed

subsection \<open>Next instants\<close>

lemma daily_from_eq:
  "daily_from z on tod wall day k fuel =
     map (\<lambda>d. utc_of z (days d + tod) False)
       (take k (filter (\<lambda>d. on (weekday d) \<and> wall < days d + tod) [day..day + int fuel - 1]))"
proof (induction z on tod wall day k fuel rule: daily_from.induct)
  case (2 z on tod wall day k fuel)
  have "[day..day + int (Suc fuel) - 1] = day # [day + 1..(day + 1) + int fuel - 1]"
    by (subst upto_rec1) (simp_all add: algebra_simps)
  with 2 show ?case
    by (cases k) auto
qed simp

lemma weekday_range: "0 \<le> weekday d" "weekday d < 7"
  by (simp_all add: weekday_def)

lemma weekday_hit:
  assumes "0 \<le> x" and "x \<le> 6"
  shows "\<exists>i. 0 \<le> i \<and> i < 7 \<and> weekday (d + i) = x"
proof (intro exI conjI)
  show "0 \<le> (x - (d + 3)) mod 7" "(x - (d + 3)) mod 7 < 7"
    by simp_all
  have "((d + 3) + (x - (d + 3)) mod 7) mod 7 = x mod 7"
    by (simp only: mod_add_right_eq) simp
  then show "weekday (d + (x - (d + 3)) mod 7) = x"
    using assms by (simp add: weekday_def algebra_simps)
qed

text \<open>In every week there is a day of the recurrence.\<close>

lemma valid_on_some_day:
  assumes "validate_schedule tz s tzname = Inr d" and "dict_get d ''frequency'' \<noteq> PStr ''hourly''"
  shows "\<exists>x. 0 \<le> x \<and> x \<le> 6 \<and> weekdays_of d x"
  using assms(1)
proof (cases rule: validate_schedule_cases)
  case (weekly h m z ds)
  then show ?thesis
    by (intro exI [of _ "hd ds"]) (auto simp: weekdays_of_def dict_get_def)
qed (use assms(2) in \<open>auto simp: weekdays_of_def dict_get_def intro: exI [of _ 0]\<close>)

lemma valid_time:
  assumes "validate_schedule tz s tzname = Inr d" and "dict_get d ''frequency'' \<noteq> PStr ''hourly''"
  shows "\<exists>h m. parse_time (py_str (dict_get d ''time'')) = Inr (h, m) \<and> 0 \<le> h \<and> h < 24 \<and> 0 \<le> m \<and> m < 60"
  using assms(1)
  by (cases rule: validate_schedule_cases)
     (use assms(2) in \<open>auto simp: dict_get_def py_str_def parse_format_time\<close>)

lemma weekly_hits:
  assumes "\<exists>x. 0 \<le> x \<and> x \<le> 6 \<and> on x"
  shows "k \<le> length (filter (\<lambda>d. on (weekday d)) [day..day + int (7 * k) - 1])"
proof (induction k arbitrary: day)
  case (Suc k)
  obtain x where x: "0 \<le> x" "x \<le> 6" "on x"
    using assms by blast
  obtain i where i: "0 \<le> i" "i < 7" "weekday (day + i) = x"
    using weekday_hit [OF x(1,2)] by blast
  have split: "[day..day + int (7 * Suc k) - 1] = [day..day + 6] @ [day + 7..(day + 7) + int (7 * k) - 1]"
    using upto_split2 [of day "day + 6" "day + int (7 * Suc k) - 1"] by (simp add: algebra_simps)
  have "day + i \<in> set (filter (\<lambda>d. on (weekday d)) [day..day + 6])"
    using i x by simp
  then have "1 \<le> length (filter (\<lambda>d. on (weekday d)) [day..day + 6])"
    by (cases "filter (\<lambda>d. on (weekday d)) [day..day + 6]") auto
  with Suc.IH [of "day + 7"] show ?case
    unfolding split by simp
qed simp

text \<open>
  The recurrence as a set of wall-clock readings: a time of day on the chosen weekdays.
\<close>

definition recurs :: "(pystr \<times> pyval) list \<Rightarrow> int \<Rightarrow> bool" where
  "recurs d w \<longleftrightarrow>
     weekdays_of d (weekday (w div days 1)) \<and>
     parse_time (py_str (dict_get d ''time'')) = Inr (w mod days 1 div hours 1, w mod hours 1 div minutes 1) \<and>
     w mod minutes 1 = 0"

definition next_days :: "(int \<Rightarrow> bool) \<Rightarrow> int \<Rightarrow> int \<Rightarrow> nat \<Rightarrow> int list" where
  "next_days on tod wall k =
     take k (filter (\<lambda>d. on (weekday d) \<and> wall < days d + tod) [wall div days 1..wall div days 1 + 399])"

lemma wall_parts:
  assumes "0 \<le> h" "h < 24" "0 \<le> m" "m < 60" and w: "w = days x + time_of_day (h, m)"
  shows "w div days 1 = x" "w mod days 1 div hours 1 = h" "w mod hours 1 div minutes 1 = m" "w mod minutes 1 = 0"
proof -
  have w': "w = (24 * x + h) * 3600000000 + m * 60000000" "w = (60 * (24 * x + h) + m) * 60000000"
    "w = x * 86400000000 + (h * 3600000000 + m * 60000000)"
    using w by (simp_all add: time_of_day_def algebra_simps)
  have hm: "0 \<le> h * 3600000000 + m * 60000000" "h * 3600000000 + m * 60000000 < 86400000000"
    "0 \<le> m * 60000000" "m * 60000000 < 3600000000"
    using assms(1-4) by simp_all
  show "w div days 1 = x"
    using hm unfolding w'(3) by simp
  have "w mod days 1 = h * 3600000000 + m * 60000000"
    using hm unfolding w'(3) by simp
  then show "w mod days 1 div hours 1 = h"
    using hm by simp
  have "w mod 3600000000 = m * 60000000"
    using hm(3,4) unfolding w'(1) mod_mult_self3 by (rule mod_pos_pos_trivial)
  then show "w mod hours 1 div minutes 1 = m"
    by simp
  show "w mod minutes 1 = 0"
    unfolding w'(2) by simp
qed

lemma mixed_radix:
  fixes w :: int
  assumes "H dvd D" and "M dvd H" and "w mod M = 0"
  shows "w = D * (w div D) + (H * (w mod D div H) + M * (w mod H div M))"
proof -
  have "w mod H = M * (w mod H div M)"
    using mult_div_mod_eq [of M "w mod H"] assms(2,3) by (simp add: mod_mod_cancel)
  moreover have "w mod D = H * (w mod D div H) + w mod H"
    using mult_div_mod_eq [of H "w mod D"] assms(1) by (simp add: mod_mod_cancel)
  moreover have "w = D * (w div D) + w mod D"
    by simp
  ultimately show ?thesis
    by linarith
qed

lemma wall_recompose:
  assumes "w mod minutes 1 = 0"
  shows "w = days (w div days 1) + time_of_day (w mod days 1 div hours 1, w mod hours 1 div minutes 1)"
proof -
  have tod: "time_of_day (h, m) = 3600000000 * h + 60000000 * m" for h m
    by (simp add: time_of_day_def)
  have unit: "seconds (86400 * x) = 86400000000 * x" for x
    by simp
  have one: "days 1 = 86400000000" "hours 1 = 3600000000" "minutes 1 = 60000000"
    "seconds 86400 = 86400000000" "seconds 3600 = 3600000000" "seconds 60 = 60000000"
    by simp_all
  have "w mod 60000000 = 0"
    using assms unfolding one .
  then have "w = 86400000000 * (w div 86400000000) +
      (3600000000 * (w mod 86400000000 div 3600000000) + 60000000 * (w mod 3600000000 div 60000000))"
    by (intro mixed_radix) simp_all
  then show ?thesis
    unfolding tod unit mult_1_right by (simp only: one unit mult_1_right)
qed

lemma recurs_iff:
  assumes t: "parse_time (py_str (dict_get d ''time'')) = Inr (h, m)"
  shows "recurs d w \<longleftrightarrow> (\<exists>x. weekdays_of d (weekday x) \<and> w = days x + time_of_day (h, m))"
proof
  assume r: "recurs d w"
  then have "h = w mod days 1 div hours 1" "m = w mod hours 1 div minutes 1" "w mod minutes 1 = 0"
    using t by (simp_all add: recurs_def)
  with wall_recompose [of w] have "w = days (w div days 1) + time_of_day (h, m)"
    by (simp only:)
  with r show "\<exists>x. weekdays_of d (weekday x) \<and> w = days x + time_of_day (h, m)"
    unfolding recurs_def by blast
next
  assume "\<exists>x. weekdays_of d (weekday x) \<and> w = days x + time_of_day (h, m)"
  then obtain x where x: "weekdays_of d (weekday x)" and w: "w = days x + time_of_day (h, m)"
    by blast
  have "0 \<le> h" "h < 24" "0 \<le> m" "m < 60"
    using parse_time_range [OF t] by simp_all
  note parts = wall_parts [OF this w]
  show "recurs d w"
    unfolding recurs_def parts t using x by blast
qed

lemma day_bounds: "days (w div days 1) \<le> w" "w < days (w div days 1 + 1)"
  using mult_div_mod_eq [of 86400000000 w] pos_mod_sign [of 86400000000 w] pos_mod_bound [of 86400000000 w]
  by simp_all

lemma next_days_sorted: "sorted_wrt (<) (next_days on tod wall k)"
  by (simp add: next_days_def sorted_wrt_take sorted_wrt_filter)

lemma next_days_length:
  assumes on: "\<exists>x. 0 \<le> x \<and> x \<le> 6 \<and> on x" and tod: "0 \<le> tod" and k: "k \<le> 57"
  shows "length (next_days on tod wall k) = k"
proof -
  let ?a = "wall div days 1"
  have late: "wall < days d + tod" if "?a + 1 \<le> d" for d
    using that tod day_bounds(2) [of wall] by simp
  have "57 \<le> length (filter (\<lambda>d. on (weekday d)) [?a + 1..(?a + 1) + int (7 * 57) - 1])"
    by (rule weekly_hits [OF on])
  also have "filter (\<lambda>d. on (weekday d)) [?a + 1..(?a + 1) + int (7 * 57) - 1] =
      filter (\<lambda>d. on (weekday d) \<and> wall < days d + tod) [?a + 1..?a + 399]"
    by (rule filter_cong) (use late in \<open>auto simp: add.commute [of 399]\<close>)
  also have "length \<dots> \<le> length (filter (\<lambda>d. on (weekday d) \<and> wall < days d + tod) [?a..?a + 399])"
    by (subst (2) upto_rec1) simp_all
  finally show ?thesis
    using k by (simp add: next_days_def)
qed

lemma next_days_exact:
  assumes "on (weekday x)" and "wall < days x + tod" and "tod < days 1"
    and "x \<notin> set (next_days on tod wall k)" and y: "y \<in> set (next_days on tod wall k)"
  shows "y < x"
proof -
  let ?xs = "filter (\<lambda>d. on (weekday d) \<and> wall < days d + tod) [wall div days 1..wall div days 1 + 399]"
  have "wall div days 1 \<le> x"
    using assms(2,3) day_bounds(1) [of wall] by simp
  show ?thesis
  proof (cases "x \<le> wall div days 1 + 399")
    case True
    with \<open>wall div days 1 \<le> x\<close> assms(1,2) have "x \<in> set ?xs"
      by simp
    then have "x \<in> set (take k ?xs) \<union> set (drop k ?xs)"
      by (metis append_take_drop_id set_append)
    with assms(4) have "x \<in> set (drop k ?xs)"
      by (simp add: next_days_def)
    moreover have "sorted_wrt (<) (take k ?xs @ drop k ?xs)"
      by (simp only: append_take_drop_id) (simp add: sorted_wrt_filter)
    ultimately show ?thesis
      using y unfolding next_days_def sorted_wrt_append by blast
  next
    case False
    have "y \<in> set ?xs"
      using y unfolding next_days_def by (rule in_set_takeD)
    with False show ?thesis
      by simp
  qed
qed

text \<open>
  C18. The next runs of a daily, weekday or weekly schedule, in any time zone: as many as asked
  for (up to 57), in order, each at the recurrence's wall-clock time, after the reading of the
  start, and none of the readings between them left out.
\<close>

theorem next_run_instants_exact:
  assumes valid: "validate_schedule tz s tzname = Inr d" and z: "tz tzname = Some z"
    and daily: "dict_get d ''frequency'' \<noteq> PStr ''hourly''" and cnt: "0 \<le> cnt" "cnt \<le> 57"
  shows "\<exists>ws. next_run_instants tz s tzname after cnt = Inr (map (\<lambda>w. utc_of z w False) ws)
    \<and> length ws = nat cnt \<and> sorted_wrt (<) ws
    \<and> (\<forall>w \<in> set ws. recurs d w \<and> fst (local_of z after) < w)
    \<and> (\<forall>w. recurs d w \<and> fst (local_of z after) < w \<and> w \<notin> set ws \<longrightarrow> (\<forall>x \<in> set ws. x < w))"
proof -
  obtain h m where t: "parse_time (py_str (dict_get d ''time'')) = Inr (h, m)"
    and r: "0 \<le> h" "h < 24" "0 \<le> m" "m < 60"
    using valid_time [OF valid daily] by blast
  let ?wall = "fst (local_of z after)" and ?tod = "time_of_day (h, m)"
  let ?ds = "next_days (weekdays_of d) ?tod ?wall (nat cnt)"
  let ?ws = "map (\<lambda>x. days x + ?tod) ?ds"
  have tod: "0 \<le> ?tod" "?tod < days 1"
    using r by (simp_all add: time_of_day_def)
  note rec = recurs_iff [OF t]
  have "next_run_instants tz s tzname after cnt = Inr (map (\<lambda>w. utc_of z w False) ?ws)"
    using valid z daily t
    by (simp add: next_run_instants_def validate_timezone_def next_daily_like_def Let_def daily_from_eq next_days_def
        comp_def add.commute [of 399])
  moreover have "length ?ws = nat cnt"
    using next_days_length [OF valid_on_some_day [OF valid daily] tod(1), of "nat cnt" ?wall] cnt by simp
  moreover have "sorted_wrt (<) ?ws"
    using next_days_sorted by (simp add: sorted_wrt_map)
  moreover have "\<forall>w \<in> set ?ws. recurs d w \<and> ?wall < w"
    unfolding rec by (auto simp: next_days_def dest!: in_set_takeD)
  moreover have "\<forall>w. recurs d w \<and> ?wall < w \<and> w \<notin> set ?ws \<longrightarrow> (\<forall>x \<in> set ?ws. x < w)"
  proof (intro allI impI ballI, elim conjE)
    fix w x
    assume "recurs d w" and later: "?wall < w" "w \<notin> set ?ws" and "x \<in> set ?ws"
    then obtain i j where i: "weekdays_of d (weekday i)" "w = days i + ?tod"
      and j: "j \<in> set ?ds" "x = days j + ?tod"
      unfolding rec by auto
    have "i \<notin> set ?ds"
      using later(2) i(2) by (auto simp: image_iff)
    from next_days_exact [where on = "weekdays_of d", OF i(1) _ tod(2) this j(1)] show "x < w"
      using later(1) i(2) j(2) by simp
  qed
  ultimately show ?thesis
    by blast
qed

theorem next_run_instants_exact_witness:
  "\<exists>ws. next_run_instants only_utc (PDict default_schedule) ''UTC'' 0 3 = Inr (map (\<lambda>w. utc_of utc_zone w False) ws)
    \<and> length ws = 3"
proof -
  have "validate_schedule only_utc (PDict default_schedule) ''UTC'' = Inr default_schedule"
    by (simp add: validate_schedule_def validate_timezone_def only_utc_def) code_simp
  from next_run_instants_exact [OF this, of utc_zone 3 0] show ?thesis
    by (auto simp: only_utc_def default_schedule_def dict_get_def)
qed

text \<open>
  When clocks go back, readings are ambiguous, and comparing readings takes the second pass of an
  hour for the first: asked five minutes into the second pass, the next run at half past is the one
  of the first pass, which is over. When clocks go forward, a run planned in the skipped hour is
  moved by an hour, not to its end, and two hourly runs fall together.
\<close>

definition back_zone :: zone where
  "back_zone =
     \<lparr>local_of = (\<lambda>t. if t < hours 1 then (t + hours 2, False) else (t + hours 1, t < hours 2)),
      utc_of = (\<lambda>w fold. if w < hours 2 \<or> w < hours 3 \<and> \<not> fold then w - hours 2 else w - hours 1)\<rparr>"

definition forward_zone :: zone where
  "forward_zone =
     \<lparr>local_of = (\<lambda>t. if t < hours 1 then (t + hours 1, False) else (t + hours 2, False)),
      utc_of = (\<lambda>w fold. if w < hours 2 \<or> w < hours 3 \<and> \<not> fold then w - hours 1 else w - hours 2)\<rparr>"

lemma next_run_in_the_past:
  "next_run_instants (\<lambda>name. Some back_zone) (PDict [(''frequency'', PStr ''daily''), (''time'', PStr ''02:30'')])
     ''X'' (hours 1 + minutes 5) 1 = Inr [minutes 30]"
  by (simp add: next_run_instants_def validate_schedule_def validate_timezone_def back_zone_def) code_simp

lemma skipped_hour:
  "next_run_instants (\<lambda>name. Some forward_zone) (PDict [(''frequency'', PStr ''daily''), (''time'', PStr ''02:30'')])
     ''X'' 0 1 = Inr [hours 1 + minutes 30]"
  "next_run_instants (\<lambda>name. Some forward_zone) (PDict [(''frequency'', PStr ''hourly''), (''interval_hours'', PInt 1)])
     ''X'' 0 2 = Inr [hours 1, hours 1]"
  by (simp add: next_run_instants_def validate_schedule_def validate_timezone_def forward_zone_def, code_simp)+

end
