(* ===== verification/Sync_Schedule_Props.thy ===== *)
theory Sync_Schedule_Props
  imports Sync_Schedule Schedule_Spec_Props
begin

text \<open>
  Properties of the schedule service: an edit stays within its tenant and its row, takes effect
  once, and moves the next run; a stale edit is refused, unless both edits read the row before
  either was written; creation keeps one schedule per target.
\<close>

definition wf_ids :: "schedule_db \<Rightarrow> bool" where
  "wf_ids db \<longleftrightarrow> distinct (map sched_id (schedules db))"

lemma get_for_tenant_Inr:
  "get_for_tenant tenant i db = Inr r \<Longrightarrow> r \<in> set (schedules db) \<and> sched_id r = i \<and> tenant_id r = tenant"
  by (auto simp: get_for_tenant_def find_Some_iff split: option.splits)

lemma get_for_tenant_iff:
  assumes "wf_ids db"
  shows "get_for_tenant tenant i db = Inr r \<longleftrightarrow> r \<in> set (schedules db) \<and> sched_id r = i \<and> tenant_id r = tenant"
proof
  assume r: "r \<in> set (schedules db) \<and> sched_id r = i \<and> tenant_id r = tenant"
  then obtain x where x: "find (\<lambda>r. sched_id r = i \<and> tenant_id r = tenant) (schedules db) = Some x"
    by (cases "find (\<lambda>r. sched_id r = i \<and> tenant_id r = tenant) (schedules db)") (auto simp: find_None_iff)
  then have "x \<in> set (schedules db)" "sched_id x = i"
    by (auto simp: find_Some_iff)
  with r assms have "x = r"
    by (auto simp: wf_ids_def distinct_map inj_on_def)
  with x show "get_for_tenant tenant i db = Inr r"
    by (simp add: get_for_tenant_def)
qed (rule get_for_tenant_Inr)

subsection \<open>Edits\<close>

lemma compute_next_run_cong:
  "enabled r = enabled q \<Longrightarrow> schedule r = schedule q \<Longrightarrow> timezone r = timezone q \<Longrightarrow>
   compute_next_run tz r t n = compute_next_run tz q t n"
  by (simp add: compute_next_run_def)

lemma edited_schedule_valid:
  assumes "edited_schedule tz e r = Inr s" and "edited_timezone tz e r = Inr z" and "new_schedule e \<noteq> None"
    and "new_timezone e \<noteq> Some []"
  shows "validate_schedule tz (PDict s) z = Inr s"
  using assms validate_schedule_stable
  by (auto simp: edited_schedule_def edited_timezone_def validate_timezone_def split: option.splits if_splits)

lemma plan_update_Some:
  assumes "plan_update tz t1 t2 e r = Inr (Some r1)"
  shows "base_version e = None \<or> base_version e = Some (version r)"
    and "sched_key r1 = sched_key r" and "sched_id r1 = sched_id r" and "version r1 = version r + 1"
    and "last_scheduled_at r1 = last_scheduled_at r"
    and "first_run (compute_next_run tz r1 t2 1) = Inr (next_run_at r1)"
    and "\<exists>s z. edited_schedule tz e r = Inr s \<and> edited_timezone tz e r = Inr z \<and>
      schedule r1 = s \<and> timezone r1 = z \<and> enabled r1 = (case new_enabled e of None \<Rightarrow> enabled r | Some b \<Rightarrow> b)"
proof -
  obtain s z where sz: "edited_schedule tz e r = Inr s" "edited_timezone tz e r = Inr z"
    and v: "\<not> (base_version e \<noteq> None \<and> base_version e \<noteq> Some (version r))"
    using assms by (auto simp: plan_update_def split: if_splits sum.splits)
  let ?on = "case new_enabled e of None \<Rightarrow> enabled r | Some b \<Rightarrow> b"
  let ?r = "r\<lparr>schedule := s, timezone := z, enabled := ?on, version := version r + 1,
    updated_by := or_else (actor_user_id e) (actor_api_key_id e), updated_at := t1\<rparr>"
  have r1: "\<exists>nr. r1 = ?r\<lparr>next_run_at := nr\<rparr> \<and> first_run (compute_next_run tz ?r t2 1) = Inr nr"
    using assms sz v
    by (auto simp: plan_update_def Let_def compute_next_run_def first_run_def split: if_splits sum.splits)
  then obtain nr where "r1 = ?r\<lparr>next_run_at := nr\<rparr>" and nr: "first_run (compute_next_run tz ?r t2 1) = Inr nr"
    by blast
  note r1 = this(1)
  show "base_version e = None \<or> base_version e = Some (version r)"
    using v by blast
  show "sched_key r1 = sched_key r" "sched_id r1 = sched_id r" "version r1 = version r + 1"
    "last_scheduled_at r1 = last_scheduled_at r"
    by (simp_all add: r1 sched_key_def)
  have "compute_next_run tz r1 t2 1 = compute_next_run tz ?r t2 1"
    by (rule compute_next_run_cong) (simp_all add: r1)
  with nr show "first_run (compute_next_run tz r1 t2 1) = Inr (next_run_at r1)"
    by (simp add: r1)
  show "\<exists>s z. edited_schedule tz e r = Inr s \<and> edited_timezone tz e r = Inr z \<and>
      schedule r1 = s \<and> timezone r1 = z \<and> enabled r1 = ?on"
    using sz by (simp add: r1)
qed

lemma set_columns_ids [simp]:
  "sched_id (set_columns old new x) = sched_id x" "sched_key (set_columns old new x) = sched_key x"
  "last_scheduled_at (set_columns old new x) = last_scheduled_at x"
  by (simp_all add: set_columns_def sched_key_def)

lemma flush_update_ids [simp]: "wf_ids (flush_update redact tenant e old new db) \<longleftrightarrow> wf_ids db"
  by (simp add: wf_ids_def flush_update_def table_simps)

lemma in_flush_update:
  assumes "wf_ids db" and "r \<in> set (schedules db)"
  shows "x \<in> set (schedules (flush_update redact tenant e r r1 db)) \<longleftrightarrow>
    x = set_columns r r1 r \<or> x \<in> set (schedules db) \<and> x \<noteq> r"
proof -
  have "y = r" if "y \<in> set (schedules db)" "sched_id y = sched_id r" for y
    using assms that by (auto simp: wf_ids_def distinct_map inj_on_def)
  then show ?thesis
    using assms(2) by (auto simp: flush_update_def in_update_rows)
qed

text \<open>What a written row looks like: its schedule may keep its old order of keys.\<close>

lemma set_columns_self:
  assumes "plan_update tz t1 t2 e r = Inr (Some r1)"
  shows "\<exists>d. set_columns r r1 r = r1\<lparr>schedule := d\<rparr> \<and> py_eq (PDict d) (PDict (schedule r1))"
proof -
  obtain s z nr where r1: "r1 = r\<lparr>schedule := s, timezone := z, enabled := enabled r1, version := version r + 1,
      updated_by := or_else (actor_user_id e) (actor_api_key_id e), updated_at := t1, next_run_at := nr\<rparr>"
    using assms by (auto simp: plan_update_def Let_def split: if_splits sum.splits)
  let ?d = "if py_eq (PDict s) (PDict (schedule r)) then schedule r else s"
  have "set_columns r r1 r = r1\<lparr>schedule := ?d\<rparr>"
    by (subst (1 2) r1) (simp add: set_columns_def)
  moreover have "py_eq (PDict ?d) (PDict (schedule r1))"
    by (subst r1) (simp add: py_eq_def)
  ultimately show ?thesis
    by blast
qed

text \<open>
  An edit concerns one row of the caller's tenant: either nothing happens, or that row gets
  the next version and the next run of its new recurrence, and the edit is logged once for the
  tenant; every other row stays as it is. An edit of a row of another tenant fails like one of
  a missing row.
\<close>

theorem update_within_tenant:
  assumes "wf_ids db"
  shows "case update tz redact t1 t2 tenant i e db of
      Inl err \<Rightarrow> err = Schedule_not_found \<longleftrightarrow>
        (\<forall>r \<in> set (schedules db). sched_id r = i \<longrightarrow> tenant_id r \<noteq> tenant)
    | Inr (r1, db1) \<Rightarrow>
        (\<exists>r \<in> set (schedules db). sched_id r = i \<and> tenant_id r = tenant \<and> sched_key r1 = sched_key r \<and>
          (base_version e = None \<or> base_version e = Some (version r)) \<and>
          (r1 = r \<and> db1 = db \<or>
           version r1 = version r + 1 \<and> first_run (compute_next_run tz r1 t2 1) = Inr (next_run_at r1) \<and>
           (\<exists>a. audit_log db1 = audit_log db @ [a] \<and> audit_tenant a = tenant) \<and>
           (\<exists>d. py_eq (PDict d) (PDict (schedule r1)) \<and>
             set (schedules db1) = insert (r1\<lparr>schedule := d\<rparr>) (set (schedules db) - {r}))))"
proof (cases "get_for_tenant tenant i db")
  case (Inl err)
  then have "err = Schedule_not_found" "\<forall>r \<in> set (schedules db). sched_id r = i \<longrightarrow> tenant_id r \<noteq> tenant"
    by (auto simp: get_for_tenant_def find_None_iff split: option.splits)
  with Inl show ?thesis
    by (simp add: update_def)
next
  case (Inr r)
  note r = get_for_tenant_Inr [OF Inr]
  show ?thesis
  proof (cases "plan_update tz t1 t2 e r")
    case (Inl err)
    then have "err \<noteq> Schedule_not_found"
      by (auto simp: plan_update_def Let_def split: if_splits sum.splits)
    then show ?thesis
      using Inl r \<open>get_for_tenant tenant i db = Inr r\<close> by (auto simp: update_def)
  next
    case (Inr p)
    show ?thesis
    proof (cases p)
      case None
      then have "base_version e = None \<or> base_version e = Some (version r)"
        using Inr by (auto simp: plan_update_def split: if_splits)
      then show ?thesis
        using Inr None r \<open>get_for_tenant tenant i db = Inr r\<close> by (auto simp: update_def)
    next
      case (Some r1)
      let ?db1 = "flush_update redact tenant e r r1 db"
      note plan = plan_update_Some [OF Inr [unfolded Some]]
      obtain d where d: "set_columns r r1 r = r1\<lparr>schedule := d\<rparr>" "py_eq (PDict d) (PDict (schedule r1))"
        using set_columns_self [OF Inr [unfolded Some]] by blast
      have "set (schedules ?db1) = insert (r1\<lparr>schedule := d\<rparr>) (set (schedules db) - {r})"
        using in_flush_update [OF assms] r d(1) by auto
      moreover have "\<exists>a. audit_log ?db1 = audit_log db @ [a] \<and> audit_tenant a = tenant"
        by (simp add: flush_update_def audit_def Let_def)
      moreover have "update tz redact t1 t2 tenant i e db = Inr (r1, ?db1)"
        using Inr Some \<open>get_for_tenant tenant i db = Inr r\<close> by (simp add: update_def)
      ultimately show ?thesis
        using plan r d(2) by auto
    qed
  qed
qed

definition sample_row :: sync_schedule where
  "sample_row =
     \<lparr>sched_id = ''s1'', tenant_id = ''t1'', scope = ''ingestion'', target_id = ''c1'', enabled = True,
      schedule = default_schedule_payload, schema_version = 1, timezone = ''UTC'', version = 1,
      next_run_at = Some (hours 7), last_scheduled_at = None, last_run_at = None, last_run_status = None,
      last_run_error = None, created_by = None, updated_by = None, created_at = 0, updated_at = 0\<rparr>"

definition sample_db :: schedule_db where
  "sample_db = \<lparr>schedules = [sample_row], audit_log = []\<rparr>"

text \<open>An edit by \<open>who\<close> to run every \<open>n\<close> hours, based on version one.\<close>

definition hourly_edit :: "pystr \<Rightarrow> int \<Rightarrow> edit" where
  "hourly_edit who n =
     \<lparr>new_schedule = Some (PDict [(''frequency'', PStr ''hourly''), (''interval_hours'', PInt n)]), new_timezone = None,
      new_enabled = None, base_version = Some 1, actor_user_id = Some who, actor_role = None, actor_api_key_id = None\<rparr>"

lemma sample_wf: "wf_ids sample_db"
  by code_simp

lemma sample_schedule [simp]: "schedules sample_db = [sample_row]"
  by (simp add: sample_db_def)

lemma sample_fields [simp]:
  "sched_id sample_row = ''s1''" "tenant_id sample_row = ''t1''" "version sample_row = 1" "enabled sample_row"
  "timezone sample_row = ''UTC''" "schedule sample_row = default_schedule_payload"
  by (simp_all add: sample_row_def)

lemma utc_known [simp]: "only_utc ''UTC'' = Some utc_zone"
  by (simp add: only_utc_def)

lemma hourly_edit_plan:
  assumes "1 \<le> n" and "n \<le> 168"
  shows "plan_update only_utc t1 t2 (hourly_edit who n) sample_row =
    Inr (Some (sample_row\<lparr>schedule := [(''frequency'', PStr ''hourly''), (''interval_hours'', PInt n)], version := 2,
      updated_by := or_else (Some who) None, updated_at := t1, next_run_at := Some (t2 + hours n)\<rparr>))"
proof -
  let ?d = "[(''frequency'', PStr ''hourly''), (''interval_hours'', PInt n)]"
  have valid: "validate_schedule only_utc (PDict ?d) ''UTC'' = Inr ?d"
    using assms
    by (simp add: validate_schedule_def validate_timezone_def validate_hourly_def supported_frequencies_def
        min_interval_hours_def max_interval_hours_def dict_get_def)
  moreover have "next_run_instants only_utc (PDict ?d) ''UTC'' t 1 = Inr [t + hours n]" for t
    using valid
    by (simp add: next_run_instants_def validate_timezone_def dict_get_def next_hourly_def utc_zone_def)
  moreover have "\<not> py_eq (PDict ?d) (PDict default_schedule_payload)"
    by (simp add: py_eq_def default_schedule_payload_def)
  ultimately show ?thesis
    by (simp add: plan_update_def hourly_edit_def edited_schedule_def edited_timezone_def Let_def first_run_def
        compute_next_run_def none_if_invalid_def)
qed

lemma hourly_edit_update:
  assumes "1 \<le> n" and "n \<le> 168"
  shows "\<exists>r1 db1. update only_utc redact t1 t2 ''t1'' ''s1'' (hourly_edit who n) sample_db = Inr (r1, db1) \<and>
    version r1 = 2 \<and> next_run_at r1 = Some (t2 + hours n)"
  using hourly_edit_plan [OF assms, of t1 t2 who]
  by (simp add: update_def get_for_tenant_def)

theorem update_within_tenant_witness:
  "\<exists>r1 db1. update only_utc id 5 10 ''t1'' ''s1'' (hourly_edit ''anna'' 6) sample_db = Inr (r1, db1) \<and>
     (\<exists>a. audit_log db1 = [a] \<and> audit_tenant a = ''t1'')"
proof -
  obtain r1 db1 where u: "update only_utc id 5 10 ''t1'' ''s1'' (hourly_edit ''anna'' 6) sample_db = Inr (r1, db1)"
    and v: "version r1 = 2"
    using hourly_edit_update [of 6 id 5 10 "''anna''"] by auto
  have "r1 \<noteq> sample_row"
    using v by auto
  with update_within_tenant [OF sample_wf, where tz = only_utc and redact = id and ?t1.0 = 5 and ?t2.0 = 10
      and tenant = "''t1''" and i = "''s1''" and e = "hourly_edit ''anna'' 6"] u
  show ?thesis
    by (auto simp: sample_db_def)
qed

subsection \<open>Stale edits\<close>

text \<open>Requests of any callers, one after the other; a refused one changes nothing.\<close>

fun run_updates ::
  "zones \<Rightarrow> (pystr \<Rightarrow> pystr) \<Rightarrow> (instant \<times> instant \<times> pystr \<times> pystr \<times> edit) list \<Rightarrow> schedule_db \<Rightarrow> schedule_db" where
  "run_updates tz redact [] db = db"
| "run_updates tz redact ((t1, t2, tenant, i, e) # us) db =
     run_updates tz redact us
       (case update tz redact t1 t2 tenant i e db of Inl _ \<Rightarrow> db | Inr (_, db1) \<Rightarrow> db1)"

text \<open>Versions only grow.\<close>

definition newer :: "schedule_db \<Rightarrow> pystr \<Rightarrow> pystr \<Rightarrow> int \<Rightarrow> bool" where
  "newer db tenant i v \<longleftrightarrow>
     (\<exists>r \<in> set (schedules db). sched_id r = i \<and> tenant_id r = tenant \<and> v < version r)"

lemma update_newer:
  assumes "wf_ids db" and "update tz redact t1 t2 tenant' j e db = Inr (r1, db1)"
  shows "wf_ids db1" and "newer db tenant i v \<Longrightarrow> newer db1 tenant i v"
proof -
  obtain r p where r: "get_for_tenant tenant' j db = Inr r" and p: "plan_update tz t1 t2 e r = Inr p"
    and db1: "db1 = (case p of None \<Rightarrow> db | Some r1 \<Rightarrow> flush_update redact tenant' e r r1 db)"
    using assms(2) by (auto simp: update_def split: sum.splits option.splits)
  show "wf_ids db1"
    using assms(1) by (auto simp: db1 split: option.splits)
  show "newer db1 tenant i v" if new: "newer db tenant i v"
  proof (cases p)
    case None
    then show ?thesis
      using new by (simp add: db1)
  next
    case (Some r1)
    note ps = plan_update_Some [OF p [unfolded Some]]
    obtain d where d: "set_columns r r1 r = r1\<lparr>schedule := d\<rparr>"
      using set_columns_self [OF p [unfolded Some]] by blast
    obtain x where x: "x \<in> set (schedules db)" "sched_id x = i" "tenant_id x = tenant" "v < version x"
      using new by (auto simp: newer_def)
    note mem = in_flush_update [OF assms(1), of r]
    show ?thesis
    proof (cases "x = r")
      case True
      then have "sched_id (r1\<lparr>schedule := d\<rparr>) = i" "tenant_id (r1\<lparr>schedule := d\<rparr>) = tenant" "v < version (r1\<lparr>schedule := d\<rparr>)"
        using x ps(2-4) by (auto simp: sched_key_def)
      moreover have "r1\<lparr>schedule := d\<rparr> \<in> set (schedules db1)"
        using mem x(1) True d Some by (simp add: db1)
      ultimately show ?thesis
        unfolding newer_def by blast
    next
      case False
      then show ?thesis
        using mem x get_for_tenant_Inr [OF r] Some by (auto simp: newer_def db1)
    qed
  qed
qed

lemma run_updates_newer:
  "wf_ids db \<Longrightarrow> newer db tenant i v \<Longrightarrow>
   wf_ids (run_updates tz redact us db) \<and> newer (run_updates tz redact us db) tenant i v"
proof (induction us arbitrary: db)
  case (Cons u us)
  obtain t1 t2 t' j e where u: "u = (t1, t2, t', j, e)"
    by (cases u) auto
  show ?case
    using Cons.IH Cons.prems update_newer [OF Cons.prems(1)]
    by (auto simp: u split: sum.splits)
qed simp

lemma newer_conflict:
  assumes "wf_ids db" and "newer db tenant i v" and "base_version e = Some v"
  shows "update tz redact t1 t2 tenant i e db = Inl Schedule_conflict"
proof -
  obtain r where "get_for_tenant tenant i db = Inr r" "v < version r"
    using assms(2) get_for_tenant_iff [OF assms(1)] by (auto simp: newer_def)
  then show ?thesis
    using assms(3) by (simp add: update_def plan_update_def)
qed

lemma update_makes_newer:
  assumes "wf_ids db" and "update tz redact t1 t2 tenant i e db = Inr (r1, db1)" and "r1 \<notin> set (schedules db)"
    and "base_version e = Some v"
  shows "newer db1 tenant i v"
proof -
  obtain r where r: "get_for_tenant tenant i db = Inr r" and p: "plan_update tz t1 t2 e r = Inr (Some r1)"
    and db1: "db1 = flush_update redact tenant e r r1 db"
    using assms(2,3) by (auto simp: update_def split: sum.splits option.splits dest: get_for_tenant_Inr)
  note ps = plan_update_Some [OF p] and r' = get_for_tenant_Inr [OF r]
  obtain d where d: "set_columns r r1 r = r1\<lparr>schedule := d\<rparr>"
    using set_columns_self [OF p] by blast
  have "sched_id (r1\<lparr>schedule := d\<rparr>) = i" "tenant_id (r1\<lparr>schedule := d\<rparr>) = tenant" "v < version (r1\<lparr>schedule := d\<rparr>)"
    using r' ps(1-4) assms(4) by (auto simp: sched_key_def)
  moreover have "r1\<lparr>schedule := d\<rparr> \<in> set (schedules db1)"
    using in_flush_update [OF assms(1)] r' d by (simp add: db1)
  ultimately show ?thesis
    unfolding newer_def by blast
qed

text \<open>
  C19. Of edits that run one after the other none is overwritten unseen: an edit that took effect
  makes every later edit based on the same version fail, whatever complete edits ran in between. Edits
  that overlap are not covered: two that read the row before either is flushed are both accepted
  (\<open>concurrent_edits_clobber\<close>).
\<close>

theorem stale_edit_conflicts:
  assumes "wf_ids db" and "update tz redact t1 t2 tenant i e db = Inr (r1, db1)" and "r1 \<notin> set (schedules db)"
    and "base_version e = Some v" and "base_version e' = Some v"
  shows "update tz redact t3 t4 tenant i e' (run_updates tz redact us db1) = Inl Schedule_conflict"
  using run_updates_newer [OF update_newer(1) [OF assms(1,2)] update_makes_newer [OF assms(1-4)]] assms(5)
  by (intro newer_conflict) auto

theorem stale_edit_conflicts_witness:
  "\<exists>r1 db1. update only_utc id 5 10 ''t1'' ''s1'' (hourly_edit ''anna'' 6) sample_db = Inr (r1, db1) \<and>
     update only_utc id 7 12 ''t1'' ''s1'' (hourly_edit ''bob'' 8)
       (run_updates only_utc id [(6, 11, ''t1'', ''s1'', hourly_edit ''carol'' 2)] db1) = Inl Schedule_conflict"
proof -
  obtain r1 db1 where u: "update only_utc id 5 10 ''t1'' ''s1'' (hourly_edit ''anna'' 6) sample_db = Inr (r1, db1)"
    and v: "version r1 = 2"
    using hourly_edit_update [of 6 id 5 10 "''anna''"] by auto
  have "r1 \<notin> set (schedules sample_db)"
    using v by auto
  moreover have "base_version (hourly_edit who n) = Some 1" for who n
    by (simp add: hourly_edit_def)
  ultimately show ?thesis
    using stale_edit_conflicts [OF sample_wf u] u by blast
qed

text \<open>
  The version check reads and the flush writes: two edits of the same version that both read
  the row before either is flushed are both accepted. The second overwrites the recurrence of the
  first, and the version has grown by one only.
\<close>

theorem concurrent_edits_clobber:
  assumes "wf_ids db" and "r \<in> set (schedules db)" and "base_version a = Some v" and "base_version b = Some v"
    and "plan_update tz t1 t2 a r = Inr (Some ra)" and "plan_update tz t3 t4 b r = Inr (Some rb)"
    and "\<not> py_eq (PDict (schedule rb)) (PDict (schedule r))"
  shows "\<exists>x \<in> set (schedules (flush_update redact tenant b r rb (flush_update redact tenant a r ra db))).
    sched_id x = sched_id r \<and> schedule x = schedule rb \<and> version x = v + 1"
proof -
  let ?x = "set_columns r rb (set_columns r ra r)"
  have "version r = v" "version ra = v + 1" "version rb = v + 1"
    using plan_update_Some(1,4) [OF assms(5)] plan_update_Some(4) [OF assms(6)] assms(3) by auto
  then have "sched_id ?x = sched_id r" "schedule ?x = schedule rb" "version ?x = v + 1"
    using assms(7) by (simp_all add: set_columns_def)
  moreover have "?x \<in> set (schedules (flush_update redact tenant b r rb (flush_update redact tenant a r ra db)))"
    using assms(2) by (force simp: flush_update_def update_rows_def image_image)
  ultimately show ?thesis
    by blast
qed

theorem concurrent_edits_clobber_witness:
  "\<exists>ra rb. plan_update only_utc 5 10 (hourly_edit ''anna'' 6) sample_row = Inr (Some ra) \<and>
     plan_update only_utc 6 11 (hourly_edit ''bob'' 8) sample_row = Inr (Some rb) \<and>
     (\<exists>x \<in> set (schedules (flush_update id ''t1'' (hourly_edit ''bob'' 8) sample_row rb
                  (flush_update id ''t1'' (hourly_edit ''anna'' 6) sample_row ra sample_db))).
        sched_id x = ''s1'' \<and> schedule x = [(''frequency'', PStr ''hourly''), (''interval_hours'', PInt 8)] \<and> version x = 1 + 1)"
proof -
  obtain ra where a: "plan_update only_utc 5 10 (hourly_edit ''anna'' 6) sample_row = Inr (Some ra)"
    using hourly_edit_plan [of 6 5 10 "''anna''"] by simp
  obtain rb where b: "plan_update only_utc 6 11 (hourly_edit ''bob'' 8) sample_row = Inr (Some rb)"
    and s: "schedule rb = [(''frequency'', PStr ''hourly''), (''interval_hours'', PInt 8)]"
    using hourly_edit_plan [of 8 6 11 "''bob''"] by simp
  have "\<not> py_eq (PDict (schedule rb)) (PDict (schedule sample_row))"
    by (simp add: s py_eq_def default_schedule_payload_def)
  from concurrent_edits_clobber [OF sample_wf _ _ _ a b this, of 1 id "''t1''"] a b s show ?thesis
    by (auto simp: hourly_edit_def)
qed

subsection \<open>Creation\<close>

definition wf_keys :: "sync_schedule list \<Rightarrow> bool" where
  "wf_keys rs \<longleftrightarrow> distinct (map sched_key rs)"

lemma find_key_None:
  "find (\<lambda>x. sched_key x = k) rs = None \<longleftrightarrow> k \<notin> sched_key ` set rs"
  by (auto simp: find_None_iff)

lemma find_key_Some:
  "find (\<lambda>x. sched_key x = k) rs = Some r \<Longrightarrow> r \<in> set rs \<and> sched_key r = k"
  by (auto simp: find_Some_iff)

lemma find_key_hit:
  assumes "wf_keys rs" and "r \<in> set rs"
  shows "find (\<lambda>x. sched_key x = sched_key r) rs = Some r"
proof -
  obtain x where x: "find (\<lambda>x. sched_key x = sched_key r) rs = Some x"
    using assms(2) find_key_None [of "sched_key r" rs] by (cases "find (\<lambda>x. sched_key x = sched_key r) rs") auto
  have "x = r"
    using find_key_Some [OF x] assms by (auto simp: wf_keys_def distinct_map inj_on_def)
  with x show ?thesis
    by simp
qed

text \<open>
  Creation is idempotent and race-safe: whatever others commit in the meantime, the target
  has one schedule afterwards, the returned one, nothing that existed is lost or changed, and
  creating it again returns the same row and changes nothing.
\<close>

theorem ensure_for_scope_once:
  assumes "wf_keys (schedules db @ meanwhile)"
    and "ensure_for_scope tz t nid meanwhile tenant sc target tzname actor db = Inr (r, db1)"
  shows "wf_keys (schedules db1) \<and> set (schedules db) \<subseteq> set (schedules db1)
    \<and> (\<forall>x \<in> set (schedules db1). sched_key x = (tenant, sc, target) \<longleftrightarrow> x = r)
    \<and> ensure_for_scope tz' t' nid' [] tenant sc target tzname' actor' db1 = Inr (r, db1)"
proof -
  let ?k = "(tenant, sc, target)"
  have inv: "wf_keys (schedules db1) \<and> set (schedules db) \<subseteq> set (schedules db1) \<and>
    r \<in> set (schedules db1) \<and> sched_key r = ?k"
  proof (cases "find (\<lambda>x. sched_key x = ?k) (schedules db)")
    case (Some x)
    then show ?thesis
      using assms find_key_Some [OF Some] by (auto simp: ensure_for_scope_def wf_keys_def)
  next
    case None
    show ?thesis
    proof (cases "find (\<lambda>x. sched_key x = ?k) (schedules db @ meanwhile)")
      case (Some x)
      then show ?thesis
        using assms None find_key_Some [OF Some] by (auto simp: ensure_for_scope_def Let_def split: sum.splits)
    next
      case none: None
      then have "?k \<notin> sched_key ` set (schedules db @ meanwhile)"
        by (simp only: find_key_None) simp
      then show ?thesis
        using assms None none
        by (auto simp: ensure_for_scope_def Let_def sched_key_def wf_keys_def split: sum.splits)
    qed
  qed
  moreover from inv have "\<forall>x \<in> set (schedules db1). sched_key x = ?k \<longleftrightarrow> x = r"
    by (auto simp: wf_keys_def distinct_map inj_on_def)
  moreover have "ensure_for_scope tz' t' nid' [] tenant sc target tzname' actor' db1 = Inr (r, db1)"
    using find_key_hit [of "schedules db1" r] inv by (simp add: ensure_for_scope_def)
  ultimately show ?thesis
    by blast
qed

text \<open>Another transaction creates the schedule first; its row is the one that stays.\<close>

theorem ensure_for_scope_once_witness:
  "\<exists>db1. ensure_for_scope only_utc 0 ''s2'' [sample_row] ''t1'' ''ingestion'' ''c1'' None None
        \<lparr>schedules = [], audit_log = []\<rparr> = Inr (sample_row, db1) \<and>
     ensure_for_scope only_utc 9 ''s3'' [] ''t1'' ''ingestion'' ''c1'' None None db1 = Inr (sample_row, db1)"
proof -
  have "next_run_instants only_utc (PDict default_schedule_payload) ''UTC'' 0 1 = Inr [hours 7]"
    by (simp add: next_run_instants_def validate_schedule_def validate_timezone_def utc_zone_def) code_simp
  then have "ensure_for_scope only_utc 0 ''s2'' [sample_row] ''t1'' ''ingestion'' ''c1'' None None
      \<lparr>schedules = [], audit_log = []\<rparr> = Inr (sample_row, \<lparr>schedules = [sample_row], audit_log = []\<rparr>)"
    by (simp add: ensure_for_scope_def resolve_tenant_timezone_def only_utc_def fallback_timezone_def default_timezone_def
        Let_def compute_next_run_def none_if_invalid_def first_run_def sched_key_def sample_row_def default_schedule_payload_def)
  moreover from ensure_for_scope_once [OF _ this, of only_utc 9 "''s3''" None None] show ?thesis
    using calculation by (auto simp: wf_keys_def)
qed

end
