(* ===== verification/Retry_Lock.thy ===== *)
theory Retry_Lock
  imports Prelude
begin

text \<open>
  The expiring lease of \<^verbatim>\<open>services/retry_lock.py\<close>: \<^verbatim>\<open>SET key token NX EX ttl\<close>
  on entry, and on exit a script that deletes the key if it still holds the token.
\<close>

type_synonym lock_store = "pystr \<Rightarrow> (pystr \<times> instant) option"

definition lease_ttl :: int where
  "lease_ttl = 900"

definition holder :: "instant \<Rightarrow> lock_store \<Rightarrow> pystr \<Rightarrow> pystr option" where
  "holder now st key =
     (case st key of None \<Rightarrow> None | Some (token, e) \<Rightarrow> if now < e then Some token else None)"

definition lease_enter :: "instant \<Rightarrow> pystr \<Rightarrow> pystr \<Rightarrow> lock_store \<Rightarrow> bool \<times> lock_store" where
  "lease_enter now key token st =
     (if holder now st key = None then (True, st(key \<mapsto> (token, now + seconds lease_ttl))) else (False, st))"

definition lease_exit :: "instant \<Rightarrow> pystr \<Rightarrow> pystr \<Rightarrow> bool \<Rightarrow> lock_store \<Rightarrow> lock_store" where
  "lease_exit now key token acquired st =
     (if acquired \<and> holder now st key = Some token then st(key := None) else st)"

definition retry_lease_key :: "pystr \<Rightarrow> pystr \<Rightarrow> pystr \<Rightarrow> pystr" where
  "retry_lease_key tenant kind item = ''finance-sync:recovery:'' @ kind @ '':'' @ tenant @ '':'' @ item"

text \<open>
  Steps of any number of processes on the store: entering with a token of one's own, and leaving.
\<close>

datatype lease_step = Enter instant pystr pystr | Exit instant pystr pystr bool

fun step_time :: "lease_step \<Rightarrow> instant" where
  "step_time (Enter t k token) = t"
| "step_time (Exit t k token a) = t"

fun step_token :: "lease_step \<Rightarrow> pystr" where
  "step_token (Enter t k token) = token"
| "step_token (Exit t k token a) = token"

fun apply_lease :: "lease_step \<Rightarrow> lock_store \<Rightarrow> lock_store" where
  "apply_lease (Enter t k token) st = snd (lease_enter t k token st)"
| "apply_lease (Exit t k token a) st = lease_exit t k token a st"

lemma other_steps_keep_lease:
  "st key = Some (token, e) \<Longrightarrow> step_time s < e \<Longrightarrow> step_token s \<noteq> token \<Longrightarrow> apply_lease s st key = Some (token, e)"
  by (cases s) (auto simp: lease_enter_def lease_exit_def holder_def)

text \<open>
  Until its holder leaves or the lease expires, nobody else enters.
\<close>

lemma lease_exclusive:
  assumes "lease_enter t key token st = (True, st1)"
    and "\<forall>s \<in> set ss. step_time s < t + seconds lease_ttl \<and> step_token s \<noteq> token"
    and "t' < t + seconds lease_ttl"
  shows "\<not> fst (lease_enter t' key token' (fold apply_lease ss st1))"
proof -
  have "st1 key = Some (token, t + seconds lease_ttl)"
    using assms(1) by (auto simp: lease_enter_def split: if_splits)
  with assms(2) have "fold apply_lease ss st1 key = Some (token, t + seconds lease_ttl)"
    by (induction ss arbitrary: st1) (simp_all add: other_steps_keep_lease)
  then show ?thesis
    using assms(3) by (simp add: lease_enter_def holder_def)
qed

text \<open>After leaving in time the lease is free again.\<close>

lemma lease_exit_frees:
  assumes "lease_enter t key token st = (True, st1)" and "t' < t + seconds lease_ttl"
  shows "fst (lease_enter t' key token' (lease_exit t' key token True st1))"
  using assms by (auto simp: lease_enter_def lease_exit_def holder_def split: if_splits)

end
