(* ===== verification/Schedule_Runner.thy ===== *)
theory Schedule_Runner
  imports Sync_Schedule Retry_Lock Window_Limiter
begin

text \<open>
  The worker's dispatcher of due schedules (\<^verbatim>\<open>worker/schedule_runner.py\<close>): loading,
  claiming, running and rescheduling. What a provider sync or an exporter returns or raises, the
  clock, the lease tokens, and what other transactions do to the table while a run is going on
  are arguments.
\<close>

definition catchup_max_delay :: int where
  "catchup_max_delay = days 7"

definition claim_grace :: int where
  "claim_grace = minutes 5"

definition load_due_schedules :: "instant \<Rightarrow> sync_schedule list \<Rightarrow> sync_schedule list" where
  "load_due_schedules now rs =
     take 200 (sort_key (\<lambda>r. the (next_run_at r))
       (filter (\<lambda>r. enabled r \<and> (case next_run_at r of None \<Rightarrow> False | Some t \<Rightarrow> t \<le> now)) rs))"

definition claimable :: "pystr \<Rightarrow> instant \<Rightarrow> sync_schedule \<Rightarrow> bool" where
  "claimable i cutoff r \<longleftrightarrow>
     sched_id r = i \<and> enabled r \<and> (case last_scheduled_at r of None \<Rightarrow> True | Some t \<Rightarrow> t < cutoff)"

definition claim_schedule :: "pystr \<Rightarrow> instant \<Rightarrow> instant \<Rightarrow> sync_schedule list \<Rightarrow> bool \<times> sync_schedule list" where
  "claim_schedule i claim_time cutoff rs =
     (\<exists>r \<in> set rs. claimable i cutoff r,
      update_rows (claimable i cutoff) (\<lambda>r. r\<lparr>last_scheduled_at := Some claim_time, updated_at := claim_time\<rparr>) rs)"

text \<open>\<^verbatim>\<open>instants[0] if instants else None\<close> is \<open>first_run\<close>; \<open>t\<close> is the clock of \<^verbatim>\<open>updated_at\<close>.\<close>

definition reset_next_run ::
  "zones \<Rightarrow> instant \<Rightarrow> pystr \<Rightarrow> instant \<Rightarrow> sync_schedule list \<Rightarrow> schedule_error + sync_schedule list" where
  "reset_next_run tz t i now rs =
     (case find (\<lambda>r. sched_id r = i) rs of
        None \<Rightarrow> Inr rs
      | Some r \<Rightarrow>
          if \<not> enabled r then Inr rs
          else case first_run (compute_next_run tz r now 1) of
                 Inl e \<Rightarrow> Inl e
               | Inr nr \<Rightarrow> Inr (put_row sched_id (r\<lparr>next_run_at := nr, updated_at := t\<rparr>) rs))"

subsection \<open>Runs\<close>

record outcome =
  status :: pystr
  error :: "pystr option"
  reason :: "pystr option"

definition skipped :: "pystr \<Rightarrow> outcome" where
  "skipped why = \<lparr>status = ''skipped'', error = None, reason = Some why\<rparr>"

definition outcome_error :: "outcome \<Rightarrow> pystr option" where
  "outcome_error oc =
     (if truthy (error oc) then Some (take 500 (the (error oc)))
      else if truthy (reason oc) then Some (''skipped: '' @ take 480 (the (reason oc))) else None)"

record sync_credential =
  cred_id :: pystr
  cred_tenant :: pystr
  cred_provider :: pystr
  cred_status :: "pystr option"

record export_target =
  tgt_id :: pystr
  tgt_tenant :: pystr
  tgt_type :: pystr
  tgt_status :: pystr
  encrypted_secret :: "pystr option"
  secret_nonce :: "pystr option"

record settings =
  bunq_sync_enabled :: bool
  trading212_sync_enabled :: bool
  export_enabled :: bool
  wealthfolio_configured :: bool
  redis_configured :: bool

text \<open>What the orchestrator reports of a connection: status, error category and message.\<close>

record sync_report =
  rep_status :: pystr
  rep_category :: "pystr option"
  rep_error :: "pystr option"

record run_env =
  cfg :: settings
  credentials :: "sync_credential list"
  targets :: "export_target list"
  orchestrate :: "pystr \<Rightarrow> sync_credential \<Rightarrow> pystr + sync_report"
  exporter :: "pystr \<Rightarrow> export_target option \<Rightarrow> sync_schedule \<Rightarrow> pystr + outcome"
  lease_token :: "pystr \<Rightarrow> pystr"
  lease_times :: "pystr \<Rightarrow> instant \<times> instant"

definition paused :: "sync_credential \<Rightarrow> bool" where
  "paused c \<longleftrightarrow> (if truthy (cred_status c) then the (cred_status c) else ''active'') = ''paused''"

text \<open>\<^verbatim>\<open>_run_connection_sync\<close> of \<^verbatim>\<open>api/v1/sync.py\<close>: status and error of the returned link.\<close>

definition run_connection_sync :: "run_env \<Rightarrow> pystr \<Rightarrow> sync_credential \<Rightarrow> bool \<Rightarrow> outcome" where
  "run_connection_sync env tenant c allow_paused =
     (if paused c \<and> \<not> allow_paused
      then \<lparr>status = ''skipped'', error = Some ''Connection is paused'', reason = None\<rparr>
      else case orchestrate env tenant c of
             Inl exn \<Rightarrow> \<lparr>status = ''error'', error = Some (take 500 exn), reason = None\<rparr>
           | Inr rep \<Rightarrow>
               \<lparr>status = (if rep_category rep = Some ''already_running'' then ''running'' else rep_status rep),
                error = rep_error rep, reason = None\<rparr>)"

definition gate_closed :: "settings \<Rightarrow> pystr \<Rightarrow> bool" where
  "gate_closed s provider \<longleftrightarrow>
     (provider = ''bunq'' \<and> \<not> bunq_sync_enabled s) \<or> (provider = ''trading212'' \<and> \<not> trading212_sync_enabled s)"

definition run_ingestion :: "run_env \<Rightarrow> sync_schedule \<Rightarrow> outcome" where
  "run_ingestion env r =
     (case find (\<lambda>c. cred_id c = target_id r \<and> cred_tenant c = tenant_id r) (credentials env) of
        None \<Rightarrow> skipped ''connection_missing''
      | Some c \<Rightarrow>
          if gate_closed (cfg env) (cred_provider c) then skipped ''global_gate_disabled''
          else if paused c then skipped ''paused''
          else run_connection_sync env (tenant_id r) c False)"

text \<open>
  \<^verbatim>\<open>_run_export_unlocked\<close>: the guards; the exporters themselves (and decryption of the
  target's secret) are behind \<open>exporter\<close>.
\<close>

definition guarded_exporter :: "run_env \<Rightarrow> pystr \<Rightarrow> export_target option \<Rightarrow> sync_schedule \<Rightarrow> pystr + outcome" where
  "guarded_exporter env key target r =
     (if key = ''wealthfolio'' \<and> target = None \<and> \<not> export_enabled (cfg env) then Inr (skipped ''global_gate_disabled'')
      else if key = ''wealthfolio'' \<and> target = None \<and> \<not> wealthfolio_configured (cfg env)
      then Inr (skipped ''target_unconfigured'')
      else if key \<notin> {''wealthfolio'', ''actual-budget''} \<and> target = None then Inr (skipped ''target_missing'')
      else exporter env key target r)"

definition run_export_unlocked :: "run_env \<Rightarrow> sync_schedule \<Rightarrow> pystr + outcome" where
  "run_export_unlocked env r =
     (let key = takeWhile (\<lambda>c. c \<noteq> CHR '':'') (target_id r); rest = dropWhile (\<lambda>c. c \<noteq> CHR '':'') (target_id r)
      in if key \<notin> set export_schedulable_exporters then Inr (skipped ''unknown_exporter'')
         else if rest = [] then guarded_exporter env key None r
         else case find (\<lambda>t. tgt_id t = tl rest \<and> tgt_tenant t = tenant_id r \<and> tgt_type t = key) (targets env) of
                None \<Rightarrow> Inr (skipped ''target_inactive'')
              | Some t \<Rightarrow>
                  if tgt_status t \<noteq> ''active'' then Inr (skipped ''target_inactive'')
                  else if \<not> truthy (encrypted_secret t) \<or> \<not> truthy (secret_nonce t)
                  then Inr (skipped ''target_unconfigured'')
                  else guarded_exporter env key (Some t) r)"

definition run_export :: "run_env \<Rightarrow> sync_schedule \<Rightarrow> lock_store \<Rightarrow> (pystr + outcome) \<times> lock_store" where
  "run_export env r st =
     (if \<not> redis_configured (cfg env) then (run_export_unlocked env r, st)
      else let key = retry_lease_key (tenant_id r) ''destination-export'' (target_id r);
               token = lease_token env (sched_id r);
               times = lease_times env (sched_id r)
           in case lease_enter (fst times) key token st of (acquired, st1) \<Rightarrow>
                (if acquired then run_export_unlocked env r else Inr (skipped ''export_in_progress''),
                 lease_exit (snd times) key token acquired st1))"

text \<open>The dispatch with its \<^verbatim>\<open>except Exception\<close>.\<close>

definition dispatch_run :: "run_env \<Rightarrow> sync_schedule \<Rightarrow> lock_store \<Rightarrow> outcome \<times> lock_store" where
  "dispatch_run env r st =
     (case (if scope r = scope_ingestion then (Inr (run_ingestion env r), st)
            else if scope r = scope_export then run_export env r st
            else (Inr (skipped ''unknown_scope''), st)) of
        (Inr oc, st1) \<Rightarrow> (oc, st1)
      | (Inl exn, st1) \<Rightarrow> (\<lparr>status = ''failed'', error = Some (take 500 exn), reason = None\<rparr>, st1))"

subsection \<open>The tick\<close>

record run_result =
  res_id :: pystr
  res_scope :: pystr
  res_target :: "pystr option"
  res_status :: pystr
  res_reason :: "pystr option"

record runner_state =
  rows :: "sync_schedule list"
  locks :: lock_store

definition skip_result :: "sync_schedule \<Rightarrow> pystr \<Rightarrow> run_result" where
  "skip_result r why =
     \<lparr>res_id = sched_id r, res_scope = scope r, res_target = None, res_status = ''skipped'', res_reason = Some why\<rparr>"

definition misfired :: "instant \<Rightarrow> sync_schedule \<Rightarrow> bool" where
  "misfired now r \<longleftrightarrow> now - (case next_run_at r of None \<Rightarrow> now | Some t \<Rightarrow> t) > catchup_max_delay"

text \<open>The row after a run: \<open>planned\<close> is the instant the run was due at.\<close>

definition settle_row ::
  "zones \<Rightarrow> instant \<Rightarrow> instant option \<Rightarrow> outcome \<Rightarrow> sync_schedule \<Rightarrow> schedule_error + sync_schedule" where
  "settle_row tz now planned oc r =
     (let r1 = r\<lparr>last_run_at := Some now, last_run_status := Some (take 16 (status oc)),
                 last_run_error := outcome_error oc, updated_at := now\<rparr>
      in if \<not> enabled r then Inr (r1\<lparr>next_run_at := None\<rparr>)
         else case first_run (compute_next_run tz r (case planned of None \<Rightarrow> now | Some t \<Rightarrow> t) 1) of
                Inl e \<Rightarrow> Inl e
              | Inr nr \<Rightarrow> Inr (r1\<lparr>next_run_at := nr\<rparr>))"

definition record_outcome ::
  "zones \<Rightarrow> instant \<Rightarrow> sync_schedule \<Rightarrow> outcome \<Rightarrow> sync_schedule list \<Rightarrow> schedule_error + sync_schedule list" where
  "record_outcome tz now r oc rs =
     (case find (\<lambda>x. sched_id x = sched_id r) rs of
        None \<Rightarrow> Inr rs
      | Some x \<Rightarrow>
          (case settle_row tz now (next_run_at r) oc x of
             Inl e \<Rightarrow> Inl e | Inr x1 \<Rightarrow> Inr (put_row sched_id x1 rs)))"

definition run_claimed ::
  "zones \<Rightarrow> run_env \<Rightarrow> (pystr \<Rightarrow> sync_schedule list \<Rightarrow> sync_schedule list) \<Rightarrow> instant \<Rightarrow> sync_schedule \<Rightarrow>
   runner_state \<Rightarrow> (schedule_error + run_result) \<times> runner_state" where
  "run_claimed tz env meanwhile now r st =
     (case dispatch_run env r (locks st) of (oc, lk) \<Rightarrow>
        (let st1 = \<lparr>rows = meanwhile (sched_id r) (rows st), locks = lk\<rparr>
         in case record_outcome tz now r oc (rows st1) of
              Inl e \<Rightarrow> (Inl e, st1)
            | Inr rs \<Rightarrow>
                (Inr \<lparr>res_id = sched_id r, res_scope = scope r, res_target = Some (target_id r),
                      res_status = status oc, res_reason = None\<rparr>, st1\<lparr>rows := rs\<rparr>)))"

definition handle_due ::
  "zones \<Rightarrow> run_env \<Rightarrow> (pystr \<Rightarrow> sync_schedule list \<Rightarrow> sync_schedule list) \<Rightarrow> instant \<Rightarrow> sync_schedule \<Rightarrow>
   runner_state \<Rightarrow> (schedule_error + run_result) \<times> runner_state" where
  "handle_due tz env meanwhile now r st =
     (case claim_schedule (sched_id r) now (now - claim_grace) (rows st) of (claimed, rs1) \<Rightarrow>
        if \<not> claimed then (Inr (skip_result r ''already_claimed''), st)
        else if misfired now r
        then (case reset_next_run tz now (sched_id r) now rs1 of
                Inl e \<Rightarrow> (Inl e, st\<lparr>rows := rs1\<rparr>)
              | Inr rs2 \<Rightarrow> (Inr (skip_result r ''misfire_reset''), st\<lparr>rows := rs2\<rparr>))
        else run_claimed tz env meanwhile now r (st\<lparr>rows := rs1\<rparr>))"

fun handle_all ::
  "zones \<Rightarrow> run_env \<Rightarrow> (pystr \<Rightarrow> sync_schedule list \<Rightarrow> sync_schedule list) \<Rightarrow> instant \<Rightarrow> sync_schedule list \<Rightarrow>
   runner_state \<Rightarrow> (schedule_error + run_result list) \<times> runner_state" where
  "handle_all tz env meanwhile now [] st = (Inr [], st)"
| "handle_all tz env meanwhile now (r # rs) st =
     (case handle_due tz env meanwhile now r st of
        (Inl e, st1) \<Rightarrow> (Inl e, st1)
      | (Inr res, st1) \<Rightarrow>
          (case handle_all tz env meanwhile now rs st1 of
             (Inl e, st2) \<Rightarrow> (Inl e, st2)
           | (Inr ress, st2) \<Rightarrow> (Inr (res # ress), st2)))"

definition run_due_schedules ::
  "zones \<Rightarrow> run_env \<Rightarrow> (pystr \<Rightarrow> sync_schedule list \<Rightarrow> sync_schedule list) \<Rightarrow> instant \<Rightarrow> runner_state \<Rightarrow>
   (schedule_error + run_result list) \<times> runner_state" where
  "run_due_schedules tz env meanwhile now st =
     handle_all tz env meanwhile now (load_due_schedules now (rows st)) st"

end
