(* ===== verification/Schedule_Runner_Props.thy ===== *)
theory Schedule_Runner_Props
  imports Schedule_Runner Schedule_Spec_Props
begin

text \<open>
  Properties of the dispatcher: a schedule is claimed at most once per grace period by any number
  of replicas; a tick handles every due schedule whatever happens to the others, and what it
  leaves in the table.
\<close>

subsection \<open>Claims\<close>

definition claims_of :: "pystr \<Rightarrow> sync_schedule list \<Rightarrow> instant option list" where
  "claims_of i rs = map last_scheduled_at (filter (\<lambda>r. sched_id r = i) rs)"

text \<open>
  An attempt at time \<open>n\<close>, after \<open>others\<close> have changed the table: edits, runs, new rows, and
  claims of other schedules, but not this schedule's claim.
\<close>

definition claim_attempt ::
  "pystr \<Rightarrow> instant \<Rightarrow> (sync_schedule list \<Rightarrow> sync_schedule list) \<Rightarrow> sync_schedule list \<Rightarrow> bool \<times> sync_schedule list" where
  "claim_attempt i n others rs = claim_schedule i n (n - claim_grace) (others rs)"

definition keeps_claims ::
  "pystr \<Rightarrow> instant \<Rightarrow> (sync_schedule list \<Rightarrow> sync_schedule list) \<Rightarrow> sync_schedule list \<Rightarrow> bool" where
  "keeps_claims i n others rs \<longleftrightarrow> claims_of i (others rs) = claims_of i rs"

definition claimed_since :: "pystr \<Rightarrow> sync_schedule list \<Rightarrow> instant \<Rightarrow> instant \<Rightarrow> int" where
  "claimed_since i rs since t = (if \<exists>u. Some u \<in> set (claims_of i rs) \<and> since \<le> u then 1 else 0)"

definition claims_inv :: "pystr \<Rightarrow> instant \<Rightarrow> sync_schedule list \<Rightarrow> bool" where
  "claims_inv i t rs \<longleftrightarrow> length (claims_of i rs) \<le> 1 \<and> (\<forall>u. Some u \<in> set (claims_of i rs) \<longrightarrow> u \<le> t)"

lemma claims_of_claim:
  assumes "length (claims_of i rs) \<le> 1" and "claim_schedule i n cutoff rs = (ok, rs')"
  shows "if ok then claims_of i rs' = [Some n] \<and> (\<forall>u. Some u \<in> set (claims_of i rs) \<longrightarrow> u < cutoff)
         else claims_of i rs' = claims_of i rs"
proof -
  let ?f = "\<lambda>r. if claimable i cutoff r then r\<lparr>last_scheduled_at := Some n, updated_at := n\<rparr> else r"
  have rs': "rs' = map ?f rs" and ok: "ok \<longleftrightarrow> (\<exists>r \<in> set rs. claimable i cutoff r)"
    using assms(2) by (auto simp: claim_schedule_def update_rows_def)
  have mine: "filter (\<lambda>r. sched_id r = i) rs' = map ?f (filter (\<lambda>r. sched_id r = i) rs)"
    unfolding rs' filter_map by (rule arg_cong [where f = "map ?f"]) (rule filter_cong, simp_all)
  show ?thesis
  proof (cases "filter (\<lambda>r. sched_id r = i) rs")
    case Nil
    then have "\<not> ok"
      using ok by (auto simp: filter_empty_conv claimable_def)
    with Nil mine show ?thesis
      by (simp add: claims_of_def)
  next
    case (Cons x xs)
    then have x: "filter (\<lambda>r. sched_id r = i) rs = [x]"
      using assms(1) by (simp add: claims_of_def)
    then have "{r \<in> set rs. sched_id r = i} = {x}"
      by (metis list.simps(15) set_empty2 set_filter)
    then have "\<forall>r. r \<in> set rs \<and> sched_id r = i \<longleftrightarrow> r = x"
      by blast
    then have "ok \<longleftrightarrow> claimable i cutoff x"
      using ok by (auto simp: claimable_def)
    with x mine show ?thesis
      by (auto simp: claims_of_def claimable_def split: option.splits)
  qed
qed

interpretation schedule_claims: window_limiter "claim_attempt i" "\<lambda>others. 1" "keeps_claims i" "claimed_since i"
  "claims_inv i" claim_grace 1 for i
proof
  fix t n since :: instant and rs rs' and others :: "sync_schedule list \<Rightarrow> sync_schedule list" and ok
  assume inv: "claims_inv i t rs" and n: "t \<le> n" and keep: "keeps_claims i n others rs"
    and a: "claim_attempt i n others rs = (ok, rs')"
  have len: "length (claims_of i (others rs)) \<le> 1"
    using inv keep by (simp add: claims_inv_def keeps_claims_def)
  note c = claims_of_claim [OF len a [unfolded claim_attempt_def], unfolded keep [unfolded keeps_claims_def]]
  show "claims_inv i n rs'"
    using inv n c by (cases ok) (auto simp: claims_inv_def intro: order_trans)
  show "claimed_since i rs since t + (if ok \<and> since \<le> n then 1 else 0) \<le> claimed_since i rs' since n"
    if "n < since + claim_grace"
    using inv n c that by (cases ok) (fastforce simp: claims_inv_def claimed_since_def)+
next
  show "claimed_since i rs since t \<le> 1" for rs since t
    by (simp add: claimed_since_def)
qed

lemma claims_of_distinct: "distinct (map sched_id rs) \<Longrightarrow> length (claims_of i rs) \<le> 1"
proof -
  assume "distinct (map sched_id rs)"
  then have "distinct (map sched_id (filter (\<lambda>r. sched_id r = i) rs))"
    by (rule distinct_map_filter)
  moreover have "set (map sched_id (filter (\<lambda>r. sched_id r = i) rs)) \<subseteq> {i}"
    by auto
  ultimately have "length (map sched_id (filter (\<lambda>r. sched_id r = i) rs)) \<le> card {i}"
    by (metis card_mono distinct_card finite.emptyI finite.insertI)
  then show ?thesis
    by (simp add: claims_of_def)
qed

text \<open>
  C20. Of all attempts of all replicas to claim a schedule, at most one within any period of the
  claim grace succeeds, whatever else happens to the table between the attempts.
\<close>

theorem schedule_claimed_once:
  assumes "distinct (map sched_id rs)" and "\<forall>r \<in> set rs. \<forall>u. last_scheduled_at r = Some u \<longrightarrow> u \<le> t"
    and "sorted (t # map fst es)" and "t < since + claim_grace"
    and "possible (keeps_claims i) (claim_attempt i) es rs"
  shows "length (filter (\<lambda>(n, others). since \<le> n \<and> n < since + claim_grace)
      (fst (run_limiter (claim_attempt i) es rs))) \<le> 1"
proof -
  have "claims_inv i t rs"
    using assms(1,2) claims_of_distinct by (auto simp: claims_inv_def claims_of_def)
  moreover have "0 \<le> claimed_since i rs since t"
    by (simp add: claimed_since_def)
  ultimately have "admitted_within (\<lambda>others. 1) since (since + claim_grace) (fst (run_limiter (claim_attempt i) es rs)) \<le> 1"
    using schedule_claims.never_above_cap assms(3-5) by blast
  then show ?thesis
    unfolding admitted_within_count by simp
qed

text \<open>A schedule every hour on UTC, due at midnight.\<close>

definition hourly_row :: sync_schedule where
  "hourly_row =
     \<lparr>sched_id = ''s1'', tenant_id = ''t1'', scope = ''ingestion'', target_id = ''c1'', enabled = True,
      schedule = [(''frequency'', PStr ''hourly''), (''interval_hours'', PInt 1)], schema_version = 1,
      timezone = ''UTC'', version = 1, next_run_at = Some 0, last_scheduled_at = None, last_run_at = None,
      last_run_status = None, last_run_error = None, created_by = None, updated_by = None, created_at = 0,
      updated_at = 0\<rparr>"

theorem schedule_claimed_once_witness:
  "map fst (fst (run_limiter (claim_attempt ''s1'') [(0, \<lambda>rs. rs), (minutes 4, \<lambda>rs. rs), (minutes 6, \<lambda>rs. rs)] [hourly_row])) =
     [0, minutes 6] \<and>
   length (filter (\<lambda>(n, others). 0 \<le> n \<and> n < 0 + claim_grace)
     (fst (run_limiter (claim_attempt ''s1'') [(0, \<lambda>rs. rs), (minutes 4, \<lambda>rs. rs), (minutes 6, \<lambda>rs. rs)] [hourly_row]))) \<le> 1"
proof -
  have "possible (keeps_claims ''s1'') (claim_attempt ''s1'')
      [(0, \<lambda>rs. rs), (minutes 4, \<lambda>rs. rs), (minutes 6, \<lambda>rs. rs)] [hourly_row]"
    by (simp add: keeps_claims_def)
  from schedule_claimed_once [OF _ _ _ _ this, of 0 0] show ?thesis
    by (simp add: claim_attempt_def claim_schedule_def claimable_def update_rows_def hourly_row_def claim_grace_def)
qed

subsection \<open>Ticks\<close>

text \<open>Schedules whose frequency can be looked up in a set; every stored schedule was validated.\<close>

definition hashable :: "(pystr \<times> pyval) list \<Rightarrow> bool" where
  "hashable d \<longleftrightarrow> (case dict_get d ''frequency'' of PList _ \<Rightarrow> False | PDict _ \<Rightarrow> False | _ \<Rightarrow> True)"

lemma check_weekdays_hashable: "check_weekdays vs \<noteq> Inl Unhashable"
  by (induction vs rule: check_weekdays.induct) (auto split: pyval.splits if_splits sum.splits)

lemma parse_time_hashable: "parse_time v \<noteq> Inl Unhashable"
  by (auto simp: parse_time_def split: option.splits if_splits)

lemma validate_hashable:
  assumes "hashable d"
  shows "validate_schedule tz (PDict d) z \<noteq> Inl Unhashable"
proof -
  have "validate_daily_like f d \<noteq> Inl Unhashable" "validate_hourly d \<noteq> Inl Unhashable" for f
    using check_weekdays_hashable parse_time_hashable
    by (auto simp: validate_daily_like_def validate_hourly_def Let_def split: pyval.splits if_splits sum.splits)
  then show ?thesis
    using assms
    by (auto simp: validate_schedule_def hashable_def validate_timezone_def split: pyval.splits if_splits sum.splits option.splits)
qed

lemma compute_next_run_hashable:
  assumes "hashable (schedule r)"
  shows "\<exists>nr. first_run (compute_next_run tz r t n) = Inr nr"
proof -
  have "next_run_instants tz (PDict (schedule r)) (timezone r) t n \<noteq> Inl Unhashable"
    using validate_hashable [OF assms] parse_time_hashable
    by (auto simp: next_run_instants_def next_daily_like_def validate_timezone_def Let_def
        split: sum.splits pyval.splits if_splits option.splits)
  then have "\<exists>x. compute_next_run tz r t n = Inr x"
    by (auto simp: compute_next_run_def none_if_invalid_def split: sum.splits schedule_error.splits)
  then show ?thesis
    by (auto simp: first_run_def split: option.splits list.splits)
qed

definition all_hashable :: "sync_schedule list \<Rightarrow> bool" where
  "all_hashable rs \<longleftrightarrow> (\<forall>r \<in> set rs. hashable (schedule r))"

lemma claim_schedule_hashable: "all_hashable rs \<Longrightarrow> all_hashable (snd (claim_schedule i n c rs))"
  by (auto simp: all_hashable_def claim_schedule_def update_rows_def)

lemma put_row_hashable: "all_hashable rs \<Longrightarrow> hashable (schedule r) \<Longrightarrow> all_hashable (put_row sched_id r rs)"
  by (auto simp: all_hashable_def dest: in_put_row)

lemma reset_next_run_ok:
  assumes "all_hashable rs"
  shows "\<exists>rs1. reset_next_run tz t i now rs = Inr rs1 \<and> all_hashable rs1"
proof (cases "find (\<lambda>r. sched_id r = i) rs")
  case (Some r)
  then have h: "hashable (schedule r)"
    using assms by (auto simp: all_hashable_def find_Some_iff)
  then show ?thesis
    using Some assms compute_next_run_hashable [OF h, of tz now 1] put_row_hashable [OF assms]
    by (auto simp: reset_next_run_def)
qed (use assms in \<open>simp add: reset_next_run_def\<close>)

lemma settle_row_ok:
  assumes "hashable (schedule r)"
  shows "\<exists>r1. settle_row tz now p oc r = Inr r1 \<and> schedule r1 = schedule r \<and> sched_id r1 = sched_id r"
  using compute_next_run_hashable [OF assms, of tz "case p of None \<Rightarrow> now | Some t \<Rightarrow> t" 1]
  by (auto simp: settle_row_def Let_def)

lemma record_outcome_ok:
  assumes "all_hashable rs"
  shows "\<exists>rs1. record_outcome tz now r oc rs = Inr rs1 \<and> all_hashable rs1"
proof (cases "find (\<lambda>x. sched_id x = sched_id r) rs")
  case (Some x)
  then have h: "hashable (schedule x)"
    using assms by (auto simp: all_hashable_def find_Some_iff)
  then show ?thesis
    using Some settle_row_ok [OF h, of tz now "next_run_at r" oc] put_row_hashable [OF assms]
    by (auto simp: record_outcome_def)
qed (use assms in \<open>simp add: record_outcome_def\<close>)

lemma handle_due_ok:
  assumes "all_hashable (rows st)" and "\<And>i rs. all_hashable rs \<Longrightarrow> all_hashable (meanwhile i rs)"
  shows "\<exists>res st1. handle_due tz env meanwhile now r st = (Inr res, st1) \<and> all_hashable (rows st1) \<and> res_id res = sched_id r"
proof -
  obtain ok rs1 where c: "claim_schedule (sched_id r) now (now - claim_grace) (rows st) = (ok, rs1)"
    by fastforce
  then have h1: "all_hashable rs1"
    using claim_schedule_hashable [OF assms(1)] by (metis snd_conv)
  obtain oc lk where d: "dispatch_run env r (locks st) = (oc, lk)"
    by fastforce
  show ?thesis
    using c d assms(1) reset_next_run_ok [OF h1, of tz now "sched_id r" now]
      record_outcome_ok [OF assms(2) [OF h1], of tz now r oc "sched_id r"]
    by (auto simp: handle_due_def run_claimed_def skip_result_def Let_def)
qed

lemma handle_all_ok:
  assumes "\<And>i rs. all_hashable rs \<Longrightarrow> all_hashable (meanwhile i rs)"
  shows "all_hashable (rows st) \<Longrightarrow>
    \<exists>ress st1. handle_all tz env meanwhile now ds st = (Inr ress, st1) \<and> map res_id ress = map sched_id ds"
proof (induction ds arbitrary: st)
  case (Cons r ds)
  obtain res st1 where 1: "handle_due tz env meanwhile now r st = (Inr res, st1)" "all_hashable (rows st1)" "res_id res = sched_id r"
    using handle_due_ok [where meanwhile = meanwhile, OF Cons.prems] assms by blast
  obtain ress st2 where "handle_all tz env meanwhile now ds st1 = (Inr ress, st2)" "map res_id ress = map sched_id ds"
    using Cons.IH [OF 1(2)] by blast
  with 1 show ?case
    by simp
qed simp

text \<open>
  A tick does not fail and gives one result for each loaded schedule, in the order in which they
  became due: no outcome or exception of one run, and nothing others do to the table in the
  meantime, keeps the remaining schedules from being handled.
\<close>

lemma tick_survives_interference:
  assumes "all_hashable (rows st)" and "\<And>i rs. all_hashable rs \<Longrightarrow> all_hashable (meanwhile i rs)"
  shows "\<exists>ress st1. run_due_schedules tz env meanwhile now st = (Inr ress, st1) \<and>
    map res_id ress = map sched_id (load_due_schedules now (rows st))"
  unfolding run_due_schedules_def using handle_all_ok assms by blast

text \<open>What a tick makes of a row: \<open>oc\<close> is the outcome of its run.\<close>

definition planned_after :: "zones \<Rightarrow> sync_schedule \<Rightarrow> instant \<Rightarrow> instant option" where
  "planned_after tz r t = (case first_run (compute_next_run tz r t 1) of Inr nr \<Rightarrow> nr | Inl _ \<Rightarrow> None)"

definition after_tick :: "zones \<Rightarrow> instant \<Rightarrow> outcome \<Rightarrow> sync_schedule \<Rightarrow> sync_schedule" where
  "after_tick tz now oc r =
     (if \<not> claimable (sched_id r) (now - claim_grace) r then r
      else if misfired now r
      then r\<lparr>last_scheduled_at := Some now, next_run_at := planned_after tz r now, updated_at := now\<rparr>
      else r\<lparr>last_scheduled_at := Some now, last_run_at := Some now, last_run_status := Some (take 16 (status oc)),
             last_run_error := outcome_error oc, updated_at := now,
             next_run_at := planned_after tz r (case next_run_at r of None \<Rightarrow> now | Some t \<Rightarrow> t)\<rparr>)"

definition tick_result :: "instant \<Rightarrow> outcome \<Rightarrow> sync_schedule \<Rightarrow> run_result" where
  "tick_result now oc r =
     (if \<not> claimable (sched_id r) (now - claim_grace) r then skip_result r ''already_claimed''
      else if misfired now r then skip_result r ''misfire_reset''
      else \<lparr>res_id = sched_id r, res_scope = scope r, res_target = Some (target_id r), res_status = status oc,
            res_reason = None\<rparr>)"

lemma after_tick_id [simp]: "sched_id (after_tick tz now oc r) = sched_id r"
  by (simp add: after_tick_def Let_def)

lemma find_id:
  assumes "distinct (map sched_id rs)" and "r \<in> set rs"
  shows "find (\<lambda>x. sched_id x = sched_id r) rs = Some r"
proof -
  obtain x where x: "find (\<lambda>x. sched_id x = sched_id r) rs = Some x"
    using assms(2) by (cases "find (\<lambda>x. sched_id x = sched_id r) rs") (auto simp: find_None_iff)
  then have "x \<in> set rs" "sched_id x = sched_id r"
    by (auto simp: find_Some_iff)
  then show ?thesis
    using x assms by (auto simp: distinct_map inj_on_def)
qed

lemma claim_row:
  assumes "distinct (map sched_id rs)" and "r \<in> set rs"
  shows "claim_schedule (sched_id r) n c rs =
    (claimable (sched_id r) c r,
     put_row sched_id (if claimable (sched_id r) c r then r\<lparr>last_scheduled_at := Some n, updated_at := n\<rparr> else r) rs)"
proof -
  have only: "x = r" if "x \<in> set rs" "sched_id x = sched_id r" for x
    using assms that by (auto simp: distinct_map inj_on_def)
  have ex: "(\<exists>x \<in> set rs. claimable (sched_id r) c x) \<longleftrightarrow> claimable (sched_id r) c r"
    using assms(2) only unfolding claimable_def by blast
  let ?r1 = "r\<lparr>last_scheduled_at := Some n, updated_at := n\<rparr>"
  have "(if claimable (sched_id r) c x then x\<lparr>last_scheduled_at := Some n, updated_at := n\<rparr> else x) =
      (if sched_id x = sched_id (if claimable (sched_id r) c r then ?r1 else r)
       then if claimable (sched_id r) c r then ?r1 else r else x)" if "x \<in> set rs" for x
  proof (cases "sched_id x = sched_id r")
    case True
    with only [OF that] show ?thesis
      by simp
  next
    case False
    then show ?thesis
      by (auto simp: claimable_def)
  qed
  then show ?thesis
    unfolding claim_schedule_def update_rows_def put_row_def ex by (intro arg_cong2 [where f = Pair] refl map_cong)
qed

lemma put_row_twice: "sched_id a = sched_id b \<Longrightarrow> put_row sched_id a (put_row sched_id b rs) = put_row sched_id a rs"
  by (simp add: put_row_def)

lemma put_row_same: "distinct (map sched_id rs) \<Longrightarrow> r \<in> set rs \<Longrightarrow> put_row sched_id r rs = rs"
  by (rule nth_equalityI) (auto simp: put_row_def distinct_map inj_on_def)

lemma put_row_in: "r \<in> set rs \<Longrightarrow> sched_id a = sched_id r \<Longrightarrow> a \<in> set (put_row sched_id a rs)"
  by (force simp: put_row_def)

lemma handle_due_row:
  assumes ids: "distinct (map sched_id (rows st))" and r: "r \<in> set (rows st)" and h: "hashable (schedule r)"
  shows "handle_due tz env (\<lambda>i rs. rs) now r st =
      (Inr (tick_result now (fst (dispatch_run env r (locks st))) r),
       \<lparr>rows = put_row sched_id (after_tick tz now (fst (dispatch_run env r (locks st))) r) (rows st),
        locks = locks (snd (handle_due tz env (\<lambda>i rs. rs) now r st))\<rparr>)"
proof (cases "claimable (sched_id r) (now - claim_grace) r")
  case False
  then show ?thesis
    using put_row_same [OF ids r] by (simp add: handle_due_def claim_row [OF ids r] after_tick_def tick_result_def)
next
  case True
  let ?r1 = "r\<lparr>last_scheduled_at := Some now, updated_at := now\<rparr>"
  let ?rs1 = "put_row sched_id ?r1 (rows st)"
  have on: "enabled r"
    using True by (simp add: claimable_def)
  have "distinct (map sched_id ?rs1)"
    using ids by (simp add: table_simps)
  moreover have "?r1 \<in> set ?rs1"
    by (rule put_row_in [OF r]) simp
  ultimately have f: "find (\<lambda>x. sched_id x = sched_id r) ?rs1 = Some ?r1"
    using find_id [of ?rs1 ?r1] by simp
  have "compute_next_run tz ?r1 t 1 = compute_next_run tz r t 1" for t
    by (simp add: compute_next_run_def)
  moreover have "first_run (compute_next_run tz r t 1) = Inr (planned_after tz r t)" for t
    using compute_next_run_hashable [OF h, of tz t 1] by (auto simp: planned_after_def)
  ultimately have nr: "first_run (compute_next_run tz ?r1 t 1) = Inr (planned_after tz r t)" for t
    by simp
  show ?thesis
  proof (cases "misfired now r")
    case mis: True
    have "reset_next_run tz now (sched_id r) now ?rs1 =
        Inr (put_row sched_id (after_tick tz now (fst (dispatch_run env r (locks st))) r) (rows st))"
      using f on nr True mis by (simp add: reset_next_run_def put_row_twice after_tick_def)
    with True mis show ?thesis
      by (simp add: handle_due_def claim_row [OF ids r] tick_result_def)
  next
    case run: False
    obtain oc lk where d: "dispatch_run env r (locks st) = (oc, lk)"
      by fastforce
    have "record_outcome tz now r oc ?rs1 = Inr (put_row sched_id (after_tick tz now oc r) (rows st))"
      using f on nr True run
      by (simp add: record_outcome_def settle_row_def Let_def put_row_twice after_tick_def)
    with True run d show ?thesis
      by (simp add: handle_due_def run_claimed_def claim_row [OF ids r] Let_def tick_result_def)
  qed
qed

lemma handle_all_rows:
  assumes "distinct (map sched_id ds)" and "distinct (map sched_id (rows st))" and "set ds \<subseteq> set (rows st)"
    and "\<forall>r \<in> set ds. hashable (schedule r)"
  shows "\<exists>out. (\<forall>r \<in> set ds. \<exists>lk. out r = fst (dispatch_run env r lk)) \<and>
    fst (handle_all tz env (\<lambda>i rs. rs) now ds st) = Inr (map (\<lambda>r. tick_result now (out r) r) ds) \<and>
    rows (snd (handle_all tz env (\<lambda>i rs. rs) now ds st)) =
      map (\<lambda>r. if r \<in> set ds then after_tick tz now (out r) r else r) (rows st)"
  using assms
proof (induction ds arbitrary: st)
  case (Cons r ds)
  let ?oc = "fst (dispatch_run env r (locks st))"
  obtain st1 where 1: "handle_due tz env (\<lambda>i rs. rs) now r st = (Inr (tick_result now ?oc r), st1)"
    and rows1: "rows st1 = put_row sched_id (after_tick tz now ?oc r) (rows st)"
    using handle_due_row [of st r tz env now] Cons.prems by auto
  have r: "r \<in> set (rows st)" and "sched_id r \<notin> sched_id ` set ds"
    using Cons.prems(1,3) by simp_all
  then have fresh: "\<forall>x \<in> set ds. sched_id x \<noteq> sched_id r"
    by (metis imageI)
  have only: "x = r" if "x \<in> set (rows st)" "sched_id x = sched_id r" for x
    using Cons.prems(2) r that by (auto simp: distinct_map inj_on_def)
  have "distinct (map sched_id (rows st1))"
    unfolding rows1 using Cons.prems(2) by (simp add: table_simps)
  moreover have "set ds \<subseteq> set (rows st1)"
    unfolding rows1 using Cons.prems(3) fresh by (auto intro: put_row_other)
  ultimately obtain out where out: "\<forall>r \<in> set ds. \<exists>lk. out r = fst (dispatch_run env r lk)"
    and ress: "fst (handle_all tz env (\<lambda>i rs. rs) now ds st1) = Inr (map (\<lambda>r. tick_result now (out r) r) ds)"
    and rest: "rows (snd (handle_all tz env (\<lambda>i rs. rs) now ds st1)) =
      map (\<lambda>r. if r \<in> set ds then after_tick tz now (out r) r else r) (rows st1)"
    using Cons.IH [of st1] Cons.prems by auto
  have new: "after_tick tz now ?oc r \<notin> set ds"
    using fresh by (metis after_tick_id)
  let ?out = "out(r := ?oc)"
  have "rows (snd (handle_all tz env (\<lambda>i rs. rs) now (r # ds) st)) =
      rows (snd (handle_all tz env (\<lambda>i rs. rs) now ds st1))"
    by (simp add: 1 split: prod.splits sum.splits)
  also have "\<dots> = map (\<lambda>x. if x \<in> set (r # ds) then after_tick tz now (?out x) x else x) (rows st)"
    unfolding rest rows1 put_row_def map_map comp_def
    using only new fresh by (intro map_cong) auto
  finally have rows2: "rows (snd (handle_all tz env (\<lambda>i rs. rs) now (r # ds) st)) =
      map (\<lambda>x. if x \<in> set (r # ds) then after_tick tz now (?out x) x else x) (rows st)" .
  have "map (\<lambda>r. tick_result now (?out r) r) ds = map (\<lambda>r. tick_result now (out r) r) ds"
    using fresh by (intro map_cong) auto
  then have "fst (handle_all tz env (\<lambda>i rs. rs) now (r # ds) st) = Inr (map (\<lambda>r. tick_result now (?out r) r) (r # ds))"
    using ress by (auto simp: 1 split: prod.splits)
  with rows2 show ?case
    using out fresh by (intro exI [of _ ?out]) auto
qed simp

lemma load_due_sub: "set (load_due_schedules now rs) \<subseteq> set rs"
  by (auto simp: load_due_schedules_def dest!: in_set_takeD)

lemma load_due_distinct: "distinct (map sched_id rs) \<Longrightarrow> distinct (map sched_id (load_due_schedules now rs))"
proof -
  assume ids: "distinct (map sched_id rs)"
  have "distinct (map sched_id (sort_key k (filter P rs)))" for k :: "sync_schedule \<Rightarrow> int" and P
    using ids by (auto simp: distinct_map inj_on_def)
  then show ?thesis
    by (simp add: load_due_schedules_def take_map [symmetric])
qed

lemma load_due_all:
  "length (filter (\<lambda>r. enabled r \<and> (\<exists>t. next_run_at r = Some t \<and> t \<le> now)) rs) \<le> 200 \<Longrightarrow>
   set (load_due_schedules now rs) = {r \<in> set rs. enabled r \<and> (\<exists>t. next_run_at r = Some t \<and> t \<le> now)}"
proof -
  have eq: "(\<lambda>r. enabled r \<and> (case next_run_at r of None \<Rightarrow> False | Some t \<Rightarrow> t \<le> now)) =
      (\<lambda>r. enabled r \<and> (\<exists>t. next_run_at r = Some t \<and> t \<le> now))"
    by (auto split: option.splits)
  assume "length (filter (\<lambda>r. enabled r \<and> (\<exists>t. next_run_at r = Some t \<and> t \<le> now)) rs) \<le> 200"
  then show ?thesis
    unfolding load_due_schedules_def eq by simp
qed

text \<open>What a tick does to the table and what it returns, when nothing else writes to it.\<close>

lemma tick_settles_rows:
  assumes "distinct (map sched_id (rows st))" and "all_hashable (rows st)"
  shows "\<exists>out. (\<forall>r \<in> set (load_due_schedules now (rows st)). \<exists>lk. out r = fst (dispatch_run env r lk)) \<and>
    fst (run_due_schedules tz env (\<lambda>i rs. rs) now st) =
      Inr (map (\<lambda>r. tick_result now (out r) r) (load_due_schedules now (rows st))) \<and>
    rows (snd (run_due_schedules tz env (\<lambda>i rs. rs) now st)) =
      map (\<lambda>r. if r \<in> set (load_due_schedules now (rows st)) then after_tick tz now (out r) r else r) (rows st)"
  unfolding run_due_schedules_def
  using assms load_due_sub [of now "rows st"]
  by (intro handle_all_rows load_due_distinct) (auto simp: all_hashable_def)

text \<open>
  C21. A tick over schedules with hashable recurrence values (\<open>all_hashable\<close>: a list or a dictionary
  there makes the recurrence parser raise), while nothing else writes to the table, does not fail and gives one result for each
  schedule it loads, in that order; these are all enabled schedules whose next run is due, if there are
  at most 200. One that was claimed less than the grace period of five minutes ago is skipped as already
  claimed and keeps its row. One overdue by more than seven days is skipped as misfired: it is marked as
  claimed and moved to its first run after now. Every other one is dispatched, and its row
  and its result carry the outcome of that dispatch; its next run is the first one after the
  instant it was due at. Rows that were not loaded stay as they are.
\<close>

theorem tick_handles_every_due:
  assumes "distinct (map sched_id (rows st))" and "all_hashable (rows st)"
  shows "\<exists>ress st1. run_due_schedules tz env (\<lambda>i rs. rs) now st = (Inr ress, st1) \<and>
    (length (filter (\<lambda>r. enabled r \<and> (\<exists>t. next_run_at r = Some t \<and> t \<le> now)) (rows st)) \<le> 200 \<longrightarrow>
       set (load_due_schedules now (rows st)) =
         {r \<in> set (rows st). enabled r \<and> (\<exists>t. next_run_at r = Some t \<and> t \<le> now)}) \<and>
    map sched_id (rows st1) = map sched_id (rows st) \<and>
    set (rows st) - set (load_due_schedules now (rows st)) \<subseteq> set (rows st1) \<and>
    list_all2 (\<lambda>r res. res_id res = sched_id r \<and> (\<exists>r1 \<in> set (rows st1). sched_id r1 = sched_id r \<and>
      (if \<exists>t. last_scheduled_at r = Some t \<and> now - minutes 5 \<le> t
       then res_status res = ''skipped'' \<and> res_reason res = Some ''already_claimed'' \<and> r1 = r
       else if \<exists>t. next_run_at r = Some t \<and> days 7 < now - t
       then res_status res = ''skipped'' \<and> res_reason res = Some ''misfire_reset'' \<and>
         r1 = r\<lparr>last_scheduled_at := Some now, next_run_at := planned_after tz r now, updated_at := now\<rparr>
       else \<exists>oc lk. oc = fst (dispatch_run env r lk) \<and> res_status res = status oc \<and> res_reason res = None \<and>
         r1 = r\<lparr>last_scheduled_at := Some now, last_run_at := Some now, last_run_status := Some (take 16 (status oc)),
                last_run_error := outcome_error oc, updated_at := now,
                next_run_at := planned_after tz r (the (next_run_at r))\<rparr>)))
      (load_due_schedules now (rows st)) ress"
proof -
  let ?due = "load_due_schedules now (rows st)"
  obtain ress st1 where run: "run_due_schedules tz env (\<lambda>i rs. rs) now st = (Inr ress, st1)"
    and "\<exists>out. (\<forall>r \<in> set ?due. \<exists>lk. out r = fst (dispatch_run env r lk)) \<and>
      ress = map (\<lambda>r. tick_result now (out r) r) ?due \<and>
      rows st1 = map (\<lambda>r. if r \<in> set ?due then after_tick tz now (out r) r else r) (rows st)"
    using tick_settles_rows [OF assms, of now env tz]
    by (cases "run_due_schedules tz env (\<lambda>i rs. rs) now st") auto
  then obtain out where out: "\<forall>r \<in> set ?due. \<exists>lk. out r = fst (dispatch_run env r lk)"
    and ress: "ress = map (\<lambda>r. tick_result now (out r) r) ?due"
    and rows1: "rows st1 = map (\<lambda>r. if r \<in> set ?due then after_tick tz now (out r) r else r) (rows st)"
    by blast
  have due: "enabled r" "\<exists>t. next_run_at r = Some t" if "r \<in> set ?due" for r
    using that by (auto simp: load_due_schedules_def split: option.splits dest!: in_set_takeD)
  have new: "after_tick tz now (out r) r \<in> set (rows st1)" if "r \<in> set ?due" for r
    using that load_due_sub [of now "rows st"] unfolding rows1 set_map image_iff by force
  have ids: "map sched_id (rows st1) = map sched_id (rows st)"
    unfolding rows1 by simp
  have others: "set (rows st) - set ?due \<subseteq> set (rows st1)"
    unfolding rows1 by (auto simp: image_iff)
  have one: "\<exists>r1 \<in> set (rows st1). sched_id r1 = sched_id r \<and>
      (if \<exists>t. last_scheduled_at r = Some t \<and> now - minutes 5 \<le> t
       then res_status (tick_result now (out r) r) = ''skipped'' \<and>
         res_reason (tick_result now (out r) r) = Some ''already_claimed'' \<and> r1 = r
       else if \<exists>t. next_run_at r = Some t \<and> days 7 < now - t
       then res_status (tick_result now (out r) r) = ''skipped'' \<and>
         res_reason (tick_result now (out r) r) = Some ''misfire_reset'' \<and>
         r1 = r\<lparr>last_scheduled_at := Some now, next_run_at := planned_after tz r now, updated_at := now\<rparr>
       else \<exists>oc lk. oc = fst (dispatch_run env r lk) \<and> res_status (tick_result now (out r) r) = status oc \<and>
         res_reason (tick_result now (out r) r) = None \<and>
         r1 = r\<lparr>last_scheduled_at := Some now, last_run_at := Some now, last_run_status := Some (take 16 (status oc)),
                last_run_error := outcome_error oc, updated_at := now,
                next_run_at := planned_after tz r (the (next_run_at r))\<rparr>)" if r: "r \<in> set ?due" for r
  proof -
    obtain t where t: "next_run_at r = Some t"
      using due(2) [OF r] by blast
    have claim: "(\<exists>t. last_scheduled_at r = Some t \<and> now - minutes 5 \<le> t) \<longleftrightarrow>
        \<not> claimable (sched_id r) (now - claim_grace) r"
      using due(1) [OF r] by (auto simp: claimable_def claim_grace_def not_le split: option.splits)
    have mis: "(\<exists>t. next_run_at r = Some t \<and> days 7 < now - t) \<longleftrightarrow> misfired now r"
      by (simp add: misfired_def t catchup_max_delay_def)
    obtain lk where lk: "out r = fst (dispatch_run env r lk)"
      using out r by blast
    show ?thesis
      using lk unfolding claim mis
      by (intro bexI [OF _ new [OF r]]) (auto simp: after_tick_def tick_result_def skip_result_def t)
  qed
  have id: "res_id (tick_result now (out r) r) = sched_id r" for r
    by (simp add: tick_result_def skip_result_def)
  show ?thesis
    using run ids others
    by (intro exI conjI)
      (assumption | (rule impI, erule load_due_all) | (unfold ress list_all2_map2, rule list.rel_refl_strong, rule conjI, rule id, erule one))+
qed

text \<open>
  The hourly schedule has been due for five hours and its provider fails. The tick runs it once and
  plans it for one hour after midnight, which is over as well: it runs again as soon as the claim
  grace has passed, once for every missed hour.
\<close>

definition failing_env :: run_env where
  "failing_env =
     \<lparr>cfg = \<lparr>bunq_sync_enabled = True, trading212_sync_enabled = True, export_enabled = True,
             wealthfolio_configured = False, redis_configured = True\<rparr>,
      credentials = [\<lparr>cred_id = ''c1'', cred_tenant = ''t1'', cred_provider = ''bunq'', cred_status = None\<rparr>],
      targets = [], orchestrate = (\<lambda>tenant c. Inl ''boom''), exporter = (\<lambda>key target r. Inl ''boom''),
      lease_token = (\<lambda>i. i), lease_times = (\<lambda>i. (0, 0))\<rparr>"

definition overdue_state :: runner_state where
  "overdue_state = \<lparr>rows = [hourly_row], locks = (\<lambda>k. None)\<rparr>"

lemma overdue_state_ok:
  "all_hashable (rows overdue_state)" "distinct (map sched_id (rows overdue_state))"
  "load_due_schedules (hours 5) (rows overdue_state) = [hourly_row]"
  by (simp_all add: overdue_state_def all_hashable_def hashable_def hourly_row_def dict_get_def load_due_schedules_def)

lemma hourly_row_next: "planned_after only_utc hourly_row t = Some (t + hours 1)"
proof -
  have "validate_schedule only_utc (PDict (schedule hourly_row)) ''UTC'' = Inr (schedule hourly_row)"
    by (simp add: hourly_row_def validate_schedule_def validate_timezone_def validate_hourly_def supported_frequencies_def
        min_interval_hours_def max_interval_hours_def dict_get_def only_utc_def)
  then have "next_run_instants only_utc (PDict (schedule hourly_row)) ''UTC'' t 1 = Inr [t + hours 1]"
    by (simp add: next_run_instants_def validate_timezone_def next_hourly_def utc_zone_def hourly_row_def dict_get_def
        only_utc_def)
  then show ?thesis
    by (simp add: planned_after_def compute_next_run_def hourly_row_def none_if_invalid_def first_run_def)
qed

theorem tick_handles_every_due_witness:
  "\<exists>res r1 lk. fst (run_due_schedules only_utc failing_env (\<lambda>i rs. rs) (hours 5) overdue_state) = Inr [res] \<and>
     rows (snd (run_due_schedules only_utc failing_env (\<lambda>i rs. rs) (hours 5) overdue_state)) = [r1] \<and>
     res_status res = status (fst (dispatch_run failing_env hourly_row lk)) \<and>
     last_run_at r1 = Some (hours 5) \<and> next_run_at r1 = Some (hours 1)"
proof -
  have no: "\<not> (\<exists>t. last_scheduled_at hourly_row = Some t \<and> hours 5 - minutes 5 \<le> t)"
    "\<not> (\<exists>t. next_run_at hourly_row = Some t \<and> days 7 < hours 5 - t)" "next_run_at hourly_row = Some 0"
    by (simp_all add: hourly_row_def)
  obtain ress st1 where run: "run_due_schedules only_utc failing_env (\<lambda>i rs. rs) (hours 5) overdue_state = (Inr ress, st1)"
    and ids: "map sched_id (rows st1) = map sched_id (rows overdue_state)"
    and all: "list_all2 (\<lambda>r res. res_id res = sched_id r \<and> (\<exists>r1 \<in> set (rows st1). sched_id r1 = sched_id r \<and>
      (if \<exists>t. last_scheduled_at r = Some t \<and> hours 5 - minutes 5 \<le> t
       then res_status res = ''skipped'' \<and> res_reason res = Some ''already_claimed'' \<and> r1 = r
       else if \<exists>t. next_run_at r = Some t \<and> days 7 < hours 5 - t
       then res_status res = ''skipped'' \<and> res_reason res = Some ''misfire_reset'' \<and>
         r1 = r\<lparr>last_scheduled_at := Some (hours 5), next_run_at := planned_after only_utc r (hours 5), updated_at := hours 5\<rparr>
       else \<exists>oc lk. oc = fst (dispatch_run failing_env r lk) \<and> res_status res = status oc \<and> res_reason res = None \<and>
         r1 = r\<lparr>last_scheduled_at := Some (hours 5), last_run_at := Some (hours 5),
                last_run_status := Some (take 16 (status oc)),
                last_run_error := outcome_error oc, updated_at := hours 5,
                next_run_at := planned_after only_utc r (the (next_run_at r))\<rparr>))) [hourly_row] ress"
    using tick_handles_every_due [OF overdue_state_ok(2,1), of only_utc failing_env "hours 5"]
    unfolding overdue_state_ok(3) by (elim exE conjE) (rule that)
  obtain res where ress: "ress = [res]"
    using all by (auto simp: list_all2_Cons1)
  obtain r1 oc lk where r1: "r1 \<in> set (rows st1)" "oc = fst (dispatch_run failing_env hourly_row lk)" "res_status res = status oc"
    "last_run_at r1 = Some (hours 5)" "next_run_at r1 = planned_after only_utc hourly_row 0"
    using all unfolding ress list_all2_Cons list_all2_Nil if_not_P [OF no(1)] if_not_P [OF no(2)] no(3) by auto
  have "length (rows st1) = 1"
    using arg_cong [OF ids, of length] by (simp add: overdue_state_def)
  then have "rows st1 = [r1]"
    using r1(1) by (cases "rows st1") auto
  with run r1 ress show ?thesis
    by (auto simp: hourly_row_next)
qed

end
