(* ===== verification/Bulk_Upsert.thy ===== *)
theory Bulk_Upsert
  imports Prelude
begin

text \<open>
  Storing fetched transactions (\<^verbatim>\<open>sync/upserts.py\<close> and the transaction part of
  \<^verbatim>\<open>sync/persistence.py\<close>): the bulk \<^verbatim>\<open>INSERT .. ON CONFLICT DO UPDATE\<close> that runs on
  PostgreSQL and the row-by-row path of other databases.

  A row has its identifier, the columns of its unique key (of which a null connection counts as
  equal to another one), the account, its revision, and the mutable columns, which are null or hold
  a value of the type \<open>'v\<close>; two values are distinct when they differ after the column has
  coerced them.
\<close>

type_synonym txn_key = "pystr \<times> pystr \<times> pystr option \<times> pystr"

record 'v txn_row =
  row_id :: pystr
  row_key :: txn_key
  row_account :: pystr
  cols :: "pystr \<Rightarrow> 'v option"
  revision :: int

type_synonym 'v txn_table = "'v txn_row list"

definition update_columns :: "pystr list" where
  "update_columns =
     [''security_id'', ''amount'', ''currency_code'', ''amount_in_base'', ''base_currency_code'', ''fx_rate'',
      ''occurred_at'', ''booked_at'', ''transaction_type'', ''description'', ''quantity'', ''unit_price'',
      ''fee_amount'', ''fee_currency_code'', ''status'', ''export_status'', ''provider_fingerprint'',
      ''provider_metadata'', ''provider_metadata_contract'', ''merchant_name'', ''merchant_id'', ''merchant_city'',
      ''merchant_country'', ''counterparty_name'', ''counterparty_account_reference'', ''merchant_category_code'',
      ''original_type'', ''original_status'', ''authorization_status'', ''settlement_status'', ''source_record_hash'',
      ''cashflow_bucket'', ''cashflow_suggestion'', ''classification_source'', ''classification_override'',
      ''gross_amount'', ''gross_currency_code'', ''net_amount'', ''net_currency_code'', ''tax_amount'',
      ''tax_currency_code'', ''refund_amount'', ''refund_currency_code'']"

definition lookup :: "txn_key \<Rightarrow> 'v txn_table \<Rightarrow> 'v txn_row option" where
  "lookup k tbl = find (\<lambda>r. row_key r = k) tbl"

subsection \<open>The bulk statement\<close>

definition coalesce_col :: "'v option \<Rightarrow> 'v option \<Rightarrow> 'v option" where
  "coalesce_col new old = (case new of None \<Rightarrow> old | Some v \<Rightarrow> Some v)"

text \<open>The \<^verbatim>\<open>SET\<close> clause and the condition of \<^verbatim>\<open>DO UPDATE\<close>.\<close>

definition merged :: "pystr list \<Rightarrow> 'v txn_row \<Rightarrow> 'v txn_row \<Rightarrow> 'v txn_row" where
  "merged ucols inc ex = ex
     \<lparr>cols := (\<lambda>c. if c \<in> set ucols then coalesce_col (cols inc c) (cols ex c) else cols ex c), revision := revision ex + 1\<rparr>"

definition differs :: "pystr list \<Rightarrow> 'v txn_row \<Rightarrow> 'v txn_row \<Rightarrow> bool" where
  "differs ucols inc ex \<longleftrightarrow> (\<exists>c \<in> set ucols. coalesce_col (cols inc c) (cols ex c) \<noteq> cols ex c)"

text \<open>
  One statement: rows are taken in the order of \<^verbatim>\<open>VALUES\<close>, the result lists the
  identifiers of the rows written. PostgreSQL refuses to write a row that the same statement has
  inserted or updated already (\<open>touched\<close>).
\<close>

datatype upsert_error = Cannot_affect_row_a_second_time

fun upsert_stmt ::
  "pystr list \<Rightarrow> txn_key set \<Rightarrow> 'v txn_row list \<Rightarrow> 'v txn_table \<Rightarrow> upsert_error + pystr list \<times> 'v txn_table" where
  "upsert_stmt ucols touched [] tbl = Inr ([], tbl)"
| "upsert_stmt ucols touched (r # rs) tbl =
     (case lookup (row_key r) tbl of
        None \<Rightarrow> map_sum id (apfst ((#) (row_id r))) (upsert_stmt ucols (insert (row_key r) touched) rs (tbl @ [r]))
      | Some ex \<Rightarrow>
          if row_key r \<in> touched then Inl Cannot_affect_row_a_second_time
          else if differs ucols r ex
          then map_sum id (apfst ((#) (row_id ex)))
                 (upsert_stmt ucols (insert (row_key r) touched) rs (put_row row_key (merged ucols r ex) tbl))
          else upsert_stmt ucols touched rs tbl)"

record upsert_result =
  inserted_ids :: "pystr list"
  updated_ids :: "pystr list"

definition run_upsert ::
  "pystr list \<Rightarrow> 'v txn_row list \<Rightarrow> 'v txn_table \<Rightarrow> upsert_error + upsert_result \<times> 'v txn_table" where
  "run_upsert ucols rows tbl =
     map_sum id
       (\<lambda>(returned, tbl1).
          (\<lparr>inserted_ids = filter (\<lambda>i. i \<in> row_id ` set rows) returned,
            updated_ids = filter (\<lambda>i. i \<notin> row_id ` set rows) returned\<rparr>, tbl1))
       (upsert_stmt ucols {} rows tbl)"

definition chunk_size :: nat where
  "chunk_size = 500"

function bulk_upsert_transactions ::
  "pystr list \<Rightarrow> 'v txn_row list \<Rightarrow> 'v txn_table \<Rightarrow> upsert_error + upsert_result \<times> 'v txn_table" where
  "bulk_upsert_transactions ucols rows tbl =
     (if rows = [] then Inr (\<lparr>inserted_ids = [], updated_ids = []\<rparr>, tbl)
      else case run_upsert ucols (take chunk_size rows) tbl of
             Inl e \<Rightarrow> Inl e
           | Inr (res, tbl1) \<Rightarrow>
               map_sum id
                 (\<lambda>(res2, tbl2).
                    (\<lparr>inserted_ids = inserted_ids res @ inserted_ids res2,
                      updated_ids = updated_ids res @ updated_ids res2\<rparr>, tbl2))
                 (bulk_upsert_transactions ucols (drop chunk_size rows) tbl1))"
  by pat_completeness auto
termination
  by (relation "measure (\<lambda>(ucols, rows, tbl). length rows)") (auto simp: chunk_size_def)

declare bulk_upsert_transactions.simps [simp del]

record batch_outcome =
  new :: nat
  changed :: nat
  unchanged :: nat

definition upsert_outcome :: "nat \<Rightarrow> upsert_result \<Rightarrow> batch_outcome" where
  "upsert_outcome n res =
     \<lparr>new = length (inserted_ids res), changed = length (updated_ids res),
      unchanged = n - length (inserted_ids res) - length (updated_ids res)\<rparr>"

subsection \<open>Row by row\<close>

text \<open>
  \<^verbatim>\<open>persist_transaction\<close>. A new row is built like a row of the bulk statement (\<open>inc\<close>). An
  existing one is compared with, and assigned, the attributes of the fetched transaction as they are
  (\<open>raw\<close>): a type or status that is no member of its enumeration is not mapped to
  \<^verbatim>\<open>OTHER\<close> or \<^verbatim>\<open>PENDING\<close>, and a model object is not dumped to JSON. \<open>raw\<close> has
  the resolved security under its column; \<open>differ\<close> is \<^verbatim>\<open>values_differ\<close>, which compares the
  texts of two values, decimals by value. The fetched transaction has no attribute
  \<^verbatim>\<open>export_status\<close>, and a category the user has chosen is not replaced. Whether the column
  accepts a raw value at the flush is outside the model.
\<close>

definition replaces :: "('v \<Rightarrow> 'v option \<Rightarrow> bool) \<Rightarrow> (pystr \<Rightarrow> 'v option) \<Rightarrow> 'v txn_row \<Rightarrow> pystr \<Rightarrow> bool" where
  "replaces differ raw ex c \<longleftrightarrow>
     c \<noteq> ''export_status'' \<and> \<not> (c = ''classification_override'' \<and> cols ex c \<noteq> None) \<and>
     (case raw c of None \<Rightarrow> False | Some v \<Rightarrow> differ v (cols ex c))"

definition persist_transaction ::
  "('v \<Rightarrow> 'v option \<Rightarrow> bool) \<Rightarrow> (pystr \<Rightarrow> 'v option) \<Rightarrow> 'v txn_row \<Rightarrow> 'v txn_table \<Rightarrow> 'v txn_table" where
  "persist_transaction differ raw inc tbl =
     (case lookup (row_key inc) tbl of
        None \<Rightarrow> tbl @ [inc]
      | Some ex \<Rightarrow>
          (let changed = filter (replaces differ raw ex) update_columns
           in if changed = [] then tbl
              else put_row row_key
                     (ex\<lparr>cols := (\<lambda>c. if c \<in> set changed then raw c else cols ex c), revision := revision ex + 1\<rparr>) tbl))"

subsection \<open>What an upsert means\<close>

definition upsert_one :: "pystr list \<Rightarrow> 'v txn_row \<Rightarrow> 'v txn_table \<Rightarrow> 'v txn_table" where
  "upsert_one ucols r tbl =
     (case lookup (row_key r) tbl of
        None \<Rightarrow> tbl @ [r]
      | Some ex \<Rightarrow> if differs ucols r ex then put_row row_key (merged ucols r ex) tbl else tbl)"

definition written :: "pystr list \<Rightarrow> 'v txn_table \<Rightarrow> 'v txn_row \<Rightarrow> pystr option" where
  "written ucols tbl r =
     (case lookup (row_key r) tbl of
        None \<Rightarrow> Some (row_id r)
      | Some ex \<Rightarrow> if differs ucols r ex then Some (row_id ex) else None)"

lemma lookup_simps [simp]:
  "lookup k [] = None"
  "lookup k (r # tbl) = (if row_key r = k then Some r else lookup k tbl)"
  by (simp_all add: lookup_def)

lemma lookup_append: "lookup k (xs @ ys) = (case lookup k xs of None \<Rightarrow> lookup k ys | Some r \<Rightarrow> Some r)"
  by (induction xs) auto

lemma lookup_Some: "lookup k tbl = Some r \<Longrightarrow> r \<in> set tbl \<and> row_key r = k"
  by (auto simp: lookup_def find_Some_iff)

lemma lookup_None: "lookup k tbl = None \<longleftrightarrow> k \<notin> row_key ` set tbl"
  by (induction tbl) auto

lemma distinct_head: "distinct (map row_key (r # rs)) \<Longrightarrow> x \<in> set rs \<Longrightarrow> row_key x \<noteq> row_key r"
  by (metis distinct.simps(2) imageI list.set_map list.simps(9))

lemma lookup_put_row:
  "lookup k (put_row row_key r tbl) = (if k = row_key r \<and> lookup k tbl \<noteq> None then Some r else lookup k tbl)"
  by (induction tbl) (auto simp: put_row_Cons)

lemma merged_key [simp]: "row_key (merged ucols inc ex) = row_key ex" "row_id (merged ucols inc ex) = row_id ex"
  by (simp_all add: merged_def)

definition settled :: "pystr list \<Rightarrow> 'v txn_row \<Rightarrow> 'v txn_row option \<Rightarrow> 'v txn_row" where
  "settled ucols r old =
     (case old of None \<Rightarrow> r | Some ex \<Rightarrow> if differs ucols r ex then merged ucols r ex else ex)"

lemma lookup_upsert_one:
  "lookup k (upsert_one ucols r tbl) =
     (if k = row_key r then Some (settled ucols r (lookup k tbl)) else lookup k tbl)"
proof (cases "lookup (row_key r) tbl")
  case None
  then show ?thesis
    by (auto simp: upsert_one_def settled_def lookup_append split: option.splits)
next
  case (Some ex)
  then have "row_key ex = row_key r"
    using lookup_Some by blast
  then show ?thesis
    using Some by (auto simp: upsert_one_def settled_def lookup_put_row)
qed

lemma upsert_one_keys:
  "row_key ` set (upsert_one ucols r tbl) = insert (row_key r) (row_key ` set tbl)"
  "distinct (map row_key tbl) \<Longrightarrow> distinct (map row_key (upsert_one ucols r tbl))"
proof -
  have put: "map row_key (put_row row_key x tbl) = map row_key tbl" for x
    by (simp add: table_simps)
  note none = lookup_None [of "row_key r" tbl]
  have "row_key ` set (put_row row_key x tbl) = row_key ` set tbl" for x
    using put [of x] by (metis list.set_map)
  with none show "row_key ` set (upsert_one ucols r tbl) = insert (row_key r) (row_key ` set tbl)"
    by (auto simp: upsert_one_def split: option.splits)
  show "distinct (map row_key tbl) \<Longrightarrow> distinct (map row_key (upsert_one ucols r tbl))"
    using put none by (auto simp: upsert_one_def split: option.splits)
qed

text \<open>A statement whose rows have different keys is the sequence of its rows.\<close>

lemma upsert_stmt_distinct:
  assumes "distinct (map row_key rs)" and "touched \<inter> row_key ` set rs = {}"
  shows "upsert_stmt ucols touched rs tbl =
    Inr (List.map_filter (written ucols tbl) rs, fold (upsert_one ucols) rs tbl)"
  using assms
proof (induction rs arbitrary: touched tbl)
  case Nil
  then show ?case
    by (simp add: map_filter_simps)
next
  case (Cons r rs)
  have same: "List.map_filter (written ucols (upsert_one ucols r tbl)) rs = List.map_filter (written ucols tbl) rs"
  proof -
    have "written ucols (upsert_one ucols r tbl) x = written ucols tbl x" if "x \<in> set rs" for x
    proof -
      have "row_key x \<noteq> row_key r"
        by (rule distinct_head [OF Cons.prems(1) that])
      then show ?thesis
        by (simp add: written_def lookup_upsert_one)
    qed
    then show ?thesis
      unfolding List.map_filter_def by (auto cong: filter_cong map_cong)
  qed
  have IH: "upsert_stmt ucols t rs (upsert_one ucols r tbl) =
      Inr (List.map_filter (written ucols tbl) rs, fold (upsert_one ucols) rs (upsert_one ucols r tbl))"
    if "t \<subseteq> insert (row_key r) touched" for t
  proof -
    have "t \<inter> row_key ` set rs = {}"
      using Cons.prems that by fastforce
    then show ?thesis
      using Cons.IH [of t "upsert_one ucols r tbl"] Cons.prems(1) same by simp
  qed
  show ?case
    using IH [of touched, OF subset_insertI] IH [of "insert (row_key r) touched", OF subset_refl] Cons.prems(2)
    by (auto simp: map_filter_simps written_def [of ucols tbl r] upsert_one_def [of ucols r tbl] split: option.splits)
qed

lemma written_upsert_other:
  "row_key x \<notin> row_key ` set rs \<Longrightarrow> lookup (row_key x) (fold (upsert_one ucols) rs tbl) = lookup (row_key x) tbl"
  by (induction rs arbitrary: tbl) (auto simp: lookup_upsert_one)

lemma written_fold:
  "row_key ` set rs \<inter> row_key ` set xs = {} \<Longrightarrow>
   List.map_filter (written ucols (fold (upsert_one ucols) rs tbl)) xs = List.map_filter (written ucols tbl) xs"
proof (induction xs)
  case (Cons x xs)
  then have "row_key x \<notin> row_key ` set rs"
    by auto
  then have "written ucols (fold (upsert_one ucols) rs tbl) x = written ucols tbl x"
    by (simp add: written_def written_upsert_other)
  with Cons show ?case
    by (auto simp: map_filter_simps split: option.splits)
qed (simp add: map_filter_simps)

lemma add_pairs: "a + b = m \<Longrightarrow> c + d = n \<Longrightarrow> (a + c) + (b + d) = m + (n :: 'a multiset)"
  by (auto simp: ac_simps)

lemma bulk_upsert_distinct:
  assumes "distinct (map row_key rows)"
  shows "\<exists>res. bulk_upsert_transactions ucols rows tbl = Inr (res, fold (upsert_one ucols) rows tbl) \<and>
    mset (inserted_ids res @ updated_ids res) = mset (List.map_filter (written ucols tbl) rows)"
  using assms
proof (induction ucols rows tbl rule: bulk_upsert_transactions.induct)
  case (1 ucols rows tbl)
  show ?case
  proof (cases "rows = []")
    case True
    then show ?thesis
      by (subst bulk_upsert_transactions.simps) (simp add: map_filter_simps)
  next
    case False
    let ?a = "take chunk_size rows" and ?b = "drop chunk_size rows"
    let ?tbl1 = "fold (upsert_one ucols) ?a tbl" and ?ret = "List.map_filter (written ucols tbl) ?a"
    have ab: "rows = ?a @ ?b"
      by simp
    have d: "distinct (map row_key (?a @ ?b))"
      using "1.prems" by simp
    then have da: "distinct (map row_key ?a)" and db: "distinct (map row_key ?b)"
      and dj: "row_key ` set ?a \<inter> row_key ` set ?b = {}"
      unfolding map_append distinct_append by auto
    let ?res = "\<lparr>inserted_ids = filter (\<lambda>i. i \<in> row_id ` set ?a) ?ret, updated_ids = filter (\<lambda>i. i \<notin> row_id ` set ?a) ?ret\<rparr>"
    have r: "run_upsert ucols ?a tbl = Inr (?res, ?tbl1)"
      using upsert_stmt_distinct [OF da, of "{}" ucols tbl] by (simp add: run_upsert_def)
    obtain res2 where b: "bulk_upsert_transactions ucols ?b ?tbl1 = Inr (res2, fold (upsert_one ucols) ?b ?tbl1)"
      and m2: "mset (inserted_ids res2 @ updated_ids res2) = mset (List.map_filter (written ucols ?tbl1) ?b)"
      using "1.IH" [OF False r refl] db by auto
    let ?all = "\<lparr>inserted_ids = inserted_ids ?res @ inserted_ids res2, updated_ids = updated_ids ?res @ updated_ids res2\<rparr>"
    have "fold (upsert_one ucols) ?b ?tbl1 = fold (upsert_one ucols) rows tbl"
      by (metis ab fold_append comp_apply)
    then have "bulk_upsert_transactions ucols rows tbl = Inr (?all, fold (upsert_one ucols) rows tbl)"
      by (subst bulk_upsert_transactions.simps) (simp only: False r b if_False sum.case prod.case map_sum.simps)
    moreover have "mset (inserted_ids ?all @ updated_ids ?all) = mset (List.map_filter (written ucols tbl) rows)"
    proof -
      have "List.map_filter (written ucols tbl) rows = ?ret @ List.map_filter (written ucols tbl) ?b"
        by (subst ab) (simp only: List.map_filter_def filter_append map_append)
      moreover have "mset (filter (\<lambda>i. i \<in> row_id ` set ?a) ?ret) + mset (filter (\<lambda>i. i \<notin> row_id ` set ?a) ?ret) = mset ?ret"
        by (simp only: mset_filter multiset_partition [symmetric])
      moreover have "mset (inserted_ids res2) + mset (updated_ids res2) = mset (List.map_filter (written ucols tbl) ?b)"
        using m2 written_fold [OF dj] by simp
      ultimately show ?thesis
        by (simp only: mset_append upsert_result.simps add_pairs)
    qed
    ultimately show ?thesis
      by blast
  qed
qed

end
