(* ===== verification/Bulk_Upsert_Props.thy ===== *)
theory Bulk_Upsert_Props
  imports Bulk_Upsert
begin

text \<open>
  Properties of the bulk upsert: what it leaves under each key, that repeating it changes nothing,
  and when it does the same as the row-by-row path.
\<close>

lemma lookup_fold_upsert:
  "distinct (map row_key rows) \<Longrightarrow>
   lookup k (fold (upsert_one ucols) rows tbl) =
     (case lookup k rows of None \<Rightarrow> lookup k tbl | Some r \<Rightarrow> Some (settled ucols r (lookup k tbl)))"
proof (induction rows arbitrary: tbl)
  case (Cons r rows)
  have "lookup k rows = None" if "k = row_key r"
    unfolding lookup_None using distinct_head [OF Cons.prems] that by force
  then show ?case
    using Cons by (auto simp: lookup_upsert_one split: option.splits)
qed simp




definition sample_txn :: "pystr \<Rightarrow> pystr \<Rightarrow> int \<Rightarrow> int txn_row" where
  "sample_txn i ext amount =
     \<lparr>row_id = i, row_key = (''t1'', ''bunq'', None, ext), row_account = ''a1'', cols = [''amount'' \<mapsto> amount], revision = 1\<rparr>"


subsection \<open>Repetition\<close>

lemma unchanged_fold:
  "\<forall>r \<in> set rows. \<exists>ex. lookup (row_key r) tbl = Some ex \<and> \<not> differs ucols r ex \<Longrightarrow>
   fold (upsert_one ucols) rows tbl = tbl \<and> List.map_filter (written ucols tbl) rows = []"
  by (induction rows) (auto simp: upsert_one_def written_def [of ucols tbl] map_filter_simps)

lemma settled_not_differs: "cols r' = cols r \<Longrightarrow> \<not> differs ucols r' (settled ucols r old)"
  by (auto simp: settled_def differs_def merged_def coalesce_col_def split: option.splits)

text \<open>
  C26. Storing the same transactions again, under whatever fresh identifiers, changes no row,
  bumps no revision and reports nothing as inserted or updated, so that nothing is announced twice,
  for a batch whose keys differ.
\<close>

theorem bulk_upsert_idempotent:
  assumes "distinct (map row_key rows)" and "bulk_upsert_transactions ucols rows tbl = Inr (res, tbl1)"
    and "map row_key rows' = map row_key rows" and "map cols rows' = map cols rows"
  shows "bulk_upsert_transactions ucols rows' tbl1 = Inr (\<lparr>inserted_ids = [], updated_ids = []\<rparr>, tbl1)"
proof -
  have tbl1: "tbl1 = fold (upsert_one ucols) rows tbl"
    using bulk_upsert_distinct [OF assms(1), of ucols tbl] assms(2) by auto
  have "\<exists>ex. lookup (row_key r') tbl1 = Some ex \<and> \<not> differs ucols r' ex" if r': "r' \<in> set rows'" for r'
  proof -
    obtain i where i: "i < length rows'" "rows' ! i = r'"
      using r' by (auto simp: in_set_conv_nth)
    let ?r = "rows ! i"
    have len: "length rows' = length rows"
      using assms(3) by (rule map_eq_imp_length_eq)
    have same: "row_key r' = row_key ?r" "cols r' = cols ?r"
      using assms(3,4) i len by (metis nth_map)+
    have "lookup (row_key ?r) rows = Some ?r"
    proof (cases "lookup (row_key ?r) rows")
      case None
      then show ?thesis
        using i len unfolding lookup_None by (metis imageI nth_mem)
    next
      case (Some x)
      then have "x = ?r"
        using lookup_Some [OF Some] assms(1) i len by (auto simp: distinct_map inj_on_def)
      with Some show ?thesis
        by simp
    qed
    then show ?thesis
      using same settled_not_differs unfolding tbl1 lookup_fold_upsert [OF assms(1)] by fastforce
  qed
  then have "fold (upsert_one ucols) rows' tbl1 = tbl1" "List.map_filter (written ucols tbl1) rows' = []"
    using unchanged_fold by blast+
  moreover have "distinct (map row_key rows')"
    using assms(1,3) by simp
  ultimately show ?thesis
    using bulk_upsert_distinct [of rows' ucols tbl1] by (auto intro: upsert_result.equality)
qed

theorem bulk_upsert_idempotent_witness:
  "\<exists>res tbl1. bulk_upsert_transactions update_columns [sample_txn ''n1'' ''x'' 7] [sample_txn ''o'' ''x'' 3] = Inr (res, tbl1) \<and>
     bulk_upsert_transactions update_columns [sample_txn ''n2'' ''x'' 7] tbl1 = Inr (\<lparr>inserted_ids = [], updated_ids = []\<rparr>, tbl1)"
proof -
  have d: "distinct (map row_key [sample_txn ''n1'' ''x'' 7])"
    by simp
  then obtain res tbl1 where r: "bulk_upsert_transactions update_columns [sample_txn ''n1'' ''x'' 7] [sample_txn ''o'' ''x'' 3] = Inr (res, tbl1)"
    using bulk_upsert_distinct by blast
  from bulk_upsert_idempotent [OF d r, of "[sample_txn ''n2'' ''x'' 7]"] r show ?thesis
    by (auto simp: sample_txn_def)
qed

subsection \<open>Row by row\<close>

text \<open>
  The two columns in which the paths differ: the bulk statement replaces a category the user has
  chosen by a reported one, and resets the export status.
\<close>

definition compatible :: "'v txn_row \<Rightarrow> 'v txn_row \<Rightarrow> bool" where
  "compatible inc ex \<longleftrightarrow>
     (cols ex ''classification_override'' = None \<or>
      cols inc ''classification_override'' \<in> {None, cols ex ''classification_override''}) \<and>
     cols inc ''export_status'' \<in> {None, cols ex ''export_status''}"

text \<open>The raw values are those that the bulk statement writes, and differ when the columns do.\<close>

definition plain :: "('v \<Rightarrow> 'v option \<Rightarrow> bool) \<Rightarrow> (pystr \<Rightarrow> 'v option) \<Rightarrow> 'v txn_row \<Rightarrow> bool" where
  "plain differ raw inc \<longleftrightarrow> (\<forall>c \<in> set update_columns. c \<noteq> ''export_status'' \<longrightarrow> raw c = cols inc c) \<and>
     (\<forall>v old. differ v old \<longleftrightarrow> Some v \<noteq> old)"

lemma replaces_iff:
  "plain differ raw inc \<Longrightarrow> compatible inc ex \<Longrightarrow> c \<in> set update_columns \<Longrightarrow>
   replaces differ raw ex c \<longleftrightarrow> coalesce_col (cols inc c) (cols ex c) \<noteq> cols ex c"
  by (auto simp: replaces_def compatible_def plain_def coalesce_col_def split: option.splits)

text \<open>
  Under these conditions storing one transaction does what the bulk statement does with its row. A type or
  status without a mapping, or a model object among the attributes, breaks the first.
\<close>

lemma persist_transaction_upsert:
  assumes "plain differ raw inc" and "\<And>ex. lookup (row_key inc) tbl = Some ex \<Longrightarrow> compatible inc ex"
  shows "persist_transaction differ raw inc tbl = upsert_one update_columns inc tbl"
proof (cases "lookup (row_key inc) tbl")
  case None
  then show ?thesis
    by (simp add: persist_transaction_def upsert_one_def)
next
  case (Some ex)
  note r = replaces_iff [OF assms(1) assms(2) [OF Some]]
  have raw: "raw c = cols inc c" if "replaces differ raw ex c" "c \<in> set update_columns" for c
    using that assms(1) by (auto simp: plain_def replaces_def)
  have "(filter (replaces differ raw ex) update_columns = []) \<longleftrightarrow> \<not> differs update_columns inc ex"
    by (auto simp: filter_empty_conv differs_def r)
  moreover have "(\<lambda>c. if c \<in> set (filter (replaces differ raw ex) update_columns) then raw c else cols ex c) =
      (\<lambda>c. if c \<in> set update_columns then coalesce_col (cols inc c) (cols ex c) else cols ex c)"
    using raw by (intro ext) (auto simp: r coalesce_col_def split: option.splits)
  ultimately show ?thesis
    using Some by (simp add: persist_transaction_def upsert_one_def merged_def Let_def)
qed

text \<open>Otherwise they do not: a category chosen by the user, and an exclusion from exports, are lost.\<close>

lemma bulk_upsert_overrides_user:
  assumes "lookup (row_key r) tbl = Some ex" and "c \<in> {''classification_override'', ''export_status''}"
    and "cols r c = Some v" and "cols ex c = Some u" and "v \<noteq> u"
  shows "map_option (\<lambda>x. cols x c) (lookup (row_key r) (upsert_one update_columns r tbl)) = Some (Some v)"
    and "map_option (\<lambda>x. cols x c) (lookup (row_key r) (persist_transaction differ raw r tbl)) = Some (Some u)"
proof -
  have c: "c \<in> set update_columns"
    using assms(2) by (auto simp: update_columns_def)
  then have "differs update_columns r ex"
    using assms(3-5) by (auto simp: differs_def coalesce_col_def intro!: bexI [of _ c])
  then show "map_option (\<lambda>x. cols x c) (lookup (row_key r) (upsert_one update_columns r tbl)) = Some (Some v)"
    using assms(1,3) c by (simp add: lookup_upsert_one settled_def merged_def coalesce_col_def)
  have "\<not> replaces differ raw ex c"
    using assms(2,4) by (auto simp: replaces_def)
  moreover have "row_key ex = row_key r"
    using assms(1) lookup_Some by blast
  ultimately show "map_option (\<lambda>x. cols x c) (lookup (row_key r) (persist_transaction differ raw r tbl)) = Some (Some u)"
    using assms(1,4) by (auto simp: persist_transaction_def Let_def lookup_put_row)
qed

text \<open>A new transaction that is listed twice makes the whole statement fail.\<close>

lemma repeated_key_fails:
  assumes "lookup (row_key r) tbl = None" and "row_key r' = row_key r"
  shows "upsert_stmt ucols {} [r, r'] tbl = Inl Cannot_affect_row_a_second_time"
  using assms by (simp add: lookup_append)

end
