(* ===== verification/Sync_Errors.thy ===== *)
theory Sync_Errors
  imports Py_Text
begin

text \<open>
  Failures of a sync and their classification (\<^verbatim>\<open>connectors/exceptions.py\<close>,
  \<^verbatim>\<open>sync/errors.py\<close>). An exception is its class, as far as the code tells classes
  apart, with its text.
\<close>

datatype sync_exn =
    Connector_error pystr
  | Transient_error pystr
  | Permanent_error pystr
  | Rate_limit_error "int option" pystr
  | Invalid_since_error pystr
  | Cancelled_error
  | Timeout_exn pystr
  | Database_error pystr
  | Already_running_error pystr
  | Other_error pystr

definition exn_text :: "sync_exn \<Rightarrow> pystr" where
  "exn_text e =
     (case e of
        Connector_error m \<Rightarrow> m | Transient_error m \<Rightarrow> m | Permanent_error m \<Rightarrow> m | Rate_limit_error r m \<Rightarrow> m
      | Invalid_since_error m \<Rightarrow> m | Cancelled_error \<Rightarrow> [] | Timeout_exn m \<Rightarrow> m | Database_error m \<Rightarrow> m
      | Already_running_error m \<Rightarrow> m | Other_error m \<Rightarrow> m)"

definition is_connector_error :: "sync_exn \<Rightarrow> bool" where
  "is_connector_error e \<longleftrightarrow>
     (case e of Connector_error _ \<Rightarrow> True | Transient_error _ \<Rightarrow> True | Permanent_error _ \<Rightarrow> True
      | Rate_limit_error _ _ \<Rightarrow> True | _ \<Rightarrow> False)"

datatype sync_error_kind = Kind_transient | Kind_permanent | Kind_internal

definition classify_sync_error :: "sync_exn \<Rightarrow> sync_error_kind" where
  "classify_sync_error e =
     (case e of
        Invalid_since_error _ \<Rightarrow> Kind_permanent
      | Transient_error _ \<Rightarrow> Kind_transient
      | Rate_limit_error _ _ \<Rightarrow> Kind_transient
      | Permanent_error _ \<Rightarrow> Kind_permanent
      | Connector_error _ \<Rightarrow> Kind_permanent
      | _ \<Rightarrow> Kind_internal)"

text \<open>The categories of \<^verbatim>\<open>control_plane_contract.py\<close>.\<close>

definition control_plane_error_categories :: "pystr list" where
  "control_plane_error_categories =
     [''authentication'', ''token_expired'', ''reauth_required'', ''provider_unavailable'', ''rate_limited'', ''timeout'',
      ''validation'', ''incompatible'', ''cancelled'', ''data_mapping'', ''database'', ''unknown'']"

definition any_token :: "pystr list \<Rightarrow> pystr \<Rightarrow> bool" where
  "any_token tokens message \<longleftrightarrow> list_ex (\<lambda>t. contains t message) tokens"

definition categorize_permanent :: "pystr \<Rightarrow> pystr" where
  "categorize_permanent text =
     (let message = lower text
      in if contains ''incompatible'' message then ''incompatible''
         else if any_token [''expired'', ''revoked'', ''reauth'', ''401'', ''403''] message then ''reauth_required''
         else if any_token [''expired'', ''token expired''] message then ''token_expired''
         else if any_token [''auth'', ''credential'', ''token''] message then ''authentication''
         else if any_token [''map'', ''security'', ''instrument''] message then ''data_mapping''
         else if any_token [''valid'', ''malformed'', ''invalid'', ''rejected'', ''400''] message then ''validation''
         else ''unknown'')"

definition categorize_sync_error :: "sync_exn \<Rightarrow> pystr" where
  "categorize_sync_error e =
     (case e of
        Rate_limit_error _ _ \<Rightarrow> ''rate_limited''
      | Invalid_since_error _ \<Rightarrow> ''validation''
      | Cancelled_error \<Rightarrow> ''cancelled''
      | Timeout_exn _ \<Rightarrow> ''timeout''
      | Transient_error _ \<Rightarrow> ''provider_unavailable''
      | Permanent_error m \<Rightarrow> categorize_permanent m
      | Connector_error _ \<Rightarrow> ''provider_unavailable''
      | Database_error _ \<Rightarrow> ''database''
      | _ \<Rightarrow> ''unknown'')"

definition safe_sync_error_message :: "sync_exn \<Rightarrow> pystr" where
  "safe_sync_error_message e =
     (if is_connector_error e
      then if exn_text e = [] then ''Connector sync failed'' else take 2048 (exn_text e)
      else if categorize_sync_error e = ''database'' then ''Database error while syncing''
      else ''Sync failed due to an internal error'')"

definition categorize_export_error :: "pystr option \<Rightarrow> pystr option" where
  "categorize_export_error m =
     (if \<not> truthy m then None
      else let text = lower (the m)
           in Some (if any_token [''expired'', ''revoked'', ''reauth''] text then ''reauth_required''
                    else if any_token [''expired'', ''token expired''] text then ''token_expired''
                    else if any_token [''auth'', ''credential'', ''token''] text then ''authentication''
                    else if any_token [''rate limit'', ''429'', ''too many''] text then ''rate_limited''
                    else if any_token [''mapping'', ''security'', ''instrument''] text then ''data_mapping''
                    else if any_token [''invalid'', ''validation'', ''malformed''] text then ''validation''
                    else if any_token [''database'', ''sqlalchemy'', ''postgres''] text then ''database''
                    else ''provider_unavailable''))"

text \<open>
  Every category is one of the contract, and the category of an expired token is never used: an
  expired token is taken for a connection that has to be authorised again.
\<close>

lemma contains_suffix:
  assumes "contains (a @ b) m"
  shows "contains b m"
proof -
  obtain u v where "m = u @ (a @ b) @ v"
    using assms unfolding contains_iff by blast
  then have "m = (u @ a) @ b @ v"
    by simp
  then show ?thesis
    unfolding contains_iff by blast
qed

lemma expired_tokens: "any_token [''expired'', ''token expired''] m \<longleftrightarrow> contains ''expired'' m"
  using contains_suffix [of "''token ''" "''expired''" m] by (auto simp: any_token_def)

lemma categorize_permanent_range:
  "categorize_permanent m \<in> {''incompatible'', ''reauth_required'', ''authentication'', ''data_mapping'', ''validation'', ''unknown''}"
proof -
  have "any_token [''expired'', ''token expired''] (lower m) \<Longrightarrow>
      any_token [''expired'', ''revoked'', ''reauth'', ''401'', ''403''] (lower m)"
    unfolding expired_tokens by (simp add: any_token_def)
  then show ?thesis
    unfolding categorize_permanent_def Let_def by simp
qed

lemma categorize_sync_error_range:
  "categorize_sync_error e \<in> set control_plane_error_categories \<and> categorize_sync_error e \<noteq> ''token_expired''"
proof (cases e)
  case (Permanent_error m)
  then show ?thesis
    using categorize_permanent_range [of m] by (auto simp: categorize_sync_error_def control_plane_error_categories_def)
qed (simp_all add: categorize_sync_error_def control_plane_error_categories_def)

lemma categorize_export_error_range:
  assumes "categorize_export_error (Some m) = Some c"
  shows "c \<in> set control_plane_error_categories \<and> c \<noteq> ''token_expired''"
proof -
  have "any_token [''expired'', ''token expired''] (lower m) \<Longrightarrow>
      any_token [''expired'', ''revoked'', ''reauth''] (lower m)"
    unfolding expired_tokens by (simp add: any_token_def)
  with assms show ?thesis
    unfolding categorize_export_error_def Let_def control_plane_error_categories_def by (simp split: if_splits) (hypsubst, simp)+
qed

end
