(* ===== verification/Sync_Runs.thy ===== *)
theory Sync_Runs
  imports Sync_Errors
begin

text \<open>
  Sync runs and their watermarks (\<^verbatim>\<open>sync/sync_run.py\<close>, \<^verbatim>\<open>sync/sync_cursor.py\<close>).
  Heartbeats, completions and cursors are operations on the tables as a session sees them; who
  commits them is up to the pipeline.
\<close>

datatype run_status = Run_running | Run_completed | Run_failed | Run_cancelled

record sync_run =
  run_id :: pystr
  run_connector :: pystr
  run_connection :: "pystr option"
  run_status :: run_status
  started_at :: instant
  completed_at :: "instant option"
  current_stage :: "pystr option"
  current_account_id :: "pystr option"
  last_activity_at :: "instant option"
  run_cursor :: "instant option"
  items_processed :: "int option"
  run_error_message :: "pystr option"
  run_error_category :: "pystr option"
  run_retry_after_at :: "instant option"
  run_rate_limit_attempts :: int
  run_rate_limit_scope :: "pystr option"
  run_last_http_status :: "int option"
  run_report :: "(pystr \<times> pyval) list option"

subsection \<open>Starting and heartbeats\<close>

definition new_run :: "instant \<Rightarrow> pystr \<Rightarrow> pystr \<Rightarrow> pystr option \<Rightarrow> sync_run" where
  "new_run now nid connector conn =
     \<lparr>run_id = nid, run_connector = connector, run_connection = conn, run_status = Run_running, started_at = now,
      completed_at = None, current_stage = None, current_account_id = None, last_activity_at = None, run_cursor = None,
      items_processed = None, run_error_message = None, run_error_category = None, run_retry_after_at = None,
      run_rate_limit_attempts = 0, run_rate_limit_scope = None, run_last_http_status = None, run_report = None\<rparr>"

definition active_on :: "pystr \<Rightarrow> sync_run \<Rightarrow> bool" where
  "active_on c r \<longleftrightarrow> run_connection r = Some c \<and> run_status r = Run_running"

text \<open>
  \<open>others\<close> are the runs that other transactions committed between the check and the flush,
  which this session has not read; the partial unique index refuses a second running row of a
  connection.
\<close>

definition start_sync_run ::
  "instant \<Rightarrow> pystr \<Rightarrow> sync_run list \<Rightarrow> pystr \<Rightarrow> pystr option \<Rightarrow> sync_run list \<Rightarrow> sync_exn + sync_run list" where
  "start_sync_run now nid others connector conn rs =
     (case (case conn of None \<Rightarrow> None | Some c \<Rightarrow> find (active_on c) rs) of
        Some r \<Rightarrow> Inl (Already_running_error (''Connection already has sync run '' @ run_id r @ '' in progress''))
      | None \<Rightarrow>
          if (case conn of None \<Rightarrow> False | Some c \<Rightarrow> list_ex (active_on c) others)
          then Inl (Database_error ''uq_sync_runs_active_connection'')
          else Inr (rs @ [new_run now nid connector conn]))"

definition update_sync_run_progress ::
  "instant \<Rightarrow> pystr \<Rightarrow> pystr \<Rightarrow> pystr option \<Rightarrow> sync_run list \<Rightarrow> sync_run list" where
  "update_sync_run_progress now i stage acct rs =
     update_rows (\<lambda>r. run_id r = i \<and> run_status r = Run_running)
       (\<lambda>r. r\<lparr>current_stage := Some stage, current_account_id := acct, last_activity_at := Some now\<rparr>) rs"

definition stale_message :: pystr where
  "stale_message = ''Run automatisch be'' @ [CHR 0xEB] @ ''indigd: worker was niet meer actief''"

definition stale :: "pystr \<Rightarrow> instant \<Rightarrow> sync_run \<Rightarrow> bool" where
  "stale c cutoff r \<longleftrightarrow> active_on c r \<and> started_at r < cutoff"

definition recover_stale_sync_runs :: "instant \<Rightarrow> pystr \<Rightarrow> int \<Rightarrow> sync_run list \<Rightarrow> nat \<times> sync_run list" where
  "recover_stale_sync_runs now c mins rs =
     (let hit = stale c (now - minutes mins)
      in (length (filter hit rs),
          update_rows hit
            (\<lambda>r. r\<lparr>run_status := Run_failed, completed_at := Some now, run_error_message := Some stale_message,
                    run_error_category := Some ''stale_run''\<rparr>) rs))"

subsection \<open>Completion\<close>

record completion =
  c_status :: run_status
  c_items :: "int option"
  c_message :: "pystr option"
  c_category :: "pystr option"
  c_cursor :: "instant option"
  c_retry_after :: "instant option"
  c_attempts :: int
  c_scope :: "pystr option"
  c_http_status :: "int option"
  c_report :: "(pystr \<times> pyval) list option"

definition keep_or :: "'a option \<Rightarrow> 'a option \<Rightarrow> 'a option" where
  "keep_or v old = (case v of None \<Rightarrow> old | Some x \<Rightarrow> Some x)"

definition completed_run :: "instant \<Rightarrow> completion \<Rightarrow> sync_run \<Rightarrow> sync_run" where
  "completed_run now c r = r
     \<lparr>run_status := c_status c, completed_at := Some now,
      current_stage := Some (if c_status c = Run_completed then ''completed'' else ''failed''),
      last_activity_at := Some now,
      items_processed := keep_or (c_items c) (items_processed r),
      run_error_message := keep_or (c_message c) (run_error_message r),
      run_error_category := keep_or (c_category c) (run_error_category r),
      run_cursor := keep_or (c_cursor c) (run_cursor r),
      run_retry_after_at := keep_or (c_retry_after c) (run_retry_after_at r),
      run_rate_limit_attempts := (if c_attempts c \<noteq> 0 then c_attempts c else run_rate_limit_attempts r),
      run_rate_limit_scope := keep_or (c_scope c) (run_rate_limit_scope r),
      run_last_http_status := keep_or (c_http_status c) (run_last_http_status r),
      run_report := keep_or (c_report c) (run_report r)\<rparr>"

definition complete_sync_run :: "instant \<Rightarrow> pystr \<Rightarrow> completion \<Rightarrow> sync_run list \<Rightarrow> sync_run list" where
  "complete_sync_run now i c rs = update_rows (\<lambda>r. run_id r = i) (completed_run now c) rs"

text \<open>How a run failed: message, category, and the rate-limit details.\<close>

record failure =
  f_message :: pystr
  f_category :: pystr
  f_retry_after :: "instant option"
  f_attempts :: int
  f_scope :: "pystr option"
  f_http_status :: "int option"

definition build_failed_sync_run ::
  "instant \<Rightarrow> pystr \<Rightarrow> pystr option \<Rightarrow> pystr option \<Rightarrow> failure \<Rightarrow> sync_run" where
  "build_failed_sync_run now nid connector conn f =
     (new_run now nid (if truthy connector then the connector else ''unknown'') conn)
       \<lparr>run_status := Run_failed, completed_at := Some now, run_error_message := Some (take 2048 (f_message f)),
        run_error_category := Some (f_category f), run_retry_after_at := f_retry_after f,
        run_rate_limit_attempts := f_attempts f, run_rate_limit_scope := f_scope f,
        run_last_http_status := f_http_status f\<rparr>"

definition record_failed_sync_run ::
  "instant \<Rightarrow> pystr \<Rightarrow> pystr option \<Rightarrow> pystr option \<Rightarrow> failure \<Rightarrow> sync_run list \<Rightarrow> sync_run list" where
  "record_failed_sync_run now nid connector conn f rs = rs @ [build_failed_sync_run now nid connector conn f]"

definition failed_completion :: "failure \<Rightarrow> completion" where
  "failed_completion f =
     \<lparr>c_status = Run_failed, c_items = None, c_message = Some (take 2048 (f_message f)), c_category = Some (f_category f),
      c_cursor = None, c_retry_after = f_retry_after f, c_attempts = f_attempts f, c_scope = f_scope f,
      c_http_status = f_http_status f, c_report = None\<rparr>"

definition mark_sync_run_failed ::
  "instant \<Rightarrow> pystr \<Rightarrow> pystr option \<Rightarrow> pystr option \<Rightarrow> pystr option \<Rightarrow> failure \<Rightarrow> sync_run list \<Rightarrow> sync_run list" where
  "mark_sync_run_failed now nid i connector conn f rs =
     (case i of
        None \<Rightarrow> rs
      | Some r \<Rightarrow>
          if r = [] then rs
          else if list_ex (\<lambda>x. run_id x = r) rs then complete_sync_run now r (failed_completion f) rs
          else rs @ [build_failed_sync_run now nid connector conn f])"

subsection \<open>Watermarks\<close>

record sync_cursor =
  cur_tenant :: pystr
  cur_connector :: pystr
  cur_connection :: "pystr option"
  cur_resource :: pystr
  cursor :: instant

definition cursor_scope :: "pystr \<Rightarrow> pystr \<Rightarrow> pystr option \<Rightarrow> sync_cursor \<Rightarrow> bool" where
  "cursor_scope tenant connector conn c \<longleftrightarrow>
     cur_tenant c = tenant \<and> cur_connector c = connector \<and> cur_connection c = conn"

definition get_connector_cursors ::
  "pystr \<Rightarrow> pystr \<Rightarrow> pystr option \<Rightarrow> sync_cursor list \<Rightarrow> (pystr \<times> instant) list" where
  "get_connector_cursors tenant connector conn cs =
     map (\<lambda>c. (cur_resource c, cursor c)) (filter (cursor_scope tenant connector conn) cs)"

definition get_cursor ::
  "pystr \<Rightarrow> pystr \<Rightarrow> pystr option \<Rightarrow> pystr \<Rightarrow> sync_cursor list \<Rightarrow> instant option" where
  "get_cursor tenant connector conn resource cs =
     map_of (rev (get_connector_cursors tenant connector conn cs)) resource"

definition upsert_sync_cursor ::
  "pystr \<Rightarrow> pystr \<Rightarrow> pystr option \<Rightarrow> pystr \<Rightarrow> instant \<Rightarrow> sync_cursor list \<Rightarrow> sync_cursor list" where
  "upsert_sync_cursor tenant connector conn resource t cs =
     (let hit = (\<lambda>c. cursor_scope tenant connector conn c \<and> cur_resource c = resource)
      in if list_ex hit cs then update_rows hit (\<lambda>c. c\<lparr>cursor := t\<rparr>) cs
         else cs @ [\<lparr>cur_tenant = tenant, cur_connector = connector, cur_connection = conn, cur_resource = resource,
                     cursor = t\<rparr>])"

text \<open>
  A dictionary built from rows keeps the last of equal keys; a cursor that has been stored is the
  one that is read.
\<close>

definition same_resource :: "pystr \<Rightarrow> pystr \<Rightarrow> pystr option \<Rightarrow> pystr \<Rightarrow> sync_cursor \<Rightarrow> bool" where
  "same_resource tenant connector conn resource c \<longleftrightarrow>
     cursor_scope tenant connector conn c \<and> cur_resource c = resource"

lemma get_cursor_alt:
  "get_cursor tenant connector conn resource cs =
     (let hits = filter (same_resource tenant connector conn resource) cs
      in if hits = [] then None else Some (cursor (last hits)))"
  by (induction cs rule: rev_induct)
     (auto simp: get_cursor_def get_connector_cursors_def same_resource_def Let_def)

lemma filter_update_rows:
  "(\<And>c. hit (f c) = hit c) \<Longrightarrow> filter hit (update_rows hit f cs) = map f (filter hit cs)"
  "(\<And>c. hit c \<Longrightarrow> \<not> other c \<and> \<not> other (f c)) \<Longrightarrow> filter other (update_rows hit f cs) = filter other cs"
  by (induction cs) (auto simp: update_rows_def)

lemma get_upsert_cursor:
  "get_cursor tenant connector conn q (upsert_sync_cursor tenant connector conn resource t cs) =
     (if q = resource then Some t else get_cursor tenant connector conn q cs)"
proof -
  let ?hit = "same_resource tenant connector conn resource" and ?q = "same_resource tenant connector conn q"
  have up: "upsert_sync_cursor tenant connector conn resource t cs =
      (if list_ex ?hit cs then update_rows ?hit (\<lambda>c. c\<lparr>cursor := t\<rparr>) cs
       else cs @ [\<lparr>cur_tenant = tenant, cur_connector = connector, cur_connection = conn, cur_resource = resource, cursor = t\<rparr>])"
    unfolding upsert_sync_cursor_def Let_def same_resource_def [abs_def] ..
  show ?thesis
  proof (cases "q = resource")
    case True
    have "filter ?hit (update_rows ?hit (\<lambda>c. c\<lparr>cursor := t\<rparr>) cs) = map (\<lambda>c. c\<lparr>cursor := t\<rparr>) (filter ?hit cs)"
      by (rule filter_update_rows(1)) (simp add: same_resource_def cursor_scope_def)
    moreover have "list_ex ?hit cs \<longleftrightarrow> filter ?hit cs \<noteq> []"
      by (auto simp: list_ex_iff filter_empty_conv)
    ultimately show ?thesis
      using True by (auto simp: up get_cursor_alt Let_def last_map same_resource_def cursor_scope_def)
  next
    case False
    have "filter ?q (update_rows ?hit (\<lambda>c. c\<lparr>cursor := t\<rparr>) cs) = filter ?q cs"
      by (rule filter_update_rows(2)) (use False in \<open>simp add: same_resource_def\<close>)
    with False show ?thesis
      by (simp add: up get_cursor_alt same_resource_def)
  qed
qed

end
