(* ===== verification/Py_Steps.thy ===== *)
theory Py_Steps
  imports Main
begin

text \<open>
  Code that changes a state and may raise: a step returns a value or an exception, and the state
  it leaves, which an exception keeps. \<open>triple P m Q E\<close> says that \<open>m\<close>, started where \<open>P\<close>
  holds, ends in \<open>Q\<close> when it returns and in \<open>E\<close> when it raises. A step that is \<open>quiet\<close> for a view
  of the state leaves that view alone on both exits.
\<close>

type_synonym ('e, 'x, 's) run = "'s \<Rightarrow> ('e + 'x) \<times> 's"

definition give :: "'x \<Rightarrow> ('e, 'x, 's) run" where
  "give x s = (Inr x, s)"

definition raise :: "'e \<Rightarrow> ('e, 'x, 's) run" where
  "raise e s = (Inl e, s)"

definition lift_exn :: "'e + 'x \<Rightarrow> ('e, 'x, 's) run" where
  "lift_exn r s = (r, s)"

definition andthen :: "('e, 'x, 's) run \<Rightarrow> ('x \<Rightarrow> ('e, 'y, 's) run) \<Rightarrow> ('e, 'y, 's) run" where
  "andthen m k s = (case m s of (Inl e, s1) \<Rightarrow> (Inl e, s1) | (Inr x, s1) \<Rightarrow> k x s1)"

definition change :: "('s \<Rightarrow> 's) \<Rightarrow> ('e, unit, 's) run" where
  "change f s = (Inr (), f s)"

text \<open>A loop over a list.\<close>

fun each :: "('a \<Rightarrow> ('e, unit, 's) run) \<Rightarrow> 'a list \<Rightarrow> ('e, unit, 's) run" where
  "each f [] = give ()"
| "each f (x # xs) = andthen (f x) (\<lambda>_. each f xs)"

subsection \<open>Triples\<close>

definition triple ::
  "('s \<Rightarrow> bool) \<Rightarrow> ('e, 'x, 's) run \<Rightarrow> ('x \<Rightarrow> 's \<Rightarrow> bool) \<Rightarrow> ('s \<Rightarrow> bool) \<Rightarrow> bool" where
  "triple P m Q E \<longleftrightarrow> (\<forall>s. P s \<longrightarrow> (case m s of (Inl _, s1) \<Rightarrow> E s1 | (Inr x, s1) \<Rightarrow> Q x s1))"

lemma tripleI:
  "(\<And>s e s1. P s \<Longrightarrow> m s = (Inl e, s1) \<Longrightarrow> E s1) \<Longrightarrow> (\<And>s x s1. P s \<Longrightarrow> m s = (Inr x, s1) \<Longrightarrow> Q x s1) \<Longrightarrow>
   triple P m Q E"
  unfolding triple_def by (auto split: prod.split sum.split)

lemma tripleD_raise: "triple P m Q E \<Longrightarrow> P s \<Longrightarrow> m s = (Inl e, s1) \<Longrightarrow> E s1"
  unfolding triple_def by (drule spec [of _ s]) simp

lemma tripleD_return: "triple P m Q E \<Longrightarrow> P s \<Longrightarrow> m s = (Inr x, s1) \<Longrightarrow> Q x s1"
  unfolding triple_def by (drule spec [of _ s]) simp

lemma triple_state: "(\<And>s. P s \<Longrightarrow> Q (snd (m s))) \<Longrightarrow> triple P m (\<lambda>_. Q) Q"
  by (rule tripleI) (metis snd_conv)+

lemma triple_stateD: "triple P m (\<lambda>_. Q) Q \<Longrightarrow> P s \<Longrightarrow> Q (snd (m s))"
  by (cases "m s"; cases "fst (m s)") (auto dest: tripleD_raise tripleD_return)

lemma triple_weaken:
  assumes m: "triple P m Q E" and "\<And>s. P' s \<Longrightarrow> P s" and "\<And>x s. Q x s \<Longrightarrow> Q' x s" and "\<And>s. E s \<Longrightarrow> E' s"
  shows "triple P' m Q' E'"
proof (rule tripleI)
  fix s e s1
  assume "P' s" and "m s = (Inl e, s1)"
  then show "E' s1"
    using assms(4) [OF tripleD_raise [OF m assms(2)]] by simp
next
  fix s x s1
  assume "P' s" and "m s = (Inr x, s1)"
  then show "Q' x s1"
    using assms(3) [OF tripleD_return [OF m assms(2)]] by simp
qed

lemma andthen_cases:
  assumes "andthen m k s = r"
  obtains (raised) e s1 where "m s = (Inl e, s1)" "r = (Inl e, s1)" | (went_on) x s1 where "m s = (Inr x, s1)" "r = k x s1"
  using assms by (cases "m s"; cases "fst (m s)") (auto simp: andthen_def)

lemma triple_andthen:
  assumes m: "triple P m R E" and k: "\<And>x. triple (R x) (k x) Q E"
  shows "triple P (andthen m k) Q E"
proof (rule tripleI)
  fix s e s1
  assume P: "P s" and "andthen m k s = (Inl e, s1)"
  from this(2) show "E s1"
  proof (cases rule: andthen_cases)
    case (raised f t)
    then show ?thesis
      using tripleD_raise [OF m P] by simp
  next
    case (went_on x t)
    show ?thesis
      by (rule tripleD_raise [OF k tripleD_return [OF m P went_on(1)] went_on(2) [symmetric]])
  qed
next
  fix s x s1
  assume P: "P s" and "andthen m k s = (Inr x, s1)"
  from this(2) show "Q x s1"
  proof (cases rule: andthen_cases)
    case (raised f t)
    then show ?thesis
      by simp
  next
    case (went_on y t)
    show ?thesis
      by (rule tripleD_return [OF k tripleD_return [OF m P went_on(1)] went_on(2) [symmetric]])
  qed
qed

lemma triple_give: "(\<And>s. P s \<Longrightarrow> Q x s) \<Longrightarrow> triple P (give x) Q E"
  by (rule tripleI) (auto simp: give_def)

lemma triple_give': "triple (Q x) (give x) Q E"
  by (rule triple_give)

lemma triple_read: "(\<And>s. P s \<Longrightarrow> Q (f s) s) \<Longrightarrow> triple P (\<lambda>s. give (f s) s) Q E"
  by (rule tripleI) (auto simp: give_def)

lemma triple_raise: "(\<And>s. P s \<Longrightarrow> E s) \<Longrightarrow> triple P (raise e) Q E"
  by (rule tripleI) (auto simp: raise_def)

lemma triple_if: "(c \<Longrightarrow> triple P m Q E) \<Longrightarrow> (\<not> c \<Longrightarrow> triple P n Q E) \<Longrightarrow> triple P (if c then m else n) Q E"
  by simp

lemma triple_pure: "(C \<Longrightarrow> triple P m Q E) \<Longrightarrow> triple (\<lambda>s. C \<and> P s) m Q E"
  by (auto simp: triple_def)

lemma triple_prod:
  "(\<And>x y. triple P (f x y) Q E) \<Longrightarrow> triple P (case z of (x, y) \<Rightarrow> f x y) Q E"
  by (cases z) simp

lemma triple_change: "(\<And>s. P s \<Longrightarrow> Q () (f s)) \<Longrightarrow> triple P (change f) Q E"
  by (rule tripleI) (auto simp: change_def)

lemma triple_each: "(\<And>x. x \<in> set xs \<Longrightarrow> triple P (f x) (\<lambda>_. P) E) \<Longrightarrow> triple P (each f xs) (\<lambda>_. P) E"
proof (induction xs)
  case Nil
  show ?case
    by (simp add: triple_give)
next
  case (Cons x xs)
  have "triple P (f x) (\<lambda>_. P) E" and "triple P (each f xs) (\<lambda>_. P) E"
    using Cons by simp_all
  then show ?case
    by (simp add: triple_andthen)
qed

lemma triple_option:
  "triple P m Q E \<Longrightarrow> (\<And>x. triple P (n x) Q E) \<Longrightarrow> triple P (case z of None \<Rightarrow> m | Some x \<Rightarrow> n x) Q E"
  by (cases z) simp_all

lemma triple_opt_pair:
  "triple P m Q E \<Longrightarrow> (\<And>x y. triple P (n x y) Q E) \<Longrightarrow>
   triple P (case (a, b) of (Some x, Some y) \<Rightarrow> n x y | _ \<Rightarrow> m) Q E"
  by (cases a; cases b) simp_all

lemma triple_crash: "triple P (raise e) Q (\<lambda>_. True)"
  by (rule triple_raise) simp

lemma triple_reader: "(\<And>t. P t \<Longrightarrow> triple P (m t) Q E) \<Longrightarrow> triple P (\<lambda>s. m s s) Q E"
  by (auto simp: triple_def)

lemma then_give: "triple P m (\<lambda>_. Q) E \<Longrightarrow> triple P (andthen m (\<lambda>x. give (f x))) (\<lambda>_. Q) E"
  by (erule triple_andthen) (rule triple_give, assumption)

text \<open>Steps that leave a view of the state alone.\<close>

definition quiet :: "('s \<Rightarrow> 'w) \<Rightarrow> ('e, 'x, 's) run \<Rightarrow> bool" where
  "quiet view m \<longleftrightarrow> (\<forall>s. view (snd (m s)) = view s)"

lemma quiet_triple:
  assumes "quiet view m"
  shows "triple (\<lambda>s. P (view s)) m (\<lambda>_ s. P (view s)) (\<lambda>s. P (view s))"
proof (rule tripleI)
  fix s e s1
  assume "P (view s)" and "m s = (Inl e, s1)"
  then show "P (view s1)"
    using assms unfolding quiet_def by (metis snd_conv)
next
  fix s x s1
  assume "P (view s)" and "m s = (Inr x, s1)"
  then show "P (view s1)"
    using assms unfolding quiet_def by (metis snd_conv)
qed

lemma quiet_andthen:
  assumes "quiet view m" and "\<And>x. quiet view (k x)"
  shows "quiet view (andthen m k)"
  unfolding quiet_def
proof
  fix s
  have "view (snd (m s)) = view s"
    using assms(1) by (simp add: quiet_def)
  moreover have "view (snd (k x s1)) = view s1" for x s1
    using assms(2) by (simp add: quiet_def)
  ultimately show "view (snd (andthen m k s)) = view s"
    by (cases "m s"; cases "fst (m s)") (auto simp: andthen_def)
qed

lemma quiet_pure:
  "quiet view (give x)" "quiet view (raise e)" "quiet view (lift_exn r)" "quiet view (\<lambda>s. give (f s) s)"
  by (simp_all add: quiet_def give_def raise_def lift_exn_def)

lemma quiet_if: "quiet view m \<Longrightarrow> quiet view n \<Longrightarrow> quiet view (if c then m else n)"
  by simp

lemma quiet_option: "quiet v m \<Longrightarrow> (\<And>x. quiet v (n x)) \<Longrightarrow> quiet v (case z of None \<Rightarrow> m | Some x \<Rightarrow> n x)"
  by (cases z) simp_all

lemma quiet_if_state: "quiet view m \<Longrightarrow> quiet view n \<Longrightarrow> quiet view (\<lambda>s. if c s then m s else n s)"
  by (simp add: quiet_def)

lemma quiet_read: "(\<And>s. m s = n s s) \<Longrightarrow> (\<And>s. quiet view (n s)) \<Longrightarrow> quiet view m"
  by (simp add: quiet_def)

lemma quiet_change: "(\<And>s. view (f s) = view s) \<Longrightarrow> quiet view (change f)"
  by (simp add: quiet_def change_def)

lemma quiet_each: "(\<And>x. x \<in> set xs \<Longrightarrow> quiet view (f x)) \<Longrightarrow> quiet view (each f xs)"
  by (induction xs) (simp_all add: quiet_pure quiet_andthen)

end
