(* ===== verification/Sync_Pipeline.thy ===== *)
theory Sync_Pipeline
  imports Sync_Runs Bulk_Upsert Py_Steps
begin

text \<open>
  The sync pipeline (\<^verbatim>\<open>_run_pipeline\<close> of \<^verbatim>\<open>sync/orchestrator.py\<close>): one run fetches
  the accounts of a connection and, account by account, stores balances, holdings and
  transactions and advances the account's watermark.

  A session has the committed store, which other sessions see, and its working copy. Leaving a
  unit of work commits the working copy, an exception restores it. The local variables of the
  pipeline survive either. What the provider answers or raises, how accounts, balances, holdings
  and outbox messages are stored in the rest of the database (of type \<open>'d\<close>), the
  reclassification of bunq's own transfers, fresh identifiers and the clock are arguments.
\<close>

record ('v, 'd) store =
  s_runs :: "sync_run list"
  s_cursors :: "sync_cursor list"
  s_txns :: "'v txn_table"
  s_data :: 'd

record ('v, 'd) session =
  committed :: "('v, 'd) store"
  working :: "('v, 'd) store"
  p_run :: "pystr option"
  p_accounts :: nat
  p_transactions :: nat
  p_holdings :: nat
  p_unresolved :: "pystr set"
  p_account_ids :: "pystr list"
  p_report :: "(pystr \<times> nat) list"

text \<open>A fetched transaction, with the columns that are derived from it.\<close>

record 'v canonical_txn =
  ct_provider :: pystr
  ct_external :: pystr
  ct_cols :: "pystr \<Rightarrow> 'v option"

record ('v, 'd) pipeline_env =
  tenant :: pystr
  provider_type :: pystr
  connection :: "pystr option"
  start_ts :: instant
  clock :: "pystr \<Rightarrow> pystr option \<Rightarrow> instant"
  new_run_id :: pystr
  failed_run_id :: pystr
  racing_runs :: "sync_run list"
  authenticate :: "sync_exn option"
  fetch_accounts :: "sync_exn + pystr list"
  supports_holdings :: bool
  initial_lookback_days :: "int option"
  persist_account :: "pystr \<Rightarrow> 'd \<Rightarrow> sync_exn + pystr \<times> 'd"
  persist_cash_balances :: "pystr \<Rightarrow> pystr \<Rightarrow> 'd \<Rightarrow> sync_exn + 'd"
  sync_holdings :: "pystr \<Rightarrow> pystr \<Rightarrow> 'd \<Rightarrow> sync_exn + (nat \<times> pystr set) \<times> 'd"
  fetch_transactions :: "instant \<Rightarrow> pystr \<Rightarrow> sync_exn + 'v canonical_txn list"
  reclassify :: "'v canonical_txn \<Rightarrow> pystr \<Rightarrow> 'v option"
  classified :: "'v canonical_txn \<Rightarrow> bool"
  has_splits :: "'v canonical_txn \<Rightarrow> bool"
  resolve_securities :: "'v canonical_txn list \<Rightarrow> 'd \<Rightarrow> sync_exn + ('v option list \<times> pystr set) \<times> 'd"
  fresh_row_id :: "pystr \<Rightarrow> nat \<Rightarrow> pystr"
  emit_batch :: "upsert_result \<Rightarrow> 'd \<Rightarrow> sync_exn + 'd"
  excluded_pairs :: "'v txn_table \<Rightarrow> 'v txn_row \<Rightarrow> (pystr \<Rightarrow> 'v option) option"
  emit_sync_completed :: "'d \<Rightarrow> sync_exn + 'd"

subsection \<open>Sessions\<close>

type_synonym ('x, 'v, 'd) step = "(sync_exn, 'x, ('v, 'd) session) run"

definition on_session :: "(('v, 'd) session \<Rightarrow> ('v, 'd) session) \<Rightarrow> (unit, 'v, 'd) step" where
  "on_session f s = (Inr (), f s)"

definition on_store :: "(('v, 'd) store \<Rightarrow> ('v, 'd) store) \<Rightarrow> (unit, 'v, 'd) step" where
  "on_store f s = (Inr (), s\<lparr>working := f (working s)\<rparr>)"

definition on_data :: "('d \<Rightarrow> sync_exn + 'x \<times> 'd) \<Rightarrow> ('x, 'v, 'd) step" where
  "on_data f s =
     (case f (s_data (working s)) of
        Inl e \<Rightarrow> (Inl e, s) | Inr (x, d) \<Rightarrow> (Inr x, s\<lparr>working := (working s)\<lparr>s_data := d\<rparr>\<rparr>))"

definition commit :: "(unit, 'v, 'd) step" where
  "commit s = (Inr (), s\<lparr>committed := working s\<rparr>)"

definition in_uow :: "('x, 'v, 'd) step \<Rightarrow> ('x, 'v, 'd) step" where
  "in_uow m s =
     (case m s of
        (Inl e, s1) \<Rightarrow> (Inl e, s1\<lparr>working := committed s1\<rparr>)
      | (Inr x, s1) \<Rightarrow> (Inr x, s1\<lparr>committed := working s1\<rparr>))"

subsection \<open>One account\<close>

definition heartbeat :: "('v, 'd) pipeline_env \<Rightarrow> pystr \<Rightarrow> pystr option \<Rightarrow> (unit, 'v, 'd) step" where
  "heartbeat env stage acct s =
     (case p_run s of
        None \<Rightarrow> (Inr (), s)
      | Some i \<Rightarrow>
          on_store (\<lambda>x. x\<lparr>s_runs := update_sync_run_progress (clock env stage acct) i stage acct (s_runs x)\<rparr>) s)"

text \<open>The start of the window that is fetched for an account.\<close>

definition legacy_rows :: "('v, 'd) pipeline_env \<Rightarrow> pystr \<Rightarrow> 'v txn_table \<Rightarrow> bool" where
  "legacy_rows env account_id tbl \<longleftrightarrow>
     list_ex (\<lambda>r. row_account r = account_id \<and>
       (case row_key r of (_, p, _, ext) \<Rightarrow> p = provider_type env \<and> ext = ''txn_'')) tbl"

definition account_since ::
  "('v, 'd) pipeline_env \<Rightarrow> instant \<Rightarrow> (pystr \<times> instant) list \<Rightarrow> pystr \<Rightarrow> pystr \<Rightarrow> 'v txn_table \<Rightarrow> instant" where
  "account_since env since cursors a account_id tbl =
     (let now = clock env ''account_since'' (Some a)
      in case map_of (rev cursors) a of
           None \<Rightarrow>
             (case initial_lookback_days env of
                Some d \<Rightarrow> if provider_type env = ''trading212'' \<and> d \<noteq> 0 then min since (now - days d) else since
              | None \<Rightarrow> since)
         | Some c \<Rightarrow>
             if provider_type env = ''trading212'' \<and> legacy_rows env account_id tbl
             then now - days (case initial_lookback_days env of Some d \<Rightarrow> d | None \<Rightarrow> 3650)
             else c)"

definition txn_row_of ::
  "('v, 'd) pipeline_env \<Rightarrow> pystr \<Rightarrow> pystr \<Rightarrow> 'v option list \<Rightarrow> nat \<Rightarrow> 'v canonical_txn \<Rightarrow> 'v txn_row" where
  "txn_row_of env a account_id secs i t =
     \<lparr>row_id = fresh_row_id env a i,
      row_key = (tenant env, ct_provider t, connection env, ct_external t),
      row_account = account_id,
      cols = (ct_cols t)(''security_id'' := (if i < length secs then secs ! i else None)),
      revision = 1\<rparr>"

definition txn_rows ::
  "('v, 'd) pipeline_env \<Rightarrow> pystr \<Rightarrow> pystr \<Rightarrow> 'v option list \<Rightarrow> 'v canonical_txn list \<Rightarrow> 'v txn_row list" where
  "txn_rows env a account_id secs ts = map (\<lambda>(i, t). txn_row_of env a account_id secs i t) (enumerate 0 ts)"

definition persist_transactions_batch :: "'v txn_row list \<Rightarrow> (upsert_result, 'v, 'd) step" where
  "persist_transactions_batch rows s =
     (case bulk_upsert_transactions update_columns rows (s_txns (working s)) of
        Inl _ \<Rightarrow> (Inl (Database_error ''CardinalityViolation''), s)
      | Inr (res, tbl) \<Rightarrow> (Inr res, s\<lparr>working := (working s)\<lparr>s_txns := tbl\<rparr>\<rparr>))"

text \<open>The counters of a batch and their sum over the accounts, dictionaries with the same keys.\<close>

definition stage_report ::
  "('v, 'd) pipeline_env \<Rightarrow> upsert_result \<Rightarrow> 'v canonical_txn list \<Rightarrow> (pystr \<times> nat) list" where
  "stage_report env res ts =
     (let out = upsert_outcome (length ts) res
      in [(''new'', new out), (''changed'', changed out), (''unchanged'', unchanged out),
          (''classified'', length (filter (classified env) ts)),
          (''unclassified'', length (filter (\<lambda>t. \<not> classified env t) ts)),
          (''split'', length (filter (has_splits env) ts)), (''skipped'', 0), (''failed'', 0)])"

definition add_to_report :: "(pystr \<times> nat) list \<Rightarrow> (pystr \<times> nat) list \<Rightarrow> (pystr \<times> nat) list" where
  "add_to_report counters report =
     map (\<lambda>(k, n). (k, (case map_of report k of None \<Rightarrow> 0 | Some m \<Rightarrow> m) + n)) counters"

definition store_transactions ::
  "('v, 'd) pipeline_env \<Rightarrow> pystr \<Rightarrow> pystr \<Rightarrow> 'v canonical_txn list \<Rightarrow>
   (pystr set \<times> (pystr \<times> nat) list, 'v, 'd) step" where
  "store_transactions env a account_id ts =
     andthen (on_data (resolve_securities env ts)) (\<lambda>(secs, unresolved).
     andthen (persist_transactions_batch (txn_rows env a account_id secs ts)) (\<lambda>res.
     andthen (if inserted_ids res @ updated_ids res = [] then give ()
              else on_data (\<lambda>d. map_sum id (Pair ()) (emit_batch env res d))) (\<lambda>_.
     give (unresolved, stage_report env res ts))))"

definition advance_cursor :: "('v, 'd) pipeline_env \<Rightarrow> pystr \<Rightarrow> (unit, 'v, 'd) step" where
  "advance_cursor env a =
     on_store (\<lambda>x. x\<lparr>s_cursors :=
       upsert_sync_cursor (tenant env) (provider_type env) (connection env) a (start_ts env) (s_cursors x)\<rparr>)"

definition holdings_step :: "('v, 'd) pipeline_env \<Rightarrow> pystr \<Rightarrow> pystr \<Rightarrow> (nat \<times> pystr set, 'v, 'd) step" where
  "holdings_step env a account_id =
     (if supports_holdings env
      then andthen (heartbeat env ''fetch_holdings'' (Some a)) (\<lambda>_.
           andthen (heartbeat env ''persist_holdings'' (Some a)) (\<lambda>_.
           on_data (sync_holdings env a account_id)))
      else give (0, {}))"

definition transactions_step ::
  "('v, 'd) pipeline_env \<Rightarrow> instant \<Rightarrow> pystr \<Rightarrow> pystr \<Rightarrow>
   (nat \<times> pystr set \<times> (pystr \<times> nat) list, 'v, 'd) step" where
  "transactions_step env since a account_id =
     andthen (heartbeat env ''fetch_transactions'' (Some a)) (\<lambda>_.
     andthen (lift_exn (fetch_transactions env since a)) (\<lambda>fetched.
     (let ts = map (\<lambda>t. t\<lparr>ct_cols := reclassify env t\<rparr>) fetched
      in andthen (heartbeat env ''persist_transactions'' (Some a)) (\<lambda>_.
         andthen (store_transactions env a account_id ts) (\<lambda>outcome.
         give (length ts, outcome))))))"

text \<open>The unit of work of an account; \<open>None\<close> is its early end without an account id.\<close>

definition account_work ::
  "('v, 'd) pipeline_env \<Rightarrow> instant \<Rightarrow> (pystr \<times> instant) list \<Rightarrow> pystr \<Rightarrow>
   ((nat \<times> nat \<times> pystr set \<times> (pystr \<times> nat) list) option, 'v, 'd) step" where
  "account_work env since cursors a =
     andthen (on_data (persist_account env a)) (\<lambda>account_id.
     if account_id = [] then give None
     else andthen (\<lambda>s. give (account_since env since cursors a account_id (s_txns (working s))) s) (\<lambda>from.
          andthen (on_data (\<lambda>d. map_sum id (Pair ()) (persist_cash_balances env account_id a d))) (\<lambda>_.
          andthen (holdings_step env a account_id) (\<lambda>(nh, uh).
          andthen (transactions_step env from a account_id) (\<lambda>(nt, ut, report).
          andthen (heartbeat env ''persist_sync_cursor'' (Some a)) (\<lambda>_.
          andthen (advance_cursor env a) (\<lambda>_.
          give (Some (nt, nh, ut \<union> uh, report)))))))))"

definition add_counts ::
  "(nat \<times> nat \<times> pystr set \<times> (pystr \<times> nat) list) option \<Rightarrow> ('v, 'd) session \<Rightarrow> ('v, 'd) session" where
  "add_counts c s =
     (case c of
        None \<Rightarrow> s
      | Some (nt, nh, u, report) \<Rightarrow>
          s\<lparr>p_transactions := p_transactions s + nt, p_holdings := p_holdings s + nh, p_unresolved := p_unresolved s \<union> u,
            p_report := add_to_report report (p_report s)\<rparr>)"

definition sync_account ::
  "('v, 'd) pipeline_env \<Rightarrow> instant \<Rightarrow> (pystr \<times> instant) list \<Rightarrow> pystr \<Rightarrow> (unit, 'v, 'd) step" where
  "sync_account env since cursors a =
     andthen (heartbeat env ''persist_account'' (Some a)) (\<lambda>_.
     andthen (in_uow (account_work env since cursors a)) (\<lambda>c.
     on_session (add_counts c)))"

fun sync_accounts ::
  "('v, 'd) pipeline_env \<Rightarrow> instant \<Rightarrow> (pystr \<times> instant) list \<Rightarrow> pystr list \<Rightarrow> (unit, 'v, 'd) step" where
  "sync_accounts env since cursors [] = give ()"
| "sync_accounts env since cursors (a # as) =
     andthen (sync_account env since cursors a) (\<lambda>_. sync_accounts env since cursors as)"

subsection \<open>The run\<close>

definition begin_run :: "('v, 'd) pipeline_env \<Rightarrow> (unit, 'v, 'd) step" where
  "begin_run env s =
     (case start_sync_run (clock env ''start_sync_run'' None) (new_run_id env) (racing_runs env) (provider_type env)
             (connection env) (s_runs (working s)) of
        Inl e \<Rightarrow> (Inl e, s)
      | Inr rs \<Rightarrow> (Inr (), s\<lparr>working := (working s)\<lparr>s_runs := rs\<rparr>, p_run := Some (new_run_id env)\<rparr>))"

definition authenticate_step :: "('v, 'd) pipeline_env \<Rightarrow> bool \<Rightarrow> (unit, 'v, 'd) step" where
  "authenticate_step env authenticated =
     (if authenticated then give ()
      else andthen (heartbeat env ''authenticate'' None) (\<lambda>_.
           case authenticate env of None \<Rightarrow> give () | Some e \<Rightarrow> raise e))"

definition chosen :: "pystr list option \<Rightarrow> pystr list \<Rightarrow> pystr list" where
  "chosen selected accounts =
     (case selected of None \<Rightarrow> accounts | Some sel \<Rightarrow> if sel = [] then accounts else filter (\<lambda>a. a \<in> set sel) accounts)"

definition accounts_step :: "('v, 'd) pipeline_env \<Rightarrow> pystr list option \<Rightarrow> (pystr list, 'v, 'd) step" where
  "accounts_step env selected =
     andthen (heartbeat env ''fetch_accounts'' None) (\<lambda>_.
     andthen (lift_exn (fetch_accounts env)) (\<lambda>accounts.
     andthen (on_session (\<lambda>s. s\<lparr>p_accounts := length (chosen selected accounts), p_account_ids := chosen selected accounts\<rparr>)) (\<lambda>_.
     if selected \<noteq> None \<and> selected \<noteq> Some [] \<and> chosen selected accounts = []
     then raise (Permanent_error
       ''Account selection validation failed: none of the selected accounts was returned by the provider'')
     else give (chosen selected accounts))))"

definition exclude_pairs :: "('v, 'd) pipeline_env \<Rightarrow> (unit, 'v, 'd) step" where
  "exclude_pairs env =
     on_store (\<lambda>x. if provider_type env \<noteq> ''bunq'' then x
       else x\<lparr>s_txns := map (\<lambda>r. case excluded_pairs env (s_txns x) r of
                                  None \<Rightarrow> r | Some c \<Rightarrow> r\<lparr>cols := c, revision := revision r + 1\<rparr>) (s_txns x)\<rparr>)"

definition run_completion :: "('v, 'd) pipeline_env \<Rightarrow> ('v, 'd) session \<Rightarrow> completion" where
  "run_completion env s =
     \<lparr>c_status = Run_completed, c_items = Some (int (p_accounts s + p_transactions s + p_holdings s)), c_message = None,
      c_category = None, c_cursor = Some (start_ts env), c_retry_after = None, c_attempts = 0, c_scope = None,
      c_http_status = None,
      c_report = Some (map (\<lambda>(k, n). (k, PInt (int n))) (p_report s) @
        [(''accounts'', PInt (int (p_accounts s))), (''account_external_ids'', PList (map PStr (p_account_ids s))),
         (''transactions'', PInt (int (p_transactions s))), (''holdings'', PInt (int (p_holdings s))),
         (''unresolved'', PInt (int (card (p_unresolved s))))])\<rparr>"

definition finish_run :: "('v, 'd) pipeline_env \<Rightarrow> (unit, 'v, 'd) step" where
  "finish_run env =
     andthen (\<lambda>s. on_store (\<lambda>x. x\<lparr>s_runs :=
       complete_sync_run (clock env ''complete'' None) (new_run_id env) (run_completion env s) (s_runs x)\<rparr>) s) (\<lambda>_.
     andthen (\<lambda>s. if supports_holdings env \<or> p_unresolved s \<noteq> {}
              then on_data (\<lambda>d. map_sum id (Pair ()) (emit_sync_completed env d)) s else give () s) (\<lambda>_.
     commit))"

definition pipeline_body ::
  "('v, 'd) pipeline_env \<Rightarrow> instant \<Rightarrow> bool \<Rightarrow> pystr list option \<Rightarrow> pystr option \<Rightarrow> bool \<Rightarrow> (unit, 'v, 'd) step" where
  "pipeline_body env since resume selected compatibility_error authenticated =
     andthen (begin_run env) (\<lambda>_.
     andthen (if truthy compatibility_error then raise (Permanent_error (the compatibility_error)) else give ()) (\<lambda>_.
     andthen (authenticate_step env authenticated) (\<lambda>_.
     andthen (accounts_step env selected) (\<lambda>accounts.
     andthen commit (\<lambda>_.
     andthen (\<lambda>s. give (if resume
                then get_connector_cursors (tenant env) (provider_type env) (connection env) (s_cursors (working s))
                else []) s) (\<lambda>cursors.
     andthen (sync_accounts env since cursors accounts) (\<lambda>_.
     andthen (exclude_pairs env) (\<lambda>_.
     finish_run env))))))))"

subsection \<open>Results\<close>

record sync_result =
  sr_status :: run_status
  sr_accounts :: nat
  sr_transactions :: nat
  sr_holdings :: nat
  sr_unresolved :: nat
  sr_message :: "pystr option"
  sr_category :: "pystr option"
  sr_kind :: "sync_error_kind option"
  sr_retry_after :: "instant option"
  sr_scope :: "pystr option"
  sr_attempts :: int

definition failure_of :: "instant \<Rightarrow> sync_exn \<Rightarrow> failure" where
  "failure_of end_ts e =
     (case e of
        Rate_limit_error retry m \<Rightarrow>
          \<lparr>f_message = m, f_category = categorize_sync_error e,
           f_retry_after = map_option (\<lambda>secs. end_ts + seconds secs) retry, f_attempts = 1,
           f_scope = Some ''connection'', f_http_status = Some 429\<rparr>
      | _ \<Rightarrow>
          \<lparr>f_message = (if is_connector_error e then exn_text e else safe_sync_error_message e),
           f_category = categorize_sync_error e, f_retry_after = None, f_attempts = 0, f_scope = None,
           f_http_status = None\<rparr>)"

definition failed_result :: "instant \<Rightarrow> sync_exn \<Rightarrow> ('v, 'd) session \<Rightarrow> sync_result" where
  "failed_result end_ts e s =
     (case e of
        Already_running_error _ \<Rightarrow>
          \<lparr>sr_status = Run_failed, sr_accounts = 0, sr_transactions = 0, sr_holdings = 0, sr_unresolved = 0,
           sr_message = Some ''Sync overgeslagen: er draait al een sync'', sr_category = Some ''already_running'',
           sr_kind = None, sr_retry_after = None, sr_scope = None, sr_attempts = 0\<rparr>
      | _ \<Rightarrow>
          (let f = failure_of end_ts e
           in \<lparr>sr_status = Run_failed, sr_accounts = p_accounts s, sr_transactions = p_transactions s,
               sr_holdings = p_holdings s, sr_unresolved = card (p_unresolved s), sr_message = Some (f_message f),
               sr_category = Some (f_category f), sr_kind = Some (classify_sync_error e),
               sr_retry_after = f_retry_after f, sr_scope = f_scope f, sr_attempts = f_attempts f\<rparr>))"

definition open_session :: "('v, 'd) store \<Rightarrow> ('v, 'd) session" where
  "open_session db =
     \<lparr>committed = db, working = db, p_run = None, p_accounts = 0, p_transactions = 0, p_holdings = 0, p_unresolved = {},
      p_account_ids = [], p_report = []\<rparr>"

text \<open>
  The pipeline with its handlers: the result and the committed store. Cancellation of the task is
  not caught; it ends the session like any exception.
\<close>

definition run_pipeline ::
  "('v, 'd) pipeline_env \<Rightarrow> instant \<Rightarrow> bool \<Rightarrow> pystr list option \<Rightarrow> pystr option \<Rightarrow> bool \<Rightarrow> ('v, 'd) store \<Rightarrow>
   (sync_exn + sync_result) \<times> ('v, 'd) store" where
  "run_pipeline env since resume selected compatibility_error authenticated db =
     (let end_ts = clock env ''end'' None
      in case pipeline_body env since resume selected compatibility_error authenticated (open_session db) of
           (Inr _, s) \<Rightarrow>
             (Inr \<lparr>sr_status = Run_completed, sr_accounts = p_accounts s, sr_transactions = p_transactions s,
                   sr_holdings = p_holdings s, sr_unresolved = card (p_unresolved s), sr_message = None,
                   sr_category = None, sr_kind = None, sr_retry_after = None, sr_scope = None, sr_attempts = 0\<rparr>,
              committed s)
         | (Inl Cancelled_error, s) \<Rightarrow> (Inl Cancelled_error, committed s)
         | (Inl (Already_running_error m), s) \<Rightarrow> (Inr (failed_result end_ts (Already_running_error m) s), committed s)
         | (Inl e, s) \<Rightarrow>
             (Inr (failed_result end_ts e s),
              (committed s)\<lparr>s_runs :=
                mark_sync_run_failed end_ts (failed_run_id env) (p_run s) (Some (provider_type env)) (connection env)
                  (failure_of end_ts e) (s_runs (committed s))\<rparr>))"

end
