(* ===== verification/Sync_Step_Logic.thy ===== *)
theory Sync_Step_Logic
  imports Sync_Pipeline
begin

text \<open>
  The rules of the step logic of \<open>Py_Steps\<close> for the steps of the sync pipeline: units of work,
  commits, and updates of the session or of its working store.
\<close>

lemma triple_in_uow:
  assumes "triple P m Q E"
    and "\<And>x s. Q x s \<Longrightarrow> Q' x (s\<lparr>committed := working s\<rparr>)" and "\<And>s. E s \<Longrightarrow> E' (s\<lparr>working := committed s\<rparr>)"
  shows "triple P (in_uow m) Q' E'"
proof (rule tripleI)
  fix s e s1
  assume "P s" and r: "in_uow m s = (Inl e, s1)"
  then show "E' s1"
    using tripleD_raise [OF assms(1)] assms(3) by (cases "m s"; cases "fst (m s)") (auto simp: in_uow_def)
next
  fix s x s1
  assume "P s" and r: "in_uow m s = (Inr x, s1)"
  then show "Q' x s1"
    using tripleD_return [OF assms(1)] assms(2) by (cases "m s"; cases "fst (m s)") (auto simp: in_uow_def)
qed

lemma triple_commit: "(\<And>s. P s \<Longrightarrow> Q () (s\<lparr>committed := working s\<rparr>)) \<Longrightarrow> triple P commit Q E"
  by (rule tripleI) (auto simp: commit_def)

lemma triple_on_store: "(\<And>s. P s \<Longrightarrow> Q () (s\<lparr>working := f (working s)\<rparr>)) \<Longrightarrow> triple P (on_store f) Q E"
  by (rule tripleI) (auto simp: on_store_def)

lemma triple_on_session: "(\<And>s. P s \<Longrightarrow> Q () (f s)) \<Longrightarrow> triple P (on_session f) Q E"
  by (rule tripleI) (auto simp: on_session_def)

lemma quiet_on_store: "(\<And>s. view (s\<lparr>working := f (working s)\<rparr>) = view s) \<Longrightarrow> quiet view (on_store f)"
  by (simp add: quiet_def on_store_def)

lemma quiet_on_session: "(\<And>s. view (f s) = view s) \<Longrightarrow> quiet view (on_session f)"
  by (simp add: quiet_def on_session_def)

lemma quiet_on_data:
  "(\<And>s d. view (s\<lparr>working := (working s)\<lparr>s_data := d\<rparr>\<rparr>) = view s) \<Longrightarrow> quiet view (on_data f)"
  by (simp add: quiet_def on_data_def split: sum.split prod.split)

lemmas quiet_intros = quiet_andthen quiet_pure quiet_if quiet_if_state quiet_on_store quiet_on_session quiet_on_data

end
