(* ===== verification/Sync_Watermarks.thy ===== *)
theory Sync_Watermarks
  imports Sync_Step_Logic
begin

text \<open>
  The watermarks of the sync pipeline: a run moves an account's cursor only over transactions that
  it has fetched and stored. \<open>marks\<close> is what the argument needs of a store (the cursors and the
  keys of the stored transactions); \<open>sound\<close> relates it to the store the run started from, and
  every step keeps it for the committed and for the working store, so that it holds wherever
  the run stops.
\<close>

type_synonym marks = "sync_cursor list \<times> txn_key set"

definition marks :: "('v, 'd) store \<Rightarrow> marks" where
  "marks x = (s_cursors x, row_key ` set (s_txns x))"

definition txn_key_of :: "('v, 'd) pipeline_env \<Rightarrow> 'v canonical_txn \<Rightarrow> txn_key" where
  "txn_key_of env t = (tenant env, ct_provider t, connection env, ct_external t)"

definition account_cursor :: "('v, 'd) pipeline_env \<Rightarrow> pystr \<Rightarrow> sync_cursor list \<Rightarrow> instant option" where
  "account_cursor env a cs = get_cursor (tenant env) (provider_type env) (connection env) a cs"

definition in_scope :: "('v, 'd) pipeline_env \<Rightarrow> sync_cursor \<Rightarrow> bool" where
  "in_scope env = cursor_scope (tenant env) (provider_type env) (connection env)"

definition fetched_and_stored ::
  "('v, 'd) pipeline_env \<Rightarrow> instant \<Rightarrow> (pystr \<times> instant) list \<Rightarrow> pystr \<Rightarrow> txn_key set \<Rightarrow> bool" where
  "fetched_and_stored env since cursors a keys \<longleftrightarrow>
     (\<exists>account_id tbl ts.
        fetch_transactions env (account_since env since cursors a account_id tbl) a = Inr ts \<and>
        txn_key_of env ` set ts \<subseteq> keys)"

definition sound ::
  "('v, 'd) pipeline_env \<Rightarrow> instant \<Rightarrow> (pystr \<times> instant) list \<Rightarrow> marks \<Rightarrow> marks \<Rightarrow> bool" where
  "sound env since cursors old m \<longleftrightarrow>
     snd old \<subseteq> snd m \<and> filter (\<lambda>c. \<not> in_scope env c) (fst m) = filter (\<lambda>c. \<not> in_scope env c) (fst old) \<and>
     (\<forall>a. account_cursor env a (fst m) = account_cursor env a (fst old) \<or>
          account_cursor env a (fst m) = Some (start_ts env) \<and> fetched_and_stored env since cursors a (snd m))"

definition both :: "('v, 'd) session \<Rightarrow> marks \<times> marks" where
  "both s = (marks (committed s), marks (working s))"

abbreviation sound_session ::
  "('v, 'd) pipeline_env \<Rightarrow> instant \<Rightarrow> (pystr \<times> instant) list \<Rightarrow> marks \<Rightarrow> marks \<times> marks \<Rightarrow> bool" where
  "sound_session env since cursors old v \<equiv> sound env since cursors old (fst v) \<and> sound env since cursors old (snd v)"

lemma sound_refl: "sound env since cursors m m"
  by (simp add: sound_def)

lemma more_keys:
  "fetched_and_stored env since cursors a keys \<Longrightarrow> keys \<subseteq> keys' \<Longrightarrow> fetched_and_stored env since cursors a keys'"
  unfolding fetched_and_stored_def by (elim exE conjE) (intro exI conjI, assumption, rule subset_trans)

lemma sound_more_keys:
  assumes "sound env since cursors old (cs, keys)" and "keys \<subseteq> keys'"
  shows "sound env since cursors old (cs, keys')"
  using assms more_keys [OF _ assms(2), of env since cursors] unfolding sound_def by auto

lemma upsert_cursor_scope:
  "filter (\<lambda>c. \<not> in_scope env c)
     (upsert_sync_cursor (tenant env) (provider_type env) (connection env) a t cs) = filter (\<lambda>c. \<not> in_scope env c) cs"
  unfolding upsert_sync_cursor_def Let_def in_scope_def
  by (auto intro!: filter_update_rows(2) simp: cursor_scope_def)

lemma sound_advance:
  assumes "sound env since cursors old (cs, keys)" and "fetched_and_stored env since cursors a keys"
  shows "sound env since cursors old
    (upsert_sync_cursor (tenant env) (provider_type env) (connection env) a (start_ts env) cs, keys)"
  using assms unfolding sound_def
  by (simp add: upsert_cursor_scope account_cursor_def get_upsert_cursor)

subsection \<open>Stored keys\<close>

lemma map_sum_Inr: "map_sum f g x = Inr y \<longleftrightarrow> (\<exists>z. x = Inr z \<and> y = g z)"
  by (cases x) auto

lemma upsert_stmt_keys:
  "upsert_stmt ucols touched rs tbl = Inr (ids, tbl1) \<Longrightarrow> row_key ` set tbl1 = row_key ` set tbl \<union> row_key ` set rs"
proof (induction rs arbitrary: touched tbl ids)
  case (Cons r rs)
  show ?case
  proof (cases "lookup (row_key r) tbl")
    case None
    then obtain ids2 where "upsert_stmt ucols (insert (row_key r) touched) rs (tbl @ [r]) = Inr (ids2, tbl1)"
      using Cons.prems by (auto simp: map_sum_Inr)
    then show ?thesis
      using Cons.IH by simp
  next
    case (Some ex)
    then have key: "row_key r \<in> row_key ` set tbl" "row_key ex = row_key r"
      using lookup_None [of "row_key r" tbl] lookup_Some [OF Some] by auto
    have put: "row_key ` set (put_row row_key (merged ucols r ex) tbl) = row_key ` set tbl"
      by (metis list.set_map keys_put_row)
    obtain touched2 tbl2 ids2 where "upsert_stmt ucols touched2 rs tbl2 = Inr (ids2, tbl1)"
      and "row_key ` set tbl2 = row_key ` set tbl"
      using Cons.prems Some put by (auto simp: map_sum_Inr split: if_splits)
    then show ?thesis
      using Cons.IH key by auto
  qed
qed simp

lemma bulk_upsert_keys:
  "bulk_upsert_transactions ucols rows tbl = Inr (res, tbl1) \<Longrightarrow>
   row_key ` set tbl1 = row_key ` set tbl \<union> row_key ` set rows"
proof (induction ucols rows tbl arbitrary: res rule: bulk_upsert_transactions.induct)
  case (1 ucols rows tbl)
  show ?case
  proof (cases "rows = []")
    case True
    then show ?thesis
      using "1.prems" by (simp add: bulk_upsert_transactions.simps)
  next
    case False
    let ?a = "take chunk_size rows" and ?b = "drop chunk_size rows"
    obtain r1 t1 where r: "run_upsert ucols ?a tbl = Inr (r1, t1)"
      using "1.prems" False by (subst (asm) bulk_upsert_transactions.simps) (auto split: sum.splits)
    obtain r2 where b: "bulk_upsert_transactions ucols ?b t1 = Inr (r2, tbl1)"
      using "1.prems" False r by (subst (asm) bulk_upsert_transactions.simps) (auto simp: map_sum_Inr)
    have "row_key ` set t1 = row_key ` set tbl \<union> row_key ` set ?a"
    proof -
      obtain ids where "upsert_stmt ucols {} ?a tbl = Inr (ids, t1)"
        using r by (auto simp: run_upsert_def map_sum_Inr)
      then show ?thesis
        by (rule upsert_stmt_keys)
    qed
    moreover have "row_key ` set tbl1 = row_key ` set t1 \<union> row_key ` set ?b"
      by (rule "1.IH" [OF False r refl b])
    moreover have "set rows = set ?a \<union> set ?b"
      by (metis append_take_drop_id set_append)
    ultimately show ?thesis
      by (simp add: image_Un Un_assoc)
  qed
qed

subsection \<open>Steps\<close>

lemma both_simps [simp]:
  "both (s\<lparr>working := (working s)\<lparr>s_data := d\<rparr>\<rparr>) = both s"
  "both (s\<lparr>working := (working s)\<lparr>s_runs := rs\<rparr>\<rparr>) = both s"
  "both (s\<lparr>p_accounts := n, p_account_ids := as\<rparr>) = both s"
  "both (s\<lparr>p_run := i\<rparr>) = both s"
  "both (s\<lparr>committed := working s\<rparr>) = (snd (both s), snd (both s))"
  "both (s\<lparr>working := committed s\<rparr>) = (fst (both s), fst (both s))"
  by (simp_all add: both_def marks_def)

lemma heartbeat_quiet: "quiet both (heartbeat env stage acct)"
  by (auto simp: quiet_def heartbeat_def on_store_def split: option.split)

lemma emit_quiet: "quiet both (on_data f)"
  by (rule quiet_on_data) simp

lemma holdings_quiet: "quiet both (holdings_step env a account_id)"
  unfolding holdings_step_def by (intro quiet_intros heartbeat_quiet emit_quiet)

lemma add_counts_both [simp]: "both (add_counts c s) = both s"
  by (simp add: add_counts_def both_def split: option.split prod.split)

definition more_stored :: "txn_key set \<Rightarrow> marks \<times> marks \<Rightarrow> marks \<times> marks \<Rightarrow> bool" where
  "more_stored ks v w \<longleftrightarrow>
     fst w = fst v \<and> fst (snd w) = fst (snd v) \<and> snd (snd v) \<union> ks \<subseteq> snd (snd w)"

lemma persist_stores:
  "triple (\<lambda>s. both s = v) (persist_transactions_batch rows) (\<lambda>_ s. more_stored (row_key ` set rows) v (both s))
     (\<lambda>s. both s = v)"
  by (rule tripleI)
    (auto simp: persist_transactions_batch_def both_def marks_def more_stored_def dest: bulk_upsert_keys split: sum.splits)

lemma txn_rows_keys: "row_key ` set (txn_rows env a account_id secs ts) = txn_key_of env ` set ts"
proof -
  have "map row_key (txn_rows env a account_id secs ts) = map (txn_key_of env) ts"
    by (rule nth_equalityI) (simp_all add: txn_rows_def txn_row_of_def txn_key_of_def nth_enumerate_eq)
  then show ?thesis
    by (metis list.set_map)
qed

lemma store_transactions_stores:
  "triple (\<lambda>s. both s = v) (store_transactions env a account_id ts)
     (\<lambda>_ s. more_stored (txn_key_of env ` set ts) v (both s)) (\<lambda>s. more_stored {} v (both s))"
  unfolding store_transactions_def
proof (rule triple_andthen)
  show "triple (\<lambda>s. both s = v) (on_data (resolve_securities env ts)) (\<lambda>_ s. both s = v) (\<lambda>s. more_stored {} v (both s))"
    by (rule triple_weaken [OF quiet_triple [OF emit_quiet, of "\<lambda>w. w = v"]]) (auto simp: more_stored_def)
  fix x :: "'a option list \<times> pystr set"
  let ?post = "\<lambda>s. more_stored (txn_key_of env ` set ts) v (both s)"
  have emit: "triple ?post (if c then give () else on_data f) (\<lambda>_. ?post) (\<lambda>s. more_stored {} v (both s))" for c f
    by (rule triple_weaken [OF quiet_triple [OF quiet_if [OF quiet_pure(1) emit_quiet],
          of "\<lambda>w. more_stored (txn_key_of env ` set ts) v w"]])
      (auto simp: more_stored_def)
  have "triple (\<lambda>s. both s = v) (persist_transactions_batch (txn_rows env a account_id (fst x) ts)) (\<lambda>_. ?post)
      (\<lambda>s. more_stored {} v (both s))"
    by (rule triple_weaken [OF persist_stores]) (auto simp: more_stored_def txn_rows_keys)
  then show "triple (\<lambda>s. both s = v)
      (case x of (secs, unresolved) \<Rightarrow>
         andthen (persist_transactions_batch (txn_rows env a account_id secs ts)) (\<lambda>res.
         andthen (if inserted_ids res @ updated_ids res = [] then give ()
                  else on_data (\<lambda>d. map_sum id (Pair ()) (emit_batch env res d))) (\<lambda>_.
         give (unresolved, stage_report env res ts)))) (\<lambda>_. ?post) (\<lambda>s. more_stored {} v (both s))"
    by (cases x) (simp only: fst_conv prod.case, rule triple_andthen, assumption, rule triple_andthen, rule emit, rule triple_give')
qed

lemma transactions_step_stores:
  "triple (\<lambda>s. both s = v) (transactions_step env from a account_id)
     (\<lambda>_ s. \<exists>ts. fetch_transactions env from a = Inr ts \<and> more_stored (txn_key_of env ` set ts) v (both s))
     (\<lambda>s. more_stored {} v (both s))"
proof -
  have hb: "triple (\<lambda>s. both s = v) (heartbeat env stage acct) (\<lambda>_ s. both s = v) (\<lambda>s. more_stored {} v (both s))"
    for stage acct
    by (rule triple_weaken [OF quiet_triple [OF heartbeat_quiet, of "\<lambda>w. w = v"]]) (auto simp: more_stored_def)
  have fetch: "triple (\<lambda>s. both s = v) (lift_exn (fetch_transactions env from a))
      (\<lambda>ts s. fetch_transactions env from a = Inr ts \<and> both s = v) (\<lambda>s. more_stored {} v (both s))"
    by (rule tripleI) (auto simp: lift_exn_def more_stored_def)
  have keys: "txn_key_of env ` set (map (\<lambda>t. t\<lparr>ct_cols := reclassify env t\<rparr>) ts) = txn_key_of env ` set ts" for ts
    by (auto simp: txn_key_of_def image_iff)
  have rest: "triple (\<lambda>s. fetch_transactions env from a = Inr ts \<and> both s = v)
      (let ts = map (\<lambda>t. t\<lparr>ct_cols := reclassify env t\<rparr>) ts
       in andthen (heartbeat env ''persist_transactions'' (Some a)) (\<lambda>_.
          andthen (store_transactions env a account_id ts) (\<lambda>outcome. give (length ts, outcome))))
      (\<lambda>_ s. \<exists>ts. fetch_transactions env from a = Inr ts \<and> more_stored (txn_key_of env ` set ts) v (both s))
      (\<lambda>s. more_stored {} v (both s))" for ts
  proof (cases "fetch_transactions env from a = Inr ts")
    case True
    let ?post = "\<lambda>_ s. \<exists>ts. fetch_transactions env from a = Inr ts \<and> more_stored (txn_key_of env ` set ts) v (both s)"
    have st: "triple (\<lambda>s. both s = v)
        (store_transactions env a account_id (map (\<lambda>t. t\<lparr>ct_cols := reclassify env t\<rparr>) ts)) ?post
        (\<lambda>s. more_stored {} v (both s))"
      by (rule triple_weaken [OF store_transactions_stores [of v]]) (use True keys in auto)
    show ?thesis
      unfolding Let_def
      by (rule triple_weaken [OF triple_andthen [OF hb triple_andthen [OF st triple_give]]]) auto
  qed (simp add: triple_def)
  show ?thesis
    unfolding transactions_step_def by (rule triple_andthen [OF hb triple_andthen [OF fetch rest]])
qed

definition account_done ::
  "('v, 'd) pipeline_env \<Rightarrow> instant \<Rightarrow> (pystr \<times> instant) list \<Rightarrow> pystr \<Rightarrow> marks \<Rightarrow> bool" where
  "account_done env since cursors a m \<longleftrightarrow>
     account_cursor env a (fst m) = Some (start_ts env) \<and> fetched_and_stored env since cursors a (snd m)"

definition progress ::
  "('v, 'd) pipeline_env \<Rightarrow> instant \<Rightarrow> (pystr \<times> instant) list \<Rightarrow> marks \<Rightarrow> pystr set \<Rightarrow> marks \<Rightarrow> bool" where
  "progress env since cursors old D m \<longleftrightarrow>
     sound env since cursors old m \<and> (\<forall>a \<in> D. account_done env since cursors a m)"

lemma progress_more_keys:
  assumes "progress env since cursors old D (cs, keys)" and "keys \<subseteq> keys'"
  shows "progress env since cursors old D (cs, keys')"
  using assms sound_more_keys [of env since cursors old cs keys keys'] more_keys [of env since cursors _ keys keys']
  by (auto simp: progress_def account_done_def)

lemma progress_advance:
  assumes "progress env since cursors old D (cs, keys)" and "fetched_and_stored env since cursors a keys"
  shows "progress env since cursors old (insert a D)
    (upsert_sync_cursor (tenant env) (provider_type env) (connection env) a (start_ts env) cs, keys)"
  using assms sound_advance [of env since cursors old cs keys a]
  by (auto simp: progress_def account_done_def account_cursor_def get_upsert_cursor)

lemma progress_subset: "progress env since cursors old D m \<Longrightarrow> D' \<subseteq> D \<Longrightarrow> progress env since cursors old D' m"
  by (auto simp: progress_def)

lemma progress_stored:
  "more_stored ks v w \<Longrightarrow> progress env since cursors old D (fst v) \<Longrightarrow> progress env since cursors old D (snd v) \<Longrightarrow>
   progress env since cursors old D (fst w) \<and> progress env since cursors old D (snd w)"
  unfolding more_stored_def
  by (cases w; cases "snd w"; cases "snd v") (auto elim: progress_more_keys)

abbreviation both_progress ::
  "('v, 'd) pipeline_env \<Rightarrow> instant \<Rightarrow> (pystr \<times> instant) list \<Rightarrow> marks \<Rightarrow> pystr set \<Rightarrow> marks \<times> marks \<Rightarrow> bool" where
  "both_progress env since cursors old D v \<equiv>
     progress env since cursors old D (fst v) \<and> progress env since cursors old D (snd v)"

text \<open>The account is stored under an identifier, whatever the rest of the database holds.\<close>

definition named :: "('v, 'd) pipeline_env \<Rightarrow> pystr \<Rightarrow> bool" where
  "named env a \<longleftrightarrow> (\<forall>d i d1. persist_account env a d = Inr (i, d1) \<longrightarrow> i \<noteq> [])"

lemma quiet_keeps:
  assumes "quiet view m"
  shows "triple (\<lambda>s. C \<and> J (view s)) m (\<lambda>_ s. C \<and> J (view s)) (\<lambda>s. J (view s))"
    and "triple (\<lambda>s. J (view s) \<and> K (view s)) m (\<lambda>_ s. J (view s) \<and> K (view s)) (\<lambda>s. J (view s))"
  by (rule triple_weaken [OF quiet_triple [OF assms, of "\<lambda>v. C \<and> J v"]]; simp)
    (rule triple_weaken [OF quiet_triple [OF assms, of "\<lambda>v. J v \<and> K v"]]; simp)

lemma advance_progress:
  "triple (\<lambda>s. both_progress env since cursors old D (both s) \<and> fetched_and_stored env since cursors a (snd (snd (both s))))
     (advance_cursor env a)
     (\<lambda>_ s. both_progress env since cursors old D (both s) \<and> progress env since cursors old (insert a D) (snd (both s)))
     (\<lambda>s. both_progress env since cursors old D (both s))"
  unfolding advance_cursor_def
proof (rule triple_on_store)
  fix s :: "('a, 'b) session"
  let ?t = "s\<lparr>working := (working s)\<lparr>s_cursors :=
      upsert_sync_cursor (tenant env) (provider_type env) (connection env) a (start_ts env) (s_cursors (working s))\<rparr>\<rparr>"
  assume s: "both_progress env since cursors old D (both s) \<and> fetched_and_stored env since cursors a (snd (snd (both s)))"
  then have "progress env since cursors old (insert a D) (snd (both ?t))"
    using progress_advance [of env since cursors old D "s_cursors (working s)" "row_key ` set (s_txns (working s))" a]
    by (simp add: both_def marks_def)
  moreover have "fst (both ?t) = fst (both s)"
    by (simp add: both_def)
  ultimately show "both_progress env since cursors old D (both ?t) \<and> progress env since cursors old (insert a D) (snd (both ?t))"
    using s progress_subset [OF _ subset_insertI] by metis
qed

lemma account_transactions:
  assumes "from = account_since env since cursors a account_id tbl"
  shows "triple (\<lambda>s. both_progress env since cursors old D (both s))
     (transactions_step env from a account_id)
     (\<lambda>_ s. both_progress env since cursors old D (both s) \<and> fetched_and_stored env since cursors a (snd (snd (both s))))
     (\<lambda>s. both_progress env since cursors old D (both s))"
proof (rule tripleI)
  fix s e s1
  assume J: "both_progress env since cursors old D (both s)" and run: "transactions_step env from a account_id s = (Inl e, s1)"
  from run have "more_stored {} (both s) (both s1)"
    by (intro tripleD_raise [OF transactions_step_stores [of "both s"] refl])
  then show "both_progress env since cursors old D (both s1)"
    using progress_stored J by blast
next
  fix s x s1
  assume J: "both_progress env since cursors old D (both s)" and run: "transactions_step env from a account_id s = (Inr x, s1)"
  from run have "\<exists>ts. fetch_transactions env from a = Inr ts \<and> more_stored (txn_key_of env ` set ts) (both s) (both s1)"
    by (intro tripleD_return [OF transactions_step_stores [of "both s"] refl])
  then obtain ts where ts: "fetch_transactions env from a = Inr ts"
    and more: "more_stored (txn_key_of env ` set ts) (both s) (both s1)"
    by blast
  have "fetched_and_stored env since cursors a (snd (snd (both s1)))"
    unfolding fetched_and_stored_def
    by (rule exI [of _ account_id], rule exI [of _ tbl], rule exI [of _ ts])
      (use ts more assms in \<open>auto simp: more_stored_def\<close>)
  then show "both_progress env since cursors old D (both s1) \<and> fetched_and_stored env since cursors a (snd (snd (both s1)))"
    using progress_stored [OF more] J by blast
qed

lemma account_work_progress:
  "triple (\<lambda>s. both_progress env since cursors old D (both s)) (account_work env since cursors a)
     (\<lambda>_ s. both_progress env since cursors old D (both s) \<and>
        (named env a \<longrightarrow> progress env since cursors old (insert a D) (snd (both s))))
     (\<lambda>s. both_progress env since cursors old D (both s))"
proof -
  let ?J = "both_progress env since cursors old D"
  have id: "triple (\<lambda>s. ?J (both s)) (on_data (persist_account env a))
      (\<lambda>i s. (named env a \<longrightarrow> i \<noteq> []) \<and> ?J (both s)) (\<lambda>s. ?J (both s))"
    by (rule tripleI) (auto simp: on_data_def named_def split: sum.splits)
  have since: "triple (\<lambda>s. ?J (both s)) (\<lambda>s. give (account_since env since cursors a i (s_txns (working s))) s)
      (\<lambda>from s. (\<exists>tbl. from = account_since env since cursors a i tbl) \<and> ?J (both s)) (\<lambda>s. ?J (both s))" for i
    by (rule triple_read) blast
  have txns: "triple (\<lambda>s. (\<exists>tbl. t0 = account_since env since cursors a i tbl) \<and> ?J (both s))
      (transactions_step env t0 a i)
      (\<lambda>_ s. ?J (both s) \<and> fetched_and_stored env since cursors a (snd (snd (both s)))) (\<lambda>s. ?J (both s))" for i t0
    by (rule triple_pure) (elim exE, rule account_transactions)
  show ?thesis
    unfolding account_work_def
  proof (rule triple_andthen [OF id], rule triple_pure, rule triple_if, goal_cases)
    case (1 i)
    then show ?case
      by (intro triple_give) blast
  next
    case (2 i)
    show ?case
      by (rule triple_andthen [OF since], rule triple_andthen [OF quiet_keeps(1) [OF emit_quiet]],
          rule triple_andthen [OF quiet_keeps(1) [OF holdings_quiet]], rule triple_prod,
          rule triple_andthen [OF txns], rule triple_prod, rule triple_prod,
          rule triple_andthen [OF quiet_keeps(2) [OF heartbeat_quiet, of ?J]],
          rule triple_andthen [OF advance_progress]) (rule triple_give, blast)
  qed
qed

subsection \<open>Accounts and the run\<close>

abbreviation done_after :: "('v, 'd) pipeline_env \<Rightarrow> pystr list \<Rightarrow> pystr set \<Rightarrow> pystr set" where
  "done_after env as D \<equiv> D \<union> {a \<in> set as. named env a}"

lemma sync_account_progress:
  "triple (\<lambda>s. both_progress env since cursors old D (both s)) (sync_account env since cursors a)
     (\<lambda>_ s. both_progress env since cursors old (done_after env [a] D) (both s))
     (\<lambda>s. both_progress env since cursors old D (both s))"
proof -
  have uow: "triple (\<lambda>s. both_progress env since cursors old D (both s)) (in_uow (account_work env since cursors a))
      (\<lambda>_ s. both_progress env since cursors old (done_after env [a] D) (both s))
      (\<lambda>s. both_progress env since cursors old D (both s))"
    by (rule triple_in_uow [OF account_work_progress]) (auto simp: progress_def)
  show ?thesis
    unfolding sync_account_def
    by (rule triple_andthen [OF quiet_triple [OF heartbeat_quiet]], rule triple_andthen [OF uow],
        rule triple_on_session) simp
qed

lemma sync_accounts_progress:
  "triple (\<lambda>s. both_progress env since cursors old D (both s)) (sync_accounts env since cursors as)
     (\<lambda>_ s. both_progress env since cursors old (done_after env as D) (both s))
     (\<lambda>s. both_progress env since cursors old D (both s))"
proof (induction as arbitrary: D)
  case Nil
  then show ?case
    by (simp add: triple_give)
next
  case (Cons a as)
  have sub: "both_progress env since cursors old (done_after env [a] D) v \<Longrightarrow> both_progress env since cursors old D v" for v
    by (auto simp: progress_def)
  have set: "done_after env as (done_after env [a] D) = done_after env (a # as) D"
    by auto
  have rest: "triple (\<lambda>s. both_progress env since cursors old (done_after env [a] D) (both s)) (sync_accounts env since cursors as)
      (\<lambda>_ s. both_progress env since cursors old (done_after env (a # as) D) (both s))
      (\<lambda>s. both_progress env since cursors old D (both s))"
    by (rule triple_weaken [OF Cons.IH [of "done_after env [a] D"]]) (simp, simp only: set, rule sub)
  show ?case
    by (simp only: sync_accounts.simps) (rule triple_andthen [OF sync_account_progress rest])
qed

lemma begin_quiet: "quiet both (begin_run env)"
  by (simp add: quiet_def begin_run_def both_def marks_def split: sum.split)

lemma authenticate_quiet: "quiet both (authenticate_step env authenticated)"
  unfolding authenticate_step_def
  by (intro quiet_if quiet_andthen quiet_pure heartbeat_quiet) (simp add: quiet_pure split: option.split)

lemma commit_keeps: "triple (\<lambda>s. both s = (m, m)) commit (\<lambda>_ s. both s = (m, m)) E"
  by (rule triple_commit) simp

lemma accounts_step_marks:
  "triple (\<lambda>s. both s = v) (accounts_step env selected)
     (\<lambda>accounts s. (\<exists>accs. fetch_accounts env = Inr accs \<and> accounts = chosen selected accs) \<and> both s = v)
     (\<lambda>s. both s = v)"
proof -
  have fetch: "triple (\<lambda>s. both s = v) (lift_exn (fetch_accounts env))
      (\<lambda>accs s. fetch_accounts env = Inr accs \<and> both s = v) (\<lambda>s. both s = v)"
    by (rule tripleI) (auto simp: lift_exn_def)
  have count: "triple (\<lambda>s. fetch_accounts env = Inr accs \<and> both s = v) (on_session (\<lambda>s. s\<lparr>p_accounts := n, p_account_ids := as\<rparr>))
      (\<lambda>_ s. fetch_accounts env = Inr accs \<and> both s = v) (\<lambda>s. both s = v)" for accs n as
    by (rule triple_on_session) simp
  show ?thesis
    unfolding accounts_step_def
    by (rule triple_andthen [OF quiet_triple [OF heartbeat_quiet, of "\<lambda>w. w = v"]], rule triple_andthen [OF fetch],
        rule triple_andthen [OF count], rule triple_if) (auto intro: triple_raise triple_give)
qed

lemma exclude_quiet: "quiet both (exclude_pairs env)"
proof -
  have "row_key (case o1 of None \<Rightarrow> r | Some c \<Rightarrow> r\<lparr>cols := c, revision := revision r + 1\<rparr>) = row_key r"
    for o1 and r :: "'a txn_row"
    by (simp split: option.split)
  then show ?thesis
    unfolding exclude_pairs_def by (intro quiet_on_store) (simp add: both_def marks_def image_image)
qed

lemma finish_marks:
  assumes "\<And>v. P v \<Longrightarrow> R (snd v)"
  shows "triple (\<lambda>s. P (both s)) (finish_run env) (\<lambda>_ s. R (fst (both s))) (\<lambda>s. P (both s))"
proof -
  have complete: "quiet both (\<lambda>s. on_store (\<lambda>x. x\<lparr>s_runs := f s x\<rparr>) s)"
    for f :: "('a, 'b) session \<Rightarrow> ('a, 'b) store \<Rightarrow> sync_run list"
    by (simp add: quiet_def on_store_def both_def marks_def)
  have committed: "triple (\<lambda>s. P (both s)) commit (\<lambda>_ s. R (fst (both s))) (\<lambda>s. P (both s))"
    by (rule triple_commit) (auto dest: assms)
  show ?thesis
    unfolding finish_run_def
    by (rule triple_andthen [OF quiet_triple [OF complete]],
        rule triple_andthen [OF quiet_triple [OF quiet_if_state [OF emit_quiet quiet_pure(1)]] committed])
qed

lemma pipeline_progress:
  assumes "cs = (if resume then get_connector_cursors (tenant env) (provider_type env) (connection env) (fst m) else [])"
  shows "triple (\<lambda>s. both s = (m, m)) (pipeline_body env since resume selected compatibility_error authenticated)
     (\<lambda>_ s. \<exists>accs. fetch_accounts env = Inr accs \<and>
        progress env since cs m (done_after env (chosen selected accs) {}) (fst (both s)))
     (\<lambda>s. sound env since cs m (fst (both s)))"
proof -
  let ?E = "\<lambda>s. sound env since cs m (fst (both s))" and ?I = "\<lambda>s. both s = (m, m)"
  have quiets: "triple ?I k (\<lambda>_. ?I) ?E" if "quiet both k" for k :: "('x, 'a, 'b) step"
    by (rule triple_weaken [OF quiet_triple [OF that, of "\<lambda>w. w = (m, m)"]]) (auto simp: sound_refl)
  note commits = commit_keeps [of m ?E]
  let ?C = "\<lambda>accounts. \<exists>accs. fetch_accounts env = Inr accs \<and> accounts = chosen selected accs"
  have accts: "triple ?I (accounts_step env selected) (\<lambda>accounts s. ?C accounts \<and> ?I s) ?E"
    by (rule triple_weaken [OF accounts_step_marks]) (auto simp: sound_refl)
  have cursors: "triple ?I (\<lambda>s. give (if resume then get_connector_cursors (tenant env) (provider_type env) (connection env)
      (s_cursors (working s)) else []) s) (\<lambda>x s. x = cs \<and> ?I s) ?E"
    by (rule triple_read) (auto simp: assms both_def marks_def)
  have syncs: "triple (\<lambda>s. x = cs \<and> ?I s) (sync_accounts env since x accounts)
      (\<lambda>_ s. both_progress env since cs m (done_after env accounts {}) (both s)) ?E" for x accounts
  proof (rule triple_pure)
    assume "x = cs"
    then show "triple ?I (sync_accounts env since x accounts)
        (\<lambda>_ s. both_progress env since cs m (done_after env accounts {}) (both s)) ?E"
      using triple_weaken [OF sync_accounts_progress [of env since cs m "{}" accounts], of ?I _ ?E]
      by (auto simp: progress_def sound_refl)
  qed
  let ?J = "both_progress env since cs m"
  let ?tail = "\<lambda>accounts. andthen commit (\<lambda>_.
       andthen (\<lambda>s. give (if resume then get_connector_cursors (tenant env) (provider_type env) (connection env)
         (s_cursors (working s)) else []) s) (\<lambda>cursors.
       andthen (sync_accounts env since cursors accounts) (\<lambda>_. andthen (exclude_pairs env) (\<lambda>_. finish_run env))))"
  let ?done = "\<lambda>_ s. \<exists>accs. fetch_accounts env = Inr accs \<and>
        progress env since cs m (done_after env (chosen selected accs) {}) (fst (both s))"
  have tail: "triple (\<lambda>s. ?C accounts \<and> ?I s) (?tail accounts) ?done ?E" for accounts
  proof (rule triple_pure)
    assume C: "?C accounts"
    have excl: "triple (\<lambda>s. ?J (done_after env accounts {}) (both s)) (exclude_pairs env)
        (\<lambda>_ s. ?J (done_after env accounts {}) (both s)) ?E"
      by (rule triple_weaken [OF quiet_triple [OF exclude_quiet, of "?J (done_after env accounts {})"]])
        (auto simp: progress_def)
    have fin: "triple (\<lambda>s. ?J (done_after env accounts {}) (both s)) (finish_run env)
        (\<lambda>_ s. progress env since cs m (done_after env accounts {}) (fst (both s))) ?E"
      by (rule triple_weaken [OF finish_marks [of "?J (done_after env accounts {})"
            "progress env since cs m (done_after env accounts {})"]])
        (auto simp: progress_def)
    have "triple ?I (?tail accounts)
        (\<lambda>_ s. progress env since cs m (done_after env accounts {}) (fst (both s))) ?E"
      by (rule triple_andthen [OF commits], rule triple_andthen [OF cursors], rule triple_andthen [OF syncs],
          rule triple_andthen [OF excl fin])
    then show "triple ?I (?tail accounts) ?done ?E"
      by (rule triple_weaken) (use C in auto)
  qed
  have "quiet both (if truthy compatibility_error then raise (Permanent_error (the compatibility_error)) else give ())"
    by (intro quiet_if quiet_pure)
  then show ?thesis
    unfolding pipeline_body_def
    by (intro triple_andthen [OF quiets [OF begin_quiet]] triple_andthen [OF quiets [OF _]]
        triple_andthen [OF quiets [OF authenticate_quiet]] triple_andthen [OF accts tail])
qed

end
