(* ===== verification/Sync_Pipeline_Props.thy ===== *)
theory Sync_Pipeline_Props
  imports Sync_Watermarks
begin

text \<open>
  What a run of the sync pipeline leaves behind, however it ends: the row of the run, the
  watermarks, and the transactions.
\<close>

subsection \<open>The row of the run\<close>

definition keeps :: "(('v, 'd) session \<Rightarrow> bool) \<Rightarrow> ('x, 'v, 'd) step \<Rightarrow> bool" where
  "keeps I m \<longleftrightarrow> triple I m (\<lambda>_. I) I"

lemma keeps_andthen: "keeps I m \<Longrightarrow> (\<And>x. keeps I (k x)) \<Longrightarrow> keeps I (andthen m k)"
  unfolding keeps_def by (rule triple_andthen)

lemma keeps_if: "keeps I m \<Longrightarrow> keeps I n \<Longrightarrow> keeps I (if c then m else n)"
  by simp

lemma keeps_prod: "(\<And>x y. keeps I (f x y)) \<Longrightarrow> keeps I (case z of (x, y) \<Rightarrow> f x y)"
  by (cases z) simp

lemma keeps_quiet: "quiet view m \<Longrightarrow> keeps (\<lambda>s. P (view s)) m"
  unfolding keeps_def by (rule quiet_triple)

definition runs_of :: "('v, 'd) session \<Rightarrow> sync_run list \<times> sync_run list \<times> pystr option" where
  "runs_of s = (s_runs (committed s), s_runs (working s), p_run s)"

text \<open>The run is open: its row follows the older ones, and is still running.\<close>

definition opened :: "pystr \<Rightarrow> pystr option \<Rightarrow> sync_run list \<Rightarrow> sync_run list \<Rightarrow> bool" where
  "opened i conn old rs \<longleftrightarrow>
     (\<exists>r. rs = old @ [r] \<and> run_id r = i \<and> run_connection r = conn \<and> run_status r = Run_running \<and> run_cursor r = None \<and>
          run_error_message r = None \<and> run_error_category r = None)"

definition busy :: "pystr \<Rightarrow> pystr option \<Rightarrow> sync_run list \<Rightarrow> (sync_run list \<times> sync_run list \<times> pystr option) \<Rightarrow> bool" where
  "busy i conn old v \<longleftrightarrow> opened i conn old (fst v) \<and> opened i conn old (fst (snd v)) \<and> snd (snd v) = Some i"

definition begun :: "pystr \<Rightarrow> pystr option \<Rightarrow> sync_run list \<Rightarrow> (sync_run list \<times> sync_run list \<times> pystr option) \<Rightarrow> bool" where
  "begun i conn old v \<longleftrightarrow> fst v = old \<and> opened i conn old (fst (snd v)) \<and> snd (snd v) = Some i"

definition left_open :: "pystr \<Rightarrow> pystr option \<Rightarrow> sync_run list \<Rightarrow> (sync_run list \<times> sync_run list \<times> pystr option) \<Rightarrow> bool" where
  "left_open i conn old v \<longleftrightarrow> (fst v = old \<or> opened i conn old (fst v)) \<and> snd (snd v) = Some i"

lemma update_new_row:
  assumes "i \<notin> run_id ` set old" and "run_id r = i"
  shows "update_rows (\<lambda>r. run_id r = i \<and> P r) f (old @ [r]) = old @ [if P r then f r else r]"
    and "update_rows (\<lambda>r. run_id r = i) f (old @ [r]) = old @ [f r]"
  using assms by (auto simp: update_rows_def image_iff intro!: map_idI)

lemma opened_heartbeat:
  assumes "i \<notin> run_id ` set old" and "opened i conn old rs"
  shows "opened i conn old (update_sync_run_progress now i stage acct rs)"
  using assms(2) unfolding opened_def update_sync_run_progress_def
  by (elim exE conjE) (simp add: update_new_row [OF assms(1)])

lemma heartbeat_keeps:
  assumes "i \<notin> run_id ` set old" and "I = busy i conn old \<or> I = begun i conn old"
  shows "keeps (\<lambda>s. I (runs_of s)) (heartbeat env stage acct)"
proof -
  have "heartbeat env stage acct s =
      (Inr (), s\<lparr>working := (working s)\<lparr>s_runs := update_sync_run_progress (clock env stage acct) i stage acct (s_runs (working s))\<rparr>\<rparr>)"
    if "p_run s = Some i" for s :: "('a, 'b) session"
    using that by (simp add: heartbeat_def on_store_def)
  with assms show ?thesis
    unfolding keeps_def
    by (intro tripleI) (auto simp: busy_def begun_def runs_of_def opened_heartbeat)
qed

lemma runs_of_simps [simp]:
  "runs_of (s\<lparr>working := (working s)\<lparr>s_data := d\<rparr>\<rparr>) = runs_of s"
  "runs_of (s\<lparr>working := (working s)\<lparr>s_txns := t\<rparr>\<rparr>) = runs_of s"
  "runs_of (s\<lparr>working := (working s)\<lparr>s_cursors := c\<rparr>\<rparr>) = runs_of s"
  "runs_of (s\<lparr>p_accounts := n, p_account_ids := as\<rparr>) = runs_of s"
  "runs_of (add_counts x s) = runs_of s"
  by (simp_all add: runs_of_def add_counts_def split: option.split prod.split)

lemma data_runs: "quiet runs_of (on_data f)"
  by (rule quiet_on_data) simp

lemma persist_runs: "quiet runs_of (persist_transactions_batch rows)"
  by (simp add: quiet_def persist_transactions_batch_def split: sum.split prod.split)

lemma store_runs: "quiet runs_of (store_transactions env a account_id ts)"
  unfolding store_transactions_def
  by (rule quiet_andthen [OF data_runs], simp only: split_beta)
    (intro quiet_andthen quiet_if quiet_pure persist_runs data_runs)

lemma advance_runs: "quiet runs_of (advance_cursor env a)"
  unfolding advance_cursor_def by (rule quiet_on_store) simp

lemma exclude_runs: "quiet runs_of (exclude_pairs env)"
  unfolding exclude_pairs_def by (rule quiet_on_store) simp

lemma account_work_keeps:
  assumes new: "i \<notin> run_id ` set old"
  shows "keeps (\<lambda>s. busy i conn old (runs_of s)) (account_work env since cursors a)"
proof -
  note hb = heartbeat_keeps [OF new disjI1 [OF refl]]
  show ?thesis
    unfolding account_work_def holdings_step_def transactions_step_def Let_def
    by (intro keeps_andthen keeps_if keeps_prod hb keeps_quiet [OF data_runs] keeps_quiet [OF quiet_pure(1)]
        keeps_quiet [OF quiet_pure(3)] keeps_quiet [OF quiet_pure(4)] keeps_quiet [OF store_runs] keeps_quiet [OF advance_runs])
qed

lemma uow_keeps:
  assumes "keeps (\<lambda>s. busy i conn old (runs_of s)) m"
  shows "keeps (\<lambda>s. busy i conn old (runs_of s)) (in_uow m)"
  unfolding keeps_def
  by (rule triple_in_uow [OF assms [unfolded keeps_def]]) (auto simp: busy_def runs_of_def)

lemma sync_accounts_keeps:
  assumes new: "i \<notin> run_id ` set old"
  shows "keeps (\<lambda>s. busy i conn old (runs_of s)) (sync_accounts env since cursors as)"
proof (induction as)
  case Nil
  then show ?case
    by (simp add: keeps_quiet [OF quiet_pure(1)])
next
  case (Cons a as)
  have "quiet runs_of (on_session (add_counts c))" for c
    by (rule quiet_on_session) simp
  then show ?case
    unfolding sync_accounts.simps sync_account_def
    by (intro keeps_andthen heartbeat_keeps [OF new disjI1 [OF refl]] uow_keeps account_work_keeps [OF new] Cons.IH
        keeps_quiet)
qed

lemma early_keeps:
  assumes new: "i \<notin> run_id ` set old"
  shows "keeps (\<lambda>s. begun i conn old (runs_of s)) (authenticate_step env authenticated)"
    and "keeps (\<lambda>s. begun i conn old (runs_of s)) (accounts_step env selected)"
proof -
  note hb = heartbeat_keeps [OF new disjI2 [OF refl]] and pure = quiet_pure [of runs_of]
  show "keeps (\<lambda>s. begun i conn old (runs_of s)) (authenticate_step env authenticated)"
    unfolding authenticate_step_def
    by (intro keeps_andthen keeps_if hb keeps_quiet [OF pure(1)])
      (cases "authenticate env"; simp add: keeps_quiet [OF pure(1)] keeps_quiet [OF pure(2)])
  have "quiet runs_of (on_session (\<lambda>s. s\<lparr>p_accounts := n, p_account_ids := as\<rparr>))" for n as
    by (rule quiet_on_session) simp
  then show "keeps (\<lambda>s. begun i conn old (runs_of s)) (accounts_step env selected)"
    unfolding accounts_step_def
    by (intro keeps_andthen keeps_if hb keeps_quiet [OF pure(1)] keeps_quiet [OF pure(2)] keeps_quiet [OF pure(3)] keeps_quiet)
qed

definition closed_run :: "('v, 'd) pipeline_env \<Rightarrow> sync_run list \<Rightarrow> sync_run list \<Rightarrow> bool" where
  "closed_run env old rs \<longleftrightarrow>
     (\<exists>r. rs = old @ [r] \<and> run_id r = new_run_id env \<and> run_status r = Run_completed \<and>
          run_cursor r = Some (start_ts env) \<and> run_error_message r = None \<and> run_error_category r = None)"

lemma complete_closes:
  assumes "new_run_id env \<notin> run_id ` set old" and "opened (new_run_id env) (connection env) old rs"
  shows "closed_run env old (complete_sync_run now (new_run_id env) (run_completion env s) rs)"
  using assms(2) unfolding opened_def complete_sync_run_def closed_run_def
  by (elim exE conjE)
    (simp add: update_new_row(2) [OF assms(1)] completed_run_def run_completion_def keep_or_def)

lemma finish_closes:
  assumes new: "new_run_id env \<notin> run_id ` set old"
  shows "triple (\<lambda>s. busy (new_run_id env) (connection env) old (runs_of s)) (finish_run env)
     (\<lambda>_ s. closed_run env old (s_runs (committed s))) (\<lambda>s. left_open (new_run_id env) (connection env) old (runs_of s))"
proof -
  let ?i = "new_run_id env"
  let ?done = "\<lambda>v. left_open ?i (connection env) old v \<and> closed_run env old (fst (snd v))"
  have complete: "triple (\<lambda>s. busy ?i (connection env) old (runs_of s))
      (\<lambda>s. on_store (\<lambda>x. x\<lparr>s_runs :=
        complete_sync_run (clock env ''complete'' None) ?i (run_completion env s) (s_runs x)\<rparr>) s)
      (\<lambda>_ s. ?done (runs_of s)) (\<lambda>s. left_open ?i (connection env) old (runs_of s))"
    by (rule tripleI) (auto simp: on_store_def busy_def left_open_def runs_of_def complete_closes [OF new])
  have emit: "triple (\<lambda>s. ?done (runs_of s)) (\<lambda>s. if c s then on_data f s else give () s) (\<lambda>_ s. ?done (runs_of s))
      (\<lambda>s. left_open ?i (connection env) old (runs_of s))" for c :: "('a, 'b) session \<Rightarrow> bool" and f
    by (rule triple_weaken [OF quiet_triple [OF quiet_if_state [OF data_runs quiet_pure(1)], of ?done]]) auto
  show ?thesis
    unfolding finish_run_def
    by (rule triple_andthen [OF complete], rule triple_andthen [OF emit], rule triple_commit) (simp add: runs_of_def)
qed

lemma pipeline_runs:
  assumes new: "new_run_id env \<notin> run_id ` set old"
    and start: "start_sync_run (clock env ''start_sync_run'' None) (new_run_id env) (racing_runs env) (provider_type env)
      (connection env) old = Inr rs"
  shows "triple (\<lambda>s. runs_of s = (old, old, None))
     (pipeline_body env since resume selected compatibility_error authenticated)
     (\<lambda>_ s. closed_run env old (s_runs (committed s))) (\<lambda>s. left_open (new_run_id env) (connection env) old (runs_of s))"
proof -
  let ?i = "new_run_id env"
  let ?E = "\<lambda>s. left_open ?i (connection env) old (runs_of s)"
  have rs: "opened ?i (connection env) old rs"
    using start by (auto simp: start_sync_run_def new_run_def opened_def split: option.splits if_splits)
  have began: "triple (\<lambda>s. runs_of s = (old, old, None)) (begin_run env) (\<lambda>_ s. begun ?i (connection env) old (runs_of s)) ?E"
    using start rs by (intro tripleI) (auto simp: begin_run_def runs_of_def begun_def)
  have early: "triple (\<lambda>s. begun ?i (connection env) old (runs_of s)) m (\<lambda>_ s. begun ?i (connection env) old (runs_of s)) ?E"
    if "keeps (\<lambda>s. begun ?i (connection env) old (runs_of s)) m" for m :: "('x, 'a, 'b) step"
    by (rule triple_weaken [OF that [unfolded keeps_def]]) (auto simp: begun_def left_open_def)
  have late: "triple (\<lambda>s. busy ?i (connection env) old (runs_of s)) m (\<lambda>_ s. busy ?i (connection env) old (runs_of s)) ?E"
    if "keeps (\<lambda>s. busy ?i (connection env) old (runs_of s)) m" for m :: "('x, 'a, 'b) step"
    by (rule triple_weaken [OF that [unfolded keeps_def]]) (auto simp: busy_def left_open_def)
  have published: "triple (\<lambda>s. begun ?i (connection env) old (runs_of s)) commit (\<lambda>_ s. busy ?i (connection env) old (runs_of s)) ?E"
    by (rule triple_commit) (auto simp: begun_def busy_def runs_of_def)
  have guard: "keeps (\<lambda>s. begun ?i (connection env) old (runs_of s))
      (if truthy compatibility_error then raise (Permanent_error (the compatibility_error)) else give ())"
    by (intro keeps_if keeps_quiet [OF quiet_pure(1)] keeps_quiet [OF quiet_pure(2)])
  have reads: "triple (\<lambda>s. busy ?i (connection env) old (runs_of s)) (\<lambda>s. give (f s) s) (\<lambda>_ s. busy ?i (connection env) old (runs_of s)) ?E"
    for f :: "('a, 'b) session \<Rightarrow> 'x"
    by (rule triple_read) simp
  have excluded: "triple (\<lambda>s. busy ?i (connection env) old (runs_of s)) (exclude_pairs env) (\<lambda>_ s. busy ?i (connection env) old (runs_of s)) ?E"
    by (rule late [OF keeps_quiet [OF exclude_runs]])
  show ?thesis
    unfolding pipeline_body_def
    by (intro triple_andthen [OF began] triple_andthen [OF early [OF guard]] triple_andthen [OF early [OF early_keeps(1) [OF new]]]
        triple_andthen [OF early [OF early_keeps(2) [OF new]]] triple_andthen [OF published]
        triple_andthen [OF reads] triple_andthen [OF late [OF sync_accounts_keeps [OF new]]]
        triple_andthen [OF excluded] finish_closes [OF new])
qed

lemma failed_result_fields:
  assumes "\<forall>m. e \<noteq> Already_running_error m"
  shows "sr_status (failed_result t e s) = Run_failed" "sr_message (failed_result t e s) = Some (f_message (failure_of t e))"
    "sr_category (failed_result t e s) = Some (f_category (failure_of t e))"
  using assms by (cases e; simp add: failed_result_def Let_def)+

lemma run_pipeline_raised:
  assumes "pipeline_body env since resume selected compatibility_error authenticated (open_session db) = (Inl e, s)"
  shows "e = Cancelled_error \<Longrightarrow>
      run_pipeline env since resume selected compatibility_error authenticated db = (Inl Cancelled_error, committed s)"
    and "e = Already_running_error m \<Longrightarrow>
      run_pipeline env since resume selected compatibility_error authenticated db =
        (Inr (failed_result (clock env ''end'' None) e s), committed s)"
    and "e \<noteq> Cancelled_error \<Longrightarrow> \<forall>m. e \<noteq> Already_running_error m \<Longrightarrow>
      run_pipeline env since resume selected compatibility_error authenticated db =
        (Inr (failed_result (clock env ''end'' None) e s),
         (committed s)\<lparr>s_runs := mark_sync_run_failed (clock env ''end'' None) (failed_run_id env) (p_run s)
           (Some (provider_type env)) (connection env) (failure_of (clock env ''end'' None) e) (s_runs (committed s))\<rparr>)"
proof -
  show "e = Cancelled_error \<Longrightarrow>
      run_pipeline env since resume selected compatibility_error authenticated db = (Inl Cancelled_error, committed s)"
    unfolding run_pipeline_def Let_def assms by simp
  show "e = Already_running_error m \<Longrightarrow>
      run_pipeline env since resume selected compatibility_error authenticated db =
        (Inr (failed_result (clock env ''end'' None) e s), committed s)"
    unfolding run_pipeline_def Let_def assms by simp
  show "e \<noteq> Cancelled_error \<Longrightarrow> \<forall>m. e \<noteq> Already_running_error m \<Longrightarrow>
      run_pipeline env since resume selected compatibility_error authenticated db =
        (Inr (failed_result (clock env ''end'' None) e s),
         (committed s)\<lparr>s_runs := mark_sync_run_failed (clock env ''end'' None) (failed_run_id env) (p_run s)
           (Some (provider_type env)) (connection env) (failure_of (clock env ''end'' None) e) (s_runs (committed s))\<rparr>)"
    unfolding run_pipeline_def Let_def assms by (cases e) simp_all
qed

text \<open>The two ends of a started run.\<close>

lemma pipeline_ends:
  assumes new: "new_run_id env \<notin> run_id ` set (s_runs db)"
    and start: "start_sync_run (clock env ''start_sync_run'' None) (new_run_id env) (racing_runs env) (provider_type env)
      (connection env) (s_runs db) = Inr rs"
  obtains (returned) x s where
      "pipeline_body env since resume selected compatibility_error authenticated (open_session db) = (Inr x, s)"
      "closed_run env (s_runs db) (s_runs (committed s))"
  | (raised) e s where
      "pipeline_body env since resume selected compatibility_error authenticated (open_session db) = (Inl e, s)"
      "p_run s = Some (new_run_id env)"
      "s_runs (committed s) = s_runs db \<or>
       opened (new_run_id env) (connection env) (s_runs db) (s_runs (committed s))"
proof -
  let ?body = "pipeline_body env since resume selected compatibility_error authenticated (open_session db)"
  note body = pipeline_runs [OF new start, of since resume selected compatibility_error authenticated]
  have P: "runs_of (open_session db) = (s_runs db, s_runs db, None)"
    by (simp add: runs_of_def open_session_def)
  show thesis
  proof (cases "fst ?body")
    case (Inr x)
    then have run: "?body = (Inr x, snd ?body)"
      by (simp add: prod_eq_iff)
    show thesis
      by (rule returned [OF run]) (rule tripleD_return [OF body P run])
  next
    case (Inl e)
    then have run: "?body = (Inl e, snd ?body)"
      by (simp add: prod_eq_iff)
    have "left_open (new_run_id env) (connection env) (s_runs db) (runs_of (snd ?body))"
      by (rule tripleD_raise [OF body P run])
    then show thesis
      by (intro raised [OF run]) (simp_all add: left_open_def runs_of_def)
  qed
qed

lemma failed_row:
  assumes new: "i \<notin> run_id ` set old" "i \<noteq> []" and v: "rs = old \<or> opened i conn old rs"
  shows "\<exists>r. mark_sync_run_failed now nid (Some i) connector conn f rs = old @ [r] \<and> run_status r = Run_failed \<and>
    run_cursor r = None \<and> run_error_message r = Some (take 2048 (f_message f)) \<and> run_error_category r = Some (f_category f)"
  using v
proof
  assume "rs = old"
  then show ?thesis
    using new by (auto simp: mark_sync_run_failed_def build_failed_sync_run_def new_run_def list_ex_iff)
next
  assume "opened i conn old rs"
  then obtain r where r: "rs = old @ [r]" "run_id r = i" "run_cursor r = None"
    by (auto simp: opened_def)
  then show ?thesis
    using new(2)
    by (auto simp: mark_sync_run_failed_def complete_sync_run_def update_new_row(2) [OF new(1)] completed_run_def
        failed_completion_def keep_or_def)
qed

text \<open>
  C24. How a run that has started ends. Returning a result, it leaves exactly one new row, which has
  the status of the result: a completed one carries the start of the run as its watermark, a failed
  one has no watermark, and the message and the category of the result. Only when the task is
  cancelled may the row be missing or still running.
\<close>

theorem pipeline_run_settled:
  assumes new: "new_run_id env \<notin> run_id ` set (s_runs db)" "new_run_id env \<noteq> []"
    and start: "start_sync_run (clock env ''start_sync_run'' None) (new_run_id env) (racing_runs env) (provider_type env)
      (connection env) (s_runs db) = Inr rs"
  shows "case run_pipeline env since resume selected compatibility_error authenticated db of
      (Inl e, db1) \<Rightarrow>
        e = Cancelled_error \<and>
        (s_runs db1 = s_runs db \<or> (\<exists>r. s_runs db1 = s_runs db @ [r] \<and> run_status r = Run_running \<and> run_cursor r = None))
    | (Inr res, db1) \<Rightarrow>
        sr_category res = Some ''already_running'' \<or>
        (\<exists>r. s_runs db1 = s_runs db @ [r] \<and> run_status r = sr_status res \<and>
             run_cursor r = (if sr_status res = Run_completed then Some (start_ts env) else None) \<and>
             run_error_message r = map_option (take 2048) (sr_message res) \<and> run_error_category r = sr_category res)"
proof (cases rule: pipeline_ends [OF new(1) start, where since = since and resume = resume and selected = selected
      and compatibility_error = compatibility_error and authenticated = authenticated])
  case (1 x s)
  then show ?thesis
    by (auto simp: run_pipeline_def Let_def closed_run_def)
next
  case (2 e s)
  consider (cancelled) "e = Cancelled_error" | (skipped) m where "e = Already_running_error m"
    | (failed) "e \<noteq> Cancelled_error" "\<forall>m. e \<noteq> Already_running_error m"
    by (cases e) auto
  then show ?thesis
  proof cases
    case cancelled
    have "s_runs (committed s) = s_runs db \<or>
        (\<exists>r. s_runs (committed s) = s_runs db @ [r] \<and> run_status r = Run_running \<and> run_cursor r = None)"
      using 2(3) by (auto simp: opened_def)
    then show ?thesis
      by (simp only: run_pipeline_raised(1) [OF 2(1) cancelled] prod.case sum.case simp_thms)
  next
    case skipped
    show ?thesis
      by (simp only: run_pipeline_raised(2) [OF 2(1) skipped] prod.case sum.case)
        (simp add: skipped failed_result_def)
  next
    case failed
    show ?thesis
      using failed_row [OF new 2(3), where now = "clock env ''end'' None" and nid = "failed_run_id env"
          and connector = "Some (provider_type env)" and f = "failure_of (clock env ''end'' None) e"]
      by (simp add: run_pipeline_raised(3) [OF 2(1) failed] failed_result_fields [OF failed(2)] 2(2))
  qed
qed

definition single_active :: "sync_run list \<Rightarrow> bool" where
  "single_active rs \<longleftrightarrow> (\<forall>c. length (filter (active_on c) rs) \<le> 1)"

lemma single_active_add:
  assumes "single_active old" and "\<And>c. active_on c r \<Longrightarrow> filter (active_on c) old = []"
  shows "single_active (old @ [r])"
  using assms by (auto simp: single_active_def)

lemma started_alone:
  assumes "start_sync_run now i others connector conn old = Inr rs" and "conn = Some c"
  shows "filter (active_on c) old = []"
  using assms by (auto simp: start_sync_run_def find_None_iff filter_empty_conv split: option.splits)

lemma refused_run:
  assumes "start_sync_run (clock env ''start_sync_run'' None) (new_run_id env) (racing_runs env) (provider_type env)
      (connection env) (s_runs db) = Inl e"
  shows "snd (run_pipeline env since resume selected compatibility_error authenticated db) = db"
proof -
  have body: "pipeline_body env since resume selected compatibility_error authenticated (open_session db) =
      (Inl e, open_session db)"
    using assms by (simp add: pipeline_body_def andthen_def begin_run_def open_session_def)
  have "(\<exists>m. e = Already_running_error m) \<or> (\<exists>m. e = Database_error m)"
    using assms by (auto simp: start_sync_run_def split: option.splits if_splits)
  then show ?thesis
    unfolding run_pipeline_def Let_def body
    by (elim disjE exE) (simp_all add: open_session_def mark_sync_run_failed_def)
qed

lemma run_rows:
  assumes new: "new_run_id env \<notin> run_id ` set (s_runs db)" "new_run_id env \<noteq> []"
    and start: "start_sync_run (clock env ''start_sync_run'' None) (new_run_id env) (racing_runs env) (provider_type env)
      (connection env) (s_runs db) = Inr rs"
    and db1: "db1 = snd (run_pipeline env since resume selected compatibility_error authenticated db)"
  shows "s_runs db1 = s_runs db \<or>
    (\<exists>r. s_runs db1 = s_runs db @ [r] \<and> (run_status r = Run_running \<longrightarrow> run_connection r = connection env))"
proof (cases rule: pipeline_ends [OF new(1) start, where since = since and resume = resume and selected = selected
      and compatibility_error = compatibility_error and authenticated = authenticated])
  case (1 x s)
  then show ?thesis
    by (auto simp: db1 run_pipeline_def Let_def closed_run_def)
next
  case (2 e s)
  have "db1 = committed s \<or>
      (\<exists>f t. s_runs db1 = mark_sync_run_failed t (failed_run_id env) (Some (new_run_id env)) (Some (provider_type env))
          (connection env) f (s_runs (committed s)))"
    unfolding db1 run_pipeline_def Let_def 2(1) by (cases e; auto simp: 2(2))
  then show ?thesis
  proof (elim disjE exE)
    assume "db1 = committed s"
    then show ?thesis
      using 2(3) by (auto simp: opened_def)
  next
    fix f t
    assume "s_runs db1 = mark_sync_run_failed t (failed_run_id env) (Some (new_run_id env)) (Some (provider_type env))
          (connection env) f (s_runs (committed s))"
    then show ?thesis
      using failed_row [OF new 2(3), where now = t and nid = "failed_run_id env" and connector = "Some (provider_type env)"
          and f = f] by auto
  qed
qed

text \<open>
  A connection has at most one running sync. If no connection has two running runs before,
  none has after a run of the pipeline, however it ends.
\<close>

theorem one_running_sync_per_connection:
  assumes "single_active (s_runs db)" and "new_run_id env \<notin> run_id ` set (s_runs db)" and "new_run_id env \<noteq> []"
  shows "single_active (s_runs (snd (run_pipeline env since resume selected compatibility_error authenticated db)))"
proof (cases "start_sync_run (clock env ''start_sync_run'' None) (new_run_id env) (racing_runs env) (provider_type env)
    (connection env) (s_runs db)")
  case (Inl e)
  then show ?thesis
    using assms(1) by (simp add: refused_run)
next
  case (Inr rs)
  have "filter (active_on c) (s_runs db) = []"
    if "active_on c r" "run_status r = Run_running \<longrightarrow> run_connection r = connection env" for c r
    using started_alone [OF Inr, of c] that by (auto simp: active_on_def)
  then show ?thesis
    using run_rows [OF assms(2,3) Inr refl] assms(1) single_active_add
    by metis
qed

subsection \<open>Watermarks and transactions\<close>

abbreviation run_cursors :: "('v, 'd) pipeline_env \<Rightarrow> bool \<Rightarrow> ('v, 'd) store \<Rightarrow> (pystr \<times> instant) list" where
  "run_cursors env resume db \<equiv>
     (if resume then get_connector_cursors (tenant env) (provider_type env) (connection env) (s_cursors db) else [])"

lemma marks_runs [simp]: "marks (x\<lparr>s_runs := rs\<rparr>) = marks x"
  by (simp add: marks_def)

lemma run_pipeline_marks:
  assumes run: "run_pipeline env since resume selected compatibility_error authenticated db = (res, db1)"
  shows "sound env since (run_cursors env resume db) (marks db) (marks db1)"
    and "\<And>sr. res = Inr sr \<Longrightarrow> sr_status sr = Run_completed \<Longrightarrow>
      \<exists>accs. fetch_accounts env = Inr accs \<and>
        progress env since (run_cursors env resume db) (marks db) (done_after env (chosen selected accs) {}) (marks db1)"
proof -
  let ?cs = "run_cursors env resume db"
  let ?body = "pipeline_body env since resume selected compatibility_error authenticated (open_session db)"
  have cs: "?cs = (if resume then get_connector_cursors (tenant env) (provider_type env) (connection env) (fst (marks db)) else [])"
    by (simp add: marks_def)
  note body = pipeline_progress [OF cs, of since selected compatibility_error authenticated]
  have P: "both (open_session db) = (marks db, marks db)"
    by (simp add: both_def open_session_def)
  have "sound env since ?cs (marks db) (marks db1) \<and>
    (\<forall>sr. res = Inr sr \<and> sr_status sr = Run_completed \<longrightarrow> (\<exists>accs. fetch_accounts env = Inr accs \<and>
        progress env since ?cs (marks db) (done_after env (chosen selected accs) {}) (marks db1)))"
  proof (cases "fst ?body")
    case (Inr x)
    then have b: "?body = (Inr x, snd ?body)"
      by (simp add: prod_eq_iff)
    have "marks db1 = fst (both (snd ?body))"
      using run unfolding run_pipeline_def Let_def by (subst (asm) b) (auto simp: both_def)
    then show ?thesis
      using tripleD_return [OF body P b] by (auto simp: progress_def)
  next
    case (Inl e)
    then have b: "?body = (Inl e, snd ?body)"
      by (simp add: prod_eq_iff)
    have "marks db1 = fst (both (snd ?body)) \<and> (\<forall>sr. res = Inr sr \<longrightarrow> sr_status sr = Run_failed)"
      using run unfolding run_pipeline_def Let_def
      by (subst (asm) b) (cases e; auto simp: both_def failed_result_def Let_def)
    then show ?thesis
      using tripleD_raise [OF body P b] by auto
  qed
  then show "sound env since ?cs (marks db) (marks db1)"
    and "\<And>sr. res = Inr sr \<Longrightarrow> sr_status sr = Run_completed \<Longrightarrow>
      \<exists>accs. fetch_accounts env = Inr accs \<and>
        progress env since ?cs (marks db) (done_after env (chosen selected accs) {}) (marks db1)"
    by blast+
qed

text \<open>
  C23. Watermarks move only over stored transactions. After a run, however it ends, every stored
  transaction is still there, no cursor outside the tenant, provider and connection of the run has
  changed, and a cursor that has moved is at the start of the run, with all transactions stored
  that the provider returned for the account from the start of its window.
\<close>

theorem watermark_over_stored_only:
  assumes "run_pipeline env since resume selected compatibility_error authenticated db = (res, db1)"
  shows "row_key ` set (s_txns db) \<subseteq> row_key ` set (s_txns db1) \<and>
    filter (\<lambda>c. \<not> in_scope env c) (s_cursors db1) = filter (\<lambda>c. \<not> in_scope env c) (s_cursors db) \<and>
    (\<forall>a. account_cursor env a (s_cursors db1) \<noteq> account_cursor env a (s_cursors db) \<longrightarrow>
       account_cursor env a (s_cursors db1) = Some (start_ts env) \<and>
       fetched_and_stored env since (run_cursors env resume db) a (row_key ` set (s_txns db1)))"
  using run_pipeline_marks(1) [OF assms] unfolding sound_def marks_def fst_conv snd_conv by blast

text \<open>
  What a completed run has done. For every account the run was asked to sync and that is stored
  under an identifier, the provider answered, everything it returned is stored, and the account's
  cursor is the start of the run.
\<close>

theorem completed_run_covers_accounts:
  assumes "run_pipeline env since resume selected compatibility_error authenticated db = (Inr res, db1)"
    and "sr_status res = Run_completed" and "fetch_accounts env = Inr accs" and "a \<in> set (chosen selected accs)"
    and "named env a"
  shows "account_cursor env a (s_cursors db1) = Some (start_ts env) \<and>
    fetched_and_stored env since (run_cursors env resume db) a (row_key ` set (s_txns db1))"
proof -
  have "a \<in> done_after env (chosen selected accs) {}"
    using assms(4,5) by simp
  then show ?thesis
    using run_pipeline_marks(2) [OF assms(1) refl assms(2)] assms(3) by (auto simp: progress_def account_done_def marks_def)
qed

text \<open>The transactions of an account that its cursor promises to be stored.\<close>

definition covered ::
  "('v, 'd) pipeline_env \<Rightarrow> ('v canonical_txn \<Rightarrow> instant) \<Rightarrow> (pystr \<Rightarrow> 'v canonical_txn set) \<Rightarrow> (pystr \<Rightarrow> instant) \<Rightarrow>
   ('v, 'd) store \<Rightarrow> bool" where
  "covered env occurred ledger from db \<longleftrightarrow>
     (\<forall>a c. account_cursor env a (s_cursors db) = Some c \<longrightarrow>
        (\<forall>t \<in> ledger a. from a \<le> occurred t \<and> occurred t < c \<longrightarrow> txn_key_of env t \<in> row_key ` set (s_txns db)))"

definition lookback_start :: "('v, 'd) pipeline_env \<Rightarrow> pystr \<Rightarrow> instant" where
  "lookback_start env a =
     clock env ''account_since'' (Some a) - days (case initial_lookback_days env of Some d \<Rightarrow> d | None \<Rightarrow> 3650)"

lemma cursor_of_run:
  "map_of (rev (run_cursors env resume db)) a = (if resume then account_cursor env a (s_cursors db) else None)"
  by (simp add: account_cursor_def get_cursor_def)

lemma window_start:
  assumes "resume \<and> account_cursor env a (s_cursors db) \<noteq> None \<or> since \<le> lo"
    and "provider_type env = ''trading212'' \<Longrightarrow> lookback_start env a \<le> lo"
    and w: "w = account_since env since (run_cursors env resume db) a account_id tbl"
  shows "w \<le> lo \<or> account_cursor env a (s_cursors db) = Some w"
proof (cases "map_of (rev (run_cursors env resume db)) a")
  case None
  then have "w \<le> since" and "since \<le> lo"
    using assms(1) by (auto simp: w account_since_def Let_def cursor_of_run split: option.split if_splits)
  then show ?thesis
    by simp
next
  case (Some c)
  then have c: "account_cursor env a (s_cursors db) = Some c"
    by (simp add: cursor_of_run split: if_splits)
  have "w = c \<or> provider_type env = ''trading212'' \<and> w = lookback_start env a"
    unfolding w account_since_def Let_def lookback_start_def by (simp only: Some option.case split: if_split) blast
  then show ?thesis
    using c assms(2) by blast
qed

text \<open>
  C22. No transaction is lost between runs. Suppose that every transaction of an account that
  occurred from some date on and before the account's cursor is stored, that the provider returns
  all of them from the time it is asked for, and that an account without a cursor (or every account,
  when cursors are ignored) is fetched from that date. Then the same holds after the run, whether it
  completes, fails half-way or is cancelled: the cursor it leaves never skips a transaction.
\<close>

theorem no_transaction_lost:
  assumes cov: "covered env occurred ledger lo db"
    and provider: "\<And>a t0 ts. fetch_transactions env t0 a = Inr ts \<Longrightarrow> {t \<in> ledger a. t0 \<le> occurred t} \<subseteq> set ts"
    and window: "\<And>a. resume \<and> account_cursor env a (s_cursors db) \<noteq> None \<or> since \<le> lo a"
    and lookback: "\<And>a. provider_type env = ''trading212'' \<Longrightarrow> lookback_start env a \<le> lo a"
    and run: "run_pipeline env since resume selected compatibility_error authenticated db = (res, db1)"
  shows "covered env occurred ledger lo db1"
  unfolding covered_def
proof (intro allI impI ballI, elim conjE)
  fix a c t
  assume c: "account_cursor env a (s_cursors db1) = Some c" and t: "t \<in> ledger a" "lo a \<le> occurred t" "occurred t < c"
  let ?cs = "run_cursors env resume db" and ?keys = "\<lambda>x. row_key ` set (s_txns x)"
  have sound: "sound env since ?cs (marks db) (marks db1)"
    by (rule run_pipeline_marks(1) [OF run])
  then have kept: "?keys db \<subseteq> ?keys db1"
    by (simp add: sound_def marks_def)
  have old: "txn_key_of env t \<in> ?keys db" if "account_cursor env a (s_cursors db) = Some d" "occurred t < d" for d
    using cov that t unfolding covered_def by blast
  from sound have "account_cursor env a (s_cursors db1) = account_cursor env a (s_cursors db) \<or>
      fetched_and_stored env since ?cs a (?keys db1)"
    unfolding sound_def marks_def fst_conv snd_conv by blast
  then show "txn_key_of env t \<in> ?keys db1"
  proof
    assume "account_cursor env a (s_cursors db1) = account_cursor env a (s_cursors db)"
    then have "txn_key_of env t \<in> ?keys db"
      using c by (intro old [OF _ t(3)]) simp
    then show ?thesis
      using kept by blast
  next
    assume "fetched_and_stored env since ?cs a (?keys db1)"
    then obtain account_id tbl ts where ts: "fetch_transactions env (account_since env since ?cs a account_id tbl) a = Inr ts"
      and stored: "txn_key_of env ` set ts \<subseteq> ?keys db1"
      unfolding fetched_and_stored_def by blast
    let ?w = "account_since env since ?cs a account_id tbl"
    have "?w \<le> lo a \<or> account_cursor env a (s_cursors db) = Some ?w"
      by (rule window_start [OF window lookback refl])
    then consider "?w \<le> occurred t" | "account_cursor env a (s_cursors db) = Some ?w" "occurred t < ?w"
      using t(2) by fastforce
    then show ?thesis
    proof cases
      case 1
      then have "t \<in> set ts"
        using provider [OF ts] t(1) by blast
      then show ?thesis
        using stored by blast
    next
      case 2
      then show ?thesis
        using old kept by blast
    qed
  qed
qed

subsection \<open>Samples\<close>

text \<open>
  Two accounts with one transaction each; the second account is fetched, or its provider
  fails.
\<close>

definition sample_txn :: "pystr \<Rightarrow> int canonical_txn" where
  "sample_txn a = \<lparr>ct_provider = ''bank'', ct_external = a, ct_cols = (\<lambda>c. if c = ''amount'' then Some 5 else None)\<rparr>"

definition sample_env :: "bool \<Rightarrow> (int, unit) pipeline_env" where
  "sample_env fails =
     \<lparr>tenant = ''t'', provider_type = ''bank'', connection = Some ''c'', start_ts = 100, clock = (\<lambda>_ _. 110),
      new_run_id = ''r2'', failed_run_id = ''r3'', racing_runs = [], authenticate = None,
      fetch_accounts = Inr [''a'', ''b''], supports_holdings = False, initial_lookback_days = None,
      persist_account = (\<lambda>a d. Inr (a, d)), persist_cash_balances = (\<lambda>_ _ d. Inr d),
      sync_holdings = (\<lambda>_ _ d. Inr ((0, {}), d)),
      fetch_transactions = (\<lambda>t0 a. if fails \<and> a = ''b'' then Inl (Transient_error ''timeout'') else Inr [sample_txn a]),
      reclassify = ct_cols, classified = (\<lambda>_. False), has_splits = (\<lambda>_. False), resolve_securities = (\<lambda>ts d. Inr (([], {}), d)),
      fresh_row_id = (\<lambda>a i. a), emit_batch = (\<lambda>_ d. Inr d), excluded_pairs = (\<lambda>_ _. None),
      emit_sync_completed = (\<lambda>d. Inr d)\<rparr>"

definition sample_db :: "(int, unit) store" where
  "sample_db =
     \<lparr>s_runs = [], s_cursors = [\<lparr>cur_tenant = ''t'', cur_connector = ''bank'', cur_connection = Some ''c'',
        cur_resource = ''a'', cursor = 50\<rparr>], s_txns = [], s_data = ()\<rparr>"

text \<open>
  A failed run does move the cursors of the accounts it has finished, as its transactions are
  stored too.
\<close>

lemma failed_run_advances_cursor:
  "case run_pipeline (sample_env True) 0 True None None True sample_db of
     (r, db1) \<Rightarrow>
       map_sum id sr_status r = Inr Run_failed \<and> map run_status (s_runs db1) = [Run_failed] \<and>
       map run_cursor (s_runs db1) = [None] \<and> map cursor (s_cursors db1) = [100] \<and>
       map row_key (s_txns db1) = [(''t'', ''bank'', Some ''c'', ''a'')]"
  by code_simp

lemma sample_starts:
  "start_sync_run (clock (sample_env f) ''start_sync_run'' None) (new_run_id (sample_env f)) (racing_runs (sample_env f))
     (provider_type (sample_env f)) (connection (sample_env f)) (s_runs sample_db) =
   Inr [new_run 110 ''r2'' ''bank'' (Some ''c'')]"
  by (simp add: start_sync_run_def sample_env_def sample_db_def)

lemma pipeline_run_settled_witness:
  "case run_pipeline (sample_env True) 0 True None None True sample_db of
      (Inl e, db1) \<Rightarrow>
        e = Cancelled_error \<and>
        (s_runs db1 = s_runs sample_db \<or>
         (\<exists>r. s_runs db1 = s_runs sample_db @ [r] \<and> run_status r = Run_running \<and> run_cursor r = None))
    | (Inr res, db1) \<Rightarrow>
        sr_category res = Some ''already_running'' \<or>
        (\<exists>r. s_runs db1 = s_runs sample_db @ [r] \<and> run_status r = sr_status res \<and>
             run_cursor r = (if sr_status res = Run_completed then Some (start_ts (sample_env True)) else None) \<and>
             run_error_message r = map_option (take 2048) (sr_message res) \<and> run_error_category r = sr_category res)"
  by (rule pipeline_run_settled [OF _ _ sample_starts]) (simp_all add: sample_env_def sample_db_def)

lemma one_running_sync_per_connection_witness:
  "single_active (s_runs (snd (run_pipeline (sample_env True) 0 True None None True sample_db)))"
  by (rule one_running_sync_per_connection) (simp_all add: sample_env_def sample_db_def single_active_def)

lemma watermark_over_stored_only_witness:
  "fetched_and_stored (sample_env True) 0 (run_cursors (sample_env True) True sample_db) ''a''
     (row_key ` set (s_txns (snd (run_pipeline (sample_env True) 0 True None None True sample_db))))"
proof -
  let ?run = "run_pipeline (sample_env True) 0 True None None True sample_db"
  have "account_cursor (sample_env True) ''a'' (s_cursors (snd ?run)) \<noteq> account_cursor (sample_env True) ''a'' (s_cursors sample_db)"
    by code_simp
  then show ?thesis
    using watermark_over_stored_only [OF prod.collapse [of ?run, symmetric]] by blast
qed

lemma sample_completes:
  "map_sum id sr_status (fst (run_pipeline (sample_env False) 0 True None None True sample_db)) = Inr Run_completed"
  by code_simp

lemma completed_run_covers_accounts_witness:
  "account_cursor (sample_env False) ''b''
     (s_cursors (snd (run_pipeline (sample_env False) 0 True None None True sample_db))) = Some 100"
proof -
  obtain res where r: "fst (run_pipeline (sample_env False) 0 True None None True sample_db) = Inr res" "sr_status res = Run_completed"
    using sample_completes by (auto simp: map_sum_Inr)
  have "run_pipeline (sample_env False) 0 True None None True sample_db =
      (Inr res, snd (run_pipeline (sample_env False) 0 True None None True sample_db))"
    using r(1) by (simp add: prod_eq_iff)
  moreover have "fetch_accounts (sample_env False) = Inr [''a'', ''b'']" "''b'' \<in> set (chosen None [''a'', ''b''])"
    "named (sample_env False) ''b''" "start_ts (sample_env False) = 100"
    by (simp_all add: sample_env_def chosen_def named_def)
  ultimately show ?thesis
    using completed_run_covers_accounts [OF _ r(2), of "sample_env False" 0 True None None True sample_db] by metis
qed

lemma no_transaction_lost_witness:
  "covered (sample_env True) (\<lambda>_. 70) (\<lambda>a. {sample_txn a}) (\<lambda>_. 0)
     (snd (run_pipeline (sample_env True) 0 True None None True sample_db))"
proof (rule no_transaction_lost [OF _ _ _ _ prod.collapse [symmetric]])
  show "covered (sample_env True) (\<lambda>_. 70) (\<lambda>a. {sample_txn a}) (\<lambda>_. 0) sample_db"
    by (auto simp: covered_def account_cursor_def get_cursor_def get_connector_cursors_def cursor_scope_def sample_env_def
        sample_db_def split: if_splits)
  show "\<And>a t0 ts. fetch_transactions (sample_env True) t0 a = Inr ts \<Longrightarrow> {t \<in> {sample_txn a}. t0 \<le> 70} \<subseteq> set ts"
    by (auto simp: sample_env_def split: if_splits)
qed (simp_all add: sample_env_def)

end
