(* ===== verification/Py_Quantize.thy ===== *)
theory Py_Quantize
  imports Py_Text
begin

text \<open>
  More of \<^verbatim>\<open>decimal.Decimal\<close>: \<^verbatim>\<open>str(d)\<close>, \<^verbatim>\<open>d.quantize(..)\<close> with the two
  roundings the program uses, and bounds on what they lose. Quantizing raises
  \<^verbatim>\<open>InvalidOperation\<close> when the result has more digits than the context.
\<close>

definition dec_str :: "decimal \<Rightarrow> pystr" where
  "dec_str d =
     (let s = show_nat \<bar>dcoeff d\<bar>; left = dexp d + int (length s); sign = (if dcoeff d < 0 then ''-'' else [])
      in if dexp d = 0 then sign @ s
         else if dexp d < 0 \<and> left > 0 then sign @ take (nat left) s @ ''.'' @ drop (nat left) s
         else if dexp d < 0 \<and> left > - 6 then sign @ ''0.'' @ replicate (nat (- left)) (CHR ''0'') @ s
         else sign @ take 1 s @ (if length s = 1 then [] else ''.'' @ drop 1 s) @ ''E'' @
              (if left - 1 < 0 then [] else ''+'') @ show_int (left - 1))"

subsection \<open>Quantizing\<close>

definition half_up :: "int \<Rightarrow> int \<Rightarrow> int" where
  "half_up a m = (let q = a div m; r = a mod m in if 2 * r < m then q else q + 1)"

definition rescale :: "(int \<Rightarrow> int \<Rightarrow> int) \<Rightarrow> nat \<Rightarrow> decimal \<Rightarrow> decimal" where
  "rescale rounding n d =
     (if - int n \<le> dexp d then Dec (dscale (- int n) d) (- int n)
      else Dec (sgn (dcoeff d) * rounding \<bar>dcoeff d\<bar> (10 ^ nat (- int n - dexp d))) (- int n))"

definition quantize :: "(int \<Rightarrow> int \<Rightarrow> int) \<Rightarrow> nat \<Rightarrow> decimal \<Rightarrow> decimal option" where
  "quantize rounding n d =
     (let q = rescale rounding n d in if ndigits \<bar>dcoeff q\<bar> \<le> prec then Some q else None)"

lemma half_up_error:
  assumes "0 < m"
  shows "2 * \<bar>half_up a m * m - a\<bar> \<le> m"
proof -
  define q r where "q = a div m" and "r = a mod m"
  have a: "a = q * m + r"
    by (simp add: q_def r_def)
  have r: "r < m" "0 \<le> r"
    using assms by (simp_all add: r_def)
  have "half_up a m = q \<and> 2 * r \<le> m \<or> half_up a m = q + 1 \<and> m \<le> 2 * r"
    by (auto simp: half_up_def Let_def q_def r_def)
  then show ?thesis
    using a r by (auto simp: algebra_simps)
qed

lemma rescale_error:
  assumes "\<And>a m. 0 < m \<Longrightarrow> 2 * \<bar>rounding a m * m - a\<bar> \<le> m"
  shows "\<bar>dval (rescale rounding n d) - dval d\<bar> \<le> 1 / 2 * 10 powi (- int n)"
proof (cases "- int n \<le> dexp d")
  case True
  then have "dval (rescale rounding n d) = dval d"
    using dscale_val [of "- int n" d] by (simp add: rescale_def dval_def)
  then show ?thesis
    by simp
next
  case False
  define k where "k = nat (- int n - dexp d)"
  define m :: int where "m = 10 ^ k"
  define q where "q = rounding \<bar>dcoeff d\<bar> m"
  have m: "0 < m"
    by (simp add: m_def)
  have unit: "(10 :: rat) powi (- int n) = of_int m * 10 powi (dexp d)"
    using False ten_powi_split [of "dexp d" "- int n"] by (simp add: m_def k_def)
  have val: "dval (rescale rounding n d) = of_int (sgn (dcoeff d) * q * m) * 10 powi (dexp d)"
    using False by (simp add: rescale_def dval_def q_def m_def [symmetric] k_def [symmetric] unit)
  have "sgn (dcoeff d) * q * m - dcoeff d = sgn (dcoeff d) * (q * m - \<bar>dcoeff d\<bar>)"
    by (simp add: algebra_simps sgn_mult_abs [symmetric] abs_sgn)
  then have "2 * \<bar>sgn (dcoeff d) * q * m - dcoeff d\<bar> \<le> 2 * \<bar>q * m - \<bar>dcoeff d\<bar>\<bar>"
    by (simp only: abs_mult) (cases "dcoeff d = 0"; simp add: abs_sgn_eq)
  also have "\<dots> \<le> m"
    unfolding q_def by (rule assms [OF m])
  finally have "2 * \<bar>sgn (dcoeff d) * q * m - dcoeff d\<bar> \<le> m" .
  then have "of_int (2 * \<bar>sgn (dcoeff d) * q * m - dcoeff d\<bar>) \<le> (of_int m :: rat)"
    by (simp only: of_int_le_iff)
  then have i: "\<bar>of_int (sgn (dcoeff d) * q * m) - of_int (dcoeff d)\<bar> \<le> (1 / 2 * of_int m :: rat)"
    by simp
  have "dval (rescale rounding n d) - dval d =
      (of_int (sgn (dcoeff d) * q * m) - of_int (dcoeff d)) * 10 powi (dexp d)"
    unfolding val by (simp add: dval_def algebra_simps)
  then have "\<bar>dval (rescale rounding n d) - dval d\<bar> =
      \<bar>of_int (sgn (dcoeff d) * q * m) - of_int (dcoeff d)\<bar> * 10 powi (dexp d)"
    by (simp only: abs_mult) (simp add: less_imp_le)
  also have "\<dots> \<le> (1 / 2 * of_int m) * 10 powi (dexp d)"
    using i by (rule mult_right_mono) (simp add: less_imp_le)
  finally show ?thesis
    by (simp add: unit)
qed

lemma quantize_error:
  assumes "quantize rounding n d = Some q" and "rounding = half_up \<or> rounding = half_even"
  shows "\<bar>dval q - dval d\<bar> \<le> 1 / 2 * 10 powi (- int n)" and "dexp q = - int n"
proof -
  have q: "q = rescale rounding n d"
    using assms(1) by (simp add: quantize_def Let_def split: if_splits)
  show "\<bar>dval q - dval d\<bar> \<le> 1 / 2 * 10 powi (- int n)"
    unfolding q using assms(2) half_up_error half_even_error by (intro rescale_error) auto
  show "dexp q = - int n"
    unfolding q by (simp add: rescale_def)
qed

end
