(* ===== verification/Internal_Transfers.thy ===== *)
theory Internal_Transfers
  imports Py_Quantize Py_Time
begin

text \<open>
  Transfers between a user's own accounts (\<^verbatim>\<open>services/internal_transfers.py\<close>): the
  classification of fetched bunq payments, and the pairing of stored bunq rows that are two legs
  of one movement between budget accounts. A row has the columns that the pairing reads and
  writes; identifiers and account identifiers are their texts.
\<close>

record leg =
  leg_id :: pystr
  leg_tenant :: pystr
  leg_provider :: pystr
  leg_connection :: "pystr option"
  leg_account :: pystr
  leg_amount :: decimal
  leg_occurred :: instant
  leg_status :: pystr
  leg_counterparty :: "pystr option"
  leg_description :: "pystr option"
  leg_metadata :: "(pystr \<times> pyval) list"
  leg_type :: pystr
  leg_export_status :: pystr
  leg_source :: "pystr option"
  leg_revision :: int

subsection \<open>Pairing\<close>

text \<open>The \<^verbatim>\<open>SELECT\<close>; \<^verbatim>\<open>ilike("salaris %")\<close> ignores case.\<close>

definition pairable :: "pystr \<Rightarrow> pystr option \<Rightarrow> leg \<Rightarrow> bool" where
  "pairable tenant conn r \<longleftrightarrow>
     leg_tenant r = tenant \<and> leg_provider r = ''bunq'' \<and> leg_status r \<in> {''booked'', ''pending''} \<and>
     \<not> truthy (leg_counterparty r) \<and>
     (\<not> truthy (leg_description r) \<or> startswith ''salaris '' (lower (the (leg_description r)))) \<and>
     leg_connection r = conn"

definition label :: "leg \<Rightarrow> pystr" where
  "label r = strip (or_blank (leg_description r))"

definition same_movement :: "leg \<Rightarrow> leg \<Rightarrow> bool" where
  "same_movement r c \<longleftrightarrow>
     label r = [] \<and> label c = [] \<or>
     casefold (label r) = casefold (label c) \<and> startswith ''salaris '' (casefold (label r))"

definition candidate :: "leg \<Rightarrow> leg \<Rightarrow> bool" where
  "candidate r c \<longleftrightarrow>
     leg_id c \<noteq> leg_id r \<and> leg_account c \<noteq> leg_account r \<and> deq (leg_amount c) (dneg (leg_amount r)) \<and>
     \<bar>leg_occurred c - leg_occurred r\<bar> \<le> seconds 60 \<and> dlt D0 (leg_amount c) \<and> same_movement r c"

definition closeness :: "leg \<Rightarrow> leg \<Rightarrow> int \<times> pystr" where
  "closeness r c = (\<bar>leg_occurred c - leg_occurred r\<bar>, leg_id c)"

fun pair_legs :: "leg list \<Rightarrow> leg list \<Rightarrow> pystr set \<Rightarrow> (leg \<times> leg) list" where
  "pair_legs rows [] used = []"
| "pair_legs rows (r # rs) used =
     (if leg_id r \<in> used \<or> dle D0 (leg_amount r) then pair_legs rows rs used
      else case first_min (closeness r) (filter (\<lambda>c. leg_id c \<notin> used \<and> candidate r c) rows) of
             None \<Rightarrow> pair_legs rows rs used
           | Some p \<Rightarrow> (r, p) # pair_legs rows rs (insert (leg_id r) (insert (leg_id p) used)))"

definition pair_key :: "leg \<Rightarrow> leg \<Rightarrow> pystr" where
  "pair_key r p =
     ''bunq-easy-budgeting-pair:'' @ iso_format (leg_occurred r) @ '':'' @ dec_str (dabs (leg_amount r)) @ '':'' @
     min (leg_account r) (leg_account p) @ '':'' @ max (leg_account r) (leg_account p)"

definition excluded :: "pystr \<Rightarrow> leg \<Rightarrow> leg" where
  "excluded key r = r
     \<lparr>leg_metadata := dict_put ''internal_transfer_pair_key'' (PStr key)
        (dict_put ''internal_transfer_detection'' (PStr ''bunq_easy_budgeting_pair'')
          (dict_put ''internal_transfer'' (PBool True) (leg_metadata r))),
      leg_type := ''transfer'', leg_export_status := ''excluded'', leg_source := Some ''bunq_easy_budgeting_pair'',
      leg_revision := leg_revision r + 1\<rparr>"

definition exclude_pair :: "leg \<times> leg \<Rightarrow> leg list \<Rightarrow> leg list" where
  "exclude_pair rp tbl =
     (case rp of (r, p) \<Rightarrow>
        put_row leg_id (excluded (pair_key r p) p) (put_row leg_id (excluded (pair_key r p) r) tbl))"

definition eligible_legs :: "pystr \<Rightarrow> pystr option \<Rightarrow> leg list \<Rightarrow> leg list" where
  "eligible_legs tenant conn tbl =
     sort_key (\<lambda>r. (leg_occurred r, leg_id r)) (filter (pairable tenant conn) tbl)"

definition transfer_pairs :: "pystr \<Rightarrow> pystr option \<Rightarrow> leg list \<Rightarrow> (leg \<times> leg) list" where
  "transfer_pairs tenant conn tbl = (let rows = eligible_legs tenant conn tbl in pair_legs rows rows {})"

definition exclude_unlabeled_bunq_transfer_pairs ::
  "pystr \<Rightarrow> pystr option \<Rightarrow> leg list \<Rightarrow> nat \<times> leg list" where
  "exclude_unlabeled_bunq_transfer_pairs tenant conn tbl =
     (let pairs = transfer_pairs tenant conn tbl in (2 * length pairs, fold exclude_pair pairs tbl))"

subsection \<open>Classification\<close>

text \<open>\<^verbatim>\<open>"".join((value or "").upper().split())\<close>\<close>

definition normalize_account_reference :: "pystr option \<Rightarrow> pystr" where
  "normalize_account_reference v = filter (\<lambda>c. \<not> is_space c) (upper (or_blank v))"

text \<open>
  The patterns of Easy Budgeting: a fixed opening, the name of a budget (on one line), a fixed end
  with an optional full stop, in any case.
\<close>

definition drop_stop :: "pystr \<Rightarrow> pystr" where
  "drop_stop s = (if s \<noteq> [] \<and> last s = CHR ''.'' then butlast s else s)"

definition between :: "pystr \<Rightarrow> pystr \<Rightarrow> pystr \<Rightarrow> pystr option" where
  "between opening closing s =
     (let t = drop_stop s; m = take (length t - length opening - length closing) (drop (length opening) t)
      in if startswith opening (lower s) \<and> length opening + length closing < length t \<and>
            lower (drop (length t - length closing) t) = closing \<and> CHR 0x0A \<notin> set m
         then Some m else None)"

datatype easy_budgeting = Easy_budgeting pystr "pystr option"

definition easy_budgeting_match :: "pystr \<Rightarrow> easy_budgeting option" where
  "easy_budgeting_match s =
     (case between ''automatic top-up of your '' '' budget'' s of
        Some b \<Rightarrow> Some (Easy_budgeting ''top_up'' (Some b))
      | None \<Rightarrow>
          if lower (drop_stop s) = ''automatic budget top up'' then Some (Easy_budgeting ''top_up'' None)
          else map_option (\<lambda>b. Easy_budgeting ''remainder'' (Some b)) (between ''remainder of your '' '' budget'' s))"

record payment =
  pay_provider :: pystr
  pay_type :: pystr
  pay_amount :: decimal
  pay_occurred :: instant
  pay_description :: "pystr option"
  pay_counterparty :: "pystr option"
  pay_metadata :: "(pystr \<times> pyval) list"
  pay_contract :: "(pystr \<times> pyval) list option"
  pay_source :: "pystr option"

definition fields_of :: "pyval \<Rightarrow> (pystr \<times> pyval) list" where
  "fields_of v = (case v of PDict d \<Rightarrow> d | _ \<Rightarrow> [])"

definition with_transfer_id :: "pystr \<Rightarrow> (pystr \<times> pyval) list \<Rightarrow> (pystr \<times> pyval) list" where
  "with_transfer_id key contract =
     dict_put ''fields''
       (PDict (dict_put ''pair_scope'' (PStr ''cross_account'')
         (dict_put ''transfer_id'' (PStr key) (fields_of (dict_get contract ''fields''))))) contract"

definition budgeting_key :: "payment \<Rightarrow> pystr" where
  "budgeting_key t =
     ''bunq-easy-budgeting:'' @ iso_date (pay_occurred t div days 1) @ '':'' @
     casefold (strip (or_blank (pay_description t))) @ '':'' @ dec_str (dabs (pay_amount t))"

definition opt_text :: "pystr option \<Rightarrow> pyval" where
  "opt_text o1 = (case o1 of None \<Rightarrow> PNone | Some s \<Rightarrow> PStr s)"

definition classify_payment :: "pystr set \<Rightarrow> payment \<Rightarrow> payment" where
  "classify_payment owned t =
     (let bunq = (lower (pay_provider t) = ''bunq'');
          op = (if bunq then easy_budgeting_match (strip (or_blank (pay_description t))) else None);
          internal = (bunq \<and> (normalize_account_reference (pay_counterparty t) \<in> owned \<or> op \<noteq> None));
          marked = dict_put ''internal_transfer'' (PBool True) (pay_metadata t)
      in if \<not> internal \<or> pay_type t = ''transfer'' then t
         else t\<lparr>pay_type := ''transfer'',
                pay_metadata :=
                  (case op of
                     None \<Rightarrow> dict_put ''internal_transfer_detection'' (PStr ''owned_counterparty_iban'') marked
                   | Some (Easy_budgeting operation budget) \<Rightarrow>
                       dict_put ''internal_transfer_pair_key'' (PStr (budgeting_key t))
                         (dict_put ''easy_budgeting_budget'' (opt_text (map_option strip budget))
                           (dict_put ''easy_budgeting_operation'' (PStr operation)
                             (dict_put ''internal_transfer_detection'' (PStr ''bunq_easy_budgeting'') marked)))),
                pay_contract :=
                  (case op of None \<Rightarrow> pay_contract t
                   | Some _ \<Rightarrow> map_option (with_transfer_id (budgeting_key t)) (pay_contract t)),
                pay_source := (if truthy (pay_source t) then pay_source t else Some ''bunq_internal_transfer'')\<rparr>)"

definition classify_bunq_internal_transfers :: "pystr list \<Rightarrow> payment list \<Rightarrow> payment list" where
  "classify_bunq_internal_transfers owned_ibans ts =
     (let owned = set (map (\<lambda>i. normalize_account_reference (Some i)) (filter (\<lambda>i. i \<noteq> []) owned_ibans))
      in map (classify_payment owned) ts)"

text \<open>An account is its provider and the \<^verbatim>\<open>iban\<close> of its metadata.\<close>

definition bunq_owned_ibans :: "(pystr \<times> pystr option) list \<Rightarrow> pystr set" where
  "bunq_owned_ibans accounts =
     set (filter (\<lambda>i. i \<noteq> [])
       (map (\<lambda>(p, iban). normalize_account_reference iban) (filter (\<lambda>a. lower (fst a) = ''bunq'') accounts)))"

definition is_bunq_easy_budgeting_transaction :: "pystr \<Rightarrow> (pystr \<times> pyval) list \<Rightarrow> pystr option \<Rightarrow> bool" where
  "is_bunq_easy_budgeting_transaction provider metadata description \<longleftrightarrow>
     lower provider = ''bunq'' \<and>
     (startswith ''bunq_easy_budgeting''
        (case dict_get metadata ''internal_transfer_detection'' of PNone \<Rightarrow> [] | v \<Rightarrow> py_str v) \<or>
      easy_budgeting_match (strip (or_blank description)) \<noteq> None)"

end
