(* ===== verification/Internal_Transfers_Props.thy ===== *)
theory Internal_Transfers_Props
  imports Internal_Transfers
begin

text \<open>
  The pairing is a maximal matching: its pairs are two legs of one movement, no leg is in two
  pairs, and no two legs that could be paired are left over. What it excludes cancels out.
\<close>

definition leg_pair_ids :: "(leg \<times> leg) list \<Rightarrow> pystr list" where
  "leg_pair_ids ps = concat (map (\<lambda>(r, p). [leg_id r, leg_id p]) ps)"

lemma leg_pair_ids_simps [simp]:
  "leg_pair_ids [] = []" "leg_pair_ids ((r, p) # ps) = leg_id r # leg_id p # leg_pair_ids ps"
  by (simp_all add: leg_pair_ids_def)

text \<open>The two legs of one movement, stated over the values of the columns.\<close>

definition one_movement :: "leg \<Rightarrow> leg \<Rightarrow> bool" where
  "one_movement r c \<longleftrightarrow>
     leg_account c \<noteq> leg_account r \<and> dval (leg_amount r) < 0 \<and> 0 < dval (leg_amount c) \<and>
     dval (leg_amount c) = dval (dneg (leg_amount r)) \<and> \<bar>leg_occurred c - leg_occurred r\<bar> \<le> 60000000 \<and>
     (label r = [] \<and> label c = [] \<or>
      casefold (label c) = casefold (label r) \<and> startswith ''salaris '' (casefold (label r)))"

lemma candidate_iff:
  assumes "dval (leg_amount r) < 0"
  shows "leg_id c \<noteq> leg_id r \<and> one_movement r c \<longleftrightarrow> candidate r c"
  using assms by (auto simp: one_movement_def candidate_def same_movement_def)

lemma pair_legs_step:
  obtains (skip) "pair_legs rows (r # rs) used = pair_legs rows rs used"
      and "leg_id r \<in> used \<or> dle D0 (leg_amount r) \<or> (\<forall>c \<in> set rows. candidate r c \<longrightarrow> leg_id c \<in> used)"
  | (pair) p where
      "pair_legs rows (r # rs) used = (r, p) # pair_legs rows rs (insert (leg_id r) (insert (leg_id p) used))"
      "leg_id r \<notin> used" "dlt (leg_amount r) D0" "p \<in> set rows" "leg_id p \<notin> used" "candidate r p"
      "first_min (closeness r) (filter (\<lambda>c. leg_id c \<notin> used \<and> candidate r c) rows) = Some p"
proof (cases "leg_id r \<in> used \<or> dle D0 (leg_amount r)")
  case True
  then show thesis
    by (intro skip) auto
next
  case False
  let ?cs = "filter (\<lambda>c. leg_id c \<notin> used \<and> candidate r c) rows"
  show thesis
  proof (cases "first_min (closeness r) ?cs")
    case None
    then have "?cs = []"
      by simp
    then have "\<forall>c \<in> set rows. candidate r c \<longrightarrow> leg_id c \<in> used"
      by (auto simp: filter_empty_conv)
    with None False show thesis
      by (intro skip) simp_all
  next
    case (Some p)
    then have "p \<in> set ?cs"
      by (rule first_min_in)
    with Some False show thesis
      by (intro pair [of p]) auto
  qed
qed

lemma pair_legs_valid:
  "(r, p) \<in> set (pair_legs rows rs used) \<Longrightarrow>
   r \<in> set rs \<and> p \<in> set rows \<and> dlt (leg_amount r) D0 \<and> candidate r p"
proof (induction rs arbitrary: used)
  case (Cons x rs)
  show ?case
    using Cons.prems Cons.IH by (cases rule: pair_legs_step [of rows x rs used]) auto
qed simp

lemma pair_legs_distinct:
  "distinct (leg_pair_ids (pair_legs rows rs used)) \<and> set (leg_pair_ids (pair_legs rows rs used)) \<inter> used = {}"
proof (induction rs arbitrary: used)
  case (Cons x rs)
  show ?case
  proof (cases rule: pair_legs_step [of rows x rs used])
    case skip
    then show ?thesis
      using Cons.IH [of used] by simp
  next
    case (pair p)
    then have "leg_id p \<noteq> leg_id x"
      by (simp add: candidate_def)
    then show ?thesis
      using Cons.IH [of "insert (leg_id x) (insert (leg_id p) used)"] pair by auto
  qed
qed simp

lemma pair_legs_maximal:
  assumes "r \<in> set rs" and "dlt (leg_amount r) D0" and "c \<in> set rows" and "candidate r c"
  shows "leg_id r \<in> set (leg_pair_ids (pair_legs rows rs used)) \<union> used \<or>
    leg_id c \<in> set (leg_pair_ids (pair_legs rows rs used)) \<union> used"
  using assms(1)
proof (induction rs arbitrary: used)
  case (Cons x rs)
  show ?case
  proof (cases rule: pair_legs_step [of rows x rs used])
    case skip
    then show ?thesis
    proof (cases "x = r")
      case True
      then show ?thesis
        using skip assms(2,3,4) by auto
    next
      case False
      then show ?thesis
        using Cons skip by simp
    qed
  next
    case (pair p)
    show ?thesis
    proof (cases "x = r")
      case True
      then show ?thesis
        using pair by simp
    next
      case False
      then have "r \<in> set rs"
        using Cons.prems by simp
      then show ?thesis
        using Cons.IH [of "insert (leg_id x) (insert (leg_id p) used)"] pair by auto
    qed
  qed
qed simp

lemma in_eligible [simp]: "r \<in> set (eligible_legs tenant conn tbl) \<longleftrightarrow> r \<in> set tbl \<and> pairable tenant conn r"
  by (auto simp: eligible_legs_def)

lemma transfer_pairs_valid:
  assumes "(r, p) \<in> set (transfer_pairs tenant conn tbl)"
  shows "r \<in> set tbl \<and> p \<in> set tbl \<and> pairable tenant conn r \<and> pairable tenant conn p \<and>
    dval (leg_amount r) < 0 \<and> candidate r p"
  using pair_legs_valid [OF assms [unfolded transfer_pairs_def Let_def]] by simp

lemma pair_legs_closest:
  assumes "pair_legs rows rs used = ps1 @ (r, p) # ps2" "c \<in> set rows" "candidate r c" "closeness r c < closeness r p"
  shows "leg_id c \<in> used \<union> set (leg_pair_ids ps1)"
  using assms(1)
proof (induction rs arbitrary: used ps1)
  case (Cons x rs)
  show ?case
  proof (cases rule: pair_legs_step [of rows x rs used])
    case skip
    then show ?thesis
      using Cons by simp
  next
    case (pair q)
    show ?thesis
    proof (cases ps1)
      case Nil
      then have "x = r" "q = p"
        using pair(1) Cons.prems by simp_all
      moreover have "first_min (closeness x) (filter (\<lambda>c. leg_id c \<notin> used \<and> candidate x c) rows) = Some q"
        using pair by simp
      ultimately show ?thesis
        using first_min_le [of "closeness r" "filter (\<lambda>c. leg_id c \<notin> used \<and> candidate r c) rows" p c] assms(2,3,4)
        by (auto dest: leD)
    next
      case (Cons a ps)
      then have a: "a = (x, q)" "pair_legs rows rs (insert (leg_id x) (insert (leg_id q) used)) = ps @ (r, p) # ps2"
        using pair(1) Cons.prems by simp_all
      show ?thesis
        using Cons.IH [OF a(2)] by (auto simp: Cons a(1))
    qed
  qed
qed simp

text \<open>
  C27. The pairs are two legs of one movement: an outgoing and an incoming row of the connection, in
  different accounts, with opposite amounts, at most a minute apart, both unlabelled or with the same
  salary label. No row is in two pairs. The matching is maximal: of two rows that are legs of one
  movement, at least one is paired. And a row is paired with the closest of the rows left: a closer one
  is in an earlier pair.
\<close>

theorem transfer_pairs_maximal_matching:
  "(\<forall>(r, p) \<in> set (transfer_pairs tenant conn tbl).
      r \<in> set tbl \<and> p \<in> set tbl \<and> pairable tenant conn r \<and> pairable tenant conn p \<and> one_movement r p) \<and>
   distinct (leg_pair_ids (transfer_pairs tenant conn tbl)) \<and>
   (\<forall>r \<in> set tbl. \<forall>c \<in> set tbl.
      pairable tenant conn r \<and> pairable tenant conn c \<and> leg_id c \<noteq> leg_id r \<and> one_movement r c \<longrightarrow>
      leg_id r \<in> set (leg_pair_ids (transfer_pairs tenant conn tbl)) \<or>
      leg_id c \<in> set (leg_pair_ids (transfer_pairs tenant conn tbl))) \<and>
   (\<forall>ps1 r p ps2. \<forall>c \<in> set tbl.
      transfer_pairs tenant conn tbl = ps1 @ (r, p) # ps2 \<and> pairable tenant conn c \<and> leg_id c \<noteq> leg_id r \<and>
      one_movement r c \<and> \<bar>leg_occurred c - leg_occurred r\<bar> < \<bar>leg_occurred p - leg_occurred r\<bar> \<longrightarrow>
      leg_id c \<in> set (leg_pair_ids ps1))"
proof (intro conjI ballI allI impI)
  show "distinct (leg_pair_ids (transfer_pairs tenant conn tbl))"
    using pair_legs_distinct unfolding transfer_pairs_def Let_def by blast
next
  fix x
  assume "x \<in> set (transfer_pairs tenant conn tbl)"
  then show "case x of (r, p) \<Rightarrow> r \<in> set tbl \<and> p \<in> set tbl \<and> pairable tenant conn r \<and> pairable tenant conn p \<and>
      one_movement r p"
    using transfer_pairs_valid [of "fst x" "snd x" tenant conn tbl] candidate_iff [of "fst x" "snd x"]
    by (simp add: case_prod_beta)
next
  fix r c
  assume "r \<in> set tbl" "c \<in> set tbl"
    and a: "pairable tenant conn r \<and> pairable tenant conn c \<and> leg_id c \<noteq> leg_id r \<and> one_movement r c"
  moreover have "dval (leg_amount r) < 0"
    using a by (simp add: one_movement_def)
  ultimately show "leg_id r \<in> set (leg_pair_ids (transfer_pairs tenant conn tbl)) \<or>
      leg_id c \<in> set (leg_pair_ids (transfer_pairs tenant conn tbl))"
    using pair_legs_maximal [of r "eligible_legs tenant conn tbl" c "eligible_legs tenant conn tbl" "{}"] candidate_iff [of r c]
    by (simp add: transfer_pairs_def Let_def)
next
  fix ps1 r p ps2 c
  assume c: "c \<in> set tbl" and a: "transfer_pairs tenant conn tbl = ps1 @ (r, p) # ps2 \<and> pairable tenant conn c \<and>
      leg_id c \<noteq> leg_id r \<and> one_movement r c \<and> \<bar>leg_occurred c - leg_occurred r\<bar> < \<bar>leg_occurred p - leg_occurred r\<bar>"
  have "candidate r c"
    using a candidate_iff [of r c] by (simp add: one_movement_def)
  then show "leg_id c \<in> set (leg_pair_ids ps1)"
    using pair_legs_closest [of "eligible_legs tenant conn tbl" "eligible_legs tenant conn tbl" "{}" ps1 r p ps2 c] a c
    by (simp add: transfer_pairs_def Let_def closeness_def less_prod_def)
qed

subsection \<open>What is excluded\<close>

definition pair_keys :: "(leg \<times> leg) list \<Rightarrow> (pystr \<times> pystr) list" where
  "pair_keys ps = concat (map (\<lambda>(r, p). [(leg_id r, pair_key r p), (leg_id p, pair_key r p)]) ps)"

definition mark_by :: "(pystr \<times> pystr) list \<Rightarrow> leg \<Rightarrow> leg" where
  "mark_by keys x = (case map_of keys (leg_id x) of None \<Rightarrow> x | Some k \<Rightarrow> excluded k x)"

lemma pair_keys_simps [simp]:
  "pair_keys [] = []" "pair_keys ((r, p) # ps) = (leg_id r, pair_key r p) # (leg_id p, pair_key r p) # pair_keys ps"
  by (simp_all add: pair_keys_def)

lemma pair_keys_dom: "map fst (pair_keys ps) = leg_pair_ids ps"
  by (induction ps) auto

lemma pair_keys_None: "map_of (pair_keys ps) i = None \<longleftrightarrow> i \<notin> set (leg_pair_ids ps)"
  using map_of_eq_None_iff [of "pair_keys ps" i] by (simp add: pair_keys_dom flip: set_map)

lemma excluded_id [simp]: "leg_id (excluded k r) = leg_id r" "leg_amount (excluded k r) = leg_amount r"
  by (simp_all add: excluded_def)

lemma put_excluded:
  assumes "distinct (map leg_id tbl)" and "r \<in> set tbl"
  shows "put_row leg_id (excluded k r) tbl = map (\<lambda>x. if leg_id x = leg_id r then excluded k x else x) tbl"
  using assms distinct_key_eq [of leg_id tbl] by (auto simp: put_row_def)

lemma exclude_pairs_map:
  assumes "distinct (map leg_id tbl)" and "distinct (leg_pair_ids ps)"
    and "\<And>r p. (r, p) \<in> set ps \<Longrightarrow> r \<in> set tbl \<and> p \<in> set tbl"
  shows "fold exclude_pair ps tbl = map (mark_by (pair_keys ps)) tbl"
  using assms
proof (induction ps arbitrary: tbl)
  case Nil
  then show ?case
    by (simp add: mark_by_def)
next
  case (Cons rp ps)
  obtain r p where rp: "rp = (r, p)"
    by (cases rp)
  let ?k = "pair_key r p"
  let ?f = "\<lambda>x. if leg_id x = leg_id r \<or> leg_id x = leg_id p then excluded ?k x else x"
  have r: "r \<in> set tbl" "p \<in> set tbl" and ne: "leg_id r \<noteq> leg_id p"
    using Cons.prems(2,3) rp by auto
  have step: "exclude_pair rp tbl = map ?f tbl"
  proof -
    let ?t = "map (\<lambda>x. if leg_id x = leg_id r then excluded ?k x else x) tbl"
    have "map leg_id ?t = map leg_id tbl"
      by simp
    then have d: "distinct (map leg_id ?t)"
      using Cons.prems(1) by (simp only:)
    have "p \<in> set ?t"
      using r(2) ne by (auto intro!: image_eqI [of p _ p])
    then have "put_row leg_id (excluded ?k p) ?t = map (\<lambda>x. if leg_id x = leg_id p then excluded ?k x else x) ?t"
      by (rule put_excluded [OF d])
    then show ?thesis
      using put_excluded [OF Cons.prems(1) r(1), of ?k] ne by (simp add: exclude_pair_def rp o_def)
  qed
  have rec: "fold exclude_pair ps (map ?f tbl) = map (mark_by (pair_keys ps)) (map ?f tbl)"
  proof (rule Cons.IH)
    show "distinct (map leg_id (map ?f tbl))"
    proof -
      have "map leg_id (map ?f tbl) = map leg_id tbl"
        by simp
      then show ?thesis
        using Cons.prems(1) by (simp only:)
    qed
    show "distinct (leg_pair_ids ps)"
      using Cons.prems(2) rp by simp
    fix r' p'
    assume m: "(r', p') \<in> set ps"
    then have "r' \<in> set tbl" "p' \<in> set tbl"
      using Cons.prems(3) by auto
    moreover have "leg_id r' \<in> set (leg_pair_ids ps)" "leg_id p' \<in> set (leg_pair_ids ps)"
      using m by (auto simp: leg_pair_ids_def)
    then have "?f r' = r'" "?f p' = p'"
      using Cons.prems(2) rp by auto
    ultimately show "r' \<in> set (map ?f tbl) \<and> p' \<in> set (map ?f tbl)"
      unfolding list.set_map by (intro conjI; intro image_eqI [where f = ?f]; simp only:)
  qed
  have eq: "mark_by (pair_keys ps) (?f x) = mark_by (pair_keys (rp # ps)) x" for x
  proof -
    have none: "map_of (pair_keys ps) (leg_id r) = None" "map_of (pair_keys ps) (leg_id p) = None"
      using Cons.prems(2) rp by (auto simp: pair_keys_None)
    then show ?thesis
      by (cases "leg_id x = leg_id r"; cases "leg_id x = leg_id p") (simp_all add: mark_by_def rp)
  qed
  show ?case
    by (simp only: fold_simps(2) step rec map_map comp_def eq)
qed

lemma exclude_marks:
  assumes "distinct (map leg_id tbl)"
  shows "snd (exclude_unlabeled_bunq_transfer_pairs tenant conn tbl) =
    map (mark_by (pair_keys (transfer_pairs tenant conn tbl))) tbl"
proof -
  have "distinct (leg_pair_ids (transfer_pairs tenant conn tbl))"
    using pair_legs_distinct unfolding transfer_pairs_def Let_def by blast
  then show ?thesis
    unfolding exclude_unlabeled_bunq_transfer_pairs_def Let_def snd_conv
    by (intro exclude_pairs_map [OF assms]) (auto dest: transfer_pairs_valid)
qed

definition paired :: "pystr \<Rightarrow> pystr option \<Rightarrow> leg list \<Rightarrow> leg \<Rightarrow> bool" where
  "paired tenant conn tbl r \<longleftrightarrow> leg_id r \<in> set (leg_pair_ids (transfer_pairs tenant conn tbl))"

lemma mark_by_paired:
  "\<exists>k. mark_by (pair_keys (transfer_pairs tenant conn tbl)) r = (if paired tenant conn tbl r then excluded k r else r)"
  using pair_keys_None [of "transfer_pairs tenant conn tbl" "leg_id r"]
  by (auto simp: mark_by_def paired_def split: option.splits)

definition pair_legs_of :: "(leg \<times> leg) list \<Rightarrow> leg list" where
  "pair_legs_of ps = concat (map (\<lambda>(r, p). [r, p]) ps)"

lemma pair_legs_of_ids: "map leg_id (pair_legs_of ps) = leg_pair_ids ps"
  by (induction ps) (auto simp: pair_legs_of_def)

lemma length_pair_legs_of: "length (pair_legs_of ps) = 2 * length ps"
  by (induction ps) (auto simp: pair_legs_of_def)

lemma set_pair_legs_of: "x \<in> set (pair_legs_of ps) \<Longrightarrow> \<exists>r p. (r, p) \<in> set ps \<and> (x = r \<or> x = p)"
  by (auto simp: pair_legs_of_def)

lemma paired_rows:
  assumes "distinct (map leg_id tbl)"
  shows "mset (filter (paired tenant conn tbl) tbl) = mset (pair_legs_of (transfer_pairs tenant conn tbl))"
proof -
  let ?ps = "transfer_pairs tenant conn tbl"
  have legs: "set (pair_legs_of ?ps) \<subseteq> set tbl"
    using set_pair_legs_of [of _ ?ps] transfer_pairs_valid [of _ _ tenant conn tbl] by blast
  have ids: "set (leg_pair_ids ?ps) = leg_id ` set (pair_legs_of ?ps)"
    by (metis list.set_map pair_legs_of_ids)
  have "set (filter (paired tenant conn tbl) tbl) = set (pair_legs_of ?ps)"
  proof (intro set_eqI iffI)
    fix x
    assume "x \<in> set (filter (paired tenant conn tbl) tbl)"
    then obtain y where "x \<in> set tbl" "y \<in> set (pair_legs_of ?ps)" "leg_id x = leg_id y"
      by (auto simp: paired_def ids)
    then show "x \<in> set (pair_legs_of ?ps)"
      using distinct_key_eq [OF assms, of x y] legs by auto
  next
    fix x
    assume "x \<in> set (pair_legs_of ?ps)"
    then show "x \<in> set (filter (paired tenant conn tbl) tbl)"
      using legs by (auto simp: paired_def ids)
  qed
  moreover have "distinct (pair_legs_of ?ps)"
  proof -
    have "distinct (leg_pair_ids ?ps)"
      using pair_legs_distinct unfolding transfer_pairs_def Let_def by blast
    then show ?thesis
      by (metis distinct_map pair_legs_of_ids)
  qed
  moreover have "distinct (filter (paired tenant conn tbl) tbl)"
    using assms by (simp add: distinct_map)
  ultimately show ?thesis
    by (metis set_eq_iff_mset_eq_distinct)
qed

lemma candidate_amount:
  assumes "candidate r p" and "\<bar>dcoeff (leg_amount r)\<bar> < 10 ^ prec"
  shows "dval (leg_amount r) + dval (leg_amount p) = 0"
proof -
  have "dneg (leg_amount r) = Dec (- dcoeff (leg_amount r)) (dexp (leg_amount r))"
    using assms(2) by (simp add: dneg_def dfix_exact)
  then have "dval (dneg (leg_amount r)) = - dval (leg_amount r)"
    by (simp add: dval_def)
  then show ?thesis
    using assms(1) by (simp add: candidate_def)
qed

lemma pair_sum:
  assumes "\<And>r p. (r, p) \<in> set ps \<Longrightarrow> f r + f p = (0 :: rat)"
  shows "sum_list (map f (pair_legs_of ps)) = 0"
  using assms by (induction ps) (auto simp: pair_legs_of_def add.assoc [symmetric])

text \<open>
  What the run does. It changes only the rows it has paired, two for each pair, and of those only
  the type, the export status, the provenance, the revision and three metadata entries. As the amounts
  of the excluded rows cancel out, excluding them leaves the net cash flow as it is.
\<close>

theorem exclusion_keeps_net_cash_flow:
  assumes "distinct (map leg_id tbl)" and "\<And>r. r \<in> set tbl \<Longrightarrow> \<bar>dcoeff (leg_amount r)\<bar> < 10 ^ prec"
    and "exclude_unlabeled_bunq_transfer_pairs tenant conn tbl = (changed, tbl1)"
  shows "length (filter (paired tenant conn tbl) tbl) = changed \<and>
    list_all2 (\<lambda>r r1. \<exists>k. r1 = (if paired tenant conn tbl r then excluded k r else r)) tbl tbl1 \<and>
    (\<Sum>r \<leftarrow> filter (paired tenant conn tbl) tbl. dval (leg_amount r)) = 0"
proof (intro conjI)
  let ?ps = "transfer_pairs tenant conn tbl"
  have n: "changed = 2 * length ?ps"
    using assms(3) by (simp add: exclude_unlabeled_bunq_transfer_pairs_def Let_def)
  note rows = paired_rows [OF assms(1), of tenant conn]
  show "length (filter (paired tenant conn tbl) tbl) = changed"
    using arg_cong [OF rows, of size] by (simp only: n size_mset length_pair_legs_of)
  have "tbl1 = map (mark_by (pair_keys ?ps)) tbl"
    using exclude_marks [OF assms(1), of tenant conn] assms(3) by simp
  then show "list_all2 (\<lambda>r r1. \<exists>k. r1 = (if paired tenant conn tbl r then excluded k r else r)) tbl tbl1"
    using mark_by_paired [of tenant conn tbl] by (simp add: list_all2_map2 list.rel_refl)
  have "sum_list (map (\<lambda>r. dval (leg_amount r)) (pair_legs_of ?ps)) = 0"
    by (rule pair_sum) (use transfer_pairs_valid [of _ _ tenant conn tbl] candidate_amount assms(2) in blast)
  moreover have "sum_list (map (\<lambda>r. dval (leg_amount r)) (filter (paired tenant conn tbl) tbl)) =
      sum_list (map (\<lambda>r. dval (leg_amount r)) (pair_legs_of ?ps))"
    using arg_cong [OF rows, of "\<lambda>m. \<Sum>\<^sub># (image_mset (\<lambda>r. dval (leg_amount r)) m)"]
    by (simp only: mset_map [symmetric] sum_mset_sum_list)
  ultimately show "(\<Sum>r \<leftarrow> filter (paired tenant conn tbl) tbl. dval (leg_amount r)) = 0"
    by simp
qed

subsection \<open>Running again\<close>

lemma dict_put_same: "map_of d k = Some v \<Longrightarrow> dict_put k v d = d"
  by (induction k v d rule: dict_put.induct) auto

lemma excluded_twice: "excluded k (excluded k r) = (excluded k r)\<lparr>leg_revision := leg_revision (excluded k r) + 1\<rparr>"
  by (simp add: excluded_def dict_put_same)

definition alike :: "(leg \<Rightarrow> leg) \<Rightarrow> bool" where
  "alike f \<longleftrightarrow>
     (\<forall>r. leg_id (f r) = leg_id r \<and> leg_tenant (f r) = leg_tenant r \<and> leg_provider (f r) = leg_provider r \<and>
        leg_connection (f r) = leg_connection r \<and> leg_account (f r) = leg_account r \<and> leg_amount (f r) = leg_amount r \<and>
        leg_occurred (f r) = leg_occurred r \<and> leg_status (f r) = leg_status r \<and>
        leg_counterparty (f r) = leg_counterparty r \<and> leg_description (f r) = leg_description r)"

lemma alike_mark: "alike (mark_by keys)"
  by (simp add: alike_def mark_by_def excluded_def split: option.split)

lemma alike_candidate: "alike f \<Longrightarrow> candidate (f r) (f c) = candidate r c"
  by (simp add: alike_def candidate_def same_movement_def label_def)

lemma alike_closeness: "alike f \<Longrightarrow> (\<lambda>c. closeness (f r) (f c)) = closeness r"
  by (simp add: alike_def closeness_def fun_eq_iff)

lemma alike_pairs:
  assumes "alike f"
  shows "pair_legs (map f rows) (map f rs) used = map (map_prod f f) (pair_legs rows rs used)"
proof (induction rs arbitrary: used)
  case (Cons r rs)
  have id: "leg_id (f x) = leg_id x" "leg_amount (f x) = leg_amount x" for x
    using assms by (simp_all add: alike_def)
  have "filter (\<lambda>c. leg_id c \<notin> used \<and> candidate (f r) c) (map f rows) =
      map f (filter (\<lambda>c. leg_id c \<notin> used \<and> candidate r c) rows)"
    by (simp add: filter_map o_def id alike_candidate [OF assms])
  then have "first_min (closeness (f r)) (filter (\<lambda>c. leg_id c \<notin> used \<and> candidate (f r) c) (map f rows)) =
      map_option f (first_min (closeness r) (filter (\<lambda>c. leg_id c \<notin> used \<and> candidate r c) rows))"
    by (simp only: first_min_map alike_closeness [OF assms])
  then show ?case
    using Cons.IH by (simp add: id split: option.split)
qed simp

lemma alike_transfer_pairs:
  assumes "alike f"
  shows "transfer_pairs tenant conn (map f tbl) = map (map_prod f f) (transfer_pairs tenant conn tbl)"
proof -
  have "filter (pairable tenant conn) (map f tbl) = map f (filter (pairable tenant conn) tbl)"
  proof -
    have "pairable tenant conn (f r) = pairable tenant conn r" for r
      using assms by (simp add: pairable_def alike_def)
    then show ?thesis
      by (simp add: filter_map o_def)
  qed
  then have "eligible_legs tenant conn (map f tbl) = map f (eligible_legs tenant conn tbl)"
    using assms by (simp add: eligible_legs_def sort_key_map alike_def)
  then show ?thesis
    by (simp add: transfer_pairs_def Let_def alike_pairs [OF assms])
qed

text \<open>
  Every later run pairs the same rows again: it changes nothing but their revisions, each by one,
  and reports as many changed rows as the first run did.
\<close>

theorem rerun_only_bumps_revisions:
  assumes "distinct (map leg_id tbl)" and "exclude_unlabeled_bunq_transfer_pairs tenant conn tbl = (changed, tbl1)"
  shows "exclude_unlabeled_bunq_transfer_pairs tenant conn tbl1 =
    (changed, map (\<lambda>r. if paired tenant conn tbl r then r\<lparr>leg_revision := leg_revision r + 1\<rparr> else r) tbl1)"
proof -
  let ?ps = "transfer_pairs tenant conn tbl"
  let ?f = "mark_by (pair_keys ?ps)"
  have tbl1: "tbl1 = map ?f tbl"
    using exclude_marks [OF assms(1), of tenant conn] assms(2) by simp
  have pairs: "transfer_pairs tenant conn tbl1 = map (map_prod ?f ?f) ?ps"
    unfolding tbl1 by (rule alike_transfer_pairs [OF alike_mark])
  have keys: "pair_keys (map (map_prod g g) ps) = pair_keys ps" if "alike g" for g ps
    using that by (induction ps) (auto simp: pair_key_def alike_def)
  have same: "?f (?f r) = (if paired tenant conn tbl r then (?f r)\<lparr>leg_revision := leg_revision (?f r) + 1\<rparr> else ?f r)" for r
  proof (cases "map_of (pair_keys ?ps) (leg_id r)")
    case None
    with pair_keys_None [of ?ps "leg_id r"] show ?thesis
      by (simp add: mark_by_def paired_def)
  next
    case (Some k)
    with pair_keys_None [of ?ps "leg_id r"] have "paired tenant conn tbl r"
      by (simp add: paired_def)
    with Some excluded_twice [of k r] show ?thesis
      by (simp add: mark_by_def)
  qed
  have "distinct (map leg_id tbl1)"
    using assms(1) alike_mark [of "pair_keys ?ps"] by (simp add: tbl1 alike_def o_def)
  then have "snd (exclude_unlabeled_bunq_transfer_pairs tenant conn tbl1) = map ?f tbl1"
    by (simp add: exclude_marks pairs keys [OF alike_mark])
  moreover have "map ?f tbl1 = map (\<lambda>r. if paired tenant conn tbl r then r\<lparr>leg_revision := leg_revision r + 1\<rparr> else r) tbl1"
  proof -
    have "paired tenant conn tbl (?f r) = paired tenant conn tbl r" for r
      using alike_mark [of "pair_keys ?ps"] by (simp add: paired_def alike_def)
    then show ?thesis
      by (simp add: tbl1 same)
  qed
  moreover have "fst (exclude_unlabeled_bunq_transfer_pairs tenant conn tbl1) = changed"
    using assms(2) pairs by (auto simp: exclude_unlabeled_bunq_transfer_pairs_def Let_def)
  ultimately show ?thesis
    by (metis prod.collapse)
qed

subsection \<open>Classification\<close>

text \<open>
  Classification marks payments, and marks them once: it keeps the number and the order of the
  payments and every amount, changes none that does not come from bunq or is a transfer already, and
  classifying the result again changes nothing.
\<close>

theorem classification_idempotent:
  "classify_bunq_internal_transfers ibans (classify_bunq_internal_transfers ibans ts) =
     classify_bunq_internal_transfers ibans ts \<and>
   list_all2 (\<lambda>t u. pay_amount u = pay_amount t \<and> pay_occurred u = pay_occurred t \<and>
       pay_description u = pay_description t \<and>
       (u \<noteq> t \<longrightarrow> lower (pay_provider t) = ''bunq'' \<and> pay_type t \<noteq> ''transfer'' \<and> pay_type u = ''transfer''))
     ts (classify_bunq_internal_transfers ibans ts)"
proof -
  have unmarked: "classify_payment owned t \<noteq> t \<Longrightarrow> lower (pay_provider t) = ''bunq'' \<and> pay_type t \<noteq> ''transfer''" for owned t
    by (auto simp: classify_payment_def Let_def split: if_splits)
  have marked: "classify_payment owned t = t \<or> pay_type (classify_payment owned t) = ''transfer''" for owned t
    unfolding classify_payment_def Let_def by (split if_split) simp
  have stays: "pay_type u = ''transfer'' \<Longrightarrow> classify_payment owned u = u" for owned u
    by (simp add: classify_payment_def Let_def)
  have once: "classify_payment owned (classify_payment owned t) = classify_payment owned t" for owned t
    using marked [of owned t] stays [of "classify_payment owned t" owned] by auto
  have kept: "pay_amount (classify_payment owned t) = pay_amount t \<and> pay_occurred (classify_payment owned t) = pay_occurred t \<and>
      pay_description (classify_payment owned t) = pay_description t \<and>
      (classify_payment owned t \<noteq> t \<longrightarrow> lower (pay_provider t) = ''bunq'' \<and> pay_type t \<noteq> ''transfer'' \<and>
        pay_type (classify_payment owned t) = ''transfer'')" for owned t
  proof (intro conjI)
    show "classify_payment owned t \<noteq> t \<longrightarrow> lower (pay_provider t) = ''bunq'' \<and> pay_type t \<noteq> ''transfer'' \<and>
        pay_type (classify_payment owned t) = ''transfer''"
      using unmarked [of owned t] marked [of owned t] by blast
  qed (simp_all add: classify_payment_def Let_def)
  show ?thesis
    by (simp add: classify_bunq_internal_transfers_def Let_def o_def once kept list_all2_map2 list.rel_refl)
qed

subsection \<open>Samples\<close>

definition sample_leg :: "pystr \<Rightarrow> pystr \<Rightarrow> int \<Rightarrow> instant \<Rightarrow> leg" where
  "sample_leg i account amount t =
     \<lparr>leg_id = i, leg_tenant = ''t'', leg_provider = ''bunq'', leg_connection = None, leg_account = account,
      leg_amount = Dec amount (- 2), leg_occurred = t, leg_status = ''booked'', leg_counterparty = None,
      leg_description = None, leg_metadata = [], leg_type = ''payment'', leg_export_status = ''pending'',
      leg_source = None, leg_revision = 1\<rparr>"

definition sample_legs :: "leg list" where
  "sample_legs =
     [sample_leg ''1'' ''a'' (- 500) 0, sample_leg ''2'' ''b'' 500 30000000, sample_leg ''3'' ''c'' 500 10000000,
      sample_leg ''4'' ''b'' 700 0]"

lemma sample_leg_pairs: "leg_pair_ids (transfer_pairs ''t'' None sample_legs) = [''1'', ''3'']"
  by code_simp

lemma transfer_pairs_maximal_matching_witness:
  "one_movement (sample_leg ''1'' ''a'' (- 500) 0) (sample_leg ''2'' ''b'' 500 30000000) \<and>
   (''1'' \<in> set (leg_pair_ids (transfer_pairs ''t'' None sample_legs)) \<or>
    ''2'' \<in> set (leg_pair_ids (transfer_pairs ''t'' None sample_legs)))"
proof -
  let ?r = "sample_leg ''1'' ''a'' (- 500) 0" and ?c = "sample_leg ''2'' ''b'' 500 30000000"
  have r: "?r \<in> set sample_legs" and c: "?c \<in> set sample_legs"
    by (simp_all add: sample_legs_def)
  have m: "one_movement ?r ?c"
    by code_simp
  have "pairable ''t'' None ?r" "pairable ''t'' None ?c" "leg_id ?r = ''1''" "leg_id ?c = ''2''"
    by (simp_all add: pairable_def sample_leg_def)
  then show ?thesis
    using bspec [OF bspec [OF transfer_pairs_maximal_matching [of "''t''" None sample_legs,
          THEN conjunct2, THEN conjunct2, THEN conjunct1] r] c] m
    by simp
qed

lemma sample_leg_run:
  "distinct (map leg_id sample_legs)" "r \<in> set sample_legs \<Longrightarrow> \<bar>dcoeff (leg_amount r)\<bar> < 10 ^ prec"
  "exclude_unlabeled_bunq_transfer_pairs ''t'' None sample_legs =
     (2, snd (exclude_unlabeled_bunq_transfer_pairs ''t'' None sample_legs))"
proof -
  show "distinct (map leg_id sample_legs)"
    by (simp add: sample_legs_def sample_leg_def)
  show "r \<in> set sample_legs \<Longrightarrow> \<bar>dcoeff (leg_amount r)\<bar> < 10 ^ prec"
    by (auto simp: sample_legs_def sample_leg_def prec_def)
  have "fst (exclude_unlabeled_bunq_transfer_pairs ''t'' None sample_legs) = 2"
    by code_simp
  then show "exclude_unlabeled_bunq_transfer_pairs ''t'' None sample_legs =
     (2, snd (exclude_unlabeled_bunq_transfer_pairs ''t'' None sample_legs))"
    by (simp add: prod_eq_iff)
qed

lemma exclusion_keeps_net_cash_flow_witness:
  "length (filter (paired ''t'' None sample_legs) sample_legs) = 2"
  using exclusion_keeps_net_cash_flow [OF sample_leg_run] by blast

lemma rerun_only_bumps_revisions_witness:
  "fst (exclude_unlabeled_bunq_transfer_pairs ''t'' None
     (snd (exclude_unlabeled_bunq_transfer_pairs ''t'' None sample_legs))) = 2"
  by (simp only: rerun_only_bumps_revisions [OF sample_leg_run(1,3)] fst_conv)

definition sample_payment :: payment where
  "sample_payment =
     \<lparr>pay_provider = ''bunq'', pay_type = ''payment'', pay_amount = Dec (- 500) (- 2), pay_occurred = 0,
      pay_description = Some ''Automatic top-up of your Fun budget.'', pay_counterparty = None, pay_metadata = [],
      pay_contract = None, pay_source = None\<rparr>"

lemma classification_idempotent_witness:
  "map pay_type (classify_bunq_internal_transfers [] [sample_payment]) = [''transfer''] \<and>
   lower (pay_provider sample_payment) = ''bunq''"
proof -
  have t: "map pay_type (classify_bunq_internal_transfers [] [sample_payment]) = [''transfer'']"
    by code_simp
  then have "classify_bunq_internal_transfers [] [sample_payment] \<noteq> [sample_payment]"
    by (auto simp: sample_payment_def)
  then show ?thesis
    using classification_idempotent [of "[]" "[sample_payment]"] t by (auto simp: list_all2_Cons1)
qed

end
