(* ===== verification/Fx_Service.thy ===== *)
theory Fx_Service
  imports Py_Quantize "HOL-Library.AList"
begin

text \<open>
  Exchange rates (\<^verbatim>\<open>services/fx_service.py\<close>, and the rate observation of
  \<^verbatim>\<open>enrichment/models.py\<close>): a lookup goes through the memory cache, the table of stored
  rates in both directions, the upstream service, and a built-in list of approximate rates.

  The readings of the clocks in one lookup are taken as one instant: \<open>now\<close> of the wall clock and
  \<open>mono\<close> of the monotonic one, both in microseconds. The answer of the upstream service and the
  rounding of the stored column are arguments. Rates are finite decimals.
\<close>

record fx_obs =
  fx_base :: pystr
  fx_quote :: pystr
  fx_rate :: decimal
  fx_at :: instant
  fx_source :: pystr

record cache_entry =
  cached_obs :: fx_obs
  expires_at :: int

record fx_state =
  fx_table :: "fx_obs list"
  fx_cache :: "(pystr \<times> pystr) \<rightharpoonup> cache_entry"
  degraded :: bool

text \<open>\<^verbatim>\<open>FxService(settings, uow)\<close>: the service always starts in degraded mode.\<close>

definition fx_service :: "fx_obs list \<Rightarrow> fx_state" where
  "fx_service tbl = \<lparr>fx_table = tbl, fx_cache = Map.empty, degraded = True\<rparr>"

record fx_env =
  cache_ttl_seconds :: int
  upstream :: "pystr \<Rightarrow> pystr \<Rightarrow> fx_obs option"
  as_column :: "decimal \<Rightarrow> decimal"
  now :: instant
  mono :: int

datatype fx_error = Division_by_zero | Invalid_operation | Rate_not_found pystr pystr

definition inverse_obs :: "fx_obs \<Rightarrow> fx_error + fx_obs" where
  "inverse_obs r =
     (if dcoeff (fx_rate r) = 0 then Inl Division_by_zero
      else case quantize half_even 12 (ddiv (Dec 1 0) (fx_rate r)) of
             None \<Rightarrow> Inl Invalid_operation
           | Some q \<Rightarrow> Inr (r\<lparr>fx_base := fx_quote r, fx_quote := fx_base r, fx_rate := q\<rparr>))"

subsection \<open>Pairs and built-in rates\<close>

definition major_pairs :: "(pystr \<times> pystr) list" where
  "major_pairs =
     [(''EUR'', ''USD''), (''USD'', ''JPY''), (''GBP'', ''USD''), (''USD'', ''CHF''), (''USD'', ''CAD''), (''AUD'', ''USD''),
      (''NZD'', ''USD''), (''EUR'', ''GBP''), (''EUR'', ''JPY'')]"

definition canonicalise_pair :: "pystr \<Rightarrow> pystr \<Rightarrow> pystr \<times> pystr \<times> bool" where
  "canonicalise_pair base quote =
     (if base = quote then (base, quote, False)
      else if (base, quote) \<in> set major_pairs then (base, quote, False)
      else if (quote, base) \<in> set major_pairs then (quote, base, True)
      else (base, quote, False))"

definition fallback_rates :: "((pystr \<times> pystr) \<times> decimal) list" where
  "fallback_rates =
     [((''EUR'', ''USD''), Dec 109 (- 2)), ((''USD'', ''EUR''), Dec 9174 (- 4)), ((''GBP'', ''USD''), Dec 127 (- 2)),
      ((''USD'', ''GBP''), Dec 7874 (- 4)), ((''EUR'', ''GBP''), Dec 86 (- 2)), ((''GBP'', ''EUR''), Dec 11628 (- 4)),
      ((''USD'', ''JPY''), Dec 14950 (- 2)), ((''EUR'', ''JPY''), Dec 16296 (- 2)), ((''USD'', ''CHF''), Dec 88 (- 2)),
      ((''EUR'', ''CHF''), Dec 96 (- 2)), ((''USD'', ''CAD''), Dec 136 (- 2)), ((''EUR'', ''CAD''), Dec 148 (- 2)),
      ((''AUD'', ''USD''), Dec 66 (- 2)), ((''NZD'', ''USD''), Dec 61 (- 2))]"

definition get_fallback_rate :: "fx_env \<Rightarrow> pystr \<Rightarrow> pystr \<Rightarrow> fx_obs option" where
  "get_fallback_rate env base quote =
     map_option (\<lambda>r. \<lparr>fx_base = upper base, fx_quote = upper quote, fx_rate = r, fx_at = now env, fx_source = ''fallback''\<rparr>)
       (map_of fallback_rates (upper base, upper quote))"

subsection \<open>The layers\<close>

definition check_memory_cache :: "fx_env \<Rightarrow> pystr \<Rightarrow> pystr \<Rightarrow> fx_state \<Rightarrow> fx_obs option \<times> fx_state" where
  "check_memory_cache env base quote st =
     (case fx_cache st (base, quote) of
        None \<Rightarrow> (None, st)
      | Some e \<Rightarrow>
          if expires_at e < mono env then (None, st\<lparr>fx_cache := (fx_cache st)((base, quote) := None)\<rparr>)
          else (Some (cached_obs e), st))"

definition set_memory_cache :: "fx_env \<Rightarrow> fx_obs \<Rightarrow> fx_state \<Rightarrow> fx_state" where
  "set_memory_cache env r st = st
     \<lparr>fx_cache := (fx_cache st)((fx_base r, fx_quote r) \<mapsto>
        \<lparr>cached_obs = r, expires_at = mono env + seconds (cache_ttl_seconds env) div 10\<rparr>)\<rparr>"

text \<open>
  \<^verbatim>\<open>ORDER BY timestamp DESC LIMIT 1\<close>: of equal timestamps the first row. Without a date, a row
  past its time to live is ignored.
\<close>

definition newest_row :: "pystr \<Rightarrow> pystr \<Rightarrow> instant option \<Rightarrow> fx_obs list \<Rightarrow> fx_obs option" where
  "newest_row base quote asof tbl =
     first_min (\<lambda>r. - fx_at r)
       (filter (\<lambda>r. fx_base r = base \<and> fx_quote r = quote \<and> (case asof of None \<Rightarrow> True | Some t \<Rightarrow> fx_at r \<le> t)) tbl)"

definition lookup_local_rate :: "fx_env \<Rightarrow> pystr \<Rightarrow> pystr \<Rightarrow> instant option \<Rightarrow> fx_state \<Rightarrow> fx_obs option" where
  "lookup_local_rate env base quote asof st =
     (case newest_row base quote asof (fx_table st) of
        None \<Rightarrow> None
      | Some r \<Rightarrow>
          if asof = None \<and> seconds (cache_ttl_seconds env) < now env - fx_at r then None else Some r)"

definition store_rate :: "fx_env \<Rightarrow> fx_obs \<Rightarrow> fx_state \<Rightarrow> fx_state" where
  "store_rate env r st =
     (if list_ex (\<lambda>x. fx_base x = fx_base r \<and> fx_quote x = fx_quote r \<and> fx_at x = fx_at r \<and> fx_source x = fx_source r)
           (fx_table st)
      then st else st\<lparr>fx_table := fx_table st @ [r\<lparr>fx_rate := as_column env (fx_rate r)\<rparr>]\<rparr>)"

subsection \<open>Lookup\<close>

definition identity_obs :: "fx_env \<Rightarrow> pystr \<Rightarrow> pystr \<Rightarrow> instant option \<Rightarrow> fx_obs" where
  "identity_obs env base quote asof =
     \<lparr>fx_base = base, fx_quote = quote, fx_rate = Dec 1 0, fx_at = (case asof of None \<Rightarrow> now env | Some t \<Rightarrow> t),
      fx_source = ''identity''\<rparr>"

definition oriented :: "bool \<Rightarrow> fx_obs \<Rightarrow> fx_error + fx_obs option" where
  "oriented inverted r = map_sum id Some (if inverted then inverse_obs r else Inr r)"

definition primed :: "fx_env \<Rightarrow> instant option \<Rightarrow> fx_obs \<Rightarrow> fx_state \<Rightarrow> fx_state" where
  "primed env asof r st = (if asof = None then set_memory_cache env r st else st)"

definition last_layers ::
  "fx_env \<Rightarrow> instant option \<Rightarrow> pystr \<times> pystr \<times> bool \<Rightarrow> fx_state \<Rightarrow> (fx_error + fx_obs option) \<times> fx_state" where
  "last_layers env asof key st =
     (case key of (base, quote, inverted) \<Rightarrow>
        case (if degraded st then None else upstream env base quote) of
          Some r \<Rightarrow> (oriented inverted r, primed env asof r (store_rate env r st))
        | None \<Rightarrow>
            case (if asof = None then get_fallback_rate env base quote else None) of
              Some r \<Rightarrow> (oriented inverted r, st)
            | None \<Rightarrow> (Inr None, st))"

definition stored_layers ::
  "fx_env \<Rightarrow> instant option \<Rightarrow> pystr \<times> pystr \<times> bool \<Rightarrow> fx_state \<Rightarrow> (fx_error + fx_obs option) \<times> fx_state" where
  "stored_layers env asof key st =
     (case key of (base, quote, inverted) \<Rightarrow>
        case lookup_local_rate env base quote asof st of
          Some r \<Rightarrow> (oriented inverted r, primed env asof r st)
        | None \<Rightarrow>
            case lookup_local_rate env quote base asof st of
              Some r \<Rightarrow>
                (case inverse_obs r of
                   Inl e \<Rightarrow> (Inl e, st)
                 | Inr result \<Rightarrow> (oriented inverted result, primed env asof result st))
            | None \<Rightarrow> last_layers env asof key st)"

definition get_rate ::
  "fx_env \<Rightarrow> pystr \<Rightarrow> pystr \<Rightarrow> instant option \<Rightarrow> fx_state \<Rightarrow> (fx_error + fx_obs option) \<times> fx_state" where
  "get_rate env base_currency quote_currency asof st =
     (if base_currency = quote_currency then (Inr (Some (identity_obs env base_currency quote_currency asof)), st)
      else case canonicalise_pair base_currency quote_currency of
             (base, quote, inverted) \<Rightarrow>
               (case (if asof = None then check_memory_cache env base quote st else (None, st)) of
                  (Some r, st1) \<Rightarrow> (oriented inverted r, st1)
                | (None, st1) \<Rightarrow> stored_layers env asof (base, quote, inverted) st1))"

subsection \<open>Conversion\<close>

record fx_conversion =
  cv_from :: pystr
  cv_to :: pystr
  cv_original :: decimal
  cv_amount :: decimal
  cv_rate :: decimal
  cv_at :: instant
  cv_source :: pystr

definition convert ::
  "fx_env \<Rightarrow> pystr \<Rightarrow> pystr \<Rightarrow> decimal \<Rightarrow> instant option \<Rightarrow> fx_state \<Rightarrow>
   (fx_error + fx_conversion option) \<times> fx_state" where
  "convert env from_currency to_currency amount asof st =
     (if from_currency = to_currency
      then (Inr (Some \<lparr>cv_from = from_currency, cv_to = to_currency, cv_original = amount, cv_amount = amount,
                       cv_rate = Dec 1 0, cv_at = (case asof of None \<Rightarrow> now env | Some t \<Rightarrow> t), cv_source = ''identity''\<rparr>), st)
      else case get_rate env from_currency to_currency asof st of
             (Inl e, st1) \<Rightarrow> (Inl e, st1)
           | (Inr None, st1) \<Rightarrow> (Inr None, st1)
           | (Inr (Some r), st1) \<Rightarrow>
               (case quantize half_up 2 (dmul amount (fx_rate r)) of
                  None \<Rightarrow> (Inl Invalid_operation, st1)
                | Some c \<Rightarrow>
                    (Inr (Some \<lparr>cv_from = from_currency, cv_to = to_currency, cv_original = amount, cv_amount = c,
                                cv_rate = fx_rate r, cv_at = fx_at r, cv_source = fx_source r\<rparr>), st1)))"

definition convert_currency ::
  "fx_env \<Rightarrow> decimal \<Rightarrow> pystr \<Rightarrow> pystr \<Rightarrow> fx_state \<Rightarrow> (fx_error + decimal) \<times> fx_state" where
  "convert_currency env amount from_currency to_currency st =
     (if from_currency = to_currency then (Inr amount, st)
      else case convert env from_currency to_currency amount None st of
             (Inl e, st1) \<Rightarrow> (Inl e, st1)
           | (Inr None, st1) \<Rightarrow> (Inl (Rate_not_found from_currency to_currency), st1)
           | (Inr (Some c), st1) \<Rightarrow> (Inr (cv_amount c), st1))"

subsection \<open>Bulk lookups\<close>

text \<open>
  The four bulk lookups share one loop over single lookups; \<open>env i\<close> is the environment of the
  \<open>i\<close>-th of them, and the first error ends the loop. A currency asked against itself is answered
  by the identity of the single lookup.
\<close>

fun rates_of ::
  "(nat \<Rightarrow> fx_env) \<Rightarrow> nat \<Rightarrow> instant option \<Rightarrow> (pystr \<times> pystr) list \<Rightarrow> fx_state \<Rightarrow>
   (fx_error + ((pystr \<times> pystr) \<times> fx_obs) list) \<times> fx_state" where
  "rates_of env i asof [] st = (Inr [], st)"
| "rates_of env i asof ((b, q) # pairs) st =
     (case get_rate (env i) b q asof st of
        (Inl e, st1) \<Rightarrow> (Inl e, st1)
      | (Inr found, st1) \<Rightarrow>
          (case rates_of env (Suc i) asof pairs st1 of
             (Inl e, st2) \<Rightarrow> (Inl e, st2)
           | (Inr rest, st2) \<Rightarrow>
               (Inr ((case found of None \<Rightarrow> [] | Some r \<Rightarrow> [((b, q), r)]) @ rest), st2)))"

definition get_rates_for_base ::
  "(nat \<Rightarrow> fx_env) \<Rightarrow> pystr \<Rightarrow> pystr list option \<Rightarrow> instant option \<Rightarrow> fx_state \<Rightarrow>
   (fx_error + (pystr \<times> decimal) list) \<times> fx_state" where
  "get_rates_for_base env base_currency targets asof st =
     (let majors = [''USD'', ''EUR'', ''GBP'', ''JPY'', ''CHF'', ''CAD'', ''AUD'', ''NZD''];
          ts = (case targets of Some ts \<Rightarrow> ts | None \<Rightarrow> filter (\<lambda>c. c \<noteq> base_currency) majors)
      in apfst (map_sum id (\<lambda>rs. fold (\<lambda>((b, t), r). dict_put t (fx_rate r)) rs []))
           (rates_of env 0 asof (map (Pair base_currency) ts) st))"

definition fetch_latest_rates ::
  "(nat \<Rightarrow> fx_env) \<Rightarrow> (pystr \<times> pystr) list \<Rightarrow> fx_state \<Rightarrow>
   (fx_error + ((pystr \<times> pystr) \<times> fx_obs) list) \<times> fx_state" where
  "fetch_latest_rates env pairs st =
     apfst (map_sum id (\<lambda>rs. fold (\<lambda>(k, r). AList.update k r) rs []))
       (rates_of env 0 None (map (\<lambda>(b, q). (upper b, upper q)) pairs) st)"

definition major_targets :: "pystr \<Rightarrow> (pystr \<times> pystr) list" where
  "major_targets base_currency =
     map (Pair base_currency)
       (filter (\<lambda>t. t \<noteq> base_currency) [''USD'', ''GBP'', ''JPY'', ''CHF'', ''CAD'', ''AUD'', ''NZD''])"

definition fetch_all_major_rates ::
  "(nat \<Rightarrow> fx_env) \<Rightarrow> pystr \<Rightarrow> fx_state \<Rightarrow> (fx_error + fx_obs list) \<times> fx_state" where
  "fetch_all_major_rates env base_currency st =
     apfst (map_sum id (map snd)) (rates_of env 0 None (major_targets base_currency) st)"

definition fetch_and_cache_rates ::
  "(nat \<Rightarrow> fx_env) \<Rightarrow> pystr list option \<Rightarrow> fx_state \<Rightarrow> (fx_error + nat) \<times> fx_state" where
  "fetch_and_cache_rates env base_currencies st =
     (let bases = (case base_currencies of None \<Rightarrow> [''EUR'', ''USD'', ''GBP''] | Some bs \<Rightarrow> bs)
      in apfst (map_sum id length) (rates_of env 0 None (concat (map major_targets bases)) st))"

end
