(* ===== verification/Fx_Props.thy ===== *)
theory Fx_Props
  imports Fx_Service
begin

text \<open>
  What the layers of a rate lookup guarantee: a current rate comes from a stored row that is at
  most the time to live and the time in the memory cache old, or from the built-in list when no
  stored row is fresh enough; a historical rate is the last one known at its date; a converted
  amount is off by at most half a cent and the rounding of the product. The upstream service is
  never asked, because the service starts degraded and nothing changes that.
\<close>

subsection \<open>Inverse rates\<close>

lemma inverse_obs_Inr:
  assumes "inverse_obs r = Inr q"
  shows "fx_at q = fx_at r" "fx_base q = fx_quote r" "fx_quote q = fx_base r" "fx_source q = fx_source r"
  using assms by (auto simp: inverse_obs_def split: if_splits option.splits)

lemma inverse_obs_error:
  assumes "inverse_obs r = Inr q"
  shows "\<bar>dval (fx_rate q) - 1 / dval (fx_rate r)\<bar>
    \<le> 1 / 2 * 10 powi (- 12) + 1 / 10 ^ 27 * \<bar>1 / dval (fx_rate r)\<bar>"
proof -
  obtain p where p: "quantize half_even 12 (ddiv (Dec 1 0) (fx_rate r)) = Some p"
    and q: "fx_rate q = p" and nz: "dcoeff (fx_rate r) \<noteq> 0"
    using assms by (auto simp: inverse_obs_def split: if_splits option.splits)
  let ?d = "dval (ddiv (Dec 1 0) (fx_rate r))" and ?i = "1 / dval (fx_rate r)"
  have "\<bar>dval p - ?d\<bar> \<le> 1 / 2 * 10 powi (- int 12)"
    by (rule quantize_error(1) [OF p]) simp
  then have 1: "\<bar>dval p - ?d\<bar> \<le> 1 / 2 * 10 powi (- 12)"
    by simp
  have "\<bar>?d - dval (Dec 1 0) / dval (fx_rate r)\<bar> \<le> 1 / 10 ^ 27 * \<bar>dval (Dec 1 0) / dval (fx_rate r)\<bar>"
    by (rule ddiv_error) (use nz in \<open>simp add: dval_def\<close>)
  then have 2: "\<bar>?d - ?i\<bar> \<le> 1 / 10 ^ 27 * \<bar>?i\<bar>"
    by (simp add: dval_def)
  have "\<bar>dval p - ?i\<bar> \<le> \<bar>dval p - ?d\<bar> + \<bar>?d - ?i\<bar>"
    using abs_triangle_ineq [of "dval p - ?d" "?d - ?i"] by simp
  also have "\<dots> \<le> 1 / 2 * 10 powi (- 12) + 1 / 10 ^ 27 * \<bar>?i\<bar>"
    using 1 2 by (rule add_mono)
  finally show ?thesis
    unfolding q .
qed

text \<open>\<open>r\<close> is the row \<open>x\<close>, its inverse, or the inverse of its inverse.\<close>

definition derived :: "fx_obs \<Rightarrow> fx_obs \<Rightarrow> bool" where
  "derived x r \<longleftrightarrow>
     r = x \<or> (case inverse_obs x of Inl e \<Rightarrow> False | Inr y \<Rightarrow> r = y \<or> inverse_obs y = Inr r)"

lemma derived_simps [simp]: "derived x x" "inverse_obs x = Inr y \<Longrightarrow> derived x y"
  by (simp_all add: derived_def)

lemma derived_twice: "inverse_obs x = Inr y \<Longrightarrow> inverse_obs y = Inr r \<Longrightarrow> derived x r"
  by (simp add: derived_def)

lemma oriented_Inr:
  "oriented inverted y = Inr res \<Longrightarrow> \<exists>r. res = Some r \<and> (if inverted then inverse_obs y = Inr r else r = y)"
  by (cases "inverse_obs y") (auto simp: oriented_def split: if_splits)

subsection \<open>Pairs\<close>

lemma canonicalise_pair_cases:
  "canonicalise_pair b q = (base, quote, inverted) \<Longrightarrow>
     if inverted then base = q \<and> quote = b else base = b \<and> quote = q"
  by (auto simp: canonicalise_pair_def split: if_splits)

definition of_pair :: "pystr \<Rightarrow> pystr \<Rightarrow> fx_obs \<Rightarrow> bool" where
  "of_pair b q x \<longleftrightarrow> fx_base x = b \<and> fx_quote x = q"

lemma of_pair_inverse: "inverse_obs x = Inr y \<Longrightarrow> of_pair b q y \<longleftrightarrow> of_pair q b x"
  using inverse_obs_Inr [of x y] by (auto simp: of_pair_def)

lemma of_pair_oriented:
  assumes "canonicalise_pair b q = (base, quote, inverted)" "of_pair base quote y"
    and "if inverted then inverse_obs y = Inr r else r = y"
  shows "of_pair b q r"
  using assms canonicalise_pair_cases [OF assms(1)] of_pair_inverse [of y r b q]
  by (simp split: if_splits)

subsection \<open>Stored rows\<close>

definition at_most :: "instant option \<Rightarrow> fx_obs \<Rightarrow> bool" where
  "at_most asof x \<longleftrightarrow> (case asof of None \<Rightarrow> True | Some t \<Rightarrow> fx_at x \<le> t)"

definition usable :: "fx_env \<Rightarrow> instant option \<Rightarrow> fx_obs \<Rightarrow> bool" where
  "usable env asof x \<longleftrightarrow>
     (case asof of None \<Rightarrow> now env - fx_at x \<le> seconds (cache_ttl_seconds env) | Some t \<Rightarrow> fx_at x \<le> t)"

definition latest :: "instant option \<Rightarrow> fx_obs list \<Rightarrow> fx_obs \<Rightarrow> bool" where
  "latest asof tbl x \<longleftrightarrow>
     x \<in> set tbl \<and> list_all (\<lambda>y. of_pair (fx_base x) (fx_quote x) y \<and> at_most asof y \<longrightarrow> fx_at y \<le> fx_at x) tbl"

lemma newest_row_eq: "newest_row b q asof tbl = first_min (\<lambda>r. - fx_at r) (filter (\<lambda>r. of_pair b q r \<and> at_most asof r) tbl)"
  by (simp add: newest_row_def of_pair_def at_most_def conj_assoc)

lemma newest_row_Some:
  assumes "newest_row b q asof tbl = Some x"
  shows "latest asof tbl x" "of_pair b q x" "at_most asof x"
proof -
  have x: "x \<in> set tbl" "of_pair b q x" "at_most asof x"
    using first_min_in [OF assms [unfolded newest_row_eq]] by simp_all
  moreover have "fx_at y \<le> fx_at x" if "y \<in> set tbl" "of_pair b q y" "at_most asof y" for y
    using first_min_le [OF assms [unfolded newest_row_eq], of y] that by simp
  ultimately show "latest asof tbl x" "of_pair b q x" "at_most asof x"
    by (simp_all add: latest_def list_all_iff of_pair_def)
qed

lemma lookup_local_Some:
  assumes "lookup_local_rate env b q asof st = Some x"
  shows "latest asof (fx_table st) x" "of_pair b q x" "usable env asof x"
proof -
  have n: "newest_row b q asof (fx_table st) = Some x"
    and u: "asof = None \<Longrightarrow> now env - fx_at x \<le> seconds (cache_ttl_seconds env)"
    using assms by (auto simp: lookup_local_rate_def split: option.splits if_splits)
  show "latest asof (fx_table st) x" "of_pair b q x"
    using newest_row_Some [OF n] by simp_all
  show "usable env asof x"
    using newest_row_Some(3) [OF n] u by (cases asof) (simp_all add: usable_def at_most_def)
qed

lemma lookup_local_None:
  assumes "lookup_local_rate env b q asof st = None" "y \<in> set (fx_table st)" "of_pair b q y"
  shows "\<not> usable env asof y"
proof (cases "newest_row b q asof (fx_table st)")
  case None
  then have "\<not> at_most asof y"
    using assms(2,3) by (auto simp: newest_row_eq filter_empty_conv)
  then show ?thesis
    by (cases asof) (simp_all add: usable_def at_most_def)
next
  case (Some x)
  then have a: "asof = None" "seconds (cache_ttl_seconds env) < now env - fx_at x"
    using assms(1) by (auto simp: lookup_local_rate_def split: if_splits)
  have "fx_at y \<le> fx_at x"
    using newest_row_Some [OF Some] assms(2,3) a(1) by (simp add: latest_def list_all_iff of_pair_def at_most_def)
  then show ?thesis
    using a by (simp add: usable_def)
qed

subsection \<open>The cache\<close>

text \<open>
  A cached rate is a stored row or its inverse, and it expires a tenth of the time to live after
  the row was fresh enough. \<open>off\<close> is the difference of the two clocks.
\<close>

definition cache_entry_ok :: "int \<Rightarrow> int \<Rightarrow> fx_obs list \<Rightarrow> pystr \<times> pystr \<Rightarrow> cache_entry \<Rightarrow> bool" where
  "cache_entry_ok off ttl tbl k e \<longleftrightarrow>
     of_pair (fst k) (snd k) (cached_obs e) \<and>
     list_ex (\<lambda>x. cached_obs e = x \<or> inverse_obs x = Inr (cached_obs e)) tbl \<and>
     off + expires_at e - fx_at (cached_obs e) \<le> seconds ttl + seconds ttl div 10"

definition fx_inv :: "int \<Rightarrow> int \<Rightarrow> fx_state \<Rightarrow> bool" where
  "fx_inv off ttl st \<longleftrightarrow>
     degraded st \<and> (\<forall>k e. fx_cache st k = Some e \<longrightarrow> cache_entry_ok off ttl (fx_table st) k e)"

definition clocks :: "int \<Rightarrow> int \<Rightarrow> fx_env \<Rightarrow> bool" where
  "clocks off ttl env \<longleftrightarrow> now env = mono env + off \<and> cache_ttl_seconds env = ttl"

text \<open>Lookups in any order, while others add rows of rates.\<close>

inductive fx_reach :: "int \<Rightarrow> int \<Rightarrow> fx_state \<Rightarrow> bool" for off ttl where
  start: "fx_reach off ttl (fx_service tbl)"
| lookup: "fx_reach off ttl st \<Longrightarrow> clocks off ttl env \<Longrightarrow> fx_reach off ttl (snd (get_rate env b q asof st))"
| rows: "fx_reach off ttl st \<Longrightarrow> fx_reach off ttl (st\<lparr>fx_table := fx_table st @ rows\<rparr>)"

lemma fx_inv_service: "fx_inv off ttl (fx_service tbl)"
  by (simp add: fx_inv_def fx_service_def)

lemma fx_inv_rows: "fx_inv off ttl st \<Longrightarrow> fx_inv off ttl (st\<lparr>fx_table := fx_table st @ rows\<rparr>)"
  by (auto simp: fx_inv_def cache_entry_ok_def)

lemma fx_inv_set:
  assumes "fx_inv off ttl st" "clocks off ttl env" "x \<in> set (fx_table st)" "usable env None x"
    and "r = x \<or> inverse_obs x = Inr r"
  shows "fx_inv off ttl (set_memory_cache env r st)"
proof -
  have "fx_at r = fx_at x"
    using assms(5) inverse_obs_Inr(1) by auto
  then have "cache_entry_ok off ttl (fx_table st) (fx_base r, fx_quote r)
      \<lparr>cached_obs = r, expires_at = mono env + seconds (cache_ttl_seconds env) div 10\<rparr>"
    using assms(2-5) by (auto simp: cache_entry_ok_def clocks_def usable_def of_pair_def list_ex_iff)
  then show ?thesis
    using assms(1) by (auto simp: fx_inv_def set_memory_cache_def)
qed

lemma fx_inv_primed:
  assumes "fx_inv off ttl st" "asof = None \<Longrightarrow> clocks off ttl env" "x \<in> set (fx_table st)" "usable env asof x"
    and "r = x \<or> inverse_obs x = Inr r"
  shows "fx_inv off ttl (primed env asof r st)"
  using assms fx_inv_set [OF assms(1) assms(2) assms(3) _ assms(5)] by (cases asof) (simp_all add: primed_def)

lemma set_memory_cache_table [simp]: "fx_table (set_memory_cache env r st) = fx_table st"
  by (simp add: set_memory_cache_def)

lemma primed_table [simp]: "fx_table (primed env asof r st) = fx_table st"
  by (simp add: primed_def)

lemma check_memory_cache_state:
  assumes "check_memory_cache env b q st = (res, st')" "fx_inv off ttl st"
  shows "fx_inv off ttl st'" "fx_table st' = fx_table st"
  using assms by (auto simp: check_memory_cache_def fx_inv_def split: option.splits if_splits)

lemma check_memory_cache_hit:
  assumes "check_memory_cache env b q st = (Some y, st')" "fx_inv off ttl st" "clocks off ttl env"
  obtains x where "x \<in> set (fx_table st)" "y = x \<or> inverse_obs x = Inr y" "of_pair b q y"
    "now env - fx_at y \<le> seconds ttl + seconds ttl div 10"
proof -
  obtain e where e: "fx_cache st (b, q) = Some e" "\<not> expires_at e < mono env" "y = cached_obs e"
    using assms(1) by (auto simp: check_memory_cache_def split: option.splits if_splits)
  have "cache_entry_ok off ttl (fx_table st) (b, q) e"
    using assms(2) e(1) by (simp add: fx_inv_def)
  then show ?thesis
    using e assms(3) that by (auto simp: cache_entry_ok_def list_ex_iff clocks_def)
qed

subsection \<open>The layers together\<close>

definition from_store :: "fx_env \<Rightarrow> pystr \<Rightarrow> pystr \<Rightarrow> instant option \<Rightarrow> fx_obs list \<Rightarrow> fx_obs \<Rightarrow> bool" where
  "from_store env b q asof tbl r \<longleftrightarrow>
     of_pair b q r \<and> list_ex (\<lambda>x. latest asof tbl x \<and> usable env asof x \<and> derived x r) tbl"

definition nothing_usable :: "fx_env \<Rightarrow> pystr \<Rightarrow> pystr \<Rightarrow> instant option \<Rightarrow> fx_obs list \<Rightarrow> bool" where
  "nothing_usable env b q asof tbl \<longleftrightarrow>
     list_all (\<lambda>y. of_pair b q y \<or> of_pair q b y \<longrightarrow> \<not> usable env asof y) tbl"

definition built_in :: "fx_env \<Rightarrow> pystr \<Rightarrow> pystr \<Rightarrow> fx_error + fx_obs option" where
  "built_in env b q =
     (case canonicalise_pair b q of (base, quote, inverted) \<Rightarrow>
        (case get_fallback_rate env base quote of None \<Rightarrow> Inr None | Some r \<Rightarrow> oriented inverted r))"

lemma from_storeI:
  assumes "canonicalise_pair b q = (base, quote, inverted)" "oriented inverted y = Inr (Some r)"
    and "latest asof tbl x" "usable env asof x" "y = x \<or> inverse_obs x = Inr y" "of_pair base quote y"
  shows "from_store env b q asof tbl r"
proof -
  have o: "if inverted then inverse_obs y = Inr r else r = y"
    using oriented_Inr [OF assms(2)] by simp
  have "derived x r"
    using assms(5) o derived_twice [of x y r] by (auto split: if_splits)
  then show ?thesis
    using assms(3,4) of_pair_oriented [OF assms(1,6) o] by (auto simp: from_store_def list_ex_iff latest_def)
qed

lemma nothing_usableI:
  assumes "canonicalise_pair b q = (base, quote, inverted)"
    and "lookup_local_rate env base quote asof st = None" "lookup_local_rate env quote base asof st = None"
  shows "nothing_usable env b q asof (fx_table st)"
  using canonicalise_pair_cases [OF assms(1)] lookup_local_None [OF assms(2)] lookup_local_None [OF assms(3)]
  by (auto simp: nothing_usable_def list_all_iff split: if_splits)

lemma oriented_not_None [simp]: "oriented inverted y \<noteq> Inr None"
  by (cases "inverse_obs y") (simp_all add: oriented_def)

definition outcome_ok ::
  "fx_env \<Rightarrow> pystr \<Rightarrow> pystr \<Rightarrow> instant option \<Rightarrow> fx_obs list \<Rightarrow> fx_error + fx_obs option \<Rightarrow> bool" where
  "outcome_ok env b q asof tbl res \<longleftrightarrow>
     (case res of
        Inl e \<Rightarrow> True
      | Inr found \<Rightarrow>
          (case found of None \<Rightarrow> False | Some r \<Rightarrow> from_store env b q asof tbl r) \<or>
          nothing_usable env b q asof tbl \<and> (if asof = None then res = built_in env b q else found = None))"

lemma stored_layers_ok:
  assumes "fx_inv off ttl st" "asof = None \<Longrightarrow> clocks off ttl env" "canonicalise_pair b q = (base, quote, inverted)"
    and "stored_layers env asof (base, quote, inverted) st = (res, st')"
  shows "fx_inv off ttl st' \<and> fx_table st' = fx_table st \<and> (asof \<noteq> None \<longrightarrow> st' = st) \<and>
    outcome_ok env b q asof (fx_table st) res"
proof (cases "lookup_local_rate env base quote asof st")
  case (Some x)
  note x = lookup_local_Some [OF Some]
  have "outcome_ok env b q asof (fx_table st) (oriented inverted x)"
    using from_storeI [OF assms(3) _ x(1,3) _ x(2)] oriented_Inr
    by (auto simp: outcome_ok_def split: sum.split option.split)
  then show ?thesis
    using assms(4) Some x fx_inv_primed [OF assms(1,2) _ x(3), of x]
    by (auto simp: stored_layers_def primed_def latest_def)
next
  case None
  show ?thesis
  proof (cases "lookup_local_rate env quote base asof st")
    case (Some x)
    note x = lookup_local_Some [OF Some]
    show ?thesis
    proof (cases "inverse_obs x")
      case (Inl e)
      then show ?thesis
        using assms(1,4) None Some by (auto simp: stored_layers_def outcome_ok_def)
    next
      case (Inr y)
      have y: "of_pair base quote y"
        using x(2) of_pair_inverse [OF Inr] by simp
      have "outcome_ok env b q asof (fx_table st) (oriented inverted y)"
        using from_storeI [OF assms(3) _ x(1,3) _ y] Inr oriented_Inr
        by (auto simp: outcome_ok_def split: sum.split option.split)
      then show ?thesis
        using assms(4) None Some Inr x fx_inv_primed [OF assms(1,2) _ x(3), of y]
        by (auto simp: stored_layers_def primed_def latest_def)
    qed
  next
    case none: None
    have "degraded st"
      using assms(1) by (simp add: fx_inv_def)
    then have "st' = st" "res = (if asof = None then built_in env b q else Inr None)"
      using assms(3,4) None none
      by (auto simp: stored_layers_def last_layers_def built_in_def split: option.splits if_splits)
    then show ?thesis
      using assms(1) nothing_usableI [OF assms(3) None none] by (auto simp: outcome_ok_def split: sum.split)
  qed
qed

definition recent :: "fx_env \<Rightarrow> pystr \<Rightarrow> pystr \<Rightarrow> fx_obs list \<Rightarrow> fx_obs \<Rightarrow> bool" where
  "recent env b q tbl r \<longleftrightarrow>
     of_pair b q r \<and>
     list_ex (\<lambda>x. derived x r \<and>
       now env - fx_at x \<le> seconds (cache_ttl_seconds env) + seconds (cache_ttl_seconds env) div 10) tbl"

lemma from_store_recent: "from_store env b q None tbl r \<Longrightarrow> 0 \<le> cache_ttl_seconds env \<Longrightarrow> recent env b q tbl r"
  by (auto simp: from_store_def recent_def list_ex_iff usable_def)

lemma cache_hit_recent:
  assumes "check_memory_cache env base quote st = (Some y, st1)" "fx_inv off ttl st" "clocks off ttl env"
    and "canonicalise_pair b q = (base, quote, inverted)" "oriented inverted y = Inr (Some r)"
  shows "recent env b q (fx_table st) r"
proof -
  obtain x where x: "x \<in> set (fx_table st)" "y = x \<or> inverse_obs x = Inr y" "of_pair base quote y"
    "now env - fx_at y \<le> seconds ttl + seconds ttl div 10"
    using check_memory_cache_hit [OF assms(1-3)] by blast
  have o: "if inverted then inverse_obs y = Inr r else r = y"
    using oriented_Inr [OF assms(5)] by simp
  have "fx_at y = fx_at x" "derived x r"
    using x(2) o inverse_obs_Inr(1) derived_twice [of x y r] by (auto split: if_splits)
  then show ?thesis
    using x of_pair_oriented [OF assms(4) x(3) o] assms(3) by (auto simp: recent_def list_ex_iff clocks_def)
qed

lemma get_rate_inv:
  assumes "fx_inv off ttl st" "clocks off ttl env"
  shows "fx_inv off ttl (snd (get_rate env b q asof st)) \<and> fx_table (snd (get_rate env b q asof st)) = fx_table st"
proof (cases "b = q")
  case False
  obtain base quote inverted where c: "canonicalise_pair b q = (base, quote, inverted)"
    by (metis prod_cases3)
  obtain hit st1 where h: "(if asof = None then check_memory_cache env base quote st else (None, st)) = (hit, st1)"
    by fastforce
  have i: "fx_inv off ttl st1" "fx_table st1 = fx_table st"
    using h assms(1) check_memory_cache_state [of env base quote st hit st1] by (auto split: if_splits)
  obtain res st2 where s: "stored_layers env asof (base, quote, inverted) st1 = (res, st2)"
    by fastforce
  show ?thesis
    using False c h i stored_layers_ok [OF i(1) assms(2) c s] s
    by (cases hit) (simp_all add: get_rate_def)
qed (use assms in \<open>simp add: get_rate_def\<close>)

lemma fx_reach_inv: "fx_reach off ttl st \<Longrightarrow> fx_inv off ttl st"
  by (induction rule: fx_reach.induct) (simp_all add: fx_inv_service fx_inv_rows get_rate_inv)

subsection \<open>Rates\<close>

text \<open>Two rates of the other direction of a pair, one within the time to live, seen 1000 seconds later.\<close>

definition sample_fx_env :: fx_env where
  "sample_fx_env =
     \<lparr>cache_ttl_seconds = 3600, upstream = \<lambda>b q. None, as_column = \<lambda>d. d, now = seconds 10000, mono = seconds 10\<rparr>"

definition sample_rates :: "fx_obs list" where
  "sample_rates =
     [\<lparr>fx_base = ''USD'', fx_quote = ''EUR'', fx_rate = Dec 9174 (- 4), fx_at = seconds 9000, fx_source = ''ecb''\<rparr>,
      \<lparr>fx_base = ''USD'', fx_quote = ''EUR'', fx_rate = Dec 9 (- 1), fx_at = seconds 8000, fx_source = ''ecb''\<rparr>]"

definition sample_rate :: fx_obs where
  "sample_rate =
     \<lparr>fx_base = ''USD'', fx_quote = ''EUR'', fx_rate = Dec 917400000000 (- 12), fx_at = seconds 9000, fx_source = ''ecb''\<rparr>"

definition sample_past :: fx_obs where
  "sample_past =
     \<lparr>fx_base = ''EUR'', fx_quote = ''USD'', fx_rate = Dec 1111111111111 (- 12), fx_at = seconds 8000, fx_source = ''ecb''\<rparr>"

definition sample_conversion :: fx_conversion where
  "sample_conversion =
     \<lparr>cv_from = ''USD'', cv_to = ''EUR'', cv_original = Dec 12345 (- 2), cv_amount = Dec 11325 (- 2),
      cv_rate = Dec 917400000000 (- 12), cv_at = seconds 9000, cv_source = ''ecb''\<rparr>"

lemma sample_clocks: "clocks (seconds 9990) 3600 sample_fx_env"
  by (simp add: clocks_def sample_fx_env_def)

lemma with_state: "fst x = r \<Longrightarrow> x = (r, snd x)"
  by auto

lemma sample_current: "fst (get_rate sample_fx_env ''USD'' ''EUR'' None (fx_service sample_rates)) = Inr (Some sample_rate)"
  by code_simp

lemma sample_historical:
  "fst (get_rate sample_fx_env ''EUR'' ''USD'' (Some (seconds 8500)) (fx_service sample_rates)) = Inr (Some sample_past)"
  by code_simp

lemma sample_converted:
  "fst (convert sample_fx_env ''USD'' ''EUR'' (Dec 12345 (- 2)) None (fx_service sample_rates)) = Inr (Some sample_conversion)"
  by code_simp

text \<open>
  C28. A current rate is computed from a stored row of the requested pair (or of its inverse) that is at most
  the time to live and a tenth of it old, however lookups and new rows interleave; only
  when no row of the pair is within its time to live is it the built-in rate, or none.
\<close>

theorem current_rate_fresh:
  assumes "fx_reach off ttl st" "clocks off ttl env" "0 \<le> ttl" "b \<noteq> q"
    and "get_rate env b q None st = (Inr found, st')"
  shows "(case found of None \<Rightarrow> False | Some r \<Rightarrow> recent env b q (fx_table st) r) \<or>
    nothing_usable env b q None (fx_table st) \<and> Inr found = built_in env b q"
proof -
  note i = fx_reach_inv [OF assms(1)]
  obtain base quote inverted where c: "canonicalise_pair b q = (base, quote, inverted)"
    by (metis prod_cases3)
  obtain hit st1 where h: "check_memory_cache env base quote st = (hit, st1)"
    by fastforce
  note i1 = check_memory_cache_state [OF h i]
  show ?thesis
  proof (cases hit)
    case None
    have s: "stored_layers env None (base, quote, inverted) st1 = (Inr found, st')"
      using assms(4,5) c h None by (simp add: get_rate_def)
    have "outcome_ok env b q None (fx_table st) (Inr found)"
      using stored_layers_ok [OF i1(1) assms(2) c s] i1(2) by simp
    then show ?thesis
      using from_store_recent [of env b q "fx_table st"] assms(2,3)
      by (auto simp: outcome_ok_def clocks_def split: option.splits)
  next
    case (Some y)
    then obtain r where r: "found = Some r" "oriented inverted y = Inr (Some r)"
      using assms(4,5) c h oriented_Inr [of inverted y found] by (auto simp: get_rate_def)
    then show ?thesis
      using cache_hit_recent [OF h [unfolded Some] i assms(2) c r(2)] by simp
  qed
qed

lemma current_rate_fresh_witness: "recent sample_fx_env ''USD'' ''EUR'' sample_rates sample_rate"
proof -
  have "\<not> nothing_usable sample_fx_env ''USD'' ''EUR'' None sample_rates"
    by code_simp
  then show ?thesis
    using current_rate_fresh [OF fx_reach.start sample_clocks _ _ with_state [OF sample_current]]
    by (simp add: fx_service_def)
qed

lemma historical_layers:
  assumes "degraded st" "stored_layers env (Some t) (base, quote, inverted) st = (Inr found, st')"
  shows "st' = st \<and>
    (case found of
       None \<Rightarrow> \<forall>y \<in> set (fx_table st). of_pair base quote y \<or> of_pair quote base y \<longrightarrow> t < fx_at y
     | Some r \<Rightarrow> \<exists>x \<in> set (fx_table st). latest (Some t) (fx_table st) x \<and> fx_at x \<le> t \<and>
         (of_pair base quote x \<and> oriented inverted x = Inr (Some r) \<or>
          of_pair quote base x \<and> (\<forall>y \<in> set (fx_table st). of_pair base quote y \<longrightarrow> t < fx_at y) \<and>
            (\<exists>y. inverse_obs x = Inr y \<and> oriented inverted y = Inr (Some r))))"
proof (cases "lookup_local_rate env base quote (Some t) st")
  case (Some x)
  then show ?thesis
    using assms(2) lookup_local_Some [OF Some] oriented_Inr [of inverted x found]
    by (auto simp: stored_layers_def primed_def usable_def latest_def split: option.splits)
next
  case None
  have later: "\<forall>y \<in> set (fx_table st). of_pair base quote y \<longrightarrow> t < fx_at y"
    using lookup_local_None [OF None] by (auto simp: usable_def not_le)
  show ?thesis
  proof (cases "lookup_local_rate env quote base (Some t) st")
    case (Some x)
    then show ?thesis
      using assms(2) None later lookup_local_Some [OF Some]
      by (auto simp: stored_layers_def primed_def usable_def latest_def dest: oriented_Inr split: option.splits sum.splits)
  next
    case none: None
    then have "\<forall>y \<in> set (fx_table st). of_pair quote base y \<longrightarrow> t < fx_at y"
      using lookup_local_None [OF none] by (auto simp: usable_def not_le)
    with later None none assms show ?thesis
      by (auto simp: stored_layers_def last_layers_def)
  qed
qed

text \<open>
  C29. A rate for a date comes from a row known at that date, and the lookup changes nothing. The pair has a
  stored direction (that of \<^verbatim>\<open>MAJOR_PAIRS\<close>, otherwise the requested one). If a row of that
  direction is known at the date, the rate is the last of those, turned round if the request was
  the other way; otherwise it is the last known row of the opposite direction, turned round into the stored
  direction, and once more for a request the other way. It is missing only when neither direction has a row
  at the date. So a row of the opposite direction never wins, however much newer it is
  (\<open>older_rate_of_stored_direction_wins\<close>).
\<close>

theorem historical_rate_known_then:
  assumes "fx_reach off ttl st" "b \<noteq> q" "get_rate env b q (Some t) st = (Inr found, st')"
    and "(base, quote) = (if (b, q) \<in> set major_pairs then (b, q) else if (q, b) \<in> set major_pairs then (q, b) else (b, q))"
  shows "st' = st \<and>
    (case found of
       None \<Rightarrow> \<forall>y \<in> set (fx_table st). (fx_base y, fx_quote y) \<in> {(b, q), (q, b)} \<longrightarrow> t < fx_at y
     | Some r \<Rightarrow> (fx_base r, fx_quote r) = (b, q) \<and>
         (\<exists>x \<in> set (fx_table st). fx_at r = fx_at x \<and> fx_at x \<le> t \<and>
            (\<forall>y \<in> set (fx_table st). fx_base y = fx_base x \<and> fx_quote y = fx_quote x \<and> fx_at y \<le> t \<longrightarrow> fx_at y \<le> fx_at x) \<and>
            ((fx_base x, fx_quote x) = (base, quote) \<and> (if (base, quote) = (b, q) then r = x else inverse_obs x = Inr r) \<or>
             (fx_base x, fx_quote x) = (quote, base) \<and>
             (\<forall>y \<in> set (fx_table st). (fx_base y, fx_quote y) = (base, quote) \<longrightarrow> t < fx_at y) \<and>
             (if (base, quote) = (b, q) then inverse_obs x = Inr r
              else \<exists>y. inverse_obs x = Inr y \<and> inverse_obs y = Inr r))))"
proof -
  have "degraded st"
    using fx_reach_inv [OF assms(1)] by (simp add: fx_inv_def)
  let ?inv = "(base, quote) \<noteq> (b, q)"
  have c: "canonicalise_pair b q = (base, quote, ?inv)"
    using assms(2,4) by (cases "(b, q) \<in> set major_pairs"; cases "(q, b) \<in> set major_pairs") (simp_all add: canonicalise_pair_def)
  have "stored_layers env (Some t) (base, quote, ?inv) st = (Inr found, st')"
    using assms(2,3) c by (simp add: get_rate_def)
  note h = historical_layers [OF \<open>degraded st\<close> this]
  have pair: "base = (if ?inv then q else b)" "quote = (if ?inv then b else q)"
    using canonicalise_pair_cases [OF c] by (auto split: if_splits)
  show ?thesis
  proof (cases found)
    case None
    then have "t < fx_at y" if "y \<in> set (fx_table st)" "(fx_base y, fx_quote y) \<in> {(b, q), (q, b)}" for y
      using h pair that by (cases ?inv) (auto simp: of_pair_def)
    then show ?thesis
      using h None by simp
  next
    case (Some r)
    then obtain x where x: "x \<in> set (fx_table st)" "latest (Some t) (fx_table st) x" "fx_at x \<le> t"
      and d: "of_pair base quote x \<and> oriented ?inv x = Inr (Some r) \<or>
          of_pair quote base x \<and> (\<forall>y \<in> set (fx_table st). of_pair base quote y \<longrightarrow> t < fx_at y) \<and>
            (\<exists>y. inverse_obs x = Inr y \<and> oriented ?inv y = Inr (Some r))"
      using h by auto
    have newest: "\<forall>y \<in> set (fx_table st). fx_base y = fx_base x \<and> fx_quote y = fx_quote x \<and> fx_at y \<le> t \<longrightarrow> fx_at y \<le> fx_at x"
      using x(2) by (simp add: latest_def list_all_iff of_pair_def at_most_def)
    have "fx_at r = fx_at x \<and> (fx_base r, fx_quote r) = (b, q) \<and>
        ((fx_base x, fx_quote x) = (base, quote) \<and> (if (base, quote) = (b, q) then r = x else inverse_obs x = Inr r) \<or>
         (fx_base x, fx_quote x) = (quote, base) \<and>
         (\<forall>y \<in> set (fx_table st). (fx_base y, fx_quote y) = (base, quote) \<longrightarrow> t < fx_at y) \<and>
         (if (base, quote) = (b, q) then inverse_obs x = Inr r
          else \<exists>y. inverse_obs x = Inr y \<and> inverse_obs y = Inr r))"
      using d
    proof (elim disjE conjE exE)
      assume p: "of_pair base quote x" "oriented ?inv x = Inr (Some r)"
      note o = oriented_Inr [OF p(2)]
      show ?thesis
        using p(1) o of_pair_oriented [OF c p(1)] inverse_obs_Inr(1) [of x r] by (auto simp: of_pair_def split: if_splits)
    next
      fix y
      assume p: "of_pair quote base x" "inverse_obs x = Inr y" "oriented ?inv y = Inr (Some r)"
        and older: "\<forall>y \<in> set (fx_table st). of_pair base quote y \<longrightarrow> t < fx_at y"
      note o = oriented_Inr [OF p(3)]
      have y: "of_pair base quote y" "fx_at y = fx_at x"
        using p(1) of_pair_inverse [OF p(2)] inverse_obs_Inr(1) [OF p(2)] by simp_all
      show ?thesis
        using p(1,2) older o y of_pair_oriented [OF c y(1)] inverse_obs_Inr(1) [of y r]
        by (auto simp: of_pair_def split: if_splits)
    qed
    with x(1,3) newest have "\<exists>x \<in> set (fx_table st). fx_at r = fx_at x \<and> fx_at x \<le> t \<and>
        (\<forall>y \<in> set (fx_table st). fx_base y = fx_base x \<and> fx_quote y = fx_quote x \<and> fx_at y \<le> t \<longrightarrow> fx_at y \<le> fx_at x) \<and>
        ((fx_base x, fx_quote x) = (base, quote) \<and> (if (base, quote) = (b, q) then r = x else inverse_obs x = Inr r) \<or>
         (fx_base x, fx_quote x) = (quote, base) \<and>
         (\<forall>y \<in> set (fx_table st). (fx_base y, fx_quote y) = (base, quote) \<longrightarrow> t < fx_at y) \<and>
         (if (base, quote) = (b, q) then inverse_obs x = Inr r
          else \<exists>y. inverse_obs x = Inr y \<and> inverse_obs y = Inr r))" and "(fx_base r, fx_quote r) = (b, q)"
      by blast+
    with h show ?thesis
      unfolding Some option.case by (intro conjI) (erule conjunct1 | assumption)+
  qed
qed

text \<open>One row in each direction; the one of the stored direction is returned, although it is older.\<close>

definition two_way_rates :: "fx_obs list" where
  "two_way_rates =
     [\<lparr>fx_base = ''USD'', fx_quote = ''EUR'', fx_rate = Dec 9 (- 1), fx_at = seconds 8000, fx_source = ''ecb''\<rparr>,
      \<lparr>fx_base = ''EUR'', fx_quote = ''USD'', fx_rate = Dec 125 (- 2), fx_at = seconds 1, fx_source = ''ecb''\<rparr>]"

lemma older_rate_of_stored_direction_wins:
  "fst (get_rate sample_fx_env ''USD'' ''EUR'' (Some (seconds 8500)) (fx_service two_way_rates)) =
     Inr (Some \<lparr>fx_base = ''USD'', fx_quote = ''EUR'', fx_rate = Dec 800000000000 (- 12), fx_at = seconds 1, fx_source = ''ecb''\<rparr>)"
  by code_simp

lemma historical_rate_known_then_witness:
  "\<exists>x \<in> set sample_rates. fx_at x = seconds 8000 \<and> inverse_obs x = Inr sample_past \<and>
     (\<forall>y \<in> set sample_rates. fx_at y \<le> seconds 8500 \<longrightarrow> fx_at y \<le> fx_at x)"
proof -
  have "(''EUR'', ''USD'') = (if (''EUR'', ''USD'') \<in> set major_pairs then (''EUR'', ''USD'')
      else if (''USD'', ''EUR'') \<in> set major_pairs then (''USD'', ''EUR'') else (''EUR'', ''USD''))"
    by (simp add: major_pairs_def)
  from historical_rate_known_then [OF fx_reach.start [of 0 0] _ with_state [OF sample_historical] this]
  show ?thesis
    by (auto simp: fx_service_def sample_rates_def sample_past_def)
qed

text \<open>
  A converted amount has two places and differs from the product of amount and rate by at most half a
  cent and the rounding of the product to 28 digits.
\<close>

theorem conversion_error:
  assumes "b \<noteq> q" "convert env b q amount asof st = (Inr (Some c), st')"
  shows "dexp (cv_amount c) = - 2 \<and>
    \<bar>dval (cv_amount c) - dval amount * dval (cv_rate c)\<bar>
      \<le> 1 / 200 + ulp_bound * \<bar>dval amount * dval (cv_rate c)\<bar>"
proof -
  obtain r where r: "quantize half_up 2 (dmul amount r) = Some (cv_amount c)" "cv_rate c = r"
    using assms by (auto simp: convert_def split: prod.splits sum.splits option.splits)
  have "\<bar>dval (cv_amount c) - dval (dmul amount r)\<bar> \<le> 1 / 2 * 10 powi (- int 2)"
    by (rule quantize_error(1) [OF r(1)]) simp
  then have 1: "\<bar>dval (cv_amount c) - dval (dmul amount r)\<bar> \<le> 1 / 200"
    by simp
  note 2 = dmul_error [of amount r]
  have "\<bar>dval (cv_amount c) - dval amount * dval r\<bar>
      \<le> \<bar>dval (cv_amount c) - dval (dmul amount r)\<bar> + \<bar>dval (dmul amount r) - dval amount * dval r\<bar>"
    using abs_triangle_ineq [of "dval (cv_amount c) - dval (dmul amount r)" "dval (dmul amount r) - dval amount * dval r"]
    by simp
  also have "\<dots> \<le> 1 / 200 + ulp_bound * \<bar>dval amount * dval r\<bar>"
    using 1 2 by (rule add_mono)
  finally show ?thesis
    using quantize_error(2) [OF r(1)] by (simp add: r(2))
qed

lemma conversion_error_witness:
  "\<bar>dval (Dec 11325 (- 2)) - dval (Dec 12345 (- 2)) * dval (Dec 917400000000 (- 12))\<bar>
    \<le> 1 / 200 + ulp_bound * \<bar>dval (Dec 12345 (- 2)) * dval (Dec 917400000000 (- 12))\<bar>"
  using conversion_error [OF _ with_state [OF sample_converted]] by (simp add: sample_conversion_def)

text \<open>The bulk lookups, documented as filling the table of rates, never add a row to it.\<close>

lemma rates_of_table:
  assumes "fx_inv off ttl st" "\<And>j. clocks off ttl (env j)"
  shows "fx_table (snd (rates_of env i asof pairs st)) = fx_table st"
  using assms
proof (induction pairs arbitrary: i st)
  case (Cons p pairs)
  obtain b q where p: "p = (b, q)"
    by fastforce
  obtain res st1 where g: "get_rate (env i) b q asof st = (res, st1)"
    by fastforce
  have "fx_inv off ttl st1" "fx_table st1 = fx_table st"
    using get_rate_inv [OF Cons.prems(1) Cons.prems(2), of i b q asof] g by simp_all
  then show ?case
    using Cons.IH [OF _ Cons.prems(2), of st1 "Suc i"] g
    by (auto simp: p split: sum.splits prod.splits)
qed simp

lemma bulk_fetch_stores_nothing:
  assumes "fx_reach off ttl st" "\<And>j. clocks off ttl (env j)"
  shows "fx_table (snd (fetch_and_cache_rates env bases st)) = fx_table st"
  using rates_of_table [OF fx_reach_inv [OF assms(1)] assms(2)]
  by (simp add: fetch_and_cache_rates_def Let_def apfst_def)

end
