(* ===== verification/Actual_Mapping.thy ===== *)
theory Actual_Mapping
  imports Internal_Transfers
begin

text \<open>
  What the exporter to Actual Budget makes of a stored transaction
  (\<^verbatim>\<open>exporter/actual_budget/transaction_mapper.py\<close>, and the eligibility and category rules
  of \<^verbatim>\<open>exporter/actual_budget/exporter.py\<close>). A transaction has the columns that are read; the
  ORM class has no splits, so none are exported. The arrow in the notes is its UTF-8 bytes.
\<close>

record export_txn =
  x_id :: pystr
  x_tenant :: pystr
  x_account :: pystr
  x_provider :: pystr
  x_external :: pystr
  x_type :: pystr
  x_status :: pystr
  x_export_status :: pystr
  x_amount :: decimal
  x_currency :: pystr
  x_occurred :: instant
  x_description :: "pystr option"
  x_counterparty :: "pystr option"
  x_metadata :: "(pystr \<times> pyval) list"
  x_merchant :: "pystr option"
  x_mcc :: "pystr option"
  x_original_type :: "pystr option"
  x_base_amount :: "decimal option"
  x_base_currency :: "pystr option"
  x_fx_rate :: "decimal option"
  x_security :: "pystr option"
  x_fingerprint :: "pystr option"
  x_override :: "pystr option"
  x_suggestion :: "(pystr \<times> pyval) list option"
  x_bucket :: "pystr option"

record export_account =
  acc_id :: pystr
  acc_tenant :: pystr
  acc_provider :: pystr
  acc_type :: pystr
  acc_name :: pystr
  acc_active :: bool
  acc_iban :: "pystr option"

subsection \<open>Accounts and categories\<close>

definition broker_provider_keys :: "pystr list" where
  "broker_provider_keys =
     [''saxoinvestor'', ''saxo'', ''trading212'', ''degiro'', ''interactive_brokers'', ''ibkr'', ''etoro'', ''lynx'']"

definition is_actual_budget_eligible_account :: "export_account \<Rightarrow> bool" where
  "is_actual_budget_eligible_account a \<longleftrightarrow>
     lower (acc_type a) \<in> {''checking'', ''savings'', ''cash''} \<and>
     map (\<lambda>c. if c = CHR ''-'' then CHR ''_'' else c) (lower (acc_provider a)) \<notin> set broker_provider_keys"

definition category_name :: "export_txn \<Rightarrow> pystr option" where
  "category_name t =
     (let suggested = (case x_suggestion t of
                         None \<Rightarrow> PNone
                       | Some d \<Rightarrow> if py_true (dict_get d ''value'') then dict_get d ''value'' else dict_get d ''category'')
      in if truthy (x_override t) then x_override t
         else if py_true suggested then Some (py_str suggested)
         else if truthy (x_bucket t) then x_bucket t else None)"

subsection \<open>Texts\<close>

definition type_labels :: "(pystr \<times> pystr) list" where
  "type_labels =
     [(''purchase'', ''Purchase''), (''sale'', ''Sale''), (''payment'', ''Payment''), (''withdrawal'', ''Withdrawal''),
      (''deposit'', ''Deposit''), (''fee'', ''Bank Fee''), (''tax'', ''Tax Withholding''),
      (''interest'', ''Interest Payment''), (''dividend'', ''Dividend''), (''transfer'', ''Transfer'')]"

definition build_payee :: "export_txn \<Rightarrow> pystr \<Rightarrow> pystr" where
  "build_payee t fallback =
     (if truthy (x_merchant t) then the (x_merchant t)
      else if truthy (x_description t) then the (x_description t)
      else case map_of type_labels (x_type t) of None \<Rightarrow> fallback | Some l \<Rightarrow> l)"

definition noted :: "pystr \<Rightarrow> pystr option \<Rightarrow> pystr list" where
  "noted prefix v = (if truthy v then [prefix @ the v] else [])"

definition arrow :: pystr where
  "arrow = [CHR '' '', CHR 0xE2, CHR 0x86, CHR 0x92, CHR '' '']"

definition fx_note :: "export_txn \<Rightarrow> pystr list" where
  "fx_note t =
     (case x_base_amount t of
        None \<Rightarrow> []
      | Some b \<Rightarrow>
          if truthy (x_base_currency t)
          then [''FX: '' @ dec_str (x_amount t) @ '' '' @ x_currency t @ arrow @ dec_str b @ '' '' @ the (x_base_currency t) @
                (case x_fx_rate t of None \<Rightarrow> [] | Some r \<Rightarrow> '' @ '' @ dec_str r)]
          else [])"

definition build_notes :: "export_txn \<Rightarrow> pystr option" where
  "build_notes t =
     (let parts = noted [] (x_description t) @ noted ''MCC: '' (x_mcc t) @ noted ''Provider type: '' (x_original_type t) @
                  fx_note t @
                  (if x_type t \<in> {''sale'', ''dividend'', ''fee'', ''tax''} \<and> truthy (x_security t)
                   then [''Type: '' @ x_type t] else []) @
                  noted ''Ref: '' (x_fingerprint t)
      in if parts = [] then None else Some (join [CHR 0x0A] parts))"

definition build_imported_id :: "export_txn \<Rightarrow> pystr" where
  "build_imported_id t = ''fs_'' @ x_external t"

subsection \<open>Payloads\<close>

text \<open>An amount is a Python \<^verbatim>\<open>int\<close> or a \<^verbatim>\<open>Decimal\<close>.\<close>

datatype amount = Whole int | Exact decimal

record ab_payload =
  pl_date :: int
  pl_account :: pystr
  pl_payee :: pystr
  pl_notes :: "pystr option"
  pl_amount :: amount
  pl_imported_id :: pystr
  pl_cleared :: bool
  pl_imported_payee :: "pystr option"
  pl_category :: "pystr option"

definition cents :: "decimal \<Rightarrow> int option" where
  "cents amount = map_option dcoeff (quantize half_even 0 (dmul amount (Dec 100 0)))"

definition major_units :: "decimal \<Rightarrow> decimal option" where
  "major_units amount = quantize half_even 2 amount"

text \<open>\<open>None\<close> is \<^verbatim>\<open>InvalidOperation\<close>, of an amount with too many digits.\<close>

definition map_transaction :: "export_txn \<Rightarrow> pystr \<Rightarrow> pystr \<Rightarrow> pystr option \<Rightarrow> ab_payload option" where
  "map_transaction t ab_account fallback_payee category =
     (case (if category \<noteq> None then map_option Exact (major_units (x_amount t)) else map_option Whole (cents (x_amount t))) of
        None \<Rightarrow> None
      | Some n \<Rightarrow>
          Some \<lparr>pl_date = x_occurred t div days 1, pl_account = ab_account, pl_payee = build_payee t fallback_payee,
                pl_notes = build_notes t, pl_amount = n, pl_imported_id = build_imported_id t,
                pl_cleared = (x_status t = ''booked''), pl_imported_payee = x_description t,
                pl_category = (if truthy category \<and> x_type t \<noteq> ''transfer'' then category else None)\<rparr>)"

definition map_transaction_to_csv_row :: "export_txn \<Rightarrow> (pystr \<times> pystr option) list option" where
  "map_transaction_to_csv_row t =
     map_option
       (\<lambda>a. [(''Date'', Some (iso_date (x_occurred t div days 1))), (''Payee'', Some (or_blank (x_description t))),
             (''Category'', Some []), (''Notes'', build_notes t), (''Amount'', Some (dec_str a))])
       (major_units (x_amount t))"

end
