(* ===== verification/Actual_Export.thy ===== *)
theory Actual_Export
  imports Actual_Mapping Sync_Errors Py_Steps
begin

text \<open>
  A run of the exporter to Actual Budget (\<^verbatim>\<open>ActualBudgetExporter.run_export\<close> of
  \<^verbatim>\<open>exporter/actual_budget/exporter.py\<close>, with the client of
  \<^verbatim>\<open>exporter/actual_budget/client.py\<close>).

  The budget is a value of type \<open>'b\<close> that only the functions of the actualpy library change; they
  are the fields of \<open>actual_api\<close>, each of which may raise and may leave a changed budget when it
  does. The tables of accounts and transactions are not written by an export; they, fresh
  identifiers, the clock, the configuration and the outcome of writing the CSV file are fields of
  \<open>ab_env\<close>. One database session spans the run: it commits the new run first, and everything else at
  the end.
\<close>

datatype ab_error = Connection_failed pystr | Unexpected pystr

record ab_account =
  ab_id :: pystr
  ab_name :: pystr

record 'b actual_api =
  q_connect :: "(pystr, unit, 'b) run"
  q_get_account :: "pystr \<Rightarrow> (pystr, ab_account option, 'b) run"
  q_create_account :: "pystr \<Rightarrow> bool \<Rightarrow> (pystr, ab_account, 'b) run"
  q_has_notes :: "pystr \<Rightarrow> (pystr, bool, 'b) run"
  q_create_transfer :: "int \<Rightarrow> pystr \<Rightarrow> pystr \<Rightarrow> decimal \<Rightarrow> pystr \<Rightarrow> (pystr, unit, 'b) run"
  q_reconcile :: "pystr \<Rightarrow> ab_payload \<Rightarrow> (pystr, pystr, 'b) run"
  q_set_amount :: "pystr \<Rightarrow> int \<Rightarrow> 'b \<Rightarrow> 'b"
  q_commit :: "(pystr, unit, 'b) run"
  decimal_to_cents :: "amount \<Rightarrow> int"

record ab_mapping =
  map_tenant :: pystr
  map_target :: pystr
  map_account :: pystr
  map_ab_id :: pystr
  map_ab_name :: pystr

record ab_delivery =
  del_tenant :: pystr
  del_target :: pystr
  del_account :: pystr
  del_last_id :: pystr
  del_last_at :: instant

record export_run =
  xr_id :: pystr
  xr_tenant :: pystr
  xr_target :: pystr
  xr_status :: pystr
  xr_started :: instant
  xr_completed :: "instant option"
  xr_attempted :: nat
  xr_exported :: nat
  xr_failed :: nat
  xr_error :: "pystr option"
  xr_category :: "pystr option"

record ab_env =
  e_tenant :: pystr
  e_target :: pystr
  e_since :: instant
  e_account_ids :: "pystr list"
  e_max_transactions :: "nat option"
  e_account_names :: "(pystr \<times> pystr) list"
  e_transfer_names :: "(pystr \<times> pystr) list"
  e_off_budget :: bool
  e_accounts :: "export_account list"
  e_txns :: "export_txn list"
  e_run_id :: pystr
  e_start :: instant
  e_end :: instant
  e_csv :: "ab_error option"

text \<open>The state of a run: the budget, the rows of the session, and the local counters.\<close>

record 'b ab_state =
  w_budget :: 'b
  w_mappings :: "ab_mapping list"
  w_deliveries :: "ab_delivery list"
  w_mapped :: nat
  w_attempted :: nat
  w_exported :: nat
  w_failed :: nat

type_synonym ('x, 'b) ab_step = "(ab_error, 'x, 'b ab_state) run"

definition on_budget :: "(pystr, 'x, 'b) run \<Rightarrow> ('x, 'b) ab_step" where
  "on_budget m s = (case m (w_budget s) of (r, b) \<Rightarrow> (map_sum Unexpected id r, s\<lparr>w_budget := b\<rparr>))"

subsection \<open>The client\<close>

definition get_or_create_account :: "'b actual_api \<Rightarrow> pystr \<Rightarrow> bool \<Rightarrow> (pystr, ab_account, 'b) run" where
  "get_or_create_account api name off_budget =
     andthen (q_get_account api name) (\<lambda>found.
       case found of
         Some a \<Rightarrow> give a
       | None \<Rightarrow>
           andthen (q_create_account api name off_budget) (\<lambda>a. andthen (q_commit api) (\<lambda>_. give a)))"

definition create_transfer ::
  "'b actual_api \<Rightarrow> int \<Rightarrow> pystr \<Rightarrow> pystr \<Rightarrow> decimal \<Rightarrow> pystr \<Rightarrow> (pystr, unit, 'b) run" where
  "create_transfer api day source destination amount notes =
     andthen (q_create_transfer api day source destination amount notes) (\<lambda>_. q_commit api)"

text \<open>
  \<^verbatim>\<open>reconcile_transaction\<close> leaves the amount of a known row alone, so it is written again. An
  exception skips the transaction. The number of transactions that went through is returned.
\<close>

definition import_one :: "'b actual_api \<Rightarrow> pystr \<Rightarrow> ab_payload \<Rightarrow> (pystr, unit, 'b) run" where
  "import_one api account p =
     andthen (q_reconcile api account p) (\<lambda>i. change (q_set_amount api i (decimal_to_cents api (pl_amount p))))"

fun import_each :: "'b actual_api \<Rightarrow> pystr \<Rightarrow> ab_payload list \<Rightarrow> 'b \<Rightarrow> nat \<times> 'b" where
  "import_each api account [] b = (0, b)"
| "import_each api account (p # ps) b =
     (case import_one api account p b of
        (Inl e, b1) \<Rightarrow> import_each api account ps b1
      | (Inr _, b1) \<Rightarrow> apfst Suc (import_each api account ps b1))"

definition import_transactions_batch :: "'b actual_api \<Rightarrow> pystr \<Rightarrow> ab_payload list \<Rightarrow> (pystr, nat, 'b) run" where
  "import_transactions_batch api account ps b =
     (case import_each api account ps b of (n, b1) \<Rightarrow> andthen (q_commit api) (\<lambda>_. give n) b1)"

subsection \<open>Accounts\<close>

definition load_accounts :: "ab_env \<Rightarrow> export_account list" where
  "load_accounts env =
     filter is_actual_budget_eligible_account
       (sort_key acc_name
         (filter (\<lambda>a. acc_tenant a = e_tenant env \<and> acc_active a \<and>
                     (e_account_ids env \<noteq> [] \<longrightarrow> acc_id a \<in> set (e_account_ids env))) (e_accounts env)))"

definition override_name :: "(pystr \<times> pystr) list \<Rightarrow> export_account \<Rightarrow> pystr" where
  "override_name names a = (case map_of names (acc_id a) of None \<Rightarrow> acc_name a | Some n \<Rightarrow> n)"

definition account_names_by_iban :: "ab_env \<Rightarrow> pystr \<Rightarrow> pystr option" where
  "account_names_by_iban env =
     fold (\<lambda>a m. let iban = normalize_account_reference (acc_iban a)
                 in if iban = [] then m else m(iban \<mapsto> override_name (e_account_names env) a))
       (load_accounts env) Map.empty"

definition mapping_of :: "ab_env \<Rightarrow> pystr \<Rightarrow> ab_mapping \<Rightarrow> bool" where
  "mapping_of env account m \<longleftrightarrow> map_tenant m = e_tenant env \<and> map_target m = e_target env \<and> map_account m = account"

definition save_mapping :: "ab_env \<Rightarrow> pystr \<Rightarrow> ab_account \<Rightarrow> ab_mapping list \<Rightarrow> ab_mapping list" where
  "save_mapping env account a ms =
     (if list_ex (mapping_of env account) ms
      then update_rows (mapping_of env account) (\<lambda>m. m\<lparr>map_ab_id := ab_id a, map_ab_name := ab_name a\<rparr>) ms
      else ms @ [\<lparr>map_tenant = e_tenant env, map_target = e_target env, map_account = account,
                  map_ab_id = ab_id a, map_ab_name = ab_name a\<rparr>])"

definition resolve_ab_account :: "'b actual_api \<Rightarrow> ab_env \<Rightarrow> export_account \<Rightarrow> (ab_account, 'b) ab_step" where
  "resolve_ab_account api env acct s =
     andthen
       (case find (mapping_of env (acc_id acct)) (w_mappings s) of
          None \<Rightarrow> give None
        | Some m \<Rightarrow> on_budget (q_get_account api (map_ab_name m)))
       (\<lambda>known. case known of
          Some a \<Rightarrow> give a
        | None \<Rightarrow>
            andthen (on_budget (get_or_create_account api (override_name (e_account_names env) acct) (e_off_budget env)))
              (\<lambda>a. andthen (change (\<lambda>s. s\<lparr>w_mappings := save_mapping env (acc_id acct) a (w_mappings s)\<rparr>)) (\<lambda>_. give a)))
       s"

subsection \<open>Transactions\<close>

definition exportable :: "ab_env \<Rightarrow> export_txn \<Rightarrow> bool" where
  "exportable env t \<longleftrightarrow>
     x_tenant t = e_tenant env \<and> e_since env \<le> x_occurred t \<and> x_status t \<in> {''booked'', ''pending''} \<and>
     x_export_status t = ''active''"

definition fetch_pending_transactions :: "ab_env \<Rightarrow> pystr \<Rightarrow> export_txn list" where
  "fetch_pending_transactions env account =
     sort_key x_occurred (filter (\<lambda>t. x_account t = account \<and> exportable env t) (e_txns env))"

text \<open>The opposite leg of a movement between budget accounts: the name of its account.\<close>

definition easy_budgeting_peer :: "ab_env \<Rightarrow> export_txn \<Rightarrow> export_txn \<Rightarrow> bool" where
  "easy_budgeting_peer env t c \<longleftrightarrow>
     x_tenant c = e_tenant env \<and> x_provider c = ''bunq'' \<and> x_account c \<noteq> x_account t \<and> x_type c = ''transfer'' \<and>
     deq (x_amount c) (dneg (x_amount t)) \<and> x_description c = x_description t \<and>
     \<bar>x_occurred c - x_occurred t\<bar> \<le> seconds 15"

definition find_easy_budgeting_peer :: "ab_env \<Rightarrow> export_txn \<Rightarrow> pystr option" where
  "find_easy_budgeting_peer env t =
     (case first_min x_occurred
             (filter (\<lambda>c. easy_budgeting_peer env t c \<and> list_ex (\<lambda>a. acc_id a = x_account c) (e_accounts env)) (e_txns env)) of
        None \<Rightarrow> None
      | Some c \<Rightarrow> map_option acc_name (find (\<lambda>a. acc_id a = x_account c) (e_accounts env)))"

definition meta_text :: "export_txn \<Rightarrow> pystr \<Rightarrow> pystr" where
  "meta_text t k = (case map_of (x_metadata t) k of None \<Rightarrow> [] | Some v \<Rightarrow> py_str v)"

definition account_named :: "ab_env \<Rightarrow> pystr \<Rightarrow> pystr option" where
  "account_named env name =
     map_option acc_name (find (\<lambda>a. casefold (acc_name a) = casefold name) (load_accounts env))"

definition top_up_budget :: "ab_env \<Rightarrow> export_txn \<Rightarrow> pystr option" where
  "top_up_budget env t = account_named env (strip (meta_text t ''easy_budgeting_budget''))"

text \<open>Whether a transaction is exported as a native transfer: a destination is found for it.\<close>

definition planned_destination :: "ab_env \<Rightarrow> export_txn \<Rightarrow> pystr option" where
  "planned_destination env t =
     (if x_type t \<noteq> ''transfer'' then None
      else or_else (map_of (e_transfer_names env) (or_blank (x_counterparty t)))
        (let op = meta_text t ''easy_budgeting_operation'';
             budget = (if op = ''top_up'' \<and> strip (meta_text t ''easy_budgeting_budget'') \<noteq> [] then top_up_budget env t
                       else if op = ''remainder'' then account_named env ''inbox'' else None)
         in or_else budget
              (or_else (find_easy_budgeting_peer env t)
                (account_names_by_iban env (normalize_account_reference (Some (or_blank (x_counterparty t))))))))"

text \<open>The destination is looked for again when the transfer is written, in another order.\<close>

definition transfer_destination :: "ab_env \<Rightarrow> export_txn \<Rightarrow> pystr option" where
  "transfer_destination env t =
     (let counterparty = str_of (x_counterparty t)
      in or_else
           (case map_of (e_transfer_names env) counterparty of
              Some n \<Rightarrow> Some n
            | None \<Rightarrow> account_names_by_iban env (normalize_account_reference (Some counterparty)))
           (or_else (find_easy_budgeting_peer env t)
             (if dict_get (x_metadata t) ''easy_budgeting_operation'' = PStr ''top_up'' \<and>
                 strip (meta_text t ''easy_budgeting_budget'') \<noteq> []
              then top_up_budget env t else None)))"

datatype route = Positive_leg | As_transfer | As_import

definition route_of :: "ab_env \<Rightarrow> export_txn \<Rightarrow> route" where
  "route_of env t =
     (if x_type t = ''transfer'' \<and> dlt D0 (x_amount t) then Positive_leg
      else if truthy (planned_destination env t) then As_transfer else As_import)"

definition reference :: "export_txn \<Rightarrow> pystr" where
  "reference t = ''finance-sync:'' @ x_id t"

subsection \<open>One account\<close>

definition count_failed :: "(unit, 'b) ab_step" where
  "count_failed = change (\<lambda>s. s\<lparr>w_failed := w_failed s + 1\<rparr>)"

definition count_exported :: "(unit, 'b) ab_step" where
  "count_exported = change (\<lambda>s. s\<lparr>w_exported := w_exported s + 1\<rparr>)"

text \<open>One transfer; the result tells whether it counts as delivered.\<close>

definition export_transfer :: "'b actual_api \<Rightarrow> ab_env \<Rightarrow> ab_account \<Rightarrow> export_txn \<Rightarrow> (bool, 'b) ab_step" where
  "export_transfer api env acct t =
     (let dest = transfer_destination env t
      in if \<not> truthy dest then andthen count_failed (\<lambda>_. give False)
         else andthen (on_budget (q_has_notes api (reference t))) (\<lambda>known.
           if known then give True
           else andthen (on_budget (get_or_create_account api (the dest) (e_off_budget env))) (\<lambda>target.
             andthen
               (on_budget
                 (create_transfer api (x_occurred t div days 1)
                   (if dlt D0 (x_amount t) then ab_name target else ab_name acct)
                   (if dlt D0 (x_amount t) then ab_name acct else ab_name target)
                   (dabs (x_amount t)) (reference t)))
               (\<lambda>_. andthen count_exported (\<lambda>_. give True)))))"

fun export_transfers ::
  "'b actual_api \<Rightarrow> ab_env \<Rightarrow> ab_account \<Rightarrow> export_txn list \<Rightarrow> pystr list \<Rightarrow> (pystr list, 'b) ab_step" where
  "export_transfers api env acct [] delivered = give delivered"
| "export_transfers api env acct (t # ts) delivered =
     andthen (export_transfer api env acct t) (\<lambda>done.
       export_transfers api env acct ts (if done then delivered @ [x_id t] else delivered))"

definition mapped_payloads :: "ab_env \<Rightarrow> ab_account \<Rightarrow> export_txn list \<Rightarrow> ab_payload list option" where
  "mapped_payloads env acct ts =
     those (map (\<lambda>t. map_transaction t (ab_name acct) ''Imported transaction'' (category_name t))
       (filter (\<lambda>t. route_of env t = As_import) ts))"

definition capped :: "nat option \<Rightarrow> 'a list \<Rightarrow> 'a list" where
  "capped limit xs = (case limit of None \<Rightarrow> xs | Some n \<Rightarrow> if n = 0 then xs else take n xs)"

definition delivery_of :: "ab_env \<Rightarrow> pystr \<Rightarrow> ab_delivery \<Rightarrow> bool" where
  "delivery_of env account d \<longleftrightarrow> del_tenant d = e_tenant env \<and> del_target d = e_target env \<and> del_account d = account"

definition update_export_delivery :: "ab_env \<Rightarrow> pystr \<Rightarrow> pystr list \<Rightarrow> ab_delivery list \<Rightarrow> ab_delivery list" where
  "update_export_delivery env account ids ds =
     (if ids = [] then ds
      else if list_ex (delivery_of env account) ds
      then update_rows (delivery_of env account) (\<lambda>d. d\<lparr>del_last_id := last ids, del_last_at := e_end env\<rparr>) ds
      else ds @ [\<lparr>del_tenant = e_tenant env, del_target = e_target env, del_account = account,
                  del_last_id = last ids, del_last_at = e_end env\<rparr>])"

definition count_batch :: "nat \<Rightarrow> nat \<Rightarrow> nat \<Rightarrow> (unit, 'b) ab_step" where
  "count_batch attempted exported failed = change (\<lambda>s. s
     \<lparr>w_attempted := w_attempted s + attempted, w_exported := w_exported s + exported, w_failed := w_failed s + failed\<rparr>)"

definition exported_ids :: "ab_env \<Rightarrow> export_txn list \<Rightarrow> pystr list \<Rightarrow> nat \<Rightarrow> pystr list" where
  "exported_ids env ts delivered batch_ok =
     delivered @ take batch_ok (map x_id (filter (\<lambda>t. route_of env t \<noteq> As_transfer) ts))"

definition export_pending ::
  "'b actual_api \<Rightarrow> ab_env \<Rightarrow> export_account \<Rightarrow> ab_account \<Rightarrow> export_txn list \<Rightarrow> (unit, 'b) ab_step" where
  "export_pending api env acct ab ts =
     (case mapped_payloads env ab ts of
        None \<Rightarrow> raise (Unexpected ''decimal.InvalidOperation'')
      | Some all \<Rightarrow>
          (let mapped = capped (e_max_transactions env) all;
               transfers = filter (\<lambda>t. route_of env t = As_transfer) ts;
               positive = map x_id (filter (\<lambda>t. route_of env t = Positive_leg) ts)
           in andthen (count_batch (length mapped) 0 0) (\<lambda>_.
                andthen (export_transfers api env ab transfers positive) (\<lambda>delivered.
                  andthen (count_batch (length transfers) 0 0) (\<lambda>_.
                    andthen (on_budget (import_transactions_batch api (ab_name ab) mapped)) (\<lambda>batch_ok.
                      andthen (count_batch 0 batch_ok (length mapped - batch_ok)) (\<lambda>_.
                        change (\<lambda>s. s\<lparr>w_deliveries :=
                          update_export_delivery env (acc_id acct) (exported_ids env ts delivered batch_ok) (w_deliveries s)\<rparr>))))))))"

definition export_account_step :: "'b actual_api \<Rightarrow> ab_env \<Rightarrow> export_account \<Rightarrow> (unit, 'b) ab_step" where
  "export_account_step api env acct =
     andthen (resolve_ab_account api env acct) (\<lambda>ab.
       andthen (change (\<lambda>s. s\<lparr>w_mapped := w_mapped s + 1\<rparr>)) (\<lambda>_.
         let ts = fetch_pending_transactions env (acc_id acct)
         in if ts = [] then give () else export_pending api env acct ab ts))"

subsection \<open>The run\<close>

text \<open>The CSV file lists the transactions of the accounts the caller named, or of the exported ones.\<close>

definition csv_transactions :: "ab_env \<Rightarrow> export_txn list" where
  "csv_transactions env =
     (let ids = (if e_account_ids env \<noteq> [] then e_account_ids env else map acc_id (load_accounts env))
      in sort_key x_occurred (filter (\<lambda>t. x_account t \<in> set ids \<and> exportable env t) (e_txns env)))"

definition write_csv :: "ab_env \<Rightarrow> (unit, 'b) ab_step" where
  "write_csv env =
     (if csv_transactions env = [] then give ()
      else if those (map map_transaction_to_csv_row (csv_transactions env)) = None
      then raise (Unexpected ''decimal.InvalidOperation'')
      else case e_csv env of None \<Rightarrow> give () | Some e \<Rightarrow> raise e)"

definition export_body :: "'b actual_api \<Rightarrow> ab_env \<Rightarrow> (unit, 'b) ab_step" where
  "export_body api env =
     andthen (\<lambda>s. case q_connect api (w_budget s) of
                    (r, b) \<Rightarrow> (map_sum Connection_failed id r, s\<lparr>w_budget := b\<rparr>)) (\<lambda>_.
       andthen (each (export_account_step api env) (load_accounts env)) (\<lambda>_. write_csv env))"

definition new_export_run :: "ab_env \<Rightarrow> export_run" where
  "new_export_run env =
     \<lparr>xr_id = e_run_id env, xr_tenant = e_tenant env, xr_target = e_target env, xr_status = ''running'',
      xr_started = e_start env, xr_completed = None, xr_attempted = 0, xr_exported = 0, xr_failed = 0,
      xr_error = None, xr_category = None\<rparr>"

definition error_text :: "ab_error \<Rightarrow> pystr" where
  "error_text e = (case e of Connection_failed m \<Rightarrow> m | Unexpected tb \<Rightarrow> tb)"

definition ended_run :: "ab_env \<Rightarrow> ab_error option \<Rightarrow> 'b ab_state \<Rightarrow> export_run" where
  "ended_run env failed s = (new_export_run env)
     \<lparr>xr_status := (if failed = None then ''completed'' else ''failed''), xr_completed := Some (e_end env),
      xr_attempted := w_attempted s, xr_exported := w_exported s, xr_failed := w_failed s,
      xr_error := (case failed of None \<Rightarrow> None | Some (Connection_failed m) \<Rightarrow> Some m | Some (Unexpected tb) \<Rightarrow> Some (take 2048 tb)),
      xr_category := (case failed of None \<Rightarrow> None | Some e \<Rightarrow> categorize_export_error (Some (error_text e)))\<rparr>"

text \<open>The database and the budget around a run.\<close>

record 'b ab_world =
  a_budget :: 'b
  a_mappings :: "ab_mapping list"
  a_deliveries :: "ab_delivery list"
  a_runs :: "export_run list"

text \<open>The result of a run is its row and the number of mapped accounts.\<close>

definition run_actual_export :: "'b actual_api \<Rightarrow> ab_env \<Rightarrow> 'b ab_world \<Rightarrow> (export_run \<times> nat) \<times> 'b ab_world" where
  "run_actual_export api env w =
     (case export_body api env
             \<lparr>w_budget = a_budget w, w_mappings = a_mappings w, w_deliveries = a_deliveries w,
              w_mapped = 0, w_attempted = 0, w_exported = 0, w_failed = 0\<rparr> of
        (Inr _, s) \<Rightarrow>
          (let r = ended_run env None s
           in ((r, w_mapped s), \<lparr>a_budget = w_budget s, a_mappings = w_mappings s, a_deliveries = w_deliveries s, a_runs = a_runs w @ [r]\<rparr>))
      | (Inl e, s) \<Rightarrow>
          (let r = ended_run env (Some e) s
           in ((r, w_mapped s), \<lparr>a_budget = w_budget s, a_mappings = a_mappings w, a_deliveries = a_deliveries w, a_runs = a_runs w @ [r]\<rparr>)))"

end
