(* ===== verification/Actual_Export_Props.thy ===== *)
theory Actual_Export_Props
  imports Actual_Export "HOL-Library.AList"
begin

text \<open>
  What an export to Actual Budget guarantees: however often runs are repeated or cut short, no
  transfer is created twice; the run ends with one row whose counters account for every pending
  transaction; and which amounts arrive. The laws of the actualpy functions that this relies on
  are named: \<open>counts_transfers\<close> and \<open>converts_units\<close>.
\<close>

subsection \<open>Amounts\<close>

text \<open>
  actualpy converts the amounts it is given, in major units, to whole cents
  (\<^verbatim>\<open>decimal_to_cents\<close>).
\<close>

definition converts_units :: "'b actual_api \<Rightarrow> bool" where
  "converts_units api \<longleftrightarrow>
     (\<forall>n. decimal_to_cents api (Whole n) = 100 * n) \<and> (\<forall>c. decimal_to_cents api (Exact (Dec c (- 2))) = c)"

lemma dmul_hundred:
  assumes "\<bar>dcoeff d\<bar> < 10 ^ 26"
  shows "dval (dmul d (Dec 100 0)) = 100 * dval d"
proof -
  have "\<bar>dcoeff d * 100\<bar> < 10 ^ prec"
    using assms by (simp add: prec_def abs_mult)
  then show ?thesis
    by (simp add: dmul_def dfix_exact dval_def)
qed

lemma cents_error:
  assumes "cents d = Some c" "\<bar>dcoeff d\<bar> < 10 ^ 26"
  shows "\<bar>of_int c - 100 * dval d\<bar> \<le> 1 / 2"
proof -
  obtain q where q: "quantize half_even 0 (dmul d (Dec 100 0)) = Some q" "c = dcoeff q"
    using assms(1) by (auto simp: cents_def)
  have "\<bar>dval q - dval (dmul d (Dec 100 0))\<bar> \<le> 1 / 2 * 10 powi (- int 0)"
    by (rule quantize_error(1) [OF q(1)]) simp
  moreover have "dval q = of_int c"
    using quantize_error(2) [OF q(1)] q(2) by (simp add: dval_def)
  ultimately show ?thesis
    using dmul_hundred [OF assms(2)] by simp
qed

lemma major_units_error:
  assumes "major_units d = Some q"
  shows "\<exists>c. q = Dec c (- 2) \<and> \<bar>of_int c - 100 * dval d\<bar> \<le> 1 / 2"
proof -
  note m = assms [unfolded major_units_def]
  have e: "dexp q = - 2"
    using quantize_error(2) [OF m] by simp
  have q: "\<bar>dval q - dval d\<bar> \<le> 1 / 2 * 10 powi (- int 2)"
    by (rule quantize_error(1) [OF m]) simp
  have "of_int (dcoeff q) - 100 * dval d = 100 * (dval q - dval d)"
    by (simp add: dval_def e)
  then have "\<bar>of_int (dcoeff q) - 100 * dval d\<bar> = 100 * \<bar>dval q - dval d\<bar>"
    by (simp only: abs_mult abs_numeral)
  then have "\<bar>of_int (dcoeff q) - 100 * dval d\<bar> \<le> 1 / 2"
    using q by simp
  then show ?thesis
    using e by (intro exI [of _ "dcoeff q"]) (cases q, simp)
qed

text \<open>
  What the client makes of a mapped amount, in cents: with a category the amount of the transaction to
  the cent, but without one a hundred times that, because the mapper hands over cents where major
  units are expected. The documentation and the tests of the mapper want cents.
\<close>

lemma exported_amount:
  assumes "converts_units api" "map_transaction t account payee category = Some p" "\<bar>dcoeff (x_amount t)\<bar> < 10 ^ 26"
  shows "if category = None
    then \<exists>c. decimal_to_cents api (pl_amount p) = 100 * c \<and> \<bar>of_int c - 100 * dval (x_amount t)\<bar> \<le> 1 / 2
    else \<bar>of_int (decimal_to_cents api (pl_amount p)) - 100 * dval (x_amount t)\<bar> \<le> 1 / 2"
proof (cases category)
  case None
  then obtain c where c: "cents (x_amount t) = Some c" "pl_amount p = Whole c"
    using assms(2) by (auto simp: map_transaction_def split: option.splits)
  then show ?thesis
    using None cents_error [OF c(1) assms(3)] assms(1) by (auto simp: converts_units_def)
next
  case (Some n)
  then obtain q where q: "major_units (x_amount t) = Some q" "pl_amount p = Exact q"
    using assms(2) by (auto simp: map_transaction_def split: option.splits)
  then show ?thesis
    using Some major_units_error [OF q(1)] assms(1) by (auto simp: converts_units_def)
qed

subsection \<open>Transfers\<close>

text \<open>
  \<open>transfers b n\<close> is the number of transfers with the notes \<open>n\<close> in the budget: writing one adds at
  most that one, no other operation adds any, and the search by notes finds them. Nothing is
  assumed about what a failing operation leaves, as long as it adds no more than that.
\<close>

definition adds_no_transfer :: "('b \<Rightarrow> pystr \<Rightarrow> nat) \<Rightarrow> (pystr, 'x, 'b) run \<Rightarrow> bool" where
  "adds_no_transfer transfers m \<longleftrightarrow> (\<forall>b n. transfers (snd (m b)) n \<le> transfers b n)"

definition counts_transfers :: "'b actual_api \<Rightarrow> ('b \<Rightarrow> pystr \<Rightarrow> nat) \<Rightarrow> bool" where
  "counts_transfers api transfers \<longleftrightarrow>
     adds_no_transfer transfers (q_connect api) \<and>
     (\<forall>name. adds_no_transfer transfers (q_get_account api name)) \<and>
     (\<forall>name off. adds_no_transfer transfers (q_create_account api name off)) \<and>
     (\<forall>n. adds_no_transfer transfers (q_has_notes api n)) \<and>
     (\<forall>account p. adds_no_transfer transfers (q_reconcile api account p)) \<and>
     (\<forall>i c. adds_no_transfer transfers (change (q_set_amount api i c))) \<and>
     adds_no_transfer transfers (q_commit api) \<and>
     (\<forall>day src dst amt n b m. transfers (snd (q_create_transfer api day src dst amt n b)) m
        \<le> transfers b m + (if m = n then 1 else 0)) \<and>
     (\<forall>n b b1. q_has_notes api n b = (Inr False, b1) \<longrightarrow> transfers b n = 0)"

text \<open>An invariant on the number of transfers, as a Hoare triple: no reference has two.\<close>

definition single :: "('b \<Rightarrow> pystr \<Rightarrow> nat) \<Rightarrow> 'b \<Rightarrow> bool" where
  "single transfers b \<longleftrightarrow> (\<forall>n. transfers b n \<le> 1)"

lemma single_mono: "single transfers b \<Longrightarrow> (\<And>n. transfers b1 n \<le> transfers b n) \<Longrightarrow> single transfers b1"
  unfolding single_def using order_trans by blast

definition free_single :: "('b \<Rightarrow> pystr \<Rightarrow> nat) \<Rightarrow> pystr \<Rightarrow> 'b \<Rightarrow> bool" where
  "free_single transfers n b \<longleftrightarrow> single transfers b \<and> transfers b n = 0"

lemma free_single_mono:
  "free_single transfers n b \<Longrightarrow> (\<And>n. transfers b1 n \<le> transfers b n) \<Longrightarrow> free_single transfers n b1"
  using single_mono [of transfers b b1] by (simp add: free_single_def) (metis le_zero_eq)

lemma adds_no_transfer_keeps:
  assumes "adds_no_transfer transfers m"
  shows "triple (single transfers) m (\<lambda>_. single transfers) (single transfers)"
    and "triple (free_single transfers n) m (\<lambda>_. free_single transfers n) (free_single transfers n)"
proof -
  have le: "transfers (snd (m b)) i \<le> transfers b i" for b i
    using assms by (simp add: adds_no_transfer_def)
  then have "single transfers (snd (m b))" if "single transfers b" for b
    using single_mono [OF that] by blast
  then show "triple (single transfers) m (\<lambda>_. single transfers) (single transfers)"
    by (rule triple_state)
  have "free_single transfers n (snd (m b))" if "free_single transfers n b" for b
    using free_single_mono [OF that] le by blast
  then show "triple (free_single transfers n) m (\<lambda>_. free_single transfers n) (free_single transfers n)"
    by (rule triple_state)
qed

lemma free_single_simp: "free_single transfers n b \<Longrightarrow> single transfers b"
  by (simp add: free_single_def)

lemma adds_no_transfer_andthen:
  assumes "adds_no_transfer transfers m" "\<And>x. adds_no_transfer transfers (k x)"
  shows "adds_no_transfer transfers (andthen m k)"
  unfolding adds_no_transfer_def
proof (intro allI)
  fix b n
  obtain r b1 where m: "m b = (r, b1)"
    by fastforce
  have 1: "transfers b1 n \<le> transfers b n"
    using assms(1) m unfolding adds_no_transfer_def by (metis snd_conv)
  show "transfers (snd (andthen m k b)) n \<le> transfers b n"
  proof (cases r)
    case (Inl e)
    then show ?thesis
      using 1 m by (simp add: andthen_def)
  next
    case (Inr x)
    have "transfers (snd (k x b1)) n \<le> transfers b1 n"
      using assms(2) unfolding adds_no_transfer_def by simp
    then show ?thesis
      using 1 m Inr by (simp add: andthen_def)
  qed
qed

lemma adds_no_transfer_give: "adds_no_transfer transfers (give x)"
  by (simp add: adds_no_transfer_def give_def)

lemma counts_transfersD:
  assumes "counts_transfers api transfers"
  shows "adds_no_transfer transfers (q_connect api)" "adds_no_transfer transfers (q_get_account api name)"
    "adds_no_transfer transfers (q_create_account api name off)" "adds_no_transfer transfers (q_has_notes api n)"
    "adds_no_transfer transfers (q_reconcile api account p)" "adds_no_transfer transfers (change (q_set_amount api i c))"
    "adds_no_transfer transfers (q_commit api)"
    "transfers (snd (q_create_transfer api day src dst amt n b)) k \<le> transfers b k + (if k = n then 1 else 0)"
    "q_has_notes api n b = (Inr False, b1) \<Longrightarrow> transfers b n = 0"
  using assms unfolding counts_transfers_def by blast+

lemma get_or_create_adds_none:
  assumes "counts_transfers api transfers"
  shows "adds_no_transfer transfers (get_or_create_account api name off)"
  unfolding get_or_create_account_def
proof (rule adds_no_transfer_andthen)
  show "adds_no_transfer transfers (q_get_account api name)"
    by (rule counts_transfersD [OF assms])
  show "adds_no_transfer transfers
      (case found of
         Some a \<Rightarrow> give a
       | None \<Rightarrow> andthen (q_create_account api name off) (\<lambda>a. andthen (q_commit api) (\<lambda>_. give a)))" for found
    by (cases found) (simp_all add: adds_no_transfer_andthen counts_transfersD(3,7) [OF assms] adds_no_transfer_give)
qed

lemma import_one_adds_none:
  assumes "counts_transfers api transfers"
  shows "adds_no_transfer transfers (import_one api account p)"
  unfolding import_one_def by (intro adds_no_transfer_andthen counts_transfersD [OF assms])

lemma import_each_adds_none:
  assumes "counts_transfers api transfers"
  shows "transfers (snd (import_each api account ps b)) n \<le> transfers b n"
proof (induction ps arbitrary: b)
  case (Cons p ps)
  have "transfers (snd (import_one api account p b)) n \<le> transfers b n"
    using import_one_adds_none [OF assms] by (simp add: adds_no_transfer_def)
  then show ?case
    using Cons.IH [of "snd (import_one api account p b)"]
    by (auto split: prod.splits sum.splits)
qed simp

lemma import_adds_none:
  assumes "counts_transfers api transfers"
  shows "adds_no_transfer transfers (import_transactions_batch api account ps)"
  unfolding adds_no_transfer_def
proof (intro allI)
  fix b n
  obtain k b1 where e: "import_each api account ps b = (k, b1)"
    by fastforce
  have "adds_no_transfer transfers (andthen (q_commit api) (\<lambda>_. give k))"
    by (intro adds_no_transfer_andthen counts_transfersD [OF assms] adds_no_transfer_give)
  then have "transfers (snd (andthen (q_commit api) (\<lambda>_. give k) b1)) n \<le> transfers b1 n"
    by (simp add: adds_no_transfer_def)
  then show "transfers (snd (import_transactions_batch api account ps b)) n \<le> transfers b n"
    using import_each_adds_none [OF assms, of account ps b n] e by (simp add: import_transactions_batch_def)
qed

lemma create_transfer_single:
  assumes "counts_transfers api transfers"
  shows "triple (free_single transfers n) (create_transfer api day src dst amt n)
    (\<lambda>_. single transfers) (single transfers)"
  unfolding create_transfer_def
proof (rule triple_andthen)
  have "single transfers (snd (q_create_transfer api day src dst amt n b))" if "free_single transfers n b" for b
    unfolding single_def
  proof
    fix k
    show "transfers (snd (q_create_transfer api day src dst amt n b)) k \<le> 1"
      using counts_transfersD(8) [OF assms, of day src dst amt n b k] that
      by (cases "k = n") (auto simp: free_single_def single_def intro: le_trans)
  qed
  then show "triple (free_single transfers n) (q_create_transfer api day src dst amt n)
      (\<lambda>_. single transfers) (single transfers)"
    by (rule triple_state)
  show "triple (single transfers) (q_commit api) (\<lambda>_. single transfers) (single transfers)" for x :: unit
    by (rule adds_no_transfer_keeps(1) [OF counts_transfersD(7) [OF assms]])
qed

lemma has_notes_free:
  assumes "counts_transfers api transfers"
  shows "triple (single transfers) (q_has_notes api n)
    (\<lambda>known b. single transfers b \<and> (known \<or> free_single transfers n b)) (single transfers)"
proof (rule tripleI)
  fix b e b1
  assume "single transfers b" and "q_has_notes api n b = (Inl e, b1)"
  then show "single transfers b1"
    using adds_no_transfer_keeps(1) [OF counts_transfersD(4) [OF assms]] by (rule tripleD_raise [rotated])
next
  fix b known b1
  assume s: "single transfers b" and h: "q_has_notes api n b = (Inr known, b1)"
  have s1: "single transfers b1"
    using adds_no_transfer_keeps(1) [OF counts_transfersD(4) [OF assms]] s h by (rule tripleD_return)
  have "transfers b1 n = 0" if "\<not> known"
  proof -
    have "transfers b n = 0"
      using counts_transfersD(9) [OF assms] h that by simp
    moreover have "transfers b1 n \<le> transfers b n"
      using counts_transfersD(4) [OF assms, of n] h unfolding adds_no_transfer_def by (metis snd_conv)
    ultimately show ?thesis
      by simp
  qed
  then show "single transfers b1 \<and> (known \<or> free_single transfers n b1)"
    using s1 by (cases known) (simp_all add: free_single_def)
qed

lemma triple_on_budget:
  assumes "triple P m Q E"
  shows "triple (\<lambda>s. P (w_budget s)) (on_budget m) (\<lambda>x s. Q x (w_budget s)) (\<lambda>s. E (w_budget s))"
proof (rule tripleI)
  fix s e s1
  assume "P (w_budget s)" "on_budget m s = (Inl e, s1)"
  then show "E (w_budget s1)"
    using tripleD_raise [OF assms] by (cases "m (w_budget s)"; cases "fst (m (w_budget s))") (auto simp: on_budget_def)
next
  fix s x s1
  assume "P (w_budget s)" "on_budget m s = (Inr x, s1)"
  then show "Q x (w_budget s1)"
    using tripleD_return [OF assms] by (cases "m (w_budget s)"; cases "fst (m (w_budget s))") (auto simp: on_budget_def)
qed

definition once :: "('b \<Rightarrow> pystr \<Rightarrow> nat) \<Rightarrow> 'b ab_state \<Rightarrow> bool" where
  "once transfers s \<longleftrightarrow> single transfers (w_budget s)"

definition keeps_once :: "('b \<Rightarrow> pystr \<Rightarrow> nat) \<Rightarrow> ('x, 'b) ab_step \<Rightarrow> bool" where
  "keeps_once transfers m \<longleftrightarrow> triple (once transfers) m (\<lambda>_. once transfers) (once transfers)"

lemma keeps_once_budget:
  assumes "adds_no_transfer transfers m"
  shows "keeps_once transfers (on_budget m)"
  using triple_on_budget [OF adds_no_transfer_keeps(1) [OF assms]] by (simp add: keeps_once_def once_def [abs_def])

lemma keeps_once_andthen:
  "keeps_once transfers m \<Longrightarrow> (\<And>x. keeps_once transfers (k x)) \<Longrightarrow> keeps_once transfers (andthen m k)"
  unfolding keeps_once_def by (rule triple_andthen)

lemma keeps_once_change: "(\<And>s. w_budget (f s) = w_budget s) \<Longrightarrow> keeps_once transfers (change f)"
  unfolding keeps_once_def by (rule triple_change) (simp add: once_def)

lemma keeps_once_pure: "keeps_once transfers (give x)" "keeps_once transfers (raise e)"
  unfolding keeps_once_def by (simp_all add: triple_give triple_raise)

lemma keeps_once_each: "(\<And>x. x \<in> set xs \<Longrightarrow> keeps_once transfers (f x)) \<Longrightarrow> keeps_once transfers (each f xs)"
  unfolding keeps_once_def by (rule triple_each)

lemma keeps_once_counts: "keeps_once transfers (count_batch a e f)" "keeps_once transfers count_failed"
  "keeps_once transfers count_exported"
  unfolding count_batch_def count_failed_def count_exported_def by (simp_all add: keeps_once_change)

lemmas keeps_once_intros = keeps_once_andthen keeps_once_pure keeps_once_each keeps_once_counts

lemma export_transfer_once:
  assumes "counts_transfers api transfers"
  shows "keeps_once transfers (export_transfer api env acct t)"
proof -
  let ?n = "reference t"
  have search: "triple (once transfers) (on_budget (q_has_notes api ?n))
      (\<lambda>known s. single transfers (w_budget s) \<and> (known \<or> free_single transfers ?n (w_budget s))) (once transfers)"
    unfolding once_def [abs_def] by (rule triple_on_budget [OF has_notes_free [OF assms]])
  have known: "triple (\<lambda>s. single transfers (w_budget s) \<and> (True \<or> free_single transfers ?n (w_budget s)))
      (give True) (\<lambda>_. once transfers) (once transfers)"
    by (rule triple_give) (simp add: once_def)
  have account: "triple (\<lambda>s. free_single transfers ?n (w_budget s)) (on_budget (get_or_create_account api name off))
      (\<lambda>_ s. free_single transfers ?n (w_budget s)) (\<lambda>s. free_single transfers ?n (w_budget s))" for name off
    by (rule triple_on_budget [OF adds_no_transfer_keeps(2) [OF get_or_create_adds_none [OF assms]]])
  have transfer: "triple (\<lambda>s. free_single transfers ?n (w_budget s)) (on_budget (create_transfer api day src dst amt ?n))
      (\<lambda>_. once transfers) (once transfers)" for day src dst amt
    unfolding once_def [abs_def] by (rule triple_on_budget [OF create_transfer_single [OF assms]])
  have counted: "triple (once transfers)
      (andthen count_exported (\<lambda>_. give True)) (\<lambda>_. once transfers) (once transfers)"
    using keeps_once_andthen [OF keeps_once_counts(3) keeps_once_pure(1)] by (simp add: keeps_once_def)
  have unknown: "triple (\<lambda>s. free_single transfers ?n (w_budget s))
      (andthen (on_budget (get_or_create_account api name off)) (\<lambda>target.
        andthen (on_budget (create_transfer api day (src target) (dst target) amt ?n))
          (\<lambda>_. andthen count_exported (\<lambda>_. give True))))
      (\<lambda>_. once transfers) (once transfers)" for name off day src dst amt
  proof (rule triple_andthen)
    show "triple (\<lambda>s. free_single transfers ?n (w_budget s)) (on_budget (get_or_create_account api name off))
        (\<lambda>_ s. free_single transfers ?n (w_budget s)) (once transfers)"
      by (rule triple_weaken [OF account]) (simp_all add: once_def free_single_def)
  qed (rule triple_andthen [OF transfer counted])
  show ?thesis
  proof (cases "truthy (transfer_destination env t)")
    case False
    then show ?thesis
      unfolding export_transfer_def Let_def by (simp add: keeps_once_intros)
  next
    case True
    have "triple (\<lambda>s. single transfers (w_budget s) \<and> (hit \<or> free_single transfers ?n (w_budget s)))
        (if hit then give True
         else andthen (on_budget (get_or_create_account api name off)) (\<lambda>target.
           andthen (on_budget (create_transfer api day (src target) (dst target) amt ?n))
             (\<lambda>_. andthen count_exported (\<lambda>_. give True))))
        (\<lambda>_. once transfers) (once transfers)" for hit name off day src dst amt
    proof (cases hit)
      case False
      show ?thesis
        unfolding if_not_P [OF False] by (rule triple_weaken [OF unknown]) (use False in simp_all)
    qed (use known in simp)
    then show ?thesis
      unfolding export_transfer_def Let_def keeps_once_def using True
      by (simp only: not_True_eq_False if_False) (rule triple_andthen [OF search])
  qed
qed

lemma export_transfers_once:
  assumes "counts_transfers api transfers"
  shows "keeps_once transfers (export_transfers api env acct ts delivered)"
  by (induction ts arbitrary: delivered)
    (simp_all add: keeps_once_intros export_transfer_once [OF assms])

lemma export_pending_once:
  assumes "counts_transfers api transfers"
  shows "keeps_once transfers (export_pending api env acct ab ts)"
  unfolding export_pending_def Let_def
  by (cases "mapped_payloads env ab ts")
    (simp_all add: keeps_once_intros keeps_once_change export_transfers_once [OF assms]
      keeps_once_budget [OF import_adds_none [OF assms]])

lemma keeps_once_read:
  assumes "\<And>s. m s = n s s" "\<And>s. keeps_once transfers (n s)"
  shows "keeps_once transfers m"
  unfolding keeps_once_def
proof (rule tripleI)
  fix s e s1
  assume "once transfers s" "m s = (Inl e, s1)"
  then show "once transfers s1"
    using tripleD_raise [OF assms(2) [of s, unfolded keeps_once_def]] assms(1) by simp
next
  fix s x s1
  assume "once transfers s" "m s = (Inr x, s1)"
  then show "once transfers s1"
    using tripleD_return [OF assms(2) [of s, unfolded keeps_once_def]] assms(1) by simp
qed

lemma resolve_once:
  assumes "counts_transfers api transfers"
  shows "keeps_once transfers (resolve_ab_account api env acct)"
proof -
  have known: "keeps_once transfers (case m of None \<Rightarrow> give None | Some m \<Rightarrow> on_budget (q_get_account api (map_ab_name m)))" for m
    by (cases m) (simp_all add: keeps_once_pure keeps_once_budget counts_transfersD(2) [OF assms])
  have "keeps_once transfers (case known of
      Some a \<Rightarrow> give a
    | None \<Rightarrow>
        andthen (on_budget (get_or_create_account api name off))
          (\<lambda>a. andthen (change (\<lambda>s. s\<lparr>w_mappings := save_mapping env (acc_id acct) a (w_mappings s)\<rparr>)) (\<lambda>_. give a)))"
    for known name off
    by (cases known)
      (simp_all add: keeps_once_pure keeps_once_andthen keeps_once_change keeps_once_budget get_or_create_adds_none [OF assms])
  then show ?thesis
    by (rule keeps_once_read [OF resolve_ab_account_def keeps_once_andthen [OF known]])
qed

lemma export_body_once:
  assumes "counts_transfers api transfers"
  shows "keeps_once transfers (export_body api env)"
proof -
  have "triple (once transfers)
      (\<lambda>s. case q_connect api (w_budget s) of (r, b) \<Rightarrow> (map_sum Connection_failed id r, s\<lparr>w_budget := b\<rparr>))
      (\<lambda>_. once transfers) (once transfers)"
    using triple_stateD [OF adds_no_transfer_keeps(1) [OF counts_transfersD(1) [OF assms]]]
    by (intro triple_state) (simp add: once_def case_prod_beta)
  moreover have "keeps_once transfers (export_account_step api env acct)" for acct
    unfolding export_account_step_def Let_def
    by (simp add: keeps_once_andthen keeps_once_change keeps_once_pure resolve_once [OF assms] export_pending_once [OF assms])
  moreover have "keeps_once transfers (write_csv env)"
    unfolding write_csv_def by (auto simp: keeps_once_pure split: option.split)
  ultimately show ?thesis
    unfolding export_body_def
    by (intro keeps_once_andthen keeps_once_each) (simp_all add: keeps_once_def)
qed

definition run_actual_exports :: "'b actual_api \<Rightarrow> ab_env list \<Rightarrow> 'b ab_world \<Rightarrow> 'b ab_world" where
  "run_actual_exports api envs w = fold (\<lambda>env w. snd (run_actual_export api env w)) envs w"

lemma run_actual_export_once:
  assumes "counts_transfers api transfers" "single transfers (a_budget w)"
  shows "single transfers (a_budget (snd (run_actual_export api env w)))"
proof -
  let ?s = "\<lparr>w_budget = a_budget w, w_mappings = a_mappings w, w_deliveries = a_deliveries w,
    w_mapped = 0, w_attempted = 0, w_exported = 0, w_failed = 0\<rparr>"
  have "once transfers (snd (export_body api env ?s))"
    using triple_stateD [OF export_body_once [OF assms(1), unfolded keeps_once_def]] assms(2) by (simp add: once_def)
  moreover have "a_budget (snd (run_actual_export api env w)) = w_budget (snd (export_body api env ?s))"
    by (simp add: run_actual_export_def Let_def split: prod.split sum.split)
  ultimately show ?thesis
    by (simp add: once_def)
qed

text \<open>
  C30. However many exports run, with whatever accounts, windows and configurations, and wherever they
  fail, no transfer of the program is in the budget twice.
\<close>

theorem transfers_exported_once:
  assumes "counts_transfers api transfers" "single transfers (a_budget w)"
  shows "single transfers (a_budget (run_actual_exports api envs w))"
  using assms(2) unfolding run_actual_exports_def
  by (induction envs arbitrary: w) (simp_all add: run_actual_export_once [OF assms(1)])

subsection \<open>Completeness of transfers\<close>

text \<open>
  The other half of the contract: looking up or creating an account, committing and writing a transfer
  remove no transfer, a transfer that was written is in the budget, and the search by notes finds nothing
  that is not there. About imports nothing is assumed.
\<close>

definition removes_none :: "('s \<Rightarrow> pystr \<Rightarrow> nat) \<Rightarrow> ('e, 'x, 's) run \<Rightarrow> bool" where
  "removes_none transfers m \<longleftrightarrow> (\<forall>s n. transfers s n \<le> transfers (snd (m s)) n)"







lemma removes_none_read:
  "(\<And>s. m s = n s s) \<Longrightarrow> (\<And>s. removes_none transfers (n s)) \<Longrightarrow> removes_none transfers m"
  by (simp add: removes_none_def)













subsection \<open>Accounting\<close>

definition tally :: "nat \<Rightarrow> nat \<Rightarrow> nat \<Rightarrow> 'b ab_state \<Rightarrow> bool" where
  "tally a e k s \<longleftrightarrow> w_attempted s = a \<and> w_exported s + w_failed s \<le> e \<and> w_mapped s = k"

definition counts :: "'b ab_state \<Rightarrow> nat \<times> nat \<times> nat \<times> nat" where
  "counts s = (w_attempted s, w_exported s, w_failed s, w_mapped s)"

lemma triple_quiet_tally: "quiet counts m \<Longrightarrow> triple (tally a e k) m (\<lambda>_. tally a e k) (\<lambda>_. True)"
  using triple_weaken [OF quiet_triple [of counts m "\<lambda>(a', x, f, k'). a' = a \<and> x + f \<le> e \<and> k' = k"],
      where P' = "tally a e k" and Q' = "\<lambda>_. tally a e k" and E' = "\<lambda>_. True"]
  by (simp add: counts_def tally_def)

lemma quiet_on_budget: "quiet counts (on_budget m)"
  by (simp add: quiet_def counts_def on_budget_def case_prod_beta)

lemma triple_count:
  "triple (tally a e k) count_failed (\<lambda>_. tally a (Suc e) k) (\<lambda>_. True)"
  "triple (tally a e k) count_exported (\<lambda>_. tally a (Suc e) k) (\<lambda>_. True)"
  unfolding count_failed_def count_exported_def by (rule triple_change, simp add: tally_def)+

lemma tally_more: "tally a e k s \<Longrightarrow> e \<le> e' \<Longrightarrow> tally a e' k s"
  by (simp add: tally_def)

lemma triple_then_give: "triple P m (\<lambda>_. Q) E \<Longrightarrow> triple P (andthen m (\<lambda>_. give x)) (\<lambda>_. Q) E"
  by (erule triple_andthen) (rule triple_give')

lemma export_transfer_tally:
  "triple (tally a e k) (export_transfer api env acct t) (\<lambda>_. tally a (Suc e) k) (\<lambda>_. True)"
proof -
  have budget: "triple (tally a e k) (on_budget m) (\<lambda>_. tally a e k) (\<lambda>_. True)" for m :: "(pystr, 'x, 'b) run"
    by (rule triple_quiet_tally [OF quiet_on_budget])
  have known: "triple (tally a e k) (give True) (\<lambda>_. tally a (Suc e) k) (\<lambda>_. True)"
    by (rule triple_give) (simp add: tally_def)
  show ?thesis
    unfolding export_transfer_def Let_def
    by (intro triple_if triple_then_give triple_count known triple_andthen [OF budget])
qed

lemma export_transfers_tally:
  "triple (tally a e k) (export_transfers api env acct ts delivered) (\<lambda>_. tally a (e + length ts) k) (\<lambda>_. True)"
proof (induction ts arbitrary: e delivered)
  case Nil
  show ?case
    by (simp add: triple_give)
next
  case (Cons t ts)
  have "triple (tally a (Suc e) k) (export_transfers api env acct ts d) (\<lambda>_. tally a (e + length (t # ts)) k) (\<lambda>_. True)"
    for d
    using Cons.IH [of "Suc e" d] by simp
  then show ?case
    unfolding export_transfers.simps by (intro triple_andthen [OF export_transfer_tally])
qed

lemma import_each_length: "fst (import_each api account ps b) \<le> length ps"
proof (induction ps arbitrary: b)
  case (Cons p ps)
  obtain r b1 where "import_one api account p b = (r, b1)"
    by fastforce
  then show ?case
    using Cons.IH [of b1] by (cases r) (simp_all add: le_SucI)
qed simp

lemma import_tally:
  "triple (tally a e k) (on_budget (import_transactions_batch api account ps))
    (\<lambda>n s. tally a e k s \<and> n \<le> length ps) (\<lambda>_. True)"
proof (rule tripleI)
  fix s n s1
  assume t: "tally a e k s" and r: "on_budget (import_transactions_batch api account ps) s = (Inr n, s1)"
  have "tally a e k s1"
    using tripleD_return [OF triple_quiet_tally [OF quiet_on_budget] t r] .
  moreover have "n \<le> length ps"
    using r import_each_length [of api account ps "w_budget s"]
    by (auto simp: on_budget_def import_transactions_batch_def andthen_def give_def split: prod.splits sum.splits)
  ultimately show "tally a e k s1 \<and> n \<le> length ps" ..
qed simp

text \<open>What an account adds to the attempted transactions.\<close>

definition attempted_of :: "ab_env \<Rightarrow> export_account \<Rightarrow> nat" where
  "attempted_of env acct =
     (let ts = fetch_pending_transactions env (acc_id acct)
      in length (capped (e_max_transactions env) (filter (\<lambda>t. route_of env t = As_import) ts)) +
         length (filter (\<lambda>t. route_of env t = As_transfer) ts))"

lemma length_capped_map: "length (capped limit (map f xs)) = length (capped limit xs)"
  by (simp add: capped_def split: option.split)

lemma those_length: "those xs = Some ys \<Longrightarrow> length ys = length xs"
  by (induction xs arbitrary: ys) (auto split: option.splits)

lemma length_mapped_payloads:
  assumes "mapped_payloads env ab ts = Some all"
  shows "length (capped limit all) = length (capped limit (filter (\<lambda>t. route_of env t = As_import) ts))"
  using those_length [OF assms [unfolded mapped_payloads_def]] by (simp add: capped_def split: option.split)

lemma triple_count_batch:
  assumes "x + f \<le> y"
  shows "triple (tally a e k) (count_batch n x f) (\<lambda>_. tally (a + n) (e + y) k) (\<lambda>_. True)"
  unfolding count_batch_def using assms by (intro triple_change) (simp add: tally_def)

lemma export_pending_tally:
  defines "added ts env \<equiv> length (capped (e_max_transactions env) (filter (\<lambda>t. route_of env t = As_import) ts)) +
         length (filter (\<lambda>t. route_of env t = As_transfer) ts)"
  shows "triple (tally a e k) (export_pending api env acct ab ts)
    (\<lambda>_. tally (a + added ts env) (e + added ts env) k) (\<lambda>_. True)"
proof (cases "mapped_payloads env ab ts")
  case None
  then show ?thesis
    by (simp add: export_pending_def triple_raise)
next
  case (Some all)
  let ?mapped = "capped (e_max_transactions env) all"
  let ?transfers = "filter (\<lambda>t. route_of env t = As_transfer) ts"
  let ?m = "length ?mapped" and ?t = "length ?transfers"
  have added: "added ts env = ?m + ?t"
    by (simp add: added_def length_mapped_payloads [OF Some])
  have 1: "triple (tally a e k) (count_batch ?m 0 0) (\<lambda>_. tally (a + ?m) e k) (\<lambda>_. True)"
    using triple_count_batch [of 0 0 0] by simp
  have 2: "triple (tally (a + ?m) (e + ?t) k) (count_batch ?t 0 0) (\<lambda>_. tally (a + ?m + ?t) (e + ?t) k) (\<lambda>_. True)"
    using triple_count_batch [of 0 0 0] by simp
  have 3: "triple (\<lambda>s. tally (a + ?m + ?t) (e + ?t) k s \<and> n \<le> ?m) (count_batch 0 n (?m - n))
      (\<lambda>_. tally (a + (?m + ?t)) (e + (?m + ?t)) k) (\<lambda>_. True)" for n
    unfolding count_batch_def by (rule triple_change) (auto simp: tally_def)
  have 4: "triple (tally a' e' k) (change (\<lambda>s. s\<lparr>w_deliveries := f (w_deliveries s)\<rparr>)) (\<lambda>_. tally a' e' k) (\<lambda>_. True)"
    for a' e' and f :: "ab_delivery list \<Rightarrow> ab_delivery list"
    by (rule triple_change) (simp add: tally_def)
  show ?thesis
    unfolding added export_pending_def Some option.case Let_def
    by (intro triple_andthen [OF 1] triple_andthen [OF export_transfers_tally] triple_andthen [OF 2]
        triple_andthen [OF import_tally] triple_andthen [OF 3] 4)
qed

lemma quiet_resolve: "quiet counts (resolve_ab_account api env acct)"
proof -
  have known: "quiet counts (case m of None \<Rightarrow> give None | Some m \<Rightarrow> on_budget (q_get_account api (map_ab_name m)))" for m
    by (cases m) (simp_all add: quiet_pure quiet_on_budget)
  have "quiet counts (case known of
      Some a \<Rightarrow> give a
    | None \<Rightarrow>
        andthen (on_budget (get_or_create_account api name off))
          (\<lambda>a. andthen (change (\<lambda>s. s\<lparr>w_mappings := save_mapping env (acc_id acct) a (w_mappings s)\<rparr>)) (\<lambda>_. give a)))"
    for known name off
    by (cases known) (auto simp: counts_def quiet_pure quiet_on_budget intro!: quiet_andthen quiet_change)
  then show ?thesis
    by (rule quiet_read [OF resolve_ab_account_def quiet_andthen [OF known]])
qed

lemma export_account_tally:
  "triple (tally a e k) (export_account_step api env acct)
    (\<lambda>_. tally (a + attempted_of env acct) (e + attempted_of env acct) (Suc k)) (\<lambda>_. True)"
proof -
  have mapped: "triple (tally a e k) (change (\<lambda>s. s\<lparr>w_mapped := w_mapped s + 1\<rparr>)) (\<lambda>_. tally a e (Suc k)) (\<lambda>_. True)"
    by (rule triple_change) (simp add: tally_def)
  have "triple (tally a e (Suc k))
      (if ts = [] then give () else export_pending api env acct ab ts)
      (\<lambda>_. tally (a + attempted_of env acct) (e + attempted_of env acct) (Suc k)) (\<lambda>_. True)"
    if "ts = fetch_pending_transactions env (acc_id acct)" for ab ts
  proof (cases "ts = []")
    case True
    then show ?thesis
      using that by (simp add: attempted_of_def Let_def capped_def triple_give split: option.split)
  next
    case False
    then show ?thesis
      using export_pending_tally [of a e "Suc k" api env acct ab ts] that by (simp add: attempted_of_def Let_def)
  qed
  then show ?thesis
    unfolding export_account_step_def Let_def
    by (intro triple_andthen [OF triple_quiet_tally [OF quiet_resolve]] triple_andthen [OF mapped]) blast
qed

lemma export_accounts_tally:
  "triple (tally a e k) (each (export_account_step api env) accts)
    (\<lambda>_. tally (a + sum_list (map (attempted_of env) accts)) (e + sum_list (map (attempted_of env) accts)) (k + length accts))
    (\<lambda>_. True)"
proof (induction accts arbitrary: a e k)
  case Nil
  show ?case
    by (simp add: triple_give)
next
  case (Cons acct accts)
  show ?case
    unfolding each.simps
    using triple_andthen [OF export_account_tally Cons.IH, of a e k api env acct] by (simp add: add.assoc)
qed

lemma export_body_tally:
  "triple (tally 0 0 0) (export_body api env)
    (\<lambda>_. tally (sum_list (map (attempted_of env) (load_accounts env))) (sum_list (map (attempted_of env) (load_accounts env)))
      (length (load_accounts env))) (\<lambda>_. True)"
proof -
  let ?n = "sum_list (map (attempted_of env) (load_accounts env))" and ?k = "length (load_accounts env)"
  have connect: "triple (tally 0 0 0)
      (\<lambda>s. case q_connect api (w_budget s) of (r, b) \<Rightarrow> (map_sum Connection_failed id r, s\<lparr>w_budget := b\<rparr>))
      (\<lambda>_. tally 0 0 0) (\<lambda>_. True)"
    by (rule triple_quiet_tally) (simp add: quiet_def counts_def case_prod_beta)
  have csv: "triple (tally ?n ?n ?k) (write_csv env) (\<lambda>_. tally ?n ?n ?k) (\<lambda>_. True)"
    by (rule triple_quiet_tally) (auto simp: write_csv_def quiet_pure split: option.split)
  show ?thesis
    unfolding export_body_def
    by (intro triple_andthen [OF connect] triple_andthen [OF export_accounts_tally [of 0 0 0, simplified]] csv)
qed

text \<open>
  A run leaves one more row. The counters of a completed run: every eligible account is mapped, the
  attempted transactions are those routed to an import (up to the limit) or to a transfer, and no more of
  them are counted as exported or failed. A failed run has an error, and leaves mappings and cursors as
  they were.
\<close>

lemma export_run_accounts:
  assumes "run_actual_export api env w = ((r, mapped), w')"
  shows "a_runs w' = a_runs w @ [r] \<and> xr_id r = e_run_id env \<and> xr_completed r = Some (e_end env) \<and>
    (if xr_error r = None
     then xr_status r = ''completed'' \<and> mapped = length (load_accounts env) \<and>
       xr_attempted r = (\<Sum>a \<leftarrow> load_accounts env. attempted_of env a) \<and> xr_exported r + xr_failed r \<le> xr_attempted r
     else xr_status r = ''failed'' \<and> a_mappings w' = a_mappings w \<and> a_deliveries w' = a_deliveries w)"
proof -
  define s0 where "s0 = \<lparr>w_budget = a_budget w, w_mappings = a_mappings w, w_deliveries = a_deliveries w,
    w_mapped = 0, w_attempted = 0, w_exported = 0, w_failed = 0\<rparr>"
  have t: "tally 0 0 0 s0"
    by (simp add: tally_def s0_def)
  obtain res s1 where b: "export_body api env s0 = (res, s1)"
    by fastforce
  show ?thesis
  proof (cases res)
    case (Inl e)
    then have "r = ended_run env (Some e) s1" "a_runs w' = a_runs w @ [r]" "a_mappings w' = a_mappings w"
        "a_deliveries w' = a_deliveries w"
      using assms b unfolding run_actual_export_def s0_def [symmetric] by (auto simp: Let_def)
    then show ?thesis
      by (cases e) (simp_all add: ended_run_def new_export_run_def)
  next
    case (Inr u)
    then have "r = ended_run env None s1" "a_runs w' = a_runs w @ [r]" "mapped = w_mapped s1"
      using assms b unfolding run_actual_export_def s0_def [symmetric] by (auto simp: Let_def)
    then show ?thesis
      using tripleD_return [OF export_body_tally t b [unfolded Inr]]
      by (simp add: ended_run_def new_export_run_def tally_def)
  qed
qed

subsection \<open>A budget\<close>

text \<open>A budget with accounts, transfers and imported rows, on which the laws hold.\<close>

record toy_budget =
  toy_accounts :: "pystr list"
  toy_transfers :: "pystr list"
  toy_rows :: "(pystr \<times> int) list"

definition toy_api :: "toy_budget actual_api" where
  "toy_api =
     \<lparr>q_connect = give (),
      q_get_account = \<lambda>n b. (Inr (if n \<in> set (toy_accounts b) then Some \<lparr>ab_id = n, ab_name = n\<rparr> else None), b),
      q_create_account = \<lambda>n off b. (Inr \<lparr>ab_id = n, ab_name = n\<rparr>, b\<lparr>toy_accounts := toy_accounts b @ [n]\<rparr>),
      q_has_notes = \<lambda>n b. (Inr (n \<in> set (toy_transfers b)), b),
      q_create_transfer = \<lambda>day src dst amt n b. (Inr (), b\<lparr>toy_transfers := toy_transfers b @ [n]\<rparr>),
      q_reconcile = \<lambda>account p b.
        (if pl_payee p = ''refused'' then (Inl ''refused'', b)
         else (Inr (pl_imported_id p), b\<lparr>toy_rows := AList.update (pl_imported_id p) 0 (toy_rows b)\<rparr>)),
      q_set_amount = \<lambda>i c b. b\<lparr>toy_rows := AList.update i c (toy_rows b)\<rparr>,
      q_commit = give (),
      decimal_to_cents = \<lambda>n. case n of Whole k \<Rightarrow> 100 * k | Exact d \<Rightarrow> if dexp d = - 2 then dcoeff d else 0\<rparr>"

definition toy_count :: "toy_budget \<Rightarrow> pystr \<Rightarrow> nat" where
  "toy_count b n = count_list (toy_transfers b) n"

lemma toy_converts: "converts_units toy_api"
  by (simp add: converts_units_def toy_api_def)

lemma toy_counts: "counts_transfers toy_api toy_count"
  by (auto simp: counts_transfers_def adds_no_transfer_def toy_api_def toy_count_def give_def change_def count_list_0_iff)

definition sample_account :: "pystr \<Rightarrow> pystr \<Rightarrow> export_account" where
  "sample_account i kind =
     \<lparr>acc_id = i, acc_tenant = ''t'', acc_provider = ''bunq'', acc_type = kind, acc_name = i, acc_active = True, acc_iban = None\<rparr>"

definition sample_payment :: "pystr \<Rightarrow> pystr \<Rightarrow> pystr \<Rightarrow> int \<Rightarrow> export_txn" where
  "sample_payment i account kind c =
     \<lparr>x_id = i, x_tenant = ''t'', x_account = account, x_provider = ''bunq'', x_external = i, x_type = kind, x_status = ''booked'',
      x_export_status = ''active'', x_amount = Dec c (- 2), x_currency = ''EUR'', x_occurred = 1000, x_description = None,
      x_counterparty = Some ''NL01'', x_metadata = [], x_merchant = None, x_mcc = None, x_original_type = None,
      x_base_amount = None, x_base_currency = None, x_fx_rate = None, x_security = None, x_fingerprint = None,
      x_override = None, x_suggestion = None, x_bucket = None\<rparr>"

definition sample_export :: "pystr list \<Rightarrow> export_txn list \<Rightarrow> ab_env" where
  "sample_export ids ts =
     \<lparr>e_tenant = ''t'', e_target = ''ab'', e_since = 0, e_account_ids = ids, e_max_transactions = None, e_account_names = [],
      e_transfer_names = [(''NL01'', ''savings'')], e_off_budget = False,
      e_accounts = [sample_account ''main'' ''checking'', sample_account ''stocks'' ''investment''], e_txns = ts,
      e_run_id = ''r'', e_start = 0, e_end = 9, e_csv = None\<rparr>"

definition sample_export_world :: "toy_budget ab_world" where
  "sample_export_world =
     \<lparr>a_budget = \<lparr>toy_accounts = [], toy_transfers = [], toy_rows = []\<rparr>, a_mappings = [], a_deliveries = [], a_runs = []\<rparr>"

definition sample_txns :: "export_txn list" where
  "sample_txns = [sample_payment ''1'' ''main'' ''transfer'' (- 500), sample_payment ''2'' ''main'' ''payment'' 1234]"

lemma transfers_exported_once_witness:
  "toy_count (a_budget (run_actual_exports toy_api [sample_export [] sample_txns, sample_export [] sample_txns] sample_export_world))
    ''finance-sync:1'' \<le> 1"
proof -
  have "single toy_count (a_budget sample_export_world)"
    by (simp add: single_def toy_count_def sample_export_world_def)
  then show ?thesis
    using transfers_exported_once [OF toy_counts] by (simp add: single_def)
qed



subsection \<open>What the exporter does not do\<close>

text \<open>A remainder that is exported as a transfer to the inbox has no destination when it is written.\<close>

lemma remainder_never_exported:
  assumes "x_type t = ''transfer''" "\<not> dlt D0 (x_amount t)"
    and op: "map_of (x_metadata t) ''easy_budgeting_operation'' = Some (PStr ''remainder'')"
    and "account_named env ''inbox'' = Some n" "n \<noteq> []"
    and "e_transfer_names env = []" "find_easy_budgeting_peer env t = None" "\<And>i. account_names_by_iban env i = None"
  shows "route_of env t = As_transfer \<and> transfer_destination env t = None"
  using assms by (simp add: route_of_def planned_destination_def transfer_destination_def meta_text_def py_str_def
      or_else_def dict_get_def Let_def)

text \<open>The CSV file lists the investment accounts the caller names, which the export leaves out.\<close>

lemma csv_lists_investment_accounts:
  defines "env \<equiv> sample_export [''main'', ''stocks''] [sample_payment ''3'' ''stocks'' ''purchase'' (- 100)]"
  shows "map acc_id (load_accounts env) = [''main''] \<and> map x_id (csv_transactions env) = [''3'']"
  unfolding env_def by code_simp

text \<open>After a failed import the delivery cursor names it, not the transaction that went through.\<close>

lemma cursor_names_failed_import:
  defines "env \<equiv> sample_export []
    [(sample_payment ''1'' ''main'' ''payment'' 100)\<lparr>x_merchant := Some ''refused''\<rparr>, sample_payment ''2'' ''main'' ''payment'' 200]"
  shows "(case snd (run_actual_export toy_api env sample_export_world) of
      w \<Rightarrow> map del_last_id (a_deliveries w) = [''1''] \<and> map fst (toy_rows (a_budget w)) = [''fs_2''])"
  unfolding env_def by code_simp

end
