(* ===== verification/Security_Master.thy ===== *)
theory Security_Master
  imports Py_Json Py_Steps
begin

text \<open>
  The instrument master and the queue of unresolved instruments
  (\<^verbatim>\<open>models/security.py\<close>, \<^verbatim>\<open>models/security_listing.py\<close>,
  \<^verbatim>\<open>models/unresolved_security.py\<close>, \<^verbatim>\<open>models/resolution_audit_log.py\<close>) as a database
  session sees them. Objects of the session are changed in memory; before every query and at every
  flush the session writes them, and the database refuses rows that break a key, a reference or the
  width of a column. A session is \<open>clean\<close> when its rows would all be accepted.
\<close>

record security =
  sec_id :: pystr
  sec_isin :: "pystr option"
  sec_figi :: "pystr option"
  sec_cusip :: "pystr option"
  sec_ticker :: "pystr option"
  sec_name :: pystr
  sec_type :: pystr
  sec_currency :: pystr

record listing =
  ls_security :: pystr
  ls_mic :: pystr
  ls_exchange :: "pystr option"
  ls_ticker :: pystr
  ls_currency :: pystr
  ls_primary :: bool

record queued =
  uq_id :: pystr
  uq_tenant :: "pystr option"
  uq_provider :: pystr
  uq_external :: pystr
  uq_isin :: "pystr option"
  uq_figi :: "pystr option"
  uq_ticker :: "pystr option"
  uq_name :: "pystr option"
  uq_currency :: "pystr option"
  uq_metadata :: "pystr option"
  uq_resolved :: "pystr option"
  uq_method :: "pystr option"
  uq_notes :: "pystr option"

record identity_audit =
  ra_tenant :: "pystr option"
  ra_unresolved :: "pystr option"
  ra_source :: "pystr option"
  ra_target :: pystr
  ra_method :: pystr
  ra_confidence :: pystr
  ra_principal :: pystr
  ra_at :: instant
  ra_detail :: "pystr option"

text \<open>\<open>drawn\<close> counts the identifiers that \<^verbatim>\<open>uuid4\<close> has made.\<close>

record master =
  securities :: "security list"
  listings :: "listing list"
  queue :: "queued list"
  audits :: "identity_audit list"
  drawn :: nat

subsection \<open>Constraints\<close>

definition width :: "nat \<Rightarrow> pystr option \<Rightarrow> bool" where
  "width n v \<longleftrightarrow> (case v of None \<Rightarrow> True | Some s \<Rightarrow> length s \<le> n)"

text \<open>A unique constraint over a column that may be null.\<close>

definition unique :: "('r \<Rightarrow> 'k option) \<Rightarrow> 'r list \<Rightarrow> bool" where
  "unique column rows \<longleftrightarrow> distinct (List.map_filter column rows)"

text \<open>A foreign key that may be null.\<close>

definition refers :: "pystr set \<Rightarrow> pystr option \<Rightarrow> bool" where
  "refers ids v \<longleftrightarrow> (case v of None \<Rightarrow> True | Some i \<Rightarrow> i \<in> ids)"

definition security_fits :: "security \<Rightarrow> bool" where
  "security_fits x \<longleftrightarrow> width 12 (sec_isin x) \<and> width 12 (sec_figi x) \<and> width 9 (sec_cusip x) \<and>
     width 32 (sec_ticker x) \<and> length (sec_name x) \<le> 512 \<and> length (sec_type x) \<le> 64 \<and> length (sec_currency x) \<le> 3"

definition securities_ok :: "security list \<Rightarrow> bool" where
  "securities_ok xs \<longleftrightarrow> list_all security_fits xs \<and> distinct (map sec_id xs) \<and>
     unique sec_isin xs \<and> unique sec_figi xs \<and> unique sec_cusip xs"

definition listing_fits :: "listing \<Rightarrow> bool" where
  "listing_fits l \<longleftrightarrow> length (ls_mic l) \<le> 4 \<and> width 128 (ls_exchange l) \<and> length (ls_ticker l) \<le> 32 \<and>
     length (ls_currency l) \<le> 3"

definition listing_key :: "listing \<Rightarrow> pystr \<times> pystr \<times> pystr" where
  "listing_key l = (ls_security l, ls_mic l, ls_currency l)"

definition listings_ok :: "pystr set \<Rightarrow> listing list \<Rightarrow> bool" where
  "listings_ok ids ls \<longleftrightarrow> list_all listing_fits ls \<and> distinct (map listing_key ls) \<and> ls_security ` set ls \<subseteq> ids"

definition queued_fits :: "queued \<Rightarrow> bool" where
  "queued_fits u \<longleftrightarrow> uq_tenant u \<noteq> None \<and> length (uq_provider u) \<le> 64 \<and> length (uq_external u) \<le> 256 \<and>
     width 12 (uq_isin u) \<and> width 16 (uq_figi u) \<and> width 64 (uq_ticker u) \<and> width 3 (uq_currency u) \<and>
     width 32 (uq_method u)"

definition queue_key :: "queued \<Rightarrow> pystr option \<times> pystr \<times> pystr" where
  "queue_key u = (uq_tenant u, uq_provider u, uq_external u)"

definition queue_ok :: "pystr set \<Rightarrow> queued list \<Rightarrow> bool" where
  "queue_ok ids us \<longleftrightarrow> list_all queued_fits us \<and> distinct (map uq_id us) \<and> distinct (map queue_key us) \<and>
     list_all (\<lambda>u. refers ids (uq_resolved u)) us"

definition audit_fits :: "identity_audit \<Rightarrow> bool" where
  "audit_fits a \<longleftrightarrow> width 64 (ra_source a) \<and> length (ra_method a) \<le> 32 \<and> length (ra_confidence a) \<le> 16 \<and>
     length (ra_principal a) \<le> 128"

definition audits_ok :: "pystr set \<Rightarrow> pystr set \<Rightarrow> identity_audit list \<Rightarrow> bool" where
  "audits_ok ids uqs es \<longleftrightarrow> list_all audit_fits es \<and>
     list_all (\<lambda>e. ra_target e \<in> ids \<and> refers uqs (ra_unresolved e)) es"

definition security_ids :: "master \<Rightarrow> pystr set" where
  "security_ids s = set (map sec_id (securities s))"

definition clean :: "master \<Rightarrow> bool" where
  "clean s \<longleftrightarrow> securities_ok (securities s) \<and> listings_ok (security_ids s) (listings s) \<and>
     queue_ok (security_ids s) (queue s) \<and> audits_ok (security_ids s) (set (map uq_id (queue s))) (audits s)"

subsection \<open>The session\<close>

datatype store_error = Refused | Not_text

type_synonym 'x master_step = "(store_error, 'x, master) run"

definition flush :: "unit master_step" where
  "flush s = (if clean s then (Inr (), s) else (Inl Refused, s))"

text \<open>A query writes the session first, then reads.\<close>

definition query :: "(master \<Rightarrow> 'x) \<Rightarrow> 'x master_step" where
  "query f = andthen flush (\<lambda>_ s. (Inr (f s), s))"

definition add_row :: "(master \<Rightarrow> master) \<Rightarrow> unit master_step" where
  "add_row f = andthen (change f) (\<lambda>_. flush)"

definition security_by_id :: "pystr \<Rightarrow> master \<Rightarrow> security option" where
  "security_by_id i s = find (\<lambda>x. sec_id x = i) (securities s)"

text \<open>\<^verbatim>\<open>LIKE\<close> with the backslash as the escape character.\<close>

fun like :: "pystr \<Rightarrow> pystr \<Rightarrow> bool" where
  "like [] s \<longleftrightarrow> s = []"
| "like (p # ps) s \<longleftrightarrow>
     (if p = CHR ''%'' then like ps s \<or> (case s of [] \<Rightarrow> False | _ # t \<Rightarrow> like (p # ps) t)
      else if p = CHR 0x5C
      then (case (ps, s) of (q # qs, c # t) \<Rightarrow> c = q \<and> like qs t | _ \<Rightarrow> False)
      else (case s of [] \<Rightarrow> False | c # t \<Rightarrow> (p = CHR ''_'' \<or> p = c) \<and> like ps t))"

end
