(* ===== verification/Security_Resolution.thy ===== *)
theory Security_Resolution
  imports Security_Master
begin

text \<open>
  How a sync finds the instrument a provider means (\<^verbatim>\<open>SecurityPersistence\<close> of
  \<^verbatim>\<open>sync/persistence.py\<close>). A reference is the provider's description of an instrument; the tenant
  and the identifiers that \<^verbatim>\<open>uuid4\<close> makes are given by the environment. An object of the session
  is its row; an object that the code returns is the row at that moment.
\<close>

record security_reference =
  r_external :: "pystr option"
  r_isin :: "pystr option"
  r_figi :: "pystr option"
  r_ticker :: "pystr option"
  r_name :: "pystr option"
  r_venue :: "pystr option"
  r_currency :: "pystr option"
  r_type :: "pystr option"
  r_metadata :: "(pystr \<times> pyval) list option"

record master_env =
  me_tenant :: pystr
  me_uuid :: "nat \<Rightarrow> pystr"

definition provider_identifier :: "security_reference \<Rightarrow> pystr option" where
  "provider_identifier r = or_else (or_else (or_else (r_external r) (r_isin r)) (r_figi r)) (r_ticker r)"

subsection \<open>The queue\<close>

definition own_key :: "master_env \<Rightarrow> pystr \<Rightarrow> pystr \<Rightarrow> queued \<Rightarrow> bool" where
  "own_key env provider key u \<longleftrightarrow>
     uq_tenant u = Some (me_tenant env) \<and> uq_provider u = provider \<and> uq_external u = key"

definition reference_metadata :: "security_reference \<Rightarrow> pystr option" where
  "reference_metadata r =
     (let given = (case r_metadata r of None \<Rightarrow> [] | Some d \<Rightarrow> d);
          d = (if truthy (r_venue r) then dict_put ''venue'' (PStr (or_blank (r_venue r))) given else given)
      in if d = [] then None else Some (json_dumps (PDict d)))"

definition describe :: "security_reference \<Rightarrow> pystr option \<Rightarrow> pystr option \<Rightarrow> queued \<Rightarrow> queued" where
  "describe r resolved how u =
     u\<lparr>uq_isin := r_isin r, uq_figi := r_figi r, uq_ticker := r_ticker r, uq_name := r_name r,
       uq_currency := r_currency r, uq_metadata := reference_metadata r, uq_resolved := resolved, uq_method := how\<rparr>"

definition blank_queued :: "pystr \<Rightarrow> pystr option \<Rightarrow> pystr \<Rightarrow> pystr \<Rightarrow> queued" where
  "blank_queued i tenant provider key =
     \<lparr>uq_id = i, uq_tenant = tenant, uq_provider = provider, uq_external = key, uq_isin = None, uq_figi = None,
      uq_ticker = None, uq_name = None, uq_currency = None, uq_metadata = None, uq_resolved = None, uq_method = None,
      uq_notes = None\<rparr>"

text \<open>The row of a key is refreshed, or added. The key is unique, so the first row is the only one.\<close>

definition upsert_queued ::
  "master_env \<Rightarrow> pystr \<Rightarrow> pystr \<Rightarrow> security_reference \<Rightarrow> pystr option \<Rightarrow> pystr option \<Rightarrow> master \<Rightarrow> master" where
  "upsert_queued env provider key r resolved how s =
     (if list_ex (own_key env provider key) (queue s)
      then s\<lparr>queue := update_rows (own_key env provider key) (describe r resolved how) (queue s)\<rparr>
      else s\<lparr>queue := queue s @ [describe r resolved how
               (blank_queued (me_uuid env (drawn s)) (Some (me_tenant env)) provider key)],
             drawn := Suc (drawn s)\<rparr>)"

definition queue_unresolved_security ::
  "master_env \<Rightarrow> pystr \<Rightarrow> security_reference \<Rightarrow> pystr option \<Rightarrow> pystr option \<Rightarrow> pystr option master_step" where
  "queue_unresolved_security env provider r resolved how =
     (if \<not> truthy (provider_identifier r) then give (Some ''missing-provider-identifier'')
      else andthen flush (\<lambda>_.
           andthen (add_row (upsert_queued env provider (or_blank (provider_identifier r)) r resolved how)) (\<lambda>_.
             give (provider_identifier r))))"

subsection \<open>Listings\<close>

definition rsplit_colon :: "pystr \<Rightarrow> pystr \<times> pystr" where
  "rsplit_colon s = (rev (tl (dropWhile (\<lambda>c. c \<noteq> CHR '':'') (rev s))), rev (takeWhile (\<lambda>c. c \<noteq> CHR '':'') (rev s)))"

definition venue_and_ticker :: "security_reference \<Rightarrow> pystr \<times> pystr" where
  "venue_and_ticker r =
     (let venue = upper (strip (or_blank (r_venue r))); ticker = upper (strip (or_blank (r_ticker r)))
      in if CHR '':'' \<in> set ticker
         then case rsplit_colon ticker of (t, v) \<Rightarrow> (if venue = [] then v else venue, if t = [] then ticker else t)
         else (venue, ticker))"

definition listing_currency :: "security \<Rightarrow> security_reference \<Rightarrow> pystr" where
  "listing_currency x r = upper (strip (if truthy (r_currency r) then or_blank (r_currency r) else sec_currency x))"

definition upsert_listing :: "security \<Rightarrow> security_reference \<Rightarrow> unit master_step" where
  "upsert_listing x r =
     (case venue_and_ticker r of (mic, ticker) \<Rightarrow>
        let currency = listing_currency x r; key = (sec_id x, mic, currency)
        in if length mic \<noteq> 4 \<or> ticker = [] \<or> length currency \<noteq> 3 then give ()
           else andthen (query (\<lambda>s. list_ex (\<lambda>l. listing_key l = key) (listings s))) (\<lambda>known.
             change (\<lambda>s. s\<lparr>listings :=
               (if known
                then update_rows (\<lambda>l. listing_key l = key) (\<lambda>l. l\<lparr>ls_ticker := ticker, ls_primary := True\<rparr>) (listings s)
                else listings s @ [\<lparr>ls_security = sec_id x, ls_mic = mic, ls_exchange = None, ls_ticker = ticker,
                                    ls_currency = currency, ls_primary = True\<rparr>])\<rparr>)))"

subsection \<open>Metadata of a known instrument\<close>

definition placeholder_name :: "security_reference \<Rightarrow> security \<Rightarrow> bool" where
  "placeholder_name r x \<longleftrightarrow>
     casefold (strip (sec_name x)) \<in>
       {[], casefold (strip (or_blank (r_external r))), casefold (strip (or_blank (sec_ticker x)))}"

definition telling_name :: "security_reference \<Rightarrow> bool" where
  "telling_name r \<longleftrightarrow>
     strip (or_blank (r_name r)) \<noteq> [] \<and>
     casefold (strip (or_blank (r_name r))) \<notin>
       {casefold (strip (or_blank (r_external r))), casefold (strip (or_blank (r_ticker r)))}"

definition enrich_existing_security :: "bool \<Rightarrow> security_reference \<Rightarrow> security \<Rightarrow> security" where
  "enrich_existing_security allow_isin_fill r x =
     x\<lparr>sec_name := (if telling_name r \<and> placeholder_name r x then strip (or_blank (r_name r)) else sec_name x),
       sec_ticker :=
         (if strip (or_blank (r_ticker r)) \<noteq> [] \<and>
             casefold (strip (or_blank (sec_ticker x))) \<in> {[], casefold (strip (or_blank (r_external r)))}
          then Some (upper (strip (or_blank (r_ticker r)))) else sec_ticker x),
       sec_isin := (if allow_isin_fill \<and> truthy (r_isin r) \<and> \<not> truthy (sec_isin x)
                    then map_option upper (r_isin r) else sec_isin x),
       sec_figi := (if truthy (r_figi r) \<and> \<not> truthy (sec_figi x) then map_option upper (r_figi r) else sec_figi x),
       sec_currency := (if truthy (r_currency r) \<and> placeholder_name r x
                        then upper (or_blank (r_currency r)) else sec_currency x)\<rparr>"

definition enrich_row :: "pystr \<Rightarrow> security_reference \<Rightarrow> master \<Rightarrow> master" where
  "enrich_row i r s = s\<lparr>securities := update_rows (\<lambda>x. sec_id x = i) (enrich_existing_security False r) (securities s)\<rparr>"

subsection \<open>Candidates\<close>

definition select_securities :: "(security \<Rightarrow> bool) \<Rightarrow> security list master_step" where
  "select_securities P = query (\<lambda>s. filter P (securities s))"

definition in_currency :: "security_reference \<Rightarrow> security list \<Rightarrow> security list" where
  "in_currency r xs = filter (\<lambda>x. sec_currency x = upper (or_blank (r_currency r))) xs"

definition prefer_currency :: "security_reference \<Rightarrow> security list \<Rightarrow> security list" where
  "prefer_currency r xs = (if truthy (r_currency r) \<and> in_currency r xs \<noteq> [] then in_currency r xs else xs)"

definition alias_of :: "security_reference \<Rightarrow> security \<Rightarrow> bool" where
  "alias_of r x \<longleftrightarrow>
     (let t = strip (upper (or_blank (r_ticker r)))
      in case sec_ticker x of None \<Rightarrow> False | Some u \<Rightarrow> u = t \<or> like (t @ '':%'') u)"

definition names_ticker :: "security_reference \<Rightarrow> bool" where
  "names_ticker r \<longleftrightarrow>
     truthy (r_ticker r) \<and>
     (case r_external r of None \<Rightarrow> True | Some e \<Rightarrow> upper e = upper (or_blank (r_ticker r)))"

definition find_candidates :: "security_reference \<Rightarrow> security list master_step" where
  "find_candidates r =
     andthen (if truthy (r_isin r) then select_securities (\<lambda>x. sec_isin x = map_option upper (r_isin r)) else give [])
     (\<lambda>c1. andthen (if c1 = [] \<and> truthy (r_figi r)
                    then select_securities (\<lambda>x. sec_figi x = map_option upper (r_figi r)) else give c1)
     (\<lambda>c2. andthen (if c2 = [] \<and> names_ticker r
                    then andthen (select_securities (alias_of r)) (\<lambda>cs. give (prefer_currency r cs)) else give c2)
     (\<lambda>c3. if c3 = [] \<and> truthy (r_ticker r) \<and> r_external r = None
           then andthen (select_securities (\<lambda>x. sec_ticker x = map_option upper (r_ticker r)))
                  (\<lambda>cs. give (if truthy (r_currency r) then in_currency r cs else cs))
           else give c3)))"

subsection \<open>Resolution\<close>

definition mapped_security :: "master_env \<Rightarrow> pystr \<Rightarrow> security_reference \<Rightarrow> security option master_step" where
  "mapped_security env provider r =
     (if \<not> truthy (provider_identifier r) then give None
      else andthen (query (\<lambda>s. find (own_key env provider (or_blank (provider_identifier r))) (queue s))) (\<lambda>row.
        case row of
          None \<Rightarrow> give None
        | Some u \<Rightarrow> if truthy (uq_resolved u) then (\<lambda>s. give (security_by_id (or_blank (uq_resolved u)) s) s) else give None))"

definition security_types :: "pystr list" where
  "security_types = [''stock'', ''etf'', ''mutual_fund'', ''bond'', ''option'', ''crypto'', ''currency'', ''other'']"

definition new_security :: "pystr \<Rightarrow> security_reference \<Rightarrow> security" where
  "new_security i r =
     (let type = (if truthy (r_type r) then or_blank (r_type r) else ''other'');
          name = or_else (or_else (or_else (r_name r) (r_ticker r)) (r_isin r)) (r_figi r)
      in \<lparr>sec_id = i,
          sec_isin = (if truthy (r_isin r) then map_option upper (r_isin r) else None),
          sec_figi = (if truthy (r_figi r) \<and> length (or_blank (r_figi r)) \<le> 12 then map_option upper (r_figi r) else None),
          sec_cusip = None,
          sec_ticker = (if truthy (r_ticker r) then map_option upper (r_ticker r) else None),
          sec_name = (if truthy name then or_blank name else ''Unknown security''),
          sec_type = (if type \<in> set security_types then type else ''other''),
          sec_currency = upper (if truthy (r_currency r) then or_blank (r_currency r) else ''EUR'')\<rparr>)"

definition can_create :: "security_reference \<Rightarrow> bool" where
  "can_create r \<longleftrightarrow>
     truthy (r_isin r) \<or> truthy (r_figi r) \<or>
     truthy (r_external r) \<and> truthy (r_ticker r) \<and> truthy (r_name r) \<and> truthy (r_currency r)"

definition insert_security :: "master_env \<Rightarrow> security_reference \<Rightarrow> security master_step" where
  "insert_security env r s =
     (let x = new_security (me_uuid env (drawn s)) r
      in andthen (add_row (\<lambda>s. s\<lparr>securities := securities s @ [x], drawn := Suc (drawn s)\<rparr>)) (\<lambda>_. give x) s)"

definition method_of :: "security_reference \<Rightarrow> pystr \<Rightarrow> pystr" where
  "method_of r other = (if truthy (r_isin r) then ''auto_isin'' else if truthy (r_figi r) then ''auto_figi'' else other)"

text \<open>The mapping is remembered when the provider has an identifier of its own; then the listing.\<close>

definition link_security ::
  "master_env \<Rightarrow> pystr \<Rightarrow> security_reference \<Rightarrow> pystr \<Rightarrow> security \<Rightarrow> (security option \<times> pystr option) master_step" where
  "link_security env provider r how x =
     andthen (if truthy (r_external r)
              then queue_unresolved_security env provider r (Some (sec_id x)) (Some how) else give None) (\<lambda>_.
     andthen (upsert_listing x r) (\<lambda>_. give (Some x, None)))"

definition leave_unresolved ::
  "master_env \<Rightarrow> pystr \<Rightarrow> security_reference \<Rightarrow> (security option \<times> pystr option) master_step" where
  "leave_unresolved env provider r =
     andthen (queue_unresolved_security env provider r None None) (\<lambda>key. give (None, key))"

definition resolve_security_reference ::
  "master_env \<Rightarrow> pystr \<Rightarrow> security_reference \<Rightarrow> (security option \<times> pystr option) master_step" where
  "resolve_security_reference env provider r =
     andthen (mapped_security env provider r) (\<lambda>mapped.
       case mapped of
         Some x \<Rightarrow> andthen (change (enrich_row (sec_id x) r)) (\<lambda>_. give (Some (enrich_existing_security False r x), None))
       | None \<Rightarrow>
           andthen (find_candidates r) (\<lambda>matching.
             case matching of
               [] \<Rightarrow> if can_create r
                     then andthen (insert_security env r) (link_security env provider r (method_of r ''provider_instrument''))
                     else leave_unresolved env provider r
             | [x] \<Rightarrow> link_security env provider r (method_of r ''auto_ticker'') x
             | _ \<Rightarrow> leave_unresolved env provider r))"

end
