(* ===== verification/Security_Identity.thy ===== *)
theory Security_Identity
  imports Security_Resolution
begin

text \<open>
  The review of unresolved instruments (\<^verbatim>\<open>identity/resolver.py\<close> with
  \<^verbatim>\<open>enrichment/security_resolver.py\<close> and the look-up of \<^verbatim>\<open>enrichment/gateway.py\<close>): the pipeline
  for instruments as a connector describes them, a dictionary of JSON values, and the mapping of a
  queue row by an operator. What the remote service answers is a field of the gateway; a gateway that
  is degraded, as the constructor makes every gateway, does not ask it. Fetching prices for a newly
  mapped instrument changes none of these tables and swallows its errors; it is left out. A value in
  the place of a text raises.
\<close>

type_synonym dict = "(pystr \<times> pyval) list"

definition py_or :: "pyval \<Rightarrow> pyval \<Rightarrow> pyval" where
  "py_or a b = (if py_true a then a else b)"

definition as_text :: "pyval \<Rightarrow> store_error + pystr" where
  "as_text v = (case v of PStr s \<Rightarrow> Inr s | _ \<Rightarrow> Inl Not_text)"

text \<open>A value that is written to a text column.\<close>

definition as_column :: "pyval \<Rightarrow> store_error + pystr option" where
  "as_column v = (case v of PNone \<Rightarrow> Inr None | PStr s \<Rightarrow> Inr (Some s) | _ \<Rightarrow> Inl Not_text)"

definition of_column :: "pystr option \<Rightarrow> pyval" where
  "of_column v = (case v of None \<Rightarrow> PNone | Some s \<Rightarrow> PStr s)"

subsection \<open>Cleansing\<close>

definition is_alpha :: "char \<Rightarrow> bool" where
  "is_alpha c \<longleftrightarrow> is_upper c \<or> is_lower c \<or> code c \<in> {170, 181, 186} \<or>
     192 \<le> code c \<and> code c \<noteq> 215 \<and> code c \<noteq> 247"

definition cleanse_currency_code :: "pyval \<Rightarrow> store_error + pyval" where
  "cleanse_currency_code raw =
     (case raw of PNone \<Rightarrow> Inr PNone
      | _ \<Rightarrow> map_sum id (\<lambda>s. let c = upper (strip s)
                          in if length c \<noteq> 3 \<or> \<not> list_all is_alpha c then PNone else PStr c) (as_text raw))"

function collapse :: "pystr \<Rightarrow> pystr" where
  "collapse [] = []"
| "collapse (c # s) = (if is_space c then CHR '' '' # collapse (dropWhile is_space s) else c # collapse s)"
  by pat_completeness auto
termination
  by (relation "measure length") (auto intro: le_imp_less_Suc length_dropWhile_le)

definition noise_suffixes :: "pystr list" where
  "noise_suffixes = ['' - Depository Receipt'', '' - Registered Shares'', '' - Common Stock'']"

definition strip_noise :: "pystr \<Rightarrow> pystr" where
  "strip_noise s =
     (case find (\<lambda>p. endswith p s) noise_suffixes of None \<Rightarrow> s | Some p \<Rightarrow> take (length s - length p) s)"

definition cleanse_name_text :: "pystr \<Rightarrow> pystr" where
  "cleanse_name_text s = strip_noise (collapse (strip s))"

definition text_or_none :: "pystr \<Rightarrow> pyval" where
  "text_or_none s = (if s = [] then PNone else PStr s)"

definition cleanse_name :: "pyval \<Rightarrow> store_error + pyval" where
  "cleanse_name raw =
     (case raw of PNone \<Rightarrow> Inr PNone | _ \<Rightarrow> map_sum id (\<lambda>s. text_or_none (cleanse_name_text s)) (as_text raw))"

definition cleanse_ticker :: "pyval \<Rightarrow> store_error + pyval" where
  "cleanse_ticker raw =
     (case raw of PNone \<Rightarrow> Inr PNone | _ \<Rightarrow> map_sum id (\<lambda>s. text_or_none (upper (strip s))) (as_text raw))"

definition cleanse_metadata :: "pyval \<Rightarrow> pyval" where
  "cleanse_metadata raw =
     (case raw of PNone \<Rightarrow> PNone | PStr s \<Rightarrow> PStr s | PDict d \<Rightarrow> PStr (json_dumps (PDict d)) | _ \<Rightarrow> PStr (py_str raw))"

definition with_originals :: "dict \<Rightarrow> dict" where
  "with_originals d =
     (let d1 = dict_put ''original_name'' (dict_get d ''name'') d;
          d2 = dict_put ''original_description'' (dict_get d1 ''description'') d1;
          d3 = dict_put ''original_currency_code'' (dict_get d2 ''currency_code'') d2
      in dict_put ''original_ticker'' (py_or (dict_get d3 ''ticker'') (dict_get d3 ''symbol'')) d3)"

definition apply_all_cleansing :: "dict \<Rightarrow> store_error + dict" where
  "apply_all_cleansing d =
     (let r = with_originals d
      in case cleanse_name (py_or (dict_get r ''name'') (dict_get r ''description'')) of
           Inl e \<Rightarrow> Inl e
         | Inr name \<Rightarrow>
             (let r1 = dict_put ''name'' name r
              in case cleanse_currency_code (dict_get r1 ''currency_code'') of
                   Inl e \<Rightarrow> Inl e
                 | Inr currency \<Rightarrow>
                     (let r2 = dict_put ''currency_code'' currency r1
                      in case cleanse_ticker (py_or (dict_get r2 ''ticker'') (dict_get r2 ''symbol'')) of
                           Inl e \<Rightarrow> Inl e
                         | Inr ticker \<Rightarrow>
                             (let r3 = dict_put ''ticker'' ticker r2
                              in Inr (dict_put ''metadata''
                                   (cleanse_metadata (py_or (dict_get r3 ''provider_metadata'') (dict_get r3 ''metadata''))) r3)))))"

subsection \<open>Similarity of names\<close>

definition is_token :: "char \<Rightarrow> bool" where
  "is_token c \<longleftrightarrow> is_lower c \<or> is_digit c"

function tokens :: "pystr \<Rightarrow> pystr list" where
  "tokens [] = []"
| "tokens (c # s) =
     (if is_token c then (c # takeWhile is_token s) # tokens (dropWhile is_token s) else tokens s)"
  by pat_completeness auto
termination
  by (relation "measure length") (auto intro: le_imp_less_Suc length_dropWhile_le)

definition name_similarity :: "pystr option \<Rightarrow> pystr option \<Rightarrow> rat" where
  "name_similarity a b =
     (if \<not> truthy a \<or> \<not> truthy b then 0
      else let xs = remdups (tokens (lower (or_blank a))); ys = remdups (tokens (lower (or_blank b)))
           in if xs = [] \<or> ys = [] then 0
              else of_nat (length (filter (\<lambda>x. x \<in> set ys) xs)) / of_nat (length (remdups (xs @ ys))))"

definition fuzzy_match_threshold :: rat where
  "fuzzy_match_threshold = 3 / 5"

subsection \<open>Look-ups\<close>

record resolved_security =
  rs_id :: pystr
  rs_isin :: "pystr option"
  rs_figi :: "pystr option"
  rs_ticker :: "pystr option"
  rs_name :: pystr
  rs_currency :: pystr
  rs_confidence :: pystr
  rs_source :: pystr

text \<open>What the remote service says of an instrument.\<close>

record market_data =
  md_isin :: "pystr option"
  md_figi :: "pystr option"
  md_ticker :: "pystr option"
  md_symbol :: "pystr option"
  md_name :: "pystr option"
  md_currency :: "pystr option"

record gateway =
  gw_degraded :: bool
  gw_lookup :: "pystr \<Rightarrow> pystr \<Rightarrow> market_data option"

definition parse_resolved_security :: "pystr \<Rightarrow> market_data \<Rightarrow> resolved_security" where
  "parse_resolved_security i d =
     \<lparr>rs_id = i, rs_isin = md_isin d, rs_figi = md_figi d, rs_ticker = or_else (md_ticker d) (md_symbol d),
      rs_name = (case md_name d of None \<Rightarrow> ''Unknown'' | Some n \<Rightarrow> n),
      rs_currency = (case md_currency d of None \<Rightarrow> ''EUR'' | Some c \<Rightarrow> c),
      rs_confidence = ''exact'', rs_source = ''local''\<rparr>"

definition gateway_resolve :: "master_env \<Rightarrow> gateway \<Rightarrow> pystr \<Rightarrow> pystr \<Rightarrow> resolved_security option master_step" where
  "gateway_resolve env gw identifier kind s =
     (if gw_degraded gw then give None s
      else case gw_lookup gw identifier kind of
             None \<Rightarrow> give None s
           | Some d \<Rightarrow> (Inr (Some (parse_resolved_security (me_uuid env (drawn s)) d)), s\<lparr>drawn := Suc (drawn s)\<rparr>))"

definition of_security :: "pystr \<Rightarrow> pystr \<Rightarrow> security \<Rightarrow> resolved_security" where
  "of_security confidence source x =
     \<lparr>rs_id = sec_id x, rs_isin = sec_isin x, rs_figi = sec_figi x, rs_ticker = sec_ticker x, rs_name = sec_name x,
      rs_currency = sec_currency x, rs_confidence = confidence, rs_source = source\<rparr>"

definition find_local :: "(security \<Rightarrow> bool) \<Rightarrow> (security \<Rightarrow> resolved_security) \<Rightarrow> resolved_security option master_step" where
  "find_local P f = andthen (select_securities P) (\<lambda>xs. give (case xs of [] \<Rightarrow> None | x # _ \<Rightarrow> Some (f x)))"

definition local_or_gateway ::
  "master_env \<Rightarrow> gateway \<Rightarrow> resolved_security option master_step \<Rightarrow> pystr \<Rightarrow> pystr \<Rightarrow> resolved_security option master_step" where
  "local_or_gateway env gw here identifier kind =
     andthen here (\<lambda>found. case found of Some x \<Rightarrow> give (Some x) | None \<Rightarrow> gateway_resolve env gw identifier kind)"

definition resolve_by_isin :: "master_env \<Rightarrow> gateway \<Rightarrow> pystr \<Rightarrow> resolved_security option master_step" where
  "resolve_by_isin env gw isin =
     local_or_gateway env gw (find_local (\<lambda>x. sec_isin x = Some isin) (of_security ''exact'' ''local_db'')) isin ''isin''"

definition resolve_by_figi :: "master_env \<Rightarrow> gateway \<Rightarrow> pystr \<Rightarrow> resolved_security option master_step" where
  "resolve_by_figi env gw figi =
     local_or_gateway env gw (find_local (\<lambda>x. sec_figi x = Some figi) (of_security ''exact'' ''local_db'')) figi ''figi''"

definition resolve_by_ticker :: "master_env \<Rightarrow> gateway \<Rightarrow> pystr \<Rightarrow> resolved_security option master_step" where
  "resolve_by_ticker env gw ticker =
     local_or_gateway env gw
       (find_local (\<lambda>x. sec_ticker x = Some ticker) (of_security ''ticker_only'' ''local_db'')) ticker ''ticker''"

text \<open>The instrument of the first listing with a ticker.\<close>

definition by_listing ::
  "pystr \<Rightarrow> (listing \<Rightarrow> security \<Rightarrow> resolved_security) \<Rightarrow> resolved_security option master_step" where
  "by_listing ticker f =
     andthen (query (\<lambda>s. find (\<lambda>l. ls_ticker l = ticker) (listings s))) (\<lambda>found s.
       give (case found of None \<Rightarrow> None | Some l \<Rightarrow> map_option (f l) (security_by_id (ls_security l) s)) s)"

subsection \<open>The four stages\<close>

text \<open>\<open>orelse\<close> runs the next look-up when one finds nothing.\<close>

definition orelse :: "'x option master_step \<Rightarrow> 'x option master_step \<Rightarrow> 'x option master_step" where
  "orelse m n = andthen m (\<lambda>r. case r of Some x \<Rightarrow> give (Some x) | None \<Rightarrow> n)"

definition stage_1_exact_isin :: "master_env \<Rightarrow> gateway \<Rightarrow> dict \<Rightarrow> resolved_security option master_step" where
  "stage_1_exact_isin env gw d =
     (let v = py_or (dict_get d ''isin'') (dict_get d ''ISIN'')
      in if \<not> py_true v then give None
         else andthen (lift_exn (as_text v)) (\<lambda>t.
           let isin = upper (strip t)
           in orelse (resolve_by_isin env gw isin)
                (by_listing isin (\<lambda>l x. (of_security ''exact'' ''local_db'' x)
                   \<lparr>rs_ticker := or_else (sec_ticker x) (Some (ls_ticker l))\<rparr>))))"

definition stage_2_figi_ticker :: "master_env \<Rightarrow> gateway \<Rightarrow> dict \<Rightarrow> resolved_security option master_step" where
  "stage_2_figi_ticker env gw d =
     (let figi = py_or (dict_get d ''figi'') (dict_get d ''FIGI''); ticker = dict_get d ''ticker''
      in orelse
           (if py_true figi then andthen (lift_exn (as_text figi)) (resolve_by_figi env gw) else give None)
           (if \<not> py_true ticker then give None
            else andthen (lift_exn (as_text ticker)) (\<lambda>t.
              orelse (resolve_by_ticker env gw t)
                (orelse (by_listing t (\<lambda>l x. (of_security ''high'' ''local_db_listing'' x)\<lparr>rs_ticker := Some t\<rparr>))
                  (if gw_degraded gw then give None else resolve_by_ticker env gw t)))))"

definition better_match :: "pystr \<Rightarrow> security \<Rightarrow> rat \<times> security option \<Rightarrow> rat \<times> security option" where
  "better_match name x best =
     (let score = name_similarity (Some name) (Some (sec_name x));
          best1 = (if fst best < score then (score, Some x) else best);
          other = name_similarity (Some name) (sec_ticker x)
      in if truthy (sec_ticker x) \<and> fst best1 < other then (other, Some x) else best1)"

definition best_match :: "pystr \<Rightarrow> security list \<Rightarrow> rat \<times> security option" where
  "best_match name xs = fold (better_match name) xs (0, None)"

definition upsert_canonical_security :: "master_env \<Rightarrow> pystr \<Rightarrow> resolved_security \<Rightarrow> unit master_step" where
  "upsert_canonical_security env type v =
     andthen (select_securities (\<lambda>x. sec_isin x = rs_isin v)) (\<lambda>existing.
       if existing \<noteq> [] then give ()
       else add_row (\<lambda>s. s\<lparr>securities := securities s @
              [\<lparr>sec_id = me_uuid env (drawn s), sec_isin = rs_isin v, sec_figi = rs_figi v, sec_cusip = None,
                sec_ticker = rs_ticker v, sec_name = rs_name v, sec_type = type, sec_currency = rs_currency v\<rparr>],
              drawn := Suc (drawn s)\<rparr>))"

definition infer_security_type :: "pystr \<Rightarrow> pystr option \<Rightarrow> pystr" where
  "infer_security_type ticker figi =
     (let f = upper (or_blank figi)
      in if truthy figi \<and> startswith ''ETF.'' f then ''etf''
         else if truthy figi \<and> startswith ''FUND.'' f then ''mutual_fund''
         else if truthy figi \<and> startswith ''ADR.'' f then ''stock''
         else if list_ex (\<lambda>p. endswith p (upper ticker)) [''.AS'', ''.DE'', ''.L'', ''.PA''] then ''etf''
         else ''stock'')"

definition stage_3_fuzzy_name :: "master_env \<Rightarrow> gateway \<Rightarrow> dict \<Rightarrow> resolved_security option master_step" where
  "stage_3_fuzzy_name env gw d =
     (let raw = dict_get d ''name''
      in if \<not> py_true raw then give None
         else andthen (lift_exn (as_text raw)) (\<lambda>t. andthen (select_securities (\<lambda>_. True)) (\<lambda>all.
           if all = [] then give None
           else let name = (if cleanse_name_text t = [] then t else cleanse_name_text t)
                in case best_match name all of
                     (score, found) \<Rightarrow>
                       if found \<noteq> None \<and> fuzzy_match_threshold \<le> score
                       then give (map_option (of_security ''medium'' ''fuzzy_name'') found)
                       else andthen (gateway_resolve env gw name ''name'') (\<lambda>r. case r of
                              None \<Rightarrow> give None
                            | Some v \<Rightarrow>
                                andthen (upsert_canonical_security env
                                  (infer_security_type (or_blank (rs_ticker v)) (rs_figi v)) v)
                                  (\<lambda>_. give (Some v))))))"

text \<open>
  The identifier of the queue row. A text is replaced by \<open>''unknown''\<close>: the test for its type is the
  wrong way round.
\<close>

definition external_id :: "dict \<Rightarrow> pystr" where
  "external_id d =
     (let v = py_or (py_or (py_or (dict_get d ''id'') (dict_get d ''external_security_id'')) (dict_get d ''external_id''))
                (py_or (py_or (dict_get d ''ticker'') (dict_get d ''isin'')) (PStr ''unknown''))
      in case v of PNone \<Rightarrow> ''unknown'' | PStr _ \<Rightarrow> ''unknown'' | _ \<Rightarrow> py_str v)"

definition same_queued :: "pystr option \<Rightarrow> pystr \<Rightarrow> pystr \<Rightarrow> queued \<Rightarrow> bool" where
  "same_queued tenant provider key u \<longleftrightarrow>
     (tenant \<noteq> None \<longrightarrow> uq_tenant u = tenant) \<and> uq_provider u = provider \<and> uq_external u = key"

definition refreshed :: "dict \<Rightarrow> queued \<Rightarrow> store_error + queued" where
  "refreshed d u =
     (case (as_column (py_or (dict_get d ''isin'') (of_column (uq_isin u))),
            as_column (py_or (py_or (dict_get d ''figi'') (dict_get d ''FIGI'')) (of_column (uq_figi u))),
            as_column (py_or (dict_get d ''ticker'') (of_column (uq_ticker u))),
            as_column (py_or (py_or (dict_get d ''name'') (dict_get d ''description'')) (of_column (uq_name u))),
            as_column (py_or (dict_get d ''currency_code'') (of_column (uq_currency u))),
            as_column (py_or (dict_get d ''metadata'') (of_column (uq_metadata u)))) of
        (Inr isin, Inr figi, Inr ticker, Inr name, Inr currency, Inr meta) \<Rightarrow>
          Inr (u\<lparr>uq_isin := isin, uq_figi := figi, uq_ticker := ticker, uq_name := name, uq_currency := currency,
                 uq_metadata := meta\<rparr>)
      | _ \<Rightarrow> Inl Not_text)"

definition new_queued :: "pystr \<Rightarrow> pystr option \<Rightarrow> pystr \<Rightarrow> dict \<Rightarrow> store_error + queued" where
  "new_queued i tenant provider d =
     (case (as_column (dict_get d ''isin''), as_column (dict_get d ''figi''), as_column (dict_get d ''ticker''),
            as_column (py_or (dict_get d ''name'') (dict_get d ''description'')),
            as_column (dict_get d ''currency_code''), as_column (dict_get d ''metadata'')) of
        (Inr isin, Inr figi, Inr ticker, Inr name, Inr currency, Inr meta) \<Rightarrow>
          Inr ((blank_queued i tenant provider (external_id d))
            \<lparr>uq_isin := isin, uq_figi := figi, uq_ticker := ticker, uq_name := name, uq_currency := currency,
             uq_metadata := meta\<rparr>)
      | _ \<Rightarrow> Inl Not_text)"

definition store_queued :: "queued \<Rightarrow> unit master_step" where
  "store_queued v = add_row (\<lambda>s. s\<lparr>queue := put_row uq_id v (queue s)\<rparr>)"

definition append_queued :: "queued \<Rightarrow> unit master_step" where
  "append_queued v = add_row (\<lambda>s. s\<lparr>queue := queue s @ [v], drawn := Suc (drawn s)\<rparr>)"

definition stage_4_enqueue :: "master_env \<Rightarrow> pystr option \<Rightarrow> pystr \<Rightarrow> dict \<Rightarrow> queued master_step" where
  "stage_4_enqueue env tenant provider d =
     andthen (query (\<lambda>s. find (same_queued tenant provider (external_id d)) (queue s))) (\<lambda>existing.
       case existing of
         Some u \<Rightarrow> andthen (lift_exn (refreshed d u)) (\<lambda>v. andthen (store_queued v) (\<lambda>_. give v))
       | None \<Rightarrow> (\<lambda>s. andthen (lift_exn (new_queued (me_uuid env (drawn s)) tenant provider d))
                    (\<lambda>v. andthen (append_queued v) (\<lambda>_. give v)) s))"

subsection \<open>The audit and the pipeline\<close>

definition add_audit :: "identity_audit \<Rightarrow> unit master_step" where
  "add_audit e = add_row (\<lambda>s. s\<lparr>audits := audits s @ [e]\<rparr>)"

definition shown :: "pystr option \<Rightarrow> pystr" where
  "shown v = (case v of None \<Rightarrow> ''None'' | Some s \<Rightarrow> str_repr s)"

definition audit_resolution :: "pystr option \<Rightarrow> pystr \<Rightarrow> instant \<Rightarrow> pystr \<Rightarrow> resolved_security \<Rightarrow> unit master_step" where
  "audit_resolution tenant actor now how v =
     add_audit \<lparr>ra_tenant = tenant, ra_unresolved = None, ra_source = None, ra_target = rs_id v, ra_method = how,
       ra_confidence = rs_confidence v, ra_principal = actor, ra_at = now,
       ra_detail = Some (''Auto-resolved via '' @ how @ '': isin='' @ shown (rs_isin v) @ '' ticker='' @
         shown (rs_ticker v) @ '' name='' @ str_repr (rs_name v))\<rparr>"

record pipeline_result =
  pr_total :: nat
  pr_auto :: nat
  pr_fuzzy :: nat
  pr_unresolved :: nat
  pr_audits :: nat

datatype verdict = Auto | Fuzzy | Manual_queue

definition process_instrument ::
  "master_env \<Rightarrow> gateway \<Rightarrow> pystr option \<Rightarrow> pystr \<Rightarrow> instant \<Rightarrow> pystr \<Rightarrow> dict \<Rightarrow> verdict master_step" where
  "process_instrument env gw tenant actor now provider item =
     andthen (lift_exn (apply_all_cleansing item)) (\<lambda>d.
     andthen (stage_1_exact_isin env gw d) (\<lambda>r1. case r1 of
       Some v \<Rightarrow> andthen (audit_resolution tenant actor now ''auto_isin'' v) (\<lambda>_. give Auto)
     | None \<Rightarrow> andthen (stage_2_figi_ticker env gw d) (\<lambda>r2. case r2 of
       Some v \<Rightarrow> andthen (audit_resolution tenant actor now ''auto_figi'' v) (\<lambda>_. give Auto)
     | None \<Rightarrow> andthen (stage_3_fuzzy_name env gw d) (\<lambda>r3. case r3 of
       Some v \<Rightarrow> andthen (audit_resolution tenant actor now ''fuzzy_name'' v) (\<lambda>_. give Fuzzy)
     | None \<Rightarrow> andthen (stage_4_enqueue env tenant provider d) (\<lambda>_. give Manual_queue)))))"

definition counted :: "verdict \<Rightarrow> pipeline_result \<Rightarrow> pipeline_result" where
  "counted v r =
     (case v of
        Auto \<Rightarrow> r\<lparr>pr_auto := Suc (pr_auto r), pr_audits := Suc (pr_audits r)\<rparr>
      | Fuzzy \<Rightarrow> r\<lparr>pr_fuzzy := Suc (pr_fuzzy r), pr_audits := Suc (pr_audits r)\<rparr>
      | Manual_queue \<Rightarrow> r\<lparr>pr_unresolved := Suc (pr_unresolved r)\<rparr>)"

fun process_each ::
  "master_env \<Rightarrow> gateway \<Rightarrow> pystr option \<Rightarrow> pystr \<Rightarrow> instant \<Rightarrow> pystr \<Rightarrow> dict list \<Rightarrow> pipeline_result \<Rightarrow> pipeline_result master_step"
where
  "process_each env gw tenant actor now provider [] acc = give acc"
| "process_each env gw tenant actor now provider (d # ds) acc =
     andthen (process_instrument env gw tenant actor now provider d) (\<lambda>v.
       process_each env gw tenant actor now provider ds (counted v acc))"

definition process_incoming_securities ::
  "master_env \<Rightarrow> gateway \<Rightarrow> pystr option \<Rightarrow> pystr \<Rightarrow> instant \<Rightarrow> pystr \<Rightarrow> dict list \<Rightarrow> pipeline_result master_step" where
  "process_incoming_securities env gw tenant actor now provider items =
     process_each env gw tenant actor now provider items
       \<lparr>pr_total = length items, pr_auto = 0, pr_fuzzy = 0, pr_unresolved = 0, pr_audits = 0\<rparr>"

subsection \<open>Mapping by an operator\<close>

definition resolve_row :: "pystr \<Rightarrow> pystr option \<Rightarrow> queued \<Rightarrow> queued" where
  "resolve_row target notes u = u\<lparr>uq_resolved := Some target, uq_method := Some ''manual'', uq_notes := notes\<rparr>"

definition manual_audit ::
  "pystr option \<Rightarrow> pystr \<Rightarrow> instant \<Rightarrow> pystr \<Rightarrow> pystr \<Rightarrow> pystr \<Rightarrow> queued \<Rightarrow> identity_audit" where
  "manual_audit tenant actor now target source detail u =
     \<lparr>ra_tenant = or_else tenant (uq_tenant u), ra_unresolved = Some (uq_id u), ra_source = Some source, ra_target = target,
      ra_method = ''manual'', ra_confidence = ''high'', ra_principal = actor, ra_at = now, ra_detail = Some detail\<rparr>"

text \<open>The row is looked up by its identifier; a session that knows the row is not asked again.\<close>

definition find_queued :: "pystr option \<Rightarrow> pystr \<Rightarrow> queued option master_step" where
  "find_queued tenant i =
     (case tenant of
        None \<Rightarrow> (\<lambda>s. give (find (\<lambda>u. uq_id u = i) (queue s)) s)
      | Some t \<Rightarrow> query (\<lambda>s. find (\<lambda>u. uq_id u = i \<and> uq_tenant u = Some t) (queue s)))"

definition settle_queued ::
  "pystr option \<Rightarrow> pystr \<Rightarrow> instant \<Rightarrow> pystr \<Rightarrow> pystr \<Rightarrow> pystr \<Rightarrow> pystr option \<Rightarrow> queued \<Rightarrow> identity_audit option master_step" where
  "settle_queued tenant actor now target source detail notes u =
     andthen (store_queued (resolve_row target notes u)) (\<lambda>_.
       let e = manual_audit tenant actor now target source detail u
       in andthen (add_audit e) (\<lambda>_. give (Some e)))"

definition manually_resolve ::
  "pystr option \<Rightarrow> pystr \<Rightarrow> instant \<Rightarrow> pystr \<Rightarrow> pystr \<Rightarrow> pystr option \<Rightarrow> identity_audit option master_step" where
  "manually_resolve tenant actor now item target notes =
     andthen (find_queued tenant item) (\<lambda>found. case found of
       None \<Rightarrow> give None
     | Some u \<Rightarrow> (\<lambda>s. (case security_by_id target s of
         None \<Rightarrow> give None
       | Some x \<Rightarrow>
           settle_queued tenant actor now target
             (or_blank (or_else (or_else (uq_isin u) (uq_ticker u)) (Some (uq_external u))))
             (or_blank (or_else notes (Some ''Manual resolution by operator''))) notes u) s))"

definition find_or_add_queued :: "master_env \<Rightarrow> pystr option \<Rightarrow> pystr \<Rightarrow> pystr \<Rightarrow> queued master_step" where
  "find_or_add_queued env tenant provider key =
     andthen (query (\<lambda>s. find (same_queued tenant provider key) (queue s))) (\<lambda>found. case found of
       Some u \<Rightarrow> give u
     | None \<Rightarrow> (\<lambda>s. let v = blank_queued (me_uuid env (drawn s)) tenant provider key
                    in andthen (append_queued v) (\<lambda>_. give v) s))"

definition map_and_resolve ::
  "master_env \<Rightarrow> pystr option \<Rightarrow> pystr \<Rightarrow> instant \<Rightarrow> pystr \<Rightarrow> pystr \<Rightarrow> pystr \<Rightarrow> pystr option \<Rightarrow> identity_audit option master_step"
where
  "map_and_resolve env tenant actor now provider key target notes =
     andthen (find_or_add_queued env tenant provider key) (\<lambda>u s.
       (case security_by_id target s of
          None \<Rightarrow> give None
        | Some x \<Rightarrow>
            settle_queued tenant actor now target key
              (or_blank (or_else notes (Some (''Direct mapping by '' @ actor)))) notes u) s)"

subsection \<open>The routes\<close>

text \<open>
  The container makes the service once, on a session of its own. The routes of
  \<^verbatim>\<open>api/v1/securities.py\<close> use that session, and nothing commits or rolls it back: the
  requests of a process share it, and the process ends without it. \<open>ct_master\<close> is what is
  committed, \<open>ct_session\<close> what the session of the service sees.
\<close>

record container =
  ct_master :: master
  ct_session :: "master option"

definition service_session :: "container \<Rightarrow> master" where
  "service_session c = (case ct_session c of None \<Rightarrow> ct_master c | Some s \<Rightarrow> s)"

datatype reply = Ok pystr | Not_found | Server_error

definition in_service :: "identity_audit option master_step \<Rightarrow> container \<Rightarrow> reply \<times> container" where
  "in_service m c =
     (case m (service_session c) of
        (Inr (Some e), s) \<Rightarrow> (Ok (ra_target e), c\<lparr>ct_session := Some s\<rparr>)
      | (Inr None, s) \<Rightarrow> (Not_found, c\<lparr>ct_session := Some s\<rparr>)
      | (Inl _, s) \<Rightarrow> (Server_error, c\<lparr>ct_session := Some s\<rparr>))"

definition resolve_security_route :: "pystr \<Rightarrow> instant \<Rightarrow> pystr \<Rightarrow> pystr \<Rightarrow> pystr option \<Rightarrow> container \<Rightarrow> reply \<times> container" where
  "resolve_security_route tenant now item target notes =
     in_service (manually_resolve (Some tenant) ''api:user'' now item target notes)"

definition map_security_route ::
  "master_env \<Rightarrow> pystr \<Rightarrow> instant \<Rightarrow> pystr \<Rightarrow> pystr \<Rightarrow> pystr \<Rightarrow> pystr option \<Rightarrow> container \<Rightarrow> reply \<times> container" where
  "map_security_route env tenant now provider key target notes =
     in_service (map_and_resolve env (Some tenant) ''api:user'' now provider key target notes)"

end
