(* ===== verification/Security_Resolution_Props.thy ===== *)
theory Security_Resolution_Props
  imports Security_Resolution
begin

text \<open>
  The resolution of provider references: what a resolution may change, that a mapping once made is
  kept, that no instrument is guessed, and when a resolution can fail.
\<close>

subsection \<open>Running the steps\<close>

named_theorems store_runs \<open>results of session steps in a clean session\<close>

lemma flush_clean [store_runs]: "clean s \<Longrightarrow> flush s = (Inr (), s)"
  by (simp add: flush_def)

lemma andthen_run [store_runs]: "m s = (Inr x, s1) \<Longrightarrow> andthen m k s = k x s1"
  by (simp add: andthen_def)

lemma give_run [store_runs]: "give x s = (Inr x, s)"
  by (simp add: give_def)

lemma change_run [store_runs]: "change f s = (Inr (), f s)"
  by (simp add: change_def)

lemma query_clean [store_runs]: "clean s \<Longrightarrow> query f s = (Inr (f s), s)"
  by (simp add: query_def andthen_def flush_def)

lemma query_dirty: "\<not> clean s \<Longrightarrow> query f s = (Inl Refused, s)"
  by (simp add: query_def andthen_def flush_def)

lemma add_row_clean [store_runs]: "clean (f s) \<Longrightarrow> add_row f s = (Inr (), f s)"
  by (simp add: add_row_def andthen_def change_def flush_def)

lemma select_clean [store_runs]: "clean s \<Longrightarrow> select_securities P s = (Inr (filter P (securities s)), s)"
  by (simp add: select_securities_def query_clean)

text \<open>The candidates of a reference among the stored instruments.\<close>

definition by_isin :: "security_reference \<Rightarrow> security list \<Rightarrow> security list" where
  "by_isin r xs = (if truthy (r_isin r) then filter (\<lambda>x. sec_isin x = map_option upper (r_isin r)) xs else [])"

definition by_figi :: "security_reference \<Rightarrow> security list \<Rightarrow> security list" where
  "by_figi r xs = (if truthy (r_figi r) then filter (\<lambda>x. sec_figi x = map_option upper (r_figi r)) xs else [])"

definition by_alias :: "security_reference \<Rightarrow> security list \<Rightarrow> security list" where
  "by_alias r xs = (if names_ticker r then prefer_currency r (filter (alias_of r) xs) else [])"

definition by_ticker :: "security_reference \<Rightarrow> security list \<Rightarrow> security list" where
  "by_ticker r xs =
     (if truthy (r_ticker r) \<and> r_external r = None
      then let cs = filter (\<lambda>x. sec_ticker x = map_option upper (r_ticker r)) xs
           in if truthy (r_currency r) then in_currency r cs else cs
      else [])"

definition first_nonempty :: "'a list \<Rightarrow> 'a list \<Rightarrow> 'a list" where
  "first_nonempty xs ys = (if xs = [] then ys else xs)"

definition matching :: "security_reference \<Rightarrow> security list \<Rightarrow> security list" where
  "matching r xs = first_nonempty (by_isin r xs) (first_nonempty (by_figi r xs) (first_nonempty (by_alias r xs) (by_ticker r xs)))"

lemmas stage_defs = by_isin_def by_figi_def by_alias_def by_ticker_def first_nonempty_def

lemma find_candidates_clean [store_runs]:
  assumes "clean s"
  shows "find_candidates r s = (Inr (matching r (securities s)), s)"
proof -
  have 1: "(if truthy (r_isin r) then select_securities (\<lambda>x. sec_isin x = map_option upper (r_isin r)) else give []) s =
      (Inr (by_isin r (securities s)), s)"
    using assms by (simp add: store_runs by_isin_def)
  have 2: "(if c = [] \<and> truthy (r_figi r) then select_securities (\<lambda>x. sec_figi x = map_option upper (r_figi r)) else give c) s =
      (Inr (first_nonempty c (by_figi r (securities s))), s)" for c
    using assms by (simp add: store_runs stage_defs)
  have 3: "(if c = [] \<and> names_ticker r then andthen (select_securities (alias_of r)) (\<lambda>cs. give (prefer_currency r cs)) else give c) s =
      (Inr (first_nonempty c (by_alias r (securities s))), s)" for c
    using assms by (simp add: store_runs stage_defs andthen_run [OF select_clean])
  have 4: "(if c = [] \<and> truthy (r_ticker r) \<and> r_external r = None
      then andthen (select_securities (\<lambda>x. sec_ticker x = map_option upper (r_ticker r)))
             (\<lambda>cs. give (if truthy (r_currency r) then in_currency r cs else cs))
      else give c) s = (Inr (first_nonempty c (by_ticker r (securities s))), s)" for c
    using assms by (simp add: store_runs stage_defs andthen_run [OF select_clean])
  have "find_candidates r s =
      (Inr (first_nonempty (first_nonempty (first_nonempty (by_isin r (securities s)) (by_figi r (securities s)))
          (by_alias r (securities s))) (by_ticker r (securities s))), s)"
    unfolding find_candidates_def by (simp only: andthen_def 1 2 3 4 prod.case sum.case)
  then show ?thesis
    by (simp add: matching_def first_nonempty_def)
qed

lemma matching_stored: "set (matching r xs) \<subseteq> set xs"
  by (auto simp: matching_def stage_defs prefer_currency_def in_currency_def Let_def split: if_splits)

text \<open>The instrument a key is mapped to.\<close>

definition mapping :: "master_env \<Rightarrow> pystr \<Rightarrow> pystr option \<Rightarrow> master \<Rightarrow> security option" where
  "mapping env provider key s =
     (if truthy key
      then case find (own_key env provider (or_blank key)) (queue s) of
             None \<Rightarrow> None
           | Some u \<Rightarrow> if truthy (uq_resolved u) then security_by_id (or_blank (uq_resolved u)) s else None
      else None)"

lemma mapped_security_clean [store_runs]:
  assumes "clean s"
  shows "mapped_security env provider r s = (Inr (mapping env provider (provider_identifier r) s), s)"
proof (cases "truthy (provider_identifier r)")
  case True
  then show ?thesis
    using assms
    by (auto simp: mapped_security_def mapping_def andthen_run [OF query_clean] give_def split: option.split)
qed (simp add: mapped_security_def mapping_def give_def)

lemma resolve_clean:
  assumes "clean s"
  shows "resolve_security_reference env provider r s =
    (case mapping env provider (provider_identifier r) s of
       Some x \<Rightarrow> (Inr (Some (enrich_existing_security False r x), None), enrich_row (sec_id x) r s)
     | None \<Rightarrow>
         (case matching r (securities s) of
            [] \<Rightarrow> if can_create r
                  then andthen (insert_security env r) (link_security env provider r (method_of r ''provider_instrument'')) s
                  else leave_unresolved env provider r s
          | [x] \<Rightarrow> link_security env provider r (method_of r ''auto_ticker'') x s
          | _ \<Rightarrow> leave_unresolved env provider r s))"
  unfolding resolve_security_reference_def andthen_def [of "mapped_security env provider r"]
  using assms by (auto simp: store_runs andthen_run [OF change_run] andthen_def [of "find_candidates r"]
      split: option.split list.split)

lemma resolve_dirty:
  assumes "\<not> clean s" and "truthy (provider_identifier r)"
  shows "resolve_security_reference env provider r s = (Inl Refused, s)"
  using assms by (simp add: resolve_security_reference_def mapped_security_def andthen_def query_dirty)

lemma keyless_parts:
  assumes "\<not> truthy (provider_identifier r)"
  shows "\<not> truthy (r_external r)" "\<not> truthy (r_isin r)" "\<not> truthy (r_figi r)" "\<not> truthy (r_ticker r)"
  using assms by (simp_all add: provider_identifier_def or_else_def split: if_splits)

lemma resolve_keyless:
  assumes "\<not> truthy (provider_identifier r)"
  shows "resolve_security_reference env provider r s = (Inr (None, Some ''missing-provider-identifier''), s)"
  using keyless_parts [OF assms] assms
  by (simp add: resolve_security_reference_def mapped_security_def find_candidates_def names_ticker_def can_create_def
      leave_unresolved_def queue_unresolved_security_def andthen_def give_def)

subsection \<open>What a resolution leaves alone\<close>

lemma quiet_session: "quiet view flush" "quiet view (query f)" "quiet view (select_securities P)"
  by (simp_all add: quiet_def select_securities_def query_def andthen_def flush_def)

lemma quiet_add_row: "(\<And>s. view (f s) = view s) \<Longrightarrow> quiet view (add_row f)"
  unfolding add_row_def by (intro quiet_andthen quiet_change quiet_session) simp

lemma queue_upsert_queued [simp]:
  "filter (\<lambda>u. \<not> own_key env provider key u) (queue (upsert_queued env provider key r resolved how s)) =
   filter (\<lambda>u. \<not> own_key env provider key u) (queue s)"
proof -
  have *: "filter (\<lambda>u. \<not> own_key env provider key u)
      (update_rows (own_key env provider key) (describe r resolved how) us) =
      filter (\<lambda>u. \<not> own_key env provider key u) us" for us
    by (induction us) (auto simp: update_rows_def own_key_def describe_def)
  show ?thesis
    by (simp add: upsert_queued_def *) (simp add: own_key_def describe_def blank_queued_def)
qed

lemma upsert_queued_other [simp]:
  "securities (upsert_queued env provider key r resolved how s) = securities s"
  "listings (upsert_queued env provider key r resolved how s) = listings s"
  "audits (upsert_queued env provider key r resolved how s) = audits s"
  by (simp_all add: upsert_queued_def)

lemma quiet_queueing:
  assumes "\<And>s. view (upsert_queued env provider (or_blank (provider_identifier r)) r resolved how s) = view s"
  shows "quiet view (queue_unresolved_security env provider r resolved how)"
  unfolding queue_unresolved_security_def
  by (intro quiet_if quiet_pure quiet_andthen quiet_session quiet_add_row assms)

lemma quiet_listing: "(\<And>ls s. view (s\<lparr>listings := ls\<rparr>) = view s) \<Longrightarrow> quiet view (upsert_listing x r)"
  unfolding upsert_listing_def Let_def
  by (cases "venue_and_ticker r") (auto intro!: quiet_pure quiet_andthen quiet_session quiet_change)

lemma quiet_link:
  assumes "\<And>how s resolved. view (upsert_queued env provider (or_blank (provider_identifier r)) r resolved how s) = view s"
    and "\<And>ls s. view (s\<lparr>listings := ls\<rparr>) = view s"
  shows "quiet view (link_security env provider r how x)" and "quiet view (leave_unresolved env provider r)"
  unfolding link_security_def leave_unresolved_def
  by (intro quiet_andthen quiet_if quiet_pure quiet_queueing quiet_listing assms)+

lemma quiet_insert:
  "(\<And>xs n s. view (s\<lparr>securities := xs, drawn := n\<rparr>) = view s) \<Longrightarrow> quiet view (insert_security env r)"
  by (simp add: quiet_def insert_security_def add_row_def andthen_def change_def flush_def give_def Let_def)

lemma quiet_find: "quiet view (find_candidates r)"
  unfolding find_candidates_def by (intro quiet_andthen quiet_if quiet_pure quiet_session)

lemma quiet_mapped: "quiet view (mapped_security env provider r)"
  unfolding mapped_security_def
  by (intro quiet_if quiet_pure quiet_andthen quiet_session) (auto split: option.split intro: quiet_pure)

lemma queue_frame:
  "quiet (\<lambda>s. filter (\<lambda>u. \<not> own_key env provider (or_blank (provider_identifier r)) u) (queue s))
     (resolve_security_reference env provider r)"
  unfolding resolve_security_reference_def
  by (intro quiet_andthen quiet_mapped)
    (auto split: option.split list.split simp: enrich_row_def
      intro!: quiet_andthen quiet_find quiet_change quiet_pure quiet_if quiet_insert quiet_link)

lemma securities_after:
  "securities (snd (resolve_security_reference env provider r s)) \<in>
     {securities s, securities s @ [new_security (me_uuid env (drawn s)) r]} \<union>
     {update_rows (\<lambda>x. sec_id x = sec_id y) (enrich_existing_security False r) (securities s) | y.
        mapping env provider (provider_identifier r) s = Some y}"
proof (cases "clean s \<and> truthy (provider_identifier r)")
  case True
  have link: "securities (snd (link_security env provider r how x t)) = securities t"
    and leave: "securities (snd (leave_unresolved env provider r t)) = securities t" for how x t
    using quiet_link [of securities env provider r] by (simp_all add: quiet_def)
  have ins: "securities (snd (andthen (insert_security env r) (link_security env provider r how) s)) =
      securities s @ [new_security (me_uuid env (drawn s)) r]" for how
    by (auto simp: insert_security_def add_row_def andthen_def change_def flush_def give_def Let_def link)
  show ?thesis
    using True by (auto simp: resolve_clean link leave ins enrich_row_def split: option.split list.split)
next
  case False
  then show ?thesis
    by (cases "truthy (provider_identifier r)") (simp_all add: resolve_dirty resolve_keyless)
qed

subsection \<open>Mappings\<close>

definition key_maps :: "master_env \<Rightarrow> pystr \<Rightarrow> pystr \<Rightarrow> pystr \<Rightarrow> master \<Rightarrow> bool" where
  "key_maps env provider key i s \<longleftrightarrow>
     (\<exists>u. find (own_key env provider key) (queue s) = Some u \<and> uq_resolved u = Some i) \<and> i \<in> security_ids s"

lemma find_filter: "(\<And>u. P u \<Longrightarrow> Q u) \<Longrightarrow> find P (filter Q us) = find P us"
  by (induction us) auto

lemma enriched_id [simp]: "sec_id (enrich_existing_security allow r x) = sec_id x"
  by (simp add: enrich_existing_security_def)

lemma new_security_id [simp]: "sec_id (new_security i r) = i"
  by (simp add: new_security_def Let_def)

lemma ids_enriched [simp]:
  "map sec_id (update_rows P (enrich_existing_security allow r) xs) = map sec_id xs"
  by (induction xs) (auto simp: update_rows_def)

lemma security_ids_enrich_row [simp]: "security_ids (enrich_row i r s) = security_ids s"
  by (simp add: security_ids_def enrich_row_def del: set_map)

lemma security_ids_grow: "security_ids s \<subseteq> security_ids (snd (resolve_security_reference env provider r s))"
  using securities_after [of env provider r s] unfolding security_ids_def
  by (elim UnE insertE emptyE CollectE exE conjE) (auto simp del: set_map)

lemma security_by_id_known: "i \<in> security_ids s \<Longrightarrow> \<exists>x. security_by_id i s = Some x \<and> sec_id x = i"
  unfolding security_ids_def security_by_id_def
  by (cases "find (\<lambda>x. sec_id x = i) (securities s)") (auto simp: find_None_iff find_Some_iff)

lemma security_by_id_Some: "security_by_id i s = Some x \<Longrightarrow> sec_id x = i \<and> x \<in> set (securities s)"
  by (auto simp: security_by_id_def find_Some_iff)

lemma mapping_of_key:
  assumes "key_maps env provider key i s" and "key \<noteq> []" and "i \<noteq> []"
  obtains x where "mapping env provider (Some key) s = Some x" and "sec_id x = i"
proof -
  from assms(1) obtain u where u: "find (own_key env provider key) (queue s) = Some u" "uq_resolved u = Some i"
    and "i \<in> security_ids s"
    unfolding key_maps_def by blast
  from security_by_id_known [OF this(3)] obtain x where x: "security_by_id i s = Some x" "sec_id x = i"
    by blast
  with u assms(2,3) have "mapping env provider (Some key) s = Some x"
    by (simp add: mapping_def)
  with x show ?thesis
    using that by blast
qed

lemma mappingD:
  assumes "mapping env provider key s = Some x"
  shows "key_maps env provider (or_blank key) (sec_id x) s" and "x \<in> set (securities s)"
  using assms security_by_id_Some [of _ s x]
  by (auto simp: mapping_def key_maps_def security_ids_def truthy_def split: if_splits option.splits)

text \<open>A mapping survives every resolution, of whatever reference, however it ends.\<close>

lemma key_maps_kept:
  assumes maps: "key_maps env provider key i s" and "key \<noteq> []" and "i \<noteq> []"
  shows "key_maps env provider key i (snd (resolve_security_reference env' provider' r s))"
proof (cases "own_key env provider key = own_key env' provider' (or_blank (provider_identifier r)) \<and>
    truthy (provider_identifier r)")
  case True
  show ?thesis
  proof (cases "clean s")
    case cl: True
    from True obtain key' where key': "provider_identifier r = Some key'" "key' \<noteq> []"
      by (cases "provider_identifier r") auto
    with True maps have "key_maps env' provider' key' i s"
      by (simp add: key_maps_def)
    from mapping_of_key [OF this key'(2) assms(3)] obtain x
      where "mapping env' provider' (Some key') s = Some x" and "sec_id x = i" .
    with cl key' maps show ?thesis
      by (simp add: resolve_clean key_maps_def) (simp add: enrich_row_def)
  qed (use True maps in \<open>simp add: resolve_dirty\<close>)
next
  case False
  show ?thesis
  proof (cases "truthy (provider_identifier r)")
    case True
    let ?other = "own_key env' provider' (or_blank (provider_identifier r))"
    let ?s' = "snd (resolve_security_reference env' provider' r s)"
    have apart: "own_key env provider key u \<Longrightarrow> \<not> ?other u" for u
      using False True by (auto simp: own_key_def fun_eq_iff)
    have "filter (\<lambda>u. \<not> ?other u) (queue ?s') = filter (\<lambda>u. \<not> ?other u) (queue s)"
      using queue_frame [of env' provider' r] by (simp add: quiet_def)
    then have "find (own_key env provider key) (queue ?s') = find (own_key env provider key) (queue s)"
      using find_filter [of "own_key env provider key" "\<lambda>u. \<not> ?other u"] apart by metis
    with maps show ?thesis
      using security_ids_grow [of s env' provider' r] by (auto simp: key_maps_def)
  qed (use maps in \<open>simp add: resolve_keyless\<close>)
qed

lemma queue_run:
  assumes "queue_unresolved_security env provider r resolved how s = (Inr k, s')" and "truthy (provider_identifier r)"
  shows "s' = upsert_queued env provider (or_blank (provider_identifier r)) r resolved how s" and "k = provider_identifier r"
  using assms
  by (auto simp: queue_unresolved_security_def flush_def add_row_def andthen_def change_def give_def split: if_splits)

lemma find_append_None: "find P us = None \<Longrightarrow> find P (us @ [v]) = (if P v then Some v else None)"
  by (induction us) (auto split: if_splits)

lemma find_upsert_queued:
  "find (own_key env provider key) (queue (upsert_queued env provider key r resolved how s)) \<noteq> None \<and>
   (\<forall>u. find (own_key env provider key) (queue (upsert_queued env provider key r resolved how s)) = Some u \<longrightarrow>
      uq_resolved u = resolved)"
proof (cases "list_ex (own_key env provider key) (queue s)")
  case True
  have "list_ex P us \<Longrightarrow> (\<And>u. P (f u) = P u) \<Longrightarrow> \<exists>v. find P (update_rows P f us) = Some (f v)"
    for P and f :: "queued \<Rightarrow> queued" and us
    by (induction us) (auto simp: update_rows_def)
  from this [OF True, of "describe r resolved how"] True show ?thesis
    by (auto simp: upsert_queued_def own_key_def describe_def)
next
  case False
  then have "find (own_key env provider key) (queue s) = None"
    by (simp add: find_None_iff list_ex_iff)
  from find_append_None [OF this] False show ?thesis
    by (simp add: upsert_queued_def own_key_def describe_def blank_queued_def)
qed

lemma key_of_external: "truthy (r_external r) \<Longrightarrow> provider_identifier r = r_external r"
  by (simp add: provider_identifier_def or_else_def)

lemma andthen_InrE:
  assumes "andthen m k s = (Inr y, s2)"
  obtains x s1 where "m s = (Inr x, s1)" and "k x s1 = (Inr y, s2)"
  using assms by (auto elim: andthen_cases)

lemma link_maps:
  assumes link: "link_security env provider r how x s = (Inr res, s1)" and ext: "truthy (r_external r)"
    and x: "sec_id x \<in> security_ids s"
  shows "key_maps env provider (or_blank (r_external r)) (sec_id x) s1 \<and> res = (Some x, None)"
proof -
  let ?key = "or_blank (r_external r)"
  from link ext obtain k t where q: "queue_unresolved_security env provider r (Some (sec_id x)) (Some how) s = (Inr k, t)"
    and "andthen (upsert_listing x r) (\<lambda>_. give (Some x, None)) t = (Inr res, s1)"
    unfolding link_security_def by (simp add: andthen_def split: prod.splits sum.splits)
  from this(2) obtain t' where l: "upsert_listing x r t = (Inr (), t')" and res: "res = (Some x, None)" "s1 = t'"
    by (auto elim: andthen_InrE simp: give_def)
  have t: "t = upsert_queued env provider ?key r (Some (sec_id x)) (Some how) s"
    using queue_run(1) [OF q] ext by (simp add: key_of_external)
  have "quiet queue (upsert_listing x r)" and "quiet securities (upsert_listing x r)"
    by (rule quiet_listing, simp)+
  with l have "queue t' = queue t" and "securities t' = securities t"
    unfolding quiet_def by (metis snd_conv)+
  with find_upsert_queued [of env provider ?key r "Some (sec_id x)" "Some how" s] x res show ?thesis
    by (auto simp: key_maps_def security_ids_def t)
qed

lemma insert_run:
  assumes "insert_security env r s = (Inr x, t)"
  shows "x = new_security (me_uuid env (drawn s)) r" and "t = s\<lparr>securities := securities s @ [x], drawn := Suc (drawn s)\<rparr>"
  using assms
  by (auto simp: insert_security_def add_row_def andthen_def change_def flush_def give_def Let_def split: if_splits)

text \<open>The ways in which a resolution finds an instrument.\<close>

lemma resolve_found:
  assumes run: "resolve_security_reference env provider r s = (Inr (Some x, None), s1)"
  obtains
    (mapped) y where "mapping env provider (provider_identifier r) s = Some y" "x = enrich_existing_security False r y"
      "s1 = enrich_row (sec_id y) r s"
  | (matched) "matching r (securities s) = [x]" "link_security env provider r (method_of r ''auto_ticker'') x s = (Inr (Some x, None), s1)"
  | (created) t where "matching r (securities s) = []" "insert_security env r s = (Inr x, t)"
      "link_security env provider r (method_of r ''provider_instrument'') x t = (Inr (Some x, None), s1)"
proof -
  have cl: "clean s" and "truthy (provider_identifier r)"
    using run resolve_dirty [of s r env provider] resolve_keyless [of r env provider s] by fastforce+
  have leave: "leave_unresolved env provider r s \<noteq> (Inr (Some x, None), s1)"
    by (simp add: leave_unresolved_def andthen_def give_def split: prod.split sum.split)
  have link: "link_security env provider r how y t = (Inr (Some x, None), s1) \<Longrightarrow> y = x" for how y t
    by (auto simp: link_security_def andthen_def give_def split: prod.splits sum.splits if_splits)
  show ?thesis
  proof (cases "mapping env provider (provider_identifier r) s")
    case None
    with run cl leave have "case matching r (securities s) of
        [] \<Rightarrow> andthen (insert_security env r) (link_security env provider r (method_of r ''provider_instrument'')) s = (Inr (Some x, None), s1)
      | [y] \<Rightarrow> link_security env provider r (method_of r ''auto_ticker'') y s = (Inr (Some x, None), s1)
      | _ \<Rightarrow> False"
      by (auto simp: resolve_clean split: list.splits if_splits)
    then show ?thesis
      using link that(2,3) by (auto split: list.splits elim!: andthen_InrE)
  qed (use run cl that(1) in \<open>auto simp: resolve_clean\<close>)
qed

lemma resolve_maps:
  assumes run: "resolve_security_reference env provider r s = (Inr (Some x, None), s1)" and ext: "truthy (r_external r)"
  shows "key_maps env provider (or_blank (r_external r)) (sec_id x) s1"
  using run
proof (cases rule: resolve_found)
  case (mapped y)
  then show ?thesis
    using mappingD(1) [OF mapped(1)] ext by (simp add: key_of_external key_maps_def) (simp add: enrich_row_def)
next
  case matched
  then have "sec_id x \<in> security_ids s"
    using matching_stored [of r "securities s"] by (auto simp: security_ids_def)
  from link_maps [OF matched(2) ext this] show ?thesis
    by simp
next
  case (created t)
  then have "sec_id x \<in> security_ids t"
    using insert_run(2) [OF created(2)] by (simp add: security_ids_def)
  from link_maps [OF created(3) ext this] show ?thesis
    by simp
qed

text \<open>A series of resolutions; one that fails is rolled back.\<close>

fun resolve_each :: "(master_env \<times> pystr \<times> security_reference) list \<Rightarrow> master \<Rightarrow> master" where
  "resolve_each [] s = s"
| "resolve_each ((env, provider, r) # jobs) s =
     resolve_each jobs (case resolve_security_reference env provider r s of (Inr _, t) \<Rightarrow> t | (Inl _, _) \<Rightarrow> s)"

lemma key_maps_each:
  "key_maps env provider key i s \<Longrightarrow> key \<noteq> [] \<Longrightarrow> i \<noteq> [] \<Longrightarrow> key_maps env provider key i (resolve_each jobs s)"
proof (induction jobs s rule: resolve_each.induct)
  case (2 env' provider' r jobs s)
  let ?res = "resolve_security_reference env' provider' r s"
  have "key_maps env provider key i (case ?res of (Inr _, t) \<Rightarrow> t | (Inl _, _) \<Rightarrow> s)"
    using key_maps_kept [OF 2(2,3,4), of env' provider' r] 2(2) by (auto split: prod.split sum.split)
  with 2 show ?case
    by simp
qed simp

subsection \<open>Candidates without rivals\<close>

definition has_isin :: "security_reference \<Rightarrow> security \<Rightarrow> bool" where
  "has_isin r z \<longleftrightarrow> truthy (r_isin r) \<and> sec_isin z = map_option upper (r_isin r)"

definition has_figi :: "security_reference \<Rightarrow> security \<Rightarrow> bool" where
  "has_figi r z \<longleftrightarrow> truthy (r_figi r) \<and> sec_figi z = map_option upper (r_figi r)"








lemma matching_Nil:
  assumes "matching r xs = []" and "z \<in> set xs"
  shows "\<not> has_isin r z" and "\<not> has_figi r z" and "names_ticker r \<Longrightarrow> \<not> alias_of r z"
proof -
  have "by_isin r xs = []" "by_figi r xs = []" "by_alias r xs = []"
    using assms(1) by (auto simp: matching_def first_nonempty_def split: if_splits)
  with assms(2) show "\<not> has_isin r z" "\<not> has_figi r z" "names_ticker r \<Longrightarrow> \<not> alias_of r z"
    by (auto simp: by_isin_def by_figi_def by_alias_def has_isin_def has_figi_def prefer_currency_def filter_empty_conv
        split: if_splits)
qed

subsection \<open>What the database accepts\<close>

definition unused :: "master_env \<Rightarrow> master \<Rightarrow> bool" where
  "unused env s \<longleftrightarrow> (\<forall>n \<ge> drawn s. me_uuid env n \<notin> security_ids s \<and> me_uuid env n \<notin> set (map uq_id (queue s)))"

definition reference_fits :: "pystr \<Rightarrow> security_reference \<Rightarrow> bool" where
  "reference_fits provider r \<longleftrightarrow> length provider \<le> 64 \<and> width 256 (r_external r) \<and> width 12 (r_isin r) \<and>
     width 16 (r_figi r) \<and> width 32 (r_ticker r) \<and> width 512 (r_name r) \<and> width 3 (r_currency r)"

lemma width_simps [simp]: "width n None" "width n (Some v) \<longleftrightarrow> length v \<le> n"
  by (simp_all add: width_def)

lemma width_or_blank: "width n v \<longleftrightarrow> length (or_blank v) \<le> n"
  by (cases v) simp_all

lemma width_weaken: "width m v \<Longrightarrow> m \<le> n \<Longrightarrow> width n v"
  by (cases v) simp_all

lemma width_or_else: "width n a \<Longrightarrow> width n b \<Longrightarrow> width n (or_else a b)"
  by (simp add: or_else_def)

lemma refers_simps [simp]: "refers ids None" "refers ids (Some i) \<longleftrightarrow> i \<in> ids"
  by (simp_all add: refers_def)

lemma refers_mono: "ids \<subseteq> ids' \<Longrightarrow> refers ids v \<Longrightarrow> refers ids' v"
  by (cases v) auto

lemma length_upper [simp]: "length (upper v) = length v"
  by (simp add: upper_def)

lemma width_upper [simp]: "width n (map_option upper v) \<longleftrightarrow> width n v"
  by (cases v) simp_all

lemma length_or_blank_upper [simp]: "length (or_blank (map_option upper v)) = length (or_blank v)"
  by (cases v) simp_all

lemma length_strip_le: "length (strip v) \<le> length v"
  unfolding strip_def by (metis length_rev length_dropWhile_le order_trans)

lemma list_all_update_rows:
  "list_all Q us \<Longrightarrow> (\<And>u. Q u \<Longrightarrow> P u \<Longrightarrow> Q (f u)) \<Longrightarrow> list_all Q (update_rows P f us)"
  by (induction us) (auto simp: update_rows_def)

lemma unique_snoc:
  "unique column (xs @ [x]) \<longleftrightarrow> unique column xs \<and> (column x \<noteq> None \<longrightarrow> column x \<notin> column ` set xs)"
  by (induction xs) (auto simp: unique_def List.map_filter_def image_iff split: option.splits)

lemma unique_update_rows: "(\<And>x. column (f x) = column x) \<Longrightarrow> unique column (update_rows P f xs) = unique column xs"
proof -
  assume "\<And>x. column (f x) = column x"
  then have "List.map_filter column (update_rows P f xs) = List.map_filter column xs"
    by (induction xs) (auto simp: update_rows_def List.map_filter_def)
  then show ?thesis
    by (simp add: unique_def)
qed

lemma clean_upsert_queued:
  assumes s: "clean s" "me_uuid env (drawn s) \<notin> set (map uq_id (queue s))" and r: "reference_fits provider r"
    and key: "length key \<le> 256" and ids: "refers (security_ids s) resolved" and how: "width 32 how"
  shows "clean (upsert_queued env provider key r resolved how s)"
proof (cases "list_ex (own_key env provider key) (queue s)")
  case True
  let ?us = "update_rows (own_key env provider key) (describe r resolved how) (queue s)"
  have maps: "map uq_id ?us = map uq_id (queue s)" "map queue_key ?us = map queue_key (queue s)"
    by (rule keys_update_rows, simp add: describe_def queue_key_def)+
  have "list_all queued_fits ?us" "list_all (\<lambda>u. refers (security_ids s) (uq_resolved u)) ?us"
    using s r ids how by (auto intro!: list_all_update_rows simp: clean_def queue_ok_def queued_fits_def describe_def reference_fits_def
        dest: width_weaken [of 32 "r_ticker r" 64])
  with s True show ?thesis
    by (simp add: upsert_queued_def clean_def queue_ok_def security_ids_def maps del: set_map)
next
  case False
  let ?u = "describe r resolved how (blank_queued (me_uuid env (drawn s)) (Some (me_tenant env)) provider key)"
  have "queued_fits ?u" "refers (security_ids s) (uq_resolved ?u)"
    using r ids how key by (auto simp: queued_fits_def describe_def blank_queued_def reference_fits_def
        dest: width_weaken [of 32 "r_ticker r" 64])
  moreover have "uq_id ?u \<notin> set (map uq_id (queue s))"
    using s(2) by (simp add: describe_def blank_queued_def del: set_map)
  moreover have "queue_key ?u \<notin> set (map queue_key (queue s))"
    using False by (auto simp: list_ex_iff own_key_def queue_key_def describe_def blank_queued_def)
  moreover have "audits_ok (security_ids s) (set (map uq_id (queue s @ [?u]))) (audits s)"
    using s(1) by (auto simp: clean_def audits_ok_def list_all_iff intro: refers_mono)
  ultimately show ?thesis
    using s False by (simp add: upsert_queued_def clean_def queue_ok_def security_ids_def)
qed

lemma venue_and_ticker_short: "width 32 (r_ticker r) \<Longrightarrow> venue_and_ticker r = (mic, ticker) \<Longrightarrow> length ticker \<le> 32"
proof -
  let ?t = "upper (strip (or_blank (r_ticker r)))"
  assume w: "width 32 (r_ticker r)" and v: "venue_and_ticker r = (mic, ticker)"
  have t: "length ?t \<le> 32"
    using w length_strip_le [of "or_blank (r_ticker r)"] by (simp add: width_or_blank)
  moreover have "length (fst (rsplit_colon u)) \<le> length u" for u
    using length_dropWhile_le [of "\<lambda>c. c \<noteq> CHR '':''" "rev u"] by (simp add: rsplit_colon_def)
  from this [of ?t] v t show "length ticker \<le> 32"
    by (auto simp: venue_and_ticker_def Let_def split: prod.splits if_splits)
qed

lemma upsert_listing_clean:
  assumes s: "clean s" and x: "sec_id x \<in> security_ids s" and r: "width 32 (r_ticker r)"
  shows "\<exists>t. upsert_listing x r s = (Inr (), t) \<and> clean t"
proof -
  obtain mic ticker where v: "venue_and_ticker r = (mic, ticker)"
    by fastforce
  have ticker: "length ticker \<le> 32"
    by (rule venue_and_ticker_short [OF r v])
  let ?c = "listing_currency x r" and ?key = "(sec_id x, mic, listing_currency x r)"
  let ?row = "\<lparr>ls_security = sec_id x, ls_mic = mic, ls_exchange = None, ls_ticker = ticker, ls_currency = ?c, ls_primary = True\<rparr>"
  let ?f = "\<lambda>l. l\<lparr>ls_ticker := ticker, ls_primary := True\<rparr>"
  let ?old = "update_rows (\<lambda>l. listing_key l = ?key) ?f (listings s)"
  have ls: "listings_ok (security_ids s) (listings s)"
    using s by (simp add: clean_def)
  have maps: "map listing_key ?old = map listing_key (listings s)" "map ls_security ?old = map ls_security (listings s)"
    by (rule keys_update_rows, simp add: listing_key_def)+
  have "list_all listing_fits ?old"
    using ls ticker by (auto intro!: list_all_update_rows simp: listings_ok_def listing_fits_def)
  with ls maps have old: "listings_ok (security_ids s) ?old"
    unfolding listings_ok_def by (metis set_map)
  have new: "listings_ok (security_ids s) (listings s @ [?row])"
    if "\<not> list_ex (\<lambda>l. listing_key l = ?key) (listings s)" "length mic = 4" "length ?c = 3"
    using that ls ticker x by (auto simp: listings_ok_def listing_fits_def listing_key_def list_ex_iff)
  from s old new show ?thesis
    by (auto simp: upsert_listing_def v Let_def give_def andthen_def query_clean change_def clean_def security_ids_def)
qed

lemma new_security_fits: "reference_fits provider r \<Longrightarrow> security_fits (new_security i r)"
proof -
  assume r: "reference_fits provider r"
  have name: "width 512 (or_else (or_else (or_else (r_name r) (r_ticker r)) (r_isin r)) (r_figi r))"
    using r by (intro width_or_else) (auto simp: reference_fits_def elim: width_weaken)
  have type: "type \<in> set security_types \<Longrightarrow> length type \<le> 64" for type
    by (auto simp: security_types_def)
  from r name type show ?thesis
    by (auto simp: security_fits_def new_security_def Let_def reference_fits_def width_or_blank)
qed

lemma clean_insert:
  assumes s: "clean s" "unused env s" and r: "reference_fits provider r" and none: "matching r (securities s) = []"
  shows "clean (s\<lparr>securities := securities s @ [new_security (me_uuid env (drawn s)) r], drawn := Suc (drawn s)\<rparr>)"
proof -
  let ?x = "new_security (me_uuid env (drawn s)) r"
  have x: "security_fits ?x"
    by (rule new_security_fits [OF r])
  have "sec_id ?x \<notin> security_ids s"
    using s(2) by (simp add: unused_def)
  moreover have "sec_isin ?x \<noteq> None \<longrightarrow> sec_isin ?x \<notin> sec_isin ` set (securities s)"
    using matching_Nil(1) [OF none] unfolding has_isin_def by (simp add: new_security_def Let_def image_iff) metis
  moreover have "sec_figi ?x \<noteq> None \<longrightarrow> sec_figi ?x \<notin> sec_figi ` set (securities s)"
    using matching_Nil(2) [OF none] unfolding has_figi_def by (simp add: new_security_def Let_def image_iff) metis
  moreover have "sec_cusip ?x = None"
    by (simp add: new_security_def Let_def)
  ultimately have "securities_ok (securities s @ [?x])"
    using s(1) x unfolding clean_def securities_ok_def by (simp add: unique_snoc security_ids_def)
  moreover have "listings_ok (insert i ids) ls" if "listings_ok ids ls" for i ids ls
    using that by (auto simp: listings_ok_def)
  moreover have "queue_ok (insert i ids) us" if "queue_ok ids us" for i ids us
    using that by (auto simp: queue_ok_def list_all_iff intro: refers_mono)
  moreover have "audits_ok (insert i ids) uqs es" if "audits_ok ids uqs es" for i ids uqs es
    using that by (auto simp: audits_ok_def list_all_iff)
  ultimately show ?thesis
    using s(1) by (simp add: clean_def security_ids_def)
qed

lemma clean_enrich_row:
  assumes s: "clean s" and r: "reference_fits provider r"
    and figi: "\<And>x. x \<in> set (securities s) \<Longrightarrow> sec_id x = i \<Longrightarrow> truthy (sec_figi x) \<or> \<not> truthy (r_figi r)"
  shows "clean (enrich_row i r s)"
proof -
  let ?f = "\<lambda>x. if sec_id x = i then enrich_existing_security False r x else x"
  let ?xs = "map ?f (securities s)"
  have same: "sec_id (?f x) = sec_id x" "sec_isin (?f x) = sec_isin x" "sec_cusip (?f x) = sec_cusip x" for x
    by (simp_all add: enrich_existing_security_def)
  have figi': "sec_figi (?f x) = sec_figi x" if "x \<in> set (securities s)" for x
    using figi [OF that] by (auto simp: enrich_existing_security_def)
  have "security_fits (?f x)" if "x \<in> set (securities s)" for x
  proof -
    have "security_fits x"
      using s that by (auto simp: clean_def securities_ok_def list_all_iff)
    moreover have "length (strip (or_blank (r_ticker r))) \<le> 32" "length (strip (or_blank (r_name r))) \<le> 512"
        "length (or_blank (r_currency r)) \<le> 3"
      using r by (auto simp: reference_fits_def width_or_blank intro: order_trans [OF length_strip_le])
    ultimately show ?thesis
      using same figi' [OF that] by (auto simp: security_fits_def enrich_existing_security_def)
  qed
  moreover have "List.map_filter col (map ?f xs) = List.map_filter col xs" if "\<And>x. x \<in> set xs \<Longrightarrow> col (?f x) = col x"
    for col :: "security \<Rightarrow> pystr option" and xs
    using that by (induction xs) (auto simp: List.map_filter_def)
  moreover have "map sec_id ?xs = map sec_id (securities s)"
    using same(1) by simp
  ultimately have "securities_ok ?xs"
    using s same(2,3) figi' unfolding clean_def securities_ok_def unique_def list_all_iff
    by (metis (no_types, lifting) imageE list.set_map)
  moreover have "?xs = securities (enrich_row i r s)"
    by (simp add: enrich_row_def update_rows_def)
  ultimately show ?thesis
    using s security_ids_enrich_row [of i r s] by (simp add: clean_def) (simp add: enrich_row_def)
qed

lemma queue_clean:
  assumes s: "clean s" "me_uuid env (drawn s) \<notin> set (map uq_id (queue s))" and r: "reference_fits provider r"
    and ids: "refers (security_ids s) resolved" and how: "width 32 how"
  shows "\<exists>k t. queue_unresolved_security env provider r resolved how s = (Inr k, t) \<and> clean t \<and>
    security_ids t = security_ids s"
proof (cases "truthy (provider_identifier r)")
  case True
  have "width 256 (provider_identifier r)"
    unfolding provider_identifier_def using r
    by (intro width_or_else) (auto simp: reference_fits_def elim: width_weaken)
  then have "length (or_blank (provider_identifier r)) \<le> 256"
    by (simp add: width_or_blank)
  from clean_upsert_queued [OF s r this ids how] show ?thesis
    using s(1) True by (auto simp: queue_unresolved_security_def andthen_def flush_def add_row_def change_def give_def
        security_ids_def)
qed (use s(1) in \<open>auto simp: queue_unresolved_security_def give_def\<close>)

lemma link_clean:
  assumes s: "clean s" "me_uuid env (drawn s) \<notin> set (map uq_id (queue s))" and r: "reference_fits provider r"
    and x: "sec_id x \<in> security_ids s" and how: "length how \<le> 32"
  shows "\<exists>t. link_security env provider r how x s = (Inr (Some x, None), t) \<and> clean t"
proof -
  have "\<exists>k u. (if truthy (r_external r) then queue_unresolved_security env provider r (Some (sec_id x)) (Some how) else give None) s =
      (Inr k, u) \<and> clean u \<and> security_ids u = security_ids s"
    using queue_clean [OF s r, of "Some (sec_id x)" "Some how"] x how s(1) by (auto simp: give_def)
  then obtain k u where q: "(if truthy (r_external r) then queue_unresolved_security env provider r (Some (sec_id x)) (Some how)
      else give None) s = (Inr k, u)" and u: "clean u" "security_ids u = security_ids s"
    by blast
  have "width 32 (r_ticker r)"
    using r by (simp add: reference_fits_def)
  with upsert_listing_clean [OF u(1) _ this] u(2) x obtain t where "upsert_listing x r u = (Inr (), t)" "clean t"
    by auto
  with q show ?thesis
    unfolding link_security_def by (simp add: andthen_def give_def)
qed

lemma leave_clean:
  assumes s: "clean s" "me_uuid env (drawn s) \<notin> set (map uq_id (queue s))" and r: "reference_fits provider r"
  shows "\<exists>k t. leave_unresolved env provider r s = (Inr (None, k), t) \<and> clean t"
  using queue_clean [OF s r, of None None] by (auto simp: leave_unresolved_def andthen_def give_def)

subsection \<open>Properties\<close>

text \<open>
  C32. Once an instrument with an identifier of its provider has been resolved, the mapping is
  stable: after any further resolutions by any tenant and provider, successful or rolled back, in a
  session the database accepts, the same tenant and provider get the same instrument for that
  identifier, whatever else the new reference says.
\<close>

theorem mapping_is_stable:
  assumes "resolve_security_reference env provider r s = (Inr (Some x, None), s1)"
    and "truthy (r_external r)" and "sec_id x \<noteq> []"
    and "clean (resolve_each jobs s1)"
    and "me_tenant env' = me_tenant env" and "provider_identifier r' = r_external r"
  shows "\<exists>y s2. resolve_security_reference env' provider r' (resolve_each jobs s1) = (Inr (Some y, None), s2) \<and>
    sec_id y = sec_id x"
proof -
  from assms(2) obtain key where key: "r_external r = Some key" "key \<noteq> []"
    by (cases "r_external r") auto
  have "key_maps env provider key (sec_id x) (resolve_each jobs s1)"
    using key_maps_each [OF resolve_maps [OF assms(1,2)]] key assms(3) by simp
  moreover have "own_key env' provider key = own_key env provider key"
    by (rule ext) (simp add: own_key_def assms(5))
  ultimately have "key_maps env' provider key (sec_id x) (resolve_each jobs s1)"
    by (simp add: key_maps_def)
  from mapping_of_key [OF this key(2) assms(3)] obtain y
    where "mapping env' provider (Some key) (resolve_each jobs s1) = Some y" and "sec_id y = sec_id x" .
  then show ?thesis
    using assms(4,6) key(1) by (simp add: resolve_clean)
qed






text \<open>
  C34. Resolving cannot fail, and leaves a session that the database accepts: if every text of the
  reference is as wide as the columns allow, fresh identifiers are unused and the session was clean,
  a result is returned, and the session is clean again, so an automatic creation or a mapping never
  collides with a stored ISIN, FIGI, listing or queue row. The exception is an instrument that was
  mapped, has no FIGI yet and is given the one of the reference.
\<close>

theorem resolution_cannot_fail:
  assumes s: "clean s" "unused env s" and r: "reference_fits provider r"
  shows "\<exists>res t. resolve_security_reference env provider r s = (Inr res, t) \<and>
    (clean t \<or> truthy (r_figi r) \<and> (\<exists>x \<in> set (securities s). \<not> truthy (sec_figi x) \<and>
       key_maps env provider (or_blank (provider_identifier r)) (sec_id x) s))"
proof -
  have fresh: "me_uuid env (drawn s) \<notin> set (map uq_id (queue s))"
    using s(2) by (simp add: unused_def del: set_map)
  have short: "length (method_of r v) \<le> 32" if "length v \<le> 32" for v
    using that by (simp add: method_of_def)
  show ?thesis
  proof (cases "mapping env provider (provider_identifier r) s")
    case (Some x)
    have one: "y = x" if "y \<in> set (securities s)" "sec_id y = sec_id x" for y
      using that mappingD(2) [OF Some] s(1) by (auto simp: clean_def securities_ok_def dest: distinct_key_eq)
    show ?thesis
    proof (cases "truthy (sec_figi x) \<or> \<not> truthy (r_figi r)")
      case True
      have "clean (enrich_row (sec_id x) r s)"
        by (rule clean_enrich_row [OF s(1) r]) (use one True in blast)
      then show ?thesis
        using s(1) Some by (simp add: resolve_clean)
    next
      case False
      then show ?thesis
        using s(1) Some mappingD [OF Some] by (auto simp: resolve_clean)
    qed
  next
    case None
    show ?thesis
    proof (cases "matching r (securities s)")
      case Nil
      let ?x = "new_security (me_uuid env (drawn s)) r"
      let ?t = "s\<lparr>securities := securities s @ [?x], drawn := Suc (drawn s)\<rparr>"
      have t: "clean ?t"
        by (rule clean_insert [OF s r Nil])
      have "me_uuid env (drawn ?t) \<notin> set (map uq_id (queue ?t))" and "sec_id ?x \<in> security_ids ?t"
        using s(2) by (simp_all add: unused_def security_ids_def del: set_map)
      from link_clean [OF t this(1) r this(2), of "method_of r ''provider_instrument''"] short obtain u
        where "link_security env provider r (method_of r ''provider_instrument'') ?x ?t = (Inr (Some ?x, None), u)" "clean u"
        by auto
      with t have "can_create r \<longrightarrow> (\<exists>res t. andthen (insert_security env r)
          (link_security env provider r (method_of r ''provider_instrument'')) s = (Inr res, t) \<and> clean t)"
        by (simp add: andthen_def insert_security_def add_row_def change_def flush_def give_def Let_def)
      then show ?thesis
        using None Nil leave_clean [OF s(1) fresh r] s(1) by (fastforce simp: resolve_clean)
    next
      case (Cons x xs)
      have "sec_id x \<in> security_ids s"
        using matching_stored [of r "securities s"] Cons by (auto simp: security_ids_def)
      from link_clean [OF s(1) fresh r this, of "method_of r ''auto_ticker''"] leave_clean [OF s(1) fresh r] short None Cons s(1)
      show ?thesis
        by (cases xs) (fastforce simp: resolve_clean)+
    qed
  qed
qed

text \<open>
  C4. What a resolution may change, however it ends. Queue rows of other tenants, providers and
  keys stay as they are. Every stored instrument stays, with its identifier, ISIN, CUSIP and type, and
  with the FIGI it has; its name and currency change only if the name is a placeholder (blank, or the
  ticker or the provider's identifier), and its ticker only if that is blank or the provider's
  identifier. At most one instrument is added, at the end.
\<close>

definition refined_by :: "security_reference \<Rightarrow> security \<Rightarrow> security \<Rightarrow> bool" where
  "refined_by r x y \<longleftrightarrow> sec_id y = sec_id x \<and> sec_isin y = sec_isin x \<and> sec_cusip y = sec_cusip x \<and> sec_type y = sec_type x \<and>
     (truthy (sec_figi x) \<longrightarrow> sec_figi y = sec_figi x) \<and>
     (casefold (strip (sec_name x)) \<notin>
        {[], casefold (strip (or_blank (r_external r))), casefold (strip (or_blank (sec_ticker x)))} \<longrightarrow>
      sec_name y = sec_name x \<and> sec_currency y = sec_currency x) \<and>
     (casefold (strip (or_blank (sec_ticker x))) \<notin> {[], casefold (strip (or_blank (r_external r)))} \<longrightarrow>
      sec_ticker y = sec_ticker x)"

theorem resolution_keeps_identities:
  fixes env provider r s
  defines "t \<equiv> snd (resolve_security_reference env provider r s)"
  shows "filter (\<lambda>u. (uq_tenant u, uq_provider u, uq_external u) \<noteq>
           (Some (me_tenant env), provider, or_blank (provider_identifier r))) (queue t) =
         filter (\<lambda>u. (uq_tenant u, uq_provider u, uq_external u) \<noteq>
           (Some (me_tenant env), provider, or_blank (provider_identifier r))) (queue s) \<and>
    (\<exists>xs new. securities t = xs @ new \<and> list_all2 (refined_by r) (securities s) xs \<and> length new \<le> 1)"
proof
  have "(\<lambda>u. \<not> own_key env provider key u) =
      (\<lambda>u. (uq_tenant u, uq_provider u, uq_external u) \<noteq> (Some (me_tenant env), provider, key))" for key
    by (auto simp: own_key_def)
  with queue_frame [of env provider r] show
    "filter (\<lambda>u. (uq_tenant u, uq_provider u, uq_external u) \<noteq>
       (Some (me_tenant env), provider, or_blank (provider_identifier r))) (queue t) =
     filter (\<lambda>u. (uq_tenant u, uq_provider u, uq_external u) \<noteq>
       (Some (me_tenant env), provider, or_blank (provider_identifier r))) (queue s)"
    by (simp add: quiet_def t_def)
next
  have refl: "list_all2 (refined_by r) (securities s) (securities s)"
    by (rule list_all2_refl) (simp add: refined_by_def)
  have step: "list_all2 (refined_by r) xs (update_rows P (enrich_existing_security False r) xs)" for P xs
    by (auto simp: update_rows_def list_all2_map2 enrich_existing_security_def refined_by_def placeholder_name_def
        intro!: list_all2_refl)
  show "\<exists>xs new. securities t = xs @ new \<and> list_all2 (refined_by r) (securities s) xs \<and> length new \<le> 1"
    using securities_after [of env provider r s] unfolding t_def [symmetric]
  proof (elim UnE insertE emptyE CollectE exE conjE)
    assume "securities t = securities s"
    with refl show ?thesis
      by (intro exI [of _ "securities s"] exI [of _ "[]"]) simp
  next
    assume "securities t = securities s @ [new_security (me_uuid env (drawn s)) r]"
    with refl show ?thesis
      by (intro exI [of _ "securities s"] exI [of _ "[new_security (me_uuid env (drawn s)) r]"]) simp
  next
    fix y
    assume "securities t = update_rows (\<lambda>x. sec_id x = sec_id y) (enrich_existing_security False r) (securities s)"
    with step show ?thesis
      by (intro exI [of _ "securities t"] exI [of _ "[]"]) simp
  qed
qed

end
