(* ===== verification/Security_Samples.thy ===== *)
theory Security_Samples
  imports Security_Resolution_Props
begin

text \<open>Instances of the properties of the resolution of references, and inputs the code does not handle.\<close>

definition master_sample :: master_env where
  "master_sample = \<lparr>me_tenant = ''t1'', me_uuid = (\<lambda>n. CHR ''u'' # replicate n CHR ''0'')\<rparr>"

definition no_master :: master where
  "no_master = \<lparr>securities = [], listings = [], queue = [], audits = [], drawn = 0\<rparr>"

definition bare_reference :: security_reference where
  "bare_reference = \<lparr>r_external = None, r_isin = None, r_figi = None, r_ticker = None, r_name = None, r_venue = None,
     r_currency = None, r_type = None, r_metadata = None\<rparr>"

definition broker_reference :: security_reference where
  "broker_reference = bare_reference\<lparr>r_external := Some ''A_EQ'', r_ticker := Some ''A_EQ'', r_name := Some ''Acme'',
     r_currency := Some ''EUR''\<rparr>"

definition isin_reference :: security_reference where
  "isin_reference = bare_reference\<lparr>r_isin := Some ''NL01'', r_figi := Some ''BBG1'', r_name := Some ''Beta''\<rparr>"

definition acme :: security where
  "acme = \<lparr>sec_id = ''u'', sec_isin = None, sec_figi = None, sec_cusip = None, sec_ticker = Some ''A_EQ'', sec_name = ''Acme'',
     sec_type = ''other'', sec_currency = ''EUR''\<rparr>"

definition acme_row :: queued where
  "acme_row = \<lparr>uq_id = ''u0'', uq_tenant = Some ''t1'', uq_provider = ''bunq'', uq_external = ''A_EQ'', uq_isin = None,
     uq_figi = None, uq_ticker = Some ''A_EQ'', uq_name = Some ''Acme'', uq_currency = Some ''EUR'', uq_metadata = None,
     uq_resolved = Some ''u'', uq_method = Some ''provider_instrument'', uq_notes = None\<rparr>"

definition acme_master :: master where
  "acme_master = \<lparr>securities = [acme], listings = [], queue = [acme_row], audits = [], drawn = 2\<rparr>"

lemma acme_resolved:
  "resolve_security_reference master_sample ''bunq'' broker_reference no_master = (Inr (Some acme, None), acme_master)"
  by code_simp

lemma mapping_is_stable_witness:
  "\<exists>y s2. resolve_security_reference master_sample ''bunq'' (isin_reference\<lparr>r_external := Some ''A_EQ''\<rparr>)
     (resolve_each [(master_sample\<lparr>me_tenant := ''t2''\<rparr>, ''bunq'', isin_reference)] acme_master) = (Inr (Some y, None), s2) \<and>
   sec_id y = ''u''"
proof -
  have "clean (resolve_each [(master_sample\<lparr>me_tenant := ''t2''\<rparr>, ''bunq'', isin_reference)] acme_master)"
    by code_simp
  from mapping_is_stable [OF acme_resolved _ _ this, of master_sample "isin_reference\<lparr>r_external := Some ''A_EQ''\<rparr>"]
  show ?thesis
    by (simp add: broker_reference_def bare_reference_def isin_reference_def acme_def master_sample_def provider_identifier_def
        or_else_def)
qed



lemma resolution_cannot_fail_witness:
  "\<exists>res t. resolve_security_reference master_sample ''bunq'' broker_reference no_master = (Inr res, t) \<and> clean t"
proof -
  have "clean no_master" and "reference_fits ''bunq'' broker_reference"
    by code_simp+
  moreover have "unused master_sample no_master"
    by (simp add: unused_def no_master_def security_ids_def)
  ultimately show ?thesis
    using resolution_cannot_fail [of no_master master_sample "''bunq''" broker_reference]
    by (simp add: broker_reference_def bare_reference_def)
qed

subsection \<open>Inputs the code does not handle\<close>

text \<open>
  A code of thirteen characters in the FIGI field, which the reference allows, is stored as no FIGI,
  so without an identifier of the provider every sync creates the instrument again.
\<close>

lemma long_figi_creates_again:
  "map sec_figi (securities (resolve_each
     (replicate 3 (master_sample, ''t212'', bare_reference\<lparr>r_figi := Some ''US0378331005_''\<rparr>)) no_master)) = [None, None, None]"
  by code_simp

text \<open>A ticker the reference allows (up to 64 characters) but the column does not fails the session.\<close>

lemma wide_ticker_refused:
  "fst (resolve_security_reference master_sample ''t212''
     (bare_reference\<lparr>r_isin := Some ''NL01'', r_ticker := Some (replicate 33 (CHR ''A''))\<rparr>) no_master) = Inl Refused"
  by code_simp

text \<open>
  The FIGI of a reference is filled in on a mapped instrument without asking whether another
  instrument has it; the next query of the session is refused.
\<close>

definition acme_by_figi :: security_reference where
  "acme_by_figi = broker_reference\<lparr>r_figi := Some ''BBG1''\<rparr>"

definition beta :: security where
  "beta = acme\<lparr>sec_id := ''b'', sec_figi := Some ''BBG1'', sec_ticker := None, sec_name := ''Beta''\<rparr>"

lemma figi_fill_collides:
  "clean (acme_master\<lparr>securities := [acme, beta]\<rparr>)"
  "\<not> securities_ok (securities (enrich_row ''u'' acme_by_figi (acme_master\<lparr>securities := [acme, beta]\<rparr>)))"
  by code_simp+

text \<open>The underscore of a broker's ticker is a wildcard of the pattern for its aliases.\<close>

lemma underscore_matches_any:
  "alias_of broker_reference (acme\<lparr>sec_ticker := Some ''AXEQ:XAMS''\<rparr>)"
  by code_simp

end
