(* ===== verification/Security_Identity_Props.thy ===== *)
theory Security_Identity_Props
  imports Security_Identity Security_Samples
begin

text \<open>
  The mapping of an operator is honoured by every later sync, changes nothing else, and the counts of
  the pipeline are those of the audit; and what the routes and the pipeline get wrong.
\<close>

subsection \<open>Steps that returned\<close>

lemma flush_Inr: "flush s = (Inr u, s1) \<Longrightarrow> clean s \<and> s1 = s"
  by (auto simp: flush_def split: if_splits)

lemma query_Inr: "query f s = (Inr x, s1) \<Longrightarrow> clean s \<and> s1 = s \<and> x = f s"
  by (auto simp: query_def andthen_def flush_def split: if_splits)

lemma add_row_Inr: "add_row f s = (Inr u, s1) \<Longrightarrow> s1 = f s \<and> clean s1"
  by (auto simp: add_row_def andthen_def change_def flush_def split: if_splits)

lemma settle_queued_Inr:
  assumes "settle_queued tenant actor now target source detail notes u s = (Inr r, s1)"
  shows "r = Some (manual_audit tenant actor now target source detail u)"
    and "s1 = s\<lparr>queue := put_row uq_id (resolve_row target notes u) (queue s),
                 audits := audits s @ [manual_audit tenant actor now target source detail u]\<rparr>"
    and "clean s1"
  using assms
  by (auto simp: settle_queued_def store_queued_def add_audit_def Let_def give_def elim!: andthen_InrE dest!: add_row_Inr)

lemma manually_resolve_Inr:
  assumes "manually_resolve (Some tenant) actor now item target notes s = (Inr r, s1)"
  obtains (missing) "r = None" "s1 = s" "clean s"
      "find (\<lambda>u. uq_id u = item \<and> uq_tenant u = Some tenant) (queue s) = None \<or> target \<notin> security_ids s"
  | (settled) u source detail where "find (\<lambda>u. uq_id u = item \<and> uq_tenant u = Some tenant) (queue s) = Some u"
      "target \<in> security_ids s" "r = Some (manual_audit (Some tenant) actor now target source detail u)"
      "s1 = s\<lparr>queue := put_row uq_id (resolve_row target notes u) (queue s), audits := audits s @ [the r]\<rparr>"
      "clean s" "clean s1"
proof (cases "find (\<lambda>u. uq_id u = item \<and> uq_tenant u = Some tenant) (queue s)")
  case None
  with assms missing show ?thesis
    by (auto simp: manually_resolve_def find_queued_def give_def elim!: andthen_InrE dest!: query_Inr)
next
  case (Some u)
  show ?thesis
  proof (cases "security_by_id target s")
    case None
    then have "target \<notin> security_ids s"
      using security_by_id_known by fastforce
    with assms Some None missing show ?thesis
      by (auto simp: manually_resolve_def find_queued_def give_def elim!: andthen_InrE dest!: query_Inr)
  next
    case (Some x)
    then have "target \<in> security_ids s"
      using security_by_id_Some by (fastforce simp: security_ids_def)
    moreover obtain source detail where "clean s" and
      run: "settle_queued (Some tenant) actor now target source detail notes u s = (Inr r, s1)"
      using assms \<open>find _ _ = Some u\<close> Some
      by (auto simp: manually_resolve_def find_queued_def elim!: andthen_InrE dest!: query_Inr)
    ultimately show ?thesis
      using settled \<open>find _ _ = Some u\<close> settle_queued_Inr [OF run] by auto
  qed
qed

lemma settled_maps:
  assumes u: "find (\<lambda>u. uq_id u = item \<and> uq_tenant u = Some tenant) (queue s) = Some u"
    and target: "target \<in> security_ids s" and env: "me_tenant env = tenant"
    and s1: "s1 = s\<lparr>queue := put_row uq_id (resolve_row target notes u) (queue s), audits := es\<rparr>" and cl: "clean s1"
  shows "key_maps env (uq_provider u) (uq_external u) target s1"
proof -
  let ?v = "resolve_row target notes u" and ?own = "own_key env (uq_provider u) (uq_external u)"
  have u': "u \<in> set (queue s)" "uq_tenant u = Some tenant"
    using u by (auto simp: find_Some_iff)
  have "?v \<in> set (queue s1)"
    unfolding s1 using u'(1) by (simp add: put_row_self resolve_row_def)
  moreover have "?own ?v"
    using u'(2) env by (simp add: own_key_def resolve_row_def)
  ultimately obtain w where w: "find ?own (queue s1) = Some w"
    by (cases "find ?own (queue s1)") (auto simp: find_None_iff)
  then have "w \<in> set (queue s1)" "?own w"
    by (auto simp: find_Some_iff)
  moreover have "distinct (map queue_key (queue s1))"
    using cl by (simp add: clean_def queue_ok_def)
  ultimately have "w = ?v"
    using \<open>?v \<in> set (queue s1)\<close> \<open>?own ?v\<close> by (intro distinct_key_eq [of queue_key]) (auto simp: own_key_def queue_key_def)
  with w target show ?thesis
    by (simp add: key_maps_def resolve_row_def s1 security_ids_def)
qed

subsection \<open>The pipeline and the audit\<close>

lemma quiet_gateway: "(\<And>n s. view (s\<lparr>drawn := n\<rparr>) = view s) \<Longrightarrow> quiet view (gateway_resolve env gw i k)"
  by (auto simp: quiet_def gateway_resolve_def give_def split: option.split)

lemma quiet_prod: "(\<And>x y. quiet view (f x y)) \<Longrightarrow> quiet view (case z of (x, y) \<Rightarrow> f x y)"
  by (cases z) simp

lemma quiet_dep: "(\<And>t. quiet view (m t)) \<Longrightarrow> quiet view (\<lambda>s. m s s)"
  by (simp add: quiet_def)

lemma quiet_local:
  "quiet view (find_local P f)" "quiet view (by_listing t g)"
  unfolding find_local_def by_listing_def by (intro quiet_andthen quiet_session quiet_pure)+

lemma quiet_orelse: "quiet view m \<Longrightarrow> quiet view n \<Longrightarrow> quiet view (orelse m n)"
  unfolding orelse_def by (intro quiet_andthen quiet_option quiet_pure)

lemma quiet_lookups:
  assumes "\<And>n s. view (s\<lparr>drawn := n\<rparr>) = view s"
  shows "quiet view (resolve_by_isin env gw i)" "quiet view (resolve_by_figi env gw i)" "quiet view (resolve_by_ticker env gw i)"
    "quiet view (stage_1_exact_isin env gw d)" "quiet view (stage_2_figi_ticker env gw d)"
proof -
  show by_id: "quiet view (resolve_by_isin env gw i)" "quiet view (resolve_by_figi env gw i)"
    "quiet view (resolve_by_ticker env gw i)" for i
    unfolding resolve_by_isin_def resolve_by_figi_def resolve_by_ticker_def local_or_gateway_def
    by (intro quiet_andthen quiet_option quiet_local quiet_pure quiet_gateway assms)+
  show "quiet view (stage_1_exact_isin env gw d)" "quiet view (stage_2_figi_ticker env gw d)"
    unfolding stage_1_exact_isin_def stage_2_figi_ticker_def Let_def
    by (intro quiet_if quiet_andthen quiet_orelse quiet_local quiet_pure by_id)+
qed

lemma quiet_fuzzy: "quiet audits (stage_3_fuzzy_name env gw d)"
proof -
  have "quiet audits (upsert_canonical_security env type v)" for type v
    unfolding upsert_canonical_security_def by (intro quiet_andthen quiet_if quiet_session quiet_pure quiet_add_row) simp
  then show ?thesis
    unfolding stage_3_fuzzy_name_def Let_def
    by (intro quiet_if quiet_andthen quiet_session quiet_pure quiet_prod quiet_option quiet_gateway) simp_all
qed

lemma quiet_enqueue: "quiet audits (stage_4_enqueue env tenant provider d)"
proof -
  have master_step: "quiet audits (store_queued v)" "quiet audits (append_queued v)" for v
    unfolding store_queued_def append_queued_def by (rule quiet_add_row, simp)+
  have "quiet audits (\<lambda>s. andthen (lift_exn (new_queued (me_uuid env (drawn s)) tenant provider d))
      (\<lambda>v. andthen (append_queued v) (\<lambda>_. give v)) s)"
    by (rule quiet_dep) (intro quiet_andthen quiet_pure master_step)
  then show ?thesis
    unfolding stage_4_enqueue_def by (intro quiet_andthen quiet_option quiet_session quiet_pure master_step)
qed

definition recorded :: "verdict \<Rightarrow> nat" where
  "recorded v = (if v = Manual_queue then 0 else 1)"

lemma audited: "(audit_resolution tenant actor now how v s) = (Inr u, s1) \<Longrightarrow> length (audits s1) = Suc (length (audits s))"
  by (auto simp: audit_resolution_def add_audit_def dest!: add_row_Inr)

lemma quietD: "quiet view m \<Longrightarrow> m s = (r, s1) \<Longrightarrow> view s1 = view s"
  unfolding quiet_def by (metis snd_conv)

lemma process_instrument_audits:
  assumes "process_instrument env gw tenant actor now provider d s = (Inr v, s1)"
  shows "length (audits s1) = length (audits s) + recorded v"
proof -
  have st12: "quiet audits (stage_1_exact_isin env gw d)" "quiet audits (stage_2_figi_ticker env gw d)" for d
    by (rule quiet_lookups, simp)+
  show ?thesis
    using assms unfolding process_instrument_def
    by (auto elim!: andthen_InrE split: option.splits simp: recorded_def give_def lift_exn_def
        dest!: quietD [OF st12(1)] quietD [OF st12(2)] quietD [OF quiet_fuzzy] quietD [OF quiet_enqueue] audited)
qed

lemma process_each_counts:
  "process_each env gw tenant actor now provider ds acc s = (Inr r, s1) \<Longrightarrow>
   pr_total r = pr_total acc \<and>
   pr_auto r + pr_fuzzy r + pr_unresolved r = pr_auto acc + pr_fuzzy acc + pr_unresolved acc + length ds \<and>
   pr_audits r + pr_auto acc + pr_fuzzy acc = pr_audits acc + pr_auto r + pr_fuzzy r \<and>
   length (audits s1) + pr_audits acc = length (audits s) + pr_audits r"
proof (induction ds arbitrary: acc s)
  case (Cons d ds)
  from Cons.prems obtain v t where v: "process_instrument env gw tenant actor now provider d s = (Inr v, t)"
    and rest: "process_each env gw tenant actor now provider ds (counted v acc) t = (Inr r, s1)"
    by (auto elim: andthen_InrE)
  from Cons.IH [OF rest] process_instrument_audits [OF v] show ?case
    by (cases v) (auto simp: counted_def recorded_def)
qed (simp add: give_def)

subsection \<open>Properties\<close>

text \<open>
  What the service would achieve: after a row of the review queue has been mapped to an instrument, and
  after any further resolutions by whatever tenant, successful or rolled back, in a session the database
  accepts, a sync of the tenant that meets the provider's identifier of the row gets that
  instrument. It takes a commit of the operator's session in between, which the routes never issue
  (\<open>routes_never_commit\<close>), so this is not what an operator sees.
\<close>

lemma manual_mapping_honoured:
  assumes "manually_resolve (Some tenant) actor now item target notes s = (Inr (Some e), s1)" and "target \<noteq> []"
    and "clean (resolve_each jobs s1)" and "me_tenant env = tenant"
    and "u \<in> set (queue s)" and "uq_id u = item" and "uq_external u = key" and "key \<noteq> []"
    and "provider_identifier r = Some key"
  shows "\<exists>x s2. resolve_security_reference env (uq_provider u) r (resolve_each jobs s1) = (Inr (Some x, None), s2) \<and>
    sec_id x = target"
  using assms(1)
proof (cases rule: manually_resolve_Inr)
  case (settled v source detail)
  have "distinct (map uq_id (queue s))"
    using settled(5) by (simp add: clean_def queue_ok_def)
  then have "v = u"
    using settled(1) assms(5,6) by (intro distinct_key_eq [of uq_id "queue s"]) (auto simp: find_Some_iff)
  with settled have "key_maps env (uq_provider u) key target s1"
    using settled_maps [OF settled(1,2) assms(4) settled(4,6)] assms(7) by simp
  from key_maps_each [OF this assms(8,2)] have "key_maps env (uq_provider u) key target (resolve_each jobs s1)" .
  from mapping_of_key [OF this assms(8,2)] obtain x
    where "mapping env (uq_provider u) (Some key) (resolve_each jobs s1) = Some x" "sec_id x = target" .
  with assms(3,9) show ?thesis
    by (simp add: resolve_clean)
qed simp

text \<open>
  What an operator's mapping does. Nothing, when the tenant has no such row or there is no such
  instrument; otherwise exactly that row is marked as mapped by hand and one entry of the tenant is
  appended to the audit, naming row and instrument. Instruments, listings and the rows of other
  tenants stay as they are.
\<close>

theorem manual_mapping_effect:
  assumes "manually_resolve (Some tenant) actor now item target notes s = (Inr r, s1)"
  shows "(if (\<exists>u \<in> set (queue s). uq_id u = item \<and> uq_tenant u = Some tenant) \<and> target \<in> security_ids s
          then \<exists>e. r = Some e \<and> audits s1 = audits s @ [e] \<and> ra_tenant e = Some tenant \<and>
                 ra_unresolved e = Some item \<and> ra_target e = target \<and> ra_method e = ''manual'' \<and> ra_principal e = actor \<and>
                 queue s1 = map (\<lambda>u. if uq_id u = item
                   then u\<lparr>uq_resolved := Some target, uq_method := Some ''manual'', uq_notes := notes\<rparr> else u) (queue s)
          else r = None \<and> queue s1 = queue s \<and> audits s1 = audits s) \<and>
    securities s1 = securities s \<and> listings s1 = listings s \<and>
    filter (\<lambda>u. uq_tenant u \<noteq> Some tenant) (queue s1) = filter (\<lambda>u. uq_tenant u \<noteq> Some tenant) (queue s)"
  using assms
proof (cases rule: manually_resolve_Inr)
  case missing
  then show ?thesis
    by (auto simp: find_None_iff)
next
  case (settled v source detail)
  have v: "v \<in> set (queue s)" "uq_id v = item" "uq_tenant v = Some tenant"
    using settled(1) by (auto simp: find_Some_iff)
  have "distinct (map uq_id (queue s))"
    using settled(5) by (simp add: clean_def queue_ok_def)
  then have only: "u = v" if "u \<in> set (queue s)" "uq_id u = item" for u
    using that v by (intro distinct_key_eq [of uq_id "queue s"]) auto
  let ?put = "\<lambda>u. if uq_id u = item then u\<lparr>uq_resolved := Some target, uq_method := Some ''manual'', uq_notes := notes\<rparr> else u"
  have "(if uq_id u = uq_id (resolve_row target notes v) then resolve_row target notes v else u) = ?put u"
    if "u \<in> set (queue s)" for u
    using only [OF that] v(2) by (cases "uq_id u = item") (simp_all add: resolve_row_def)
  then have rows: "put_row uq_id (resolve_row target notes v) (queue s) = map ?put (queue s)"
    unfolding put_row_def by (intro map_cong) auto
  have other: "?put u = u" if "u \<in> set (queue s)" "uq_tenant u \<noteq> Some tenant" for u
    using only [OF that(1)] that(2) v(3) by auto
  have "filter (\<lambda>u. uq_tenant u \<noteq> Some tenant) (map ?put us) = filter (\<lambda>u. uq_tenant u \<noteq> Some tenant) us"
    if "set us \<subseteq> set (queue s)" for us
    using that by (induction us) (auto simp: other)
  from this [OF subset_refl] settled v rows show ?thesis
    by (auto simp: manual_audit_def or_else_def)
qed

text \<open>
  The counts of the pipeline are true: every instrument is resolved automatically, by its name or
  queued, and each resolution has left exactly one entry in the audit.
\<close>

theorem pipeline_counts:
  assumes "process_incoming_securities env gw tenant actor now provider items s = (Inr r, s1)"
  shows "pr_total r = length items \<and> pr_auto r + pr_fuzzy r + pr_unresolved r = length items \<and>
    pr_audits r = pr_auto r + pr_fuzzy r \<and> length (audits s1) = length (audits s) + pr_audits r"
  using process_each_counts [of env gw tenant actor now provider items _ s r s1] assms
  unfolding process_incoming_securities_def by fastforce

subsection \<open>Instances\<close>

definition open_row :: queued where
  "open_row = acme_row\<lparr>uq_id := ''q'', uq_resolved := None, uq_method := None\<rparr>"

definition review_master :: master where
  "review_master = acme_master\<lparr>queue := [open_row]\<rparr>"

definition settled_entry :: identity_audit where
  "settled_entry = manual_audit (Some ''t1'') ''op'' 0 ''u'' ''A_EQ'' ''Manual resolution by operator'' open_row"

definition settled_master :: master where
  "settled_master = review_master\<lparr>queue := [resolve_row ''u'' None open_row], audits := [settled_entry]\<rparr>"

lemma settled_run:
  "manually_resolve (Some ''t1'') ''op'' 0 ''q'' ''u'' None review_master = (Inr (Some settled_entry), settled_master)"
  by code_simp

lemma manual_mapping_honoured_witness:
  "\<exists>x s2. resolve_security_reference master_sample ''bunq'' (isin_reference\<lparr>r_external := Some ''A_EQ''\<rparr>)
     (resolve_each [(master_sample, ''bunq'', isin_reference)] settled_master) = (Inr (Some x, None), s2) \<and> sec_id x = ''u''"
proof -
  have "clean (resolve_each [(master_sample, ''bunq'', isin_reference)] settled_master)"
    by code_simp
  from manual_mapping_honoured [OF settled_run _ this, of master_sample open_row "''A_EQ''"
      "isin_reference\<lparr>r_external := Some ''A_EQ''\<rparr>"]
  show ?thesis
    by (simp add: master_sample_def open_row_def acme_row_def review_master_def isin_reference_def bare_reference_def
        provider_identifier_def or_else_def)
qed

lemma manual_mapping_effect_witness:
  "queue settled_master = map (\<lambda>u. if uq_id u = ''q''
     then u\<lparr>uq_resolved := Some ''u'', uq_method := Some ''manual'', uq_notes := None\<rparr> else u) (queue review_master)"
proof -
  have "open_row \<in> set (queue review_master)" "uq_id open_row = ''q''" "uq_tenant open_row = Some ''t1''"
    and "''u'' \<in> security_ids review_master"
    by (simp_all add: review_master_def open_row_def acme_row_def security_ids_def acme_master_def acme_def)
  with manual_mapping_effect [OF settled_run] show ?thesis
    by (metis (no_types, lifting))
qed

subsection \<open>What the code gets wrong\<close>

text \<open>Every instrument with an identifier that is a text is queued under the same key.\<close>

lemma text_identifiers_unknown: "dict_get d ''id'' = PStr i \<Longrightarrow> i \<noteq> [] \<Longrightarrow> external_id d = ''unknown''"
  by (simp add: external_id_def py_or_def py_true_def)

text \<open>Mapping to an instrument that does not exist answers "not found", and leaves a new row in the queue.\<close>

lemma failed_mapping_leaves_row:
  "(case map_and_resolve master_sample (Some ''t1'') ''op'' 0 ''bunq'' ''X'' ''gone'' None no_master of
      (res, s) \<Rightarrow> res = Inr None \<and> map uq_external (queue s) = [''X''])"
  by code_simp

text \<open>An identifier longer than the audit's column (64 of the 256 characters it may have) cannot be mapped.\<close>

lemma wide_key_not_mapped:
  "fst (map_and_resolve master_sample (Some ''t1'') ''op'' 0 ''bunq'' (replicate 65 (CHR ''x'')) ''u'' None review_master) = Inl Refused"
  by code_simp

text \<open>
  An instrument found by the remote service has an identifier of its own, which no row has, so the
  audit entry is refused.
\<close>

definition online :: gateway where
  "online = \<lparr>gw_degraded = False, gw_lookup = (\<lambda>_ kind. if kind = ''name''
     then Some \<lparr>md_isin = Some ''US01'', md_figi = None, md_ticker = None, md_symbol = None, md_name = Some ''Gamma'', md_currency = None\<rparr>
     else None)\<rparr>"

lemma remote_match_refused:
  "fst (process_instrument master_sample online (Some ''t1'') ''system'' 0 ''bunq'' [(''name'', PStr ''Gamma'')] review_master) =
     Inl Refused"
  by code_simp

text \<open>The routes change what the session of the service sees, never what is committed.\<close>

lemma routes_never_commit:
  "ct_master (snd (resolve_security_route tenant now item target notes c)) = ct_master c"
  "ct_master (snd (map_security_route env tenant now provider key target notes c)) = ct_master c"
  by (auto simp: resolve_security_route_def map_security_route_def in_service_def split: prod.splits sum.splits option.splits)

lemma accepted_but_not_committed:
  "(case resolve_security_route ''t1'' 0 ''q'' ''u'' None \<lparr>ct_master = review_master, ct_session = None\<rparr> of
      (answer, c) \<Rightarrow> answer = Ok ''u'' \<and> map uq_resolved (queue (ct_master c)) = [None])"
  by code_simp

end
