(* ===== verification/Auth.thy ===== *)
theory Auth
  imports Py_Text Py_Steps
begin

text \<open>
  Who may do what (\<^verbatim>\<open>services/auth.py\<close>, \<^verbatim>\<open>api/deps/auth.py\<close>,
  \<^verbatim>\<open>api/v1/auth.py\<close>, \<^verbatim>\<open>services/visibility.py\<close>): users with roles, API keys with
  permission strings, access and refresh tokens, and the account scope of a principal. JWT, bcrypt and
  SHA-256 are fields of \<open>crypto\<close>; the claims of a token are those the program writes and reads. A
  request has one clock reading. Its session is committed when the route returns and rolled back when
  it raises (\<^verbatim>\<open>get_db\<close> of \<^verbatim>\<open>dependencies.py\<close>).
\<close>

record claims =
  cl_sub :: "pystr option"
  cl_tenant :: "pystr option"
  cl_role :: "pystr option"
  cl_type :: "pystr option"
  cl_jti :: "pystr option"
  cl_exp :: instant

record crypto =
  jwt_encode :: "claims \<Rightarrow> pystr"
  jwt_decode :: "instant \<Rightarrow> pystr \<Rightarrow> claims option"
  check_password :: "pystr \<Rightarrow> pystr \<Rightarrow> bool"
  hash_secret :: "pystr \<Rightarrow> pystr"
  sha256 :: "pystr \<Rightarrow> pystr"

record auth_settings =
  access_minutes :: int
  refresh_days :: int
  admin_key :: "pystr option"

record user =
  us_id :: pystr
  us_tenant :: pystr
  us_email :: pystr
  us_password :: pystr
  us_active :: bool
  us_role :: pystr

record api_key =
  ak_id :: pystr
  ak_tenant :: pystr
  ak_user :: pystr
  ak_name :: pystr
  ak_prefix :: pystr
  ak_hash :: pystr
  ak_permissions :: "pystr option"
  ak_scope :: "pystr list option"
  ak_active :: bool
  ak_last_used :: "instant option"
  ak_expires :: "instant option"

record refresh_row =
  rf_user :: pystr
  rf_tenant :: pystr
  rf_jti :: pystr
  rf_hash :: pystr
  rf_expires :: instant
  rf_revoked :: "instant option"
  rf_replaced :: "pystr option"

record auth_db =
  users :: "user list"
  api_keys :: "api_key list"
  refresh_rows :: "refresh_row list"

datatype http_error = Unauthorized pystr | Forbidden pystr | Missing pystr | Crash

type_synonym 'x auth_route = "(http_error, 'x, auth_db) run"

text \<open>What the database enforces at a flush: the keys and the references to users.\<close>

definition auth_ok :: "auth_db \<Rightarrow> bool" where
  "auth_ok s \<longleftrightarrow> distinct (map us_id (users s)) \<and> distinct (map (\<lambda>u. (us_tenant u, us_email u)) (users s)) \<and>
     distinct (map ak_id (api_keys s)) \<and> distinct (map rf_jti (refresh_rows s)) \<and>
     ak_user ` set (api_keys s) \<subseteq> us_id ` set (users s) \<and> rf_user ` set (refresh_rows s) \<subseteq> us_id ` set (users s)"

definition flush_auth :: "unit auth_route" where
  "flush_auth s = (if auth_ok s then (Inr (), s) else (Inl Crash, s))"

definition scalar_one_or_none :: "'r list \<Rightarrow> 'r option auth_route" where
  "scalar_one_or_none rows = (case rows of [] \<Rightarrow> give None | [r] \<Rightarrow> give (Some r) | _ \<Rightarrow> raise Crash)"

definition request :: "'x auth_route \<Rightarrow> auth_db \<Rightarrow> (http_error + 'x) \<times> auth_db" where
  "request m db = (case andthen m (\<lambda>x. andthen flush_auth (\<lambda>_. give x)) db of
     (Inr x, s) \<Rightarrow> (Inr x, s) | (Inl e, s) \<Rightarrow> (Inl e, db))"

subsection \<open>Permissions\<close>

definition role_permissions :: "(pystr \<times> pystr list) list" where
  "role_permissions =
     [(''admin'', [''*:*'']),
      (''user'', [''transactions:read'', ''transactions:write'', ''accounts:read'', ''accounts:write'', ''holdings:read'',
        ''balances:read'', ''securities:read'', ''securities:write'', ''sync:read'', ''sync:write'', ''webhooks:read'',
        ''webhooks:write'', ''webhooks:delete'', ''connectors:read'', ''connectors:write'', ''market-intelligence:read'',
        ''market-intelligence:write'', ''market-data:read'', ''enrichment:read'']),
      (''readonly'', [''transactions:read'', ''accounts:read'', ''holdings:read'', ''balances:read'', ''securities:read'',
        ''sync:read'', ''webhooks:read'', ''market-intelligence:read'', ''market-data:read'', ''enrichment:read'']),
      (''viewer'', [''transactions:read'', ''accounts:read'', ''balances:read''])]"

definition permissions_of_role :: "pystr \<Rightarrow> pystr list" where
  "permissions_of_role role = (case map_of role_permissions role of None \<Rightarrow> [] | Some ps \<Rightarrow> ps)"

definition user_has_permission :: "pystr \<Rightarrow> pystr \<Rightarrow> pystr \<Rightarrow> bool" where
  "user_has_permission role resource action \<longleftrightarrow>
     ''*:*'' \<in> set (permissions_of_role role) \<or> resource @ '':'' @ action \<in> set (permissions_of_role role) \<or>
     resource @ '':*'' \<in> set (permissions_of_role role)"

text \<open>\<^verbatim>\<open>text.split()\<close>.\<close>

function py_split :: "pystr \<Rightarrow> pystr list" where
  "py_split [] = []"
| "py_split (c # s) =
     (if is_space c then py_split s
      else (c # takeWhile (\<lambda>d. \<not> is_space d) s) # py_split (dropWhile (\<lambda>d. \<not> is_space d) s))"
  by pat_completeness auto
termination
  by (relation "measure length") (auto intro: le_imp_less_Suc length_dropWhile_le)

definition api_key_has_permission :: "pystr option \<Rightarrow> pystr \<Rightarrow> pystr \<Rightarrow> bool" where
  "api_key_has_permission permissions resource action \<longleftrightarrow>
     (case permissions of
        None \<Rightarrow> False
      | Some v \<Rightarrow> list_ex (\<lambda>p. p = ''*:*'' \<or> p = resource @ '':'' @ action \<or> p = resource @ '':*'') (py_split v))"

subsection \<open>Principals\<close>

definition get_optional_current_user :: "crypto \<Rightarrow> instant \<Rightarrow> pystr option \<Rightarrow> user option auth_route" where
  "get_optional_current_user lib now bearer =
     (case bearer of
        None \<Rightarrow> give None
      | Some token \<Rightarrow>
          (case jwt_decode lib now token of
             None \<Rightarrow> raise (Unauthorized ''Invalid or expired token'')
           | Some p \<Rightarrow>
               if cl_type p \<noteq> Some ''access'' then raise (Unauthorized ''Token is not an access token'')
               else case (cl_sub p, cl_tenant p) of
                      (Some i, Some t) \<Rightarrow>
                        (\<lambda>s. andthen (scalar_one_or_none (filter (\<lambda>u. us_id u = i \<and> us_tenant u = t) (users s)))
                          (\<lambda>found. case found of
                             None \<Rightarrow> raise (Unauthorized ''User not found'')
                           | Some u \<Rightarrow> if us_active u then give (Some u) else raise (Unauthorized ''User is deactivated'')) s)
                    | _ \<Rightarrow> raise (Unauthorized ''Token payload missing required claims'')))"

definition get_current_api_key :: "crypto \<Rightarrow> instant \<Rightarrow> pystr option \<Rightarrow> api_key option auth_route" where
  "get_current_api_key lib now header =
     (case header of
        None \<Rightarrow> give None
      | Some raw \<Rightarrow>
          (\<lambda>s. andthen (scalar_one_or_none (filter (\<lambda>k. ak_prefix k = take 8 raw \<and> ak_active k) (api_keys s)))
            (\<lambda>found. case found of
               None \<Rightarrow> raise (Unauthorized ''Invalid API key'')
             | Some k \<Rightarrow>
                 if \<not> check_password lib raw (ak_hash k) then raise (Unauthorized ''Invalid API key'')
                 else let k1 = k\<lparr>ak_last_used := Some now\<rparr>
                      in andthen (change (\<lambda>s. s\<lparr>api_keys := put_row ak_id k1 (api_keys s)\<rparr>)) (\<lambda>_.
                         andthen flush_auth (\<lambda>_. give (Some k1)))) s))"

datatype auth_context = By_user user | By_key api_key

definition get_auth_context :: "crypto \<Rightarrow> instant \<Rightarrow> pystr option \<Rightarrow> pystr option \<Rightarrow> auth_context auth_route" where
  "get_auth_context lib now bearer header =
     andthen (get_optional_current_user lib now bearer) (\<lambda>u.
     andthen (get_current_api_key lib now header) (\<lambda>k.
       case u of
         Some x \<Rightarrow> give (By_user x)
       | None \<Rightarrow> (case k of Some y \<Rightarrow> give (By_key y) | None \<Rightarrow> raise (Unauthorized ''No authentication provided''))))"

definition context_tenant :: "auth_context \<Rightarrow> pystr" where
  "context_tenant a = (case a of By_user u \<Rightarrow> us_tenant u | By_key k \<Rightarrow> ak_tenant k)"

definition principal_id :: "auth_context \<Rightarrow> pystr" where
  "principal_id a = (case a of By_user u \<Rightarrow> us_id u | By_key k \<Rightarrow> ak_id k)"

definition require_permission ::
  "pystr \<Rightarrow> pystr \<Rightarrow> crypto \<Rightarrow> instant \<Rightarrow> pystr option \<Rightarrow> pystr option \<Rightarrow> auth_context auth_route" where
  "require_permission resource action lib now bearer header =
     andthen (get_auth_context lib now bearer header) (\<lambda>a.
       if (case a of By_user u \<Rightarrow> user_has_permission (us_role u) resource action
           | By_key k \<Rightarrow> api_key_has_permission (ak_permissions k) resource action)
       then give a else raise (Forbidden (''Missing required permission: '' @ resource @ '':'' @ action)))"

definition require_role ::
  "pystr list \<Rightarrow> crypto \<Rightarrow> instant \<Rightarrow> pystr option \<Rightarrow> pystr option \<Rightarrow> auth_context auth_route" where
  "require_role allowed lib now bearer header =
     andthen (get_auth_context lib now bearer header) (\<lambda>a.
       case a of
         By_user u \<Rightarrow> if us_role u \<in> set allowed then give a else raise (Forbidden (us_role u))
       | By_key k \<Rightarrow> give a)"

subsection \<open>Tokens\<close>

definition token_data :: "user \<Rightarrow> claims" where
  "token_data u =
     \<lparr>cl_sub = Some (us_id u), cl_tenant = Some (us_tenant u), cl_role = Some (us_role u), cl_type = None, cl_jti = None,
      cl_exp = 0\<rparr>"

definition create_access_token :: "crypto \<Rightarrow> auth_settings \<Rightarrow> instant \<Rightarrow> claims \<Rightarrow> pystr" where
  "create_access_token lib st now d =
     jwt_encode lib (d\<lparr>cl_exp := now + minutes (access_minutes st), cl_type := Some ''access''\<rparr>)"

text \<open>\<open>fresh\<close> is the text that \<^verbatim>\<open>secrets.token_urlsafe\<close> makes.\<close>

definition create_refresh_token :: "crypto \<Rightarrow> auth_settings \<Rightarrow> instant \<Rightarrow> pystr \<Rightarrow> claims \<Rightarrow> pystr" where
  "create_refresh_token lib st now fresh d =
     jwt_encode lib (d\<lparr>cl_exp := now + days (refresh_days st), cl_type := Some ''refresh'',
       cl_jti := Some (if truthy (cl_jti d) then or_blank (cl_jti d) else fresh)\<rparr>)"

definition persist_refresh_token :: "crypto \<Rightarrow> auth_settings \<Rightarrow> instant \<Rightarrow> pystr \<Rightarrow> unit auth_route" where
  "persist_refresh_token lib st now token =
     (case jwt_decode lib now token of
        None \<Rightarrow> raise Crash
      | Some p \<Rightarrow>
          (case (cl_sub p, cl_tenant p, cl_jti p) of
             (Some u, Some t, Some j) \<Rightarrow>
               change (\<lambda>s. s\<lparr>refresh_rows := refresh_rows s @
                 [\<lparr>rf_user = u, rf_tenant = t, rf_jti = j, rf_hash = sha256 lib token,
                   rf_expires = now + days (refresh_days st), rf_revoked = None, rf_replaced = None\<rparr>]\<rparr>)
           | _ \<Rightarrow> raise Crash))"

text \<open>The pair of tokens a user gets.\<close>

definition issue_tokens :: "crypto \<Rightarrow> auth_settings \<Rightarrow> instant \<Rightarrow> pystr \<Rightarrow> user \<Rightarrow> (pystr \<times> pystr) auth_route" where
  "issue_tokens lib st now fresh u =
     (let access = create_access_token lib st now (token_data u);
          token = create_refresh_token lib st now fresh (token_data u)
      in andthen (persist_refresh_token lib st now token) (\<lambda>_. give (access, token)))"

subsection \<open>Routes\<close>

definition login :: "crypto \<Rightarrow> auth_settings \<Rightarrow> instant \<Rightarrow> pystr \<Rightarrow> pystr \<Rightarrow> pystr \<Rightarrow> (pystr \<times> pystr) auth_route" where
  "login lib st now fresh email password s =
     andthen (scalar_one_or_none (filter (\<lambda>u. us_email u = email) (users s))) (\<lambda>found.
       case found of
         None \<Rightarrow> raise (Unauthorized ''Invalid email or password'')
       | Some u \<Rightarrow>
           if \<not> check_password lib password (us_password u) then raise (Unauthorized ''Invalid email or password'')
           else if \<not> us_active u then raise (Unauthorized ''User account is deactivated'')
           else issue_tokens lib st now fresh u) s"

definition admin_user :: "auth_db \<Rightarrow> user option" where
  "admin_user s = find (\<lambda>u. us_email u = ''admin@finance-sync.local'' \<and> us_role u = ''admin'' \<and> us_active u) (users s)"

text \<open>\<^verbatim>\<open>secrets.compare_digest\<close> raises on texts outside ASCII.\<close>

definition ascii :: "char \<Rightarrow> bool" where
  "ascii c \<longleftrightarrow> (of_char c :: nat) < 128"

definition admin_key_login :: "crypto \<Rightarrow> auth_settings \<Rightarrow> instant \<Rightarrow> pystr \<Rightarrow> pystr \<Rightarrow> (pystr \<times> pystr) auth_route" where
  "admin_key_login lib st now fresh key =
     (if admin_key st = None then raise (Unauthorized ''Invalid admin key'')
      else if \<not> list_all ascii (key @ or_blank (admin_key st)) then raise Crash
      else if admin_key st \<noteq> Some key then raise (Unauthorized ''Invalid admin key'')
      else (\<lambda>s. (case admin_user s of
             None \<Rightarrow> raise (Unauthorized ''Admin user is not provisioned; restart after migrations'')
           | Some u \<Rightarrow>
               if \<not> check_password lib key (us_password u)
               then raise (Unauthorized ''Admin user is not provisioned; restart after migrations'')
               else issue_tokens lib st now fresh u) s))"

definition row_of :: "pystr \<Rightarrow> pystr \<Rightarrow> pystr \<Rightarrow> refresh_row \<Rightarrow> bool" where
  "row_of j u t r \<longleftrightarrow> rf_jti r = j \<and> rf_user r = u \<and> rf_tenant r = t"

definition refresh_usable :: "crypto \<Rightarrow> instant \<Rightarrow> pystr \<Rightarrow> refresh_row \<Rightarrow> bool" where
  "refresh_usable lib now token r \<longleftrightarrow> rf_revoked r = None \<and> now < rf_expires r \<and> rf_hash r = sha256 lib token"

definition revoke_all :: "pystr \<Rightarrow> instant \<Rightarrow> refresh_row list \<Rightarrow> refresh_row list" where
  "revoke_all u now rs = update_rows (\<lambda>r. rf_user r = u \<and> rf_revoked r = None) (\<lambda>r. r\<lparr>rf_revoked := Some now\<rparr>) rs"

definition refuse_refresh :: "instant \<Rightarrow> refresh_row option \<Rightarrow> 'x auth_route" where
  "refuse_refresh now row =
     andthen
       (case row of
          Some r \<Rightarrow> if rf_revoked r \<noteq> None
                    then change (\<lambda>s. s\<lparr>refresh_rows := revoke_all (rf_user r) now (refresh_rows s)\<rparr>) else give ()
        | None \<Rightarrow> give ())
       (\<lambda>_. raise (Unauthorized ''Invalid or expired refresh token''))"

definition rotate :: "crypto \<Rightarrow> auth_settings \<Rightarrow> instant \<Rightarrow> pystr \<Rightarrow> refresh_row \<Rightarrow> user \<Rightarrow> (pystr \<times> pystr) auth_route" where
  "rotate lib st now fresh r u =
     (let access = create_access_token lib st now (token_data u);
          token = create_refresh_token lib st now fresh (token_data u)
      in case jwt_decode lib now token of
           None \<Rightarrow> raise Crash
         | Some p \<Rightarrow>
             (case cl_jti p of
                None \<Rightarrow> raise Crash
              | Some j \<Rightarrow>
                  andthen (change (\<lambda>s. s\<lparr>refresh_rows :=
                    put_row rf_jti (r\<lparr>rf_revoked := Some now, rf_replaced := Some j\<rparr>) (refresh_rows s)\<rparr>)) (\<lambda>_.
                  andthen (persist_refresh_token lib st now token) (\<lambda>_. give (access, token)))))"

text \<open>The exchange for the row that was found.\<close>

definition redeem ::
  "crypto \<Rightarrow> auth_settings \<Rightarrow> instant \<Rightarrow> pystr \<Rightarrow> pystr \<Rightarrow> refresh_row option \<Rightarrow> user list \<Rightarrow> (pystr \<times> pystr) auth_route" where
  "redeem lib st now fresh token row us =
     (case row of
        None \<Rightarrow> refuse_refresh now None
      | Some r \<Rightarrow>
          if \<not> refresh_usable lib now token r then refuse_refresh now (Some r)
          else case find (\<lambda>u. us_id u = rf_user r) us of
                 None \<Rightarrow> raise (Unauthorized ''User account is unavailable'')
               | Some u \<Rightarrow>
                   if us_active u then rotate lib st now fresh r u
                   else raise (Unauthorized ''User account is unavailable''))"

definition refresh :: "crypto \<Rightarrow> auth_settings \<Rightarrow> instant \<Rightarrow> pystr \<Rightarrow> pystr \<Rightarrow> (pystr \<times> pystr) auth_route" where
  "refresh lib st now fresh token =
     (case jwt_decode lib now token of
        None \<Rightarrow> raise (Unauthorized ''Invalid or expired refresh token'')
      | Some p \<Rightarrow>
          if cl_type p \<noteq> Some ''refresh'' \<or> \<not> truthy (cl_jti p) then raise (Unauthorized ''Token is not a refresh token'')
          else case (cl_sub p, cl_tenant p) of
                 (Some i, Some t) \<Rightarrow>
                   (\<lambda>s. redeem lib st now fresh token (find (row_of (or_blank (cl_jti p)) i t) (refresh_rows s)) (users s) s)
               | _ \<Rightarrow> raise Crash)"

text \<open>\<open>secret\<close> is the random part of the key, \<open>fresh\<close> the identifier of the row.\<close>

definition create_api_key ::
  "crypto \<Rightarrow> instant \<Rightarrow> pystr option \<Rightarrow> pystr option \<Rightarrow> pystr \<Rightarrow> pystr \<Rightarrow> pystr \<Rightarrow> pystr option \<Rightarrow> (pystr \<times> pystr) auth_route" where
  "create_api_key lib now bearer header fresh secret name permissions =
     andthen (require_role [''admin''] lib now bearer header) (\<lambda>a.
       let raw = ''fs_'' @ secret
       in andthen (change (\<lambda>s. s\<lparr>api_keys := api_keys s @
            [\<lparr>ak_id = fresh, ak_tenant = context_tenant a, ak_user = principal_id a, ak_name = name, ak_prefix = take 8 raw,
              ak_hash = hash_secret lib raw, ak_permissions = permissions, ak_scope = None, ak_active = True,
              ak_last_used = None, ak_expires = None\<rparr>]\<rparr>)) (\<lambda>_.
          andthen flush_auth (\<lambda>_. give (fresh, raw))))"

definition delete_api_key :: "crypto \<Rightarrow> instant \<Rightarrow> pystr option \<Rightarrow> pystr option \<Rightarrow> pystr \<Rightarrow> unit auth_route" where
  "delete_api_key lib now bearer header key =
     andthen (require_role [''admin''] lib now bearer header) (\<lambda>a s.
     andthen (scalar_one_or_none (filter (\<lambda>k. ak_id k = key \<and> ak_tenant k = context_tenant a) (api_keys s))) (\<lambda>found.
       case found of
         None \<Rightarrow> raise (Missing ''API key not found'')
       | Some k \<Rightarrow>
           andthen (change (\<lambda>s. s\<lparr>api_keys := put_row ak_id (k\<lparr>ak_active := False\<rparr>) (api_keys s)\<rparr>)) (\<lambda>_. flush_auth)) s)"

definition list_api_keys :: "crypto \<Rightarrow> instant \<Rightarrow> pystr option \<Rightarrow> pystr option \<Rightarrow> api_key list auth_route" where
  "list_api_keys lib now bearer header =
     andthen (require_role [''admin''] lib now bearer header) (\<lambda>a s.
       give (filter (\<lambda>k. ak_tenant k = context_tenant a) (api_keys s)) s)"

subsection \<open>The account scope\<close>

record read_scope =
  sc_tenant :: pystr
  sc_user :: "pystr option"
  sc_admin :: bool
  sc_accounts :: "pystr list option"

record scoped_account =
  sa_id :: pystr
  sa_tenant :: pystr

definition scope_for_user :: "user \<Rightarrow> read_scope" where
  "scope_for_user u = \<lparr>sc_tenant = us_tenant u, sc_user = Some (us_id u), sc_admin = (us_role u = ''admin''), sc_accounts = None\<rparr>"

definition scope_for_api_key :: "pystr \<Rightarrow> pystr list option \<Rightarrow> read_scope" where
  "scope_for_api_key tenant allowed = \<lparr>sc_tenant = tenant, sc_user = None, sc_admin = False, sc_accounts = allowed\<rparr>"

definition get_read_scope :: "auth_context \<Rightarrow> read_scope" where
  "get_read_scope a = (case a of By_user u \<Rightarrow> scope_for_user u | By_key k \<Rightarrow> scope_for_api_key (ak_tenant k) (ak_scope k))"

text \<open>The predicate of a query, and its counterpart on loaded rows.\<close>

definition visible_account_ids :: "read_scope \<Rightarrow> scoped_account list \<Rightarrow> pystr list" where
  "visible_account_ids sc rows =
     map sa_id (filter (\<lambda>a. (case sc_accounts sc of
        Some allowed \<Rightarrow> sa_tenant a = sc_tenant sc \<and> sa_id a \<in> set allowed
      | None \<Rightarrow> sa_tenant a = sc_tenant sc)) rows)"

definition account_is_visible :: "read_scope \<Rightarrow> scoped_account \<Rightarrow> bool" where
  "account_is_visible sc a \<longleftrightarrow>
     (if sa_tenant a \<noteq> sc_tenant sc then False
      else case sc_accounts sc of Some allowed \<Rightarrow> sa_id a \<in> set allowed | None \<Rightarrow> True)"

definition filter_accounts_visible :: "read_scope \<Rightarrow> scoped_account list \<Rightarrow> scoped_account list" where
  "filter_accounts_visible sc rows = filter (account_is_visible sc) rows"

end
