(* ===== verification/Auth_Props.thy ===== *)
theory Auth_Props
  imports Auth
begin

text \<open>
  The guarantees of authentication: a refresh token buys one pair of tokens, a permission is granted
  exactly to an active user whose valid access token and role give it or to an active key whose hash
  matches, a deleted key stays dead, and a principal reads the accounts of its scope only. Below them,
  what a replayed token, a bare key and two keys with one prefix do.
\<close>

subsection \<open>Histories of requests\<close>

text \<open>\<open>Users_change\<close> stands for what the rest of the program does to users: roles, activation, password.\<close>

datatype auth_event =
    Login instant pystr pystr pystr
  | Admin_login instant pystr pystr
  | Refresh instant pystr pystr
  | Create_key instant "pystr option" "pystr option" pystr pystr pystr "pystr option"
  | Delete_key instant "pystr option" "pystr option" pystr
  | Guarded pystr pystr instant "pystr option" "pystr option"
  | Users_change "user list"

fun auth_step :: "crypto \<Rightarrow> auth_settings \<Rightarrow> auth_event \<Rightarrow> auth_db \<Rightarrow> auth_db" where
  "auth_step lib st (Login now fresh email password) s = snd (request (login lib st now fresh email password) s)"
| "auth_step lib st (Admin_login now fresh key) s = snd (request (admin_key_login lib st now fresh key) s)"
| "auth_step lib st (Refresh now fresh token) s = snd (request (refresh lib st now fresh token) s)"
| "auth_step lib st (Create_key now bearer header fresh secret name perms) s =
     snd (request (create_api_key lib now bearer header fresh secret name perms) s)"
| "auth_step lib st (Delete_key now bearer header key) s = snd (request (delete_api_key lib now bearer header key) s)"
| "auth_step lib st (Guarded resource action now bearer header) s =
     snd (request (require_permission resource action lib now bearer header) s)"
| "auth_step lib st (Users_change us) s = snd (request (change (\<lambda>s. s\<lparr>users := us\<rparr>)) s)"

definition history :: "crypto \<Rightarrow> auth_settings \<Rightarrow> auth_event list \<Rightarrow> auth_db \<Rightarrow> auth_db" where
  "history lib st es s = fold (auth_step lib st) es s"

text \<open>A request keeps an assertion that its route keeps; what it commits the database has accepted.\<close>

lemma request_cases:
  assumes "request m s = (r, s1)"
  obtains (refused) e where "r = Inl e" "s1 = s" | (committed) x where "r = Inr x" "m s = (Inr x, s1)" "auth_ok s1"
  using assms by (auto simp: request_def andthen_def flush_auth_def give_def split: prod.splits sum.splits if_splits)

lemma request_state: "snd (request m s) = s \<or> (\<exists>x. m s = (Inr x, snd (request m s)) \<and> auth_ok (snd (request m s)))"
proof (cases "request m s")
  case (Pair r s1)
  then show ?thesis
    by (rule request_cases) (use Pair in auto)
qed

lemma request_ok: "auth_ok s \<Longrightarrow> auth_ok (snd (request m s))"
  using request_state [of m s] by auto

lemma request_keeps: "triple P m (\<lambda>_. Q) E \<Longrightarrow> P s \<Longrightarrow> Q s \<Longrightarrow> Q (snd (request m s))"
  using request_state [of m s] by (auto dest: tripleD_return)

lemma step_ok: "auth_ok s \<Longrightarrow> auth_ok (auth_step lib st e s)"
  by (cases e) (simp_all add: request_ok)

lemma history_keeps:
  assumes "\<And>e s. P s \<Longrightarrow> P (auth_step lib st e s)" and "P s"
  shows "P (history lib st es s)"
  using assms(2) unfolding history_def by (induction es arbitrary: s) (simp_all add: assms(1))

subsection \<open>Refresh rows\<close>

lemma scalar_keeps: "triple P (scalar_one_or_none rows) (\<lambda>_. P) (\<lambda>_. True)"
  unfolding scalar_one_or_none_def by (auto split: list.split intro: triple_give triple_raise)

lemma flush_keeps: "triple P flush_auth (\<lambda>_. P) (\<lambda>_. True)"
  by (rule tripleI) (auto simp: flush_auth_def split: if_splits)

text \<open>Authentication changes one thing: when a key was used last.\<close>

definition touch_key :: "instant \<Rightarrow> api_key \<Rightarrow> auth_db \<Rightarrow> auth_db" where
  "touch_key now k s = s\<lparr>api_keys := put_row ak_id (k\<lparr>ak_last_used := Some now\<rparr>) (api_keys s)\<rparr>"

lemma user_of_token_state: "snd (get_optional_current_user lib now bearer s) = s"
  by (auto simp: get_optional_current_user_def give_def raise_def andthen_def scalar_one_or_none_def
      split: option.split list.split)

lemma key_of_header:
  assumes "get_current_api_key lib now header s = (Inr found, s1)"
  shows "case found of
      None \<Rightarrow> header = None \<and> s1 = s
    | Some k1 \<Rightarrow> \<exists>raw k. header = Some raw \<and> filter (\<lambda>k. ak_prefix k = take 8 raw \<and> ak_active k) (api_keys s) = [k] \<and>
        check_password lib raw (ak_hash k) \<and> k1 = k\<lparr>ak_last_used := Some now\<rparr> \<and> s1 = touch_key now k s \<and> auth_ok s1"
  using assms
  by (auto simp: get_current_api_key_def give_def raise_def andthen_def scalar_one_or_none_def change_def flush_auth_def
      touch_key_def Let_def split: option.splits list.splits if_splits)

lemma context_cases:
  assumes "get_auth_context lib now bearer header s = (Inr a, s1)"
  obtains (user) u where "a = By_user u" "get_optional_current_user lib now bearer s = (Inr (Some u), s)"
      "\<And>raw. header = Some raw \<Longrightarrow> \<exists>k. get_current_api_key lib now header s = (Inr (Some k), s1)"
      "header = None \<Longrightarrow> s1 = s"
    | (key) k where "a = By_key k" "get_optional_current_user lib now bearer s = (Inr None, s)"
      "get_current_api_key lib now header s = (Inr (Some k), s1)"
proof -
  obtain u where u: "get_optional_current_user lib now bearer s = (Inr u, s)"
    using assms user_of_token_state [of lib now bearer s]
    by (cases "get_optional_current_user lib now bearer s"; cases "fst (get_optional_current_user lib now bearer s)")
      (auto simp: get_auth_context_def andthen_def)
  with assms obtain k where k: "get_current_api_key lib now header s = (Inr k, s1)"
    by (auto simp: get_auth_context_def andthen_def give_def raise_def split: prod.splits sum.splits option.splits)
  show thesis
  proof (cases u)
    case (Some x)
    show ?thesis
    proof (rule user)
      show "a = By_user x"
        using assms u k Some by (simp add: get_auth_context_def andthen_def give_def)
      show "get_optional_current_user lib now bearer s = (Inr (Some x), s)"
        using u Some by simp
      show "\<exists>k. get_current_api_key lib now header s = (Inr (Some k), s1)" if "header = Some raw" for raw
        using key_of_header [OF k] k that by (cases k) auto
      show "s1 = s" if "header = None"
        using k that by (simp add: get_current_api_key_def give_def)
    qed
  next
    case None
    then show ?thesis
      using assms u k key
      by (auto simp: get_auth_context_def andthen_def give_def raise_def split: option.splits)
  qed
qed

lemma context_keeps:
  assumes "\<And>s k. P s \<Longrightarrow> k \<in> set (api_keys s) \<Longrightarrow> ak_active k \<Longrightarrow> auth_ok (touch_key now k s) \<Longrightarrow> P (touch_key now k s)"
  shows "triple P (get_auth_context lib now bearer header) (\<lambda>_. P) (\<lambda>_. True)"
proof (rule tripleI)
  fix s a s1
  assume P: "P s" and run: "get_auth_context lib now bearer header s = (Inr a, s1)"
  have touched: "P s1" if key: "get_current_api_key lib now header s = (Inr (Some k), s1)" for k
  proof -
    obtain raw k0 where k0: "filter (\<lambda>k. ak_prefix k = take 8 raw \<and> ak_active k) (api_keys s) = [k0]"
      and s1: "s1 = touch_key now k0 s" "auth_ok s1"
      using key_of_header [OF key] by auto
    have "k0 \<in> set (filter (\<lambda>k. ak_prefix k = take 8 raw \<and> ak_active k) (api_keys s))"
      by (simp add: k0)
    then show ?thesis
      using s1 by (auto intro: assms [OF P])
  qed
  from run show "P s1"
    by (rule context_cases) (use P touched in \<open>cases header; auto\<close>)+
qed simp

lemma permission_keeps:
  assumes "triple P (get_auth_context lib now bearer header) (\<lambda>_. P) (\<lambda>_. True)"
  shows "triple P (require_permission resource action lib now bearer header) (\<lambda>_. P) (\<lambda>_. True)"
  unfolding require_permission_def by (rule triple_andthen [OF assms]) (auto intro: triple_give triple_raise)

lemma role_keeps:
  assumes "triple P (get_auth_context lib now bearer header) (\<lambda>_. P) (\<lambda>_. True)"
  shows "triple P (require_role roles lib now bearer header) (\<lambda>_. P) (\<lambda>_. True)"
  unfolding require_role_def
  by (rule triple_andthen [OF assms]) (auto split: auth_context.split intro: triple_give triple_raise)


subsection \<open>Single use of refresh tokens\<close>

definition spent :: "pystr \<Rightarrow> auth_db \<Rightarrow> bool" where
  "spent j s \<longleftrightarrow> (\<exists>r \<in> set (refresh_rows s). rf_jti r = j \<and> rf_revoked r \<noteq> None)"

lemma spent_by_rows: "refresh_rows s1 = refresh_rows s \<Longrightarrow> spent j s1 = spent j s"
  by (simp add: spent_def)

lemma spent_append: "spent j s \<Longrightarrow> spent j (s\<lparr>refresh_rows := refresh_rows s @ rs\<rparr>)"
  by (auto simp: spent_def)

text \<open>A marked row survives an update of rows that marks its own.\<close>

lemma put_row_marked:
  assumes "\<exists>x \<in> set rs. key x = j \<and> M x" and "key r = j \<Longrightarrow> M r"
  shows "\<exists>x \<in> set (put_row key r rs). key x = j \<and> M x"
proof -
  obtain x where "x \<in> set rs" "key x = j" "M x"
    using assms(1) by auto
  then show ?thesis
    using assms(2) by (intro bexI [of _ "if key x = key r then r else x"]) (auto simp: put_row_def)
qed

lemma spent_rotate:
  "spent j s \<Longrightarrow> rf_revoked r \<noteq> None \<Longrightarrow> spent j (s\<lparr>refresh_rows := put_row rf_jti r (refresh_rows s)\<rparr>)"
  unfolding spent_def by (simp add: put_row_marked)

lemma persist_spent: "triple (spent j) (persist_refresh_token lib st now token) (\<lambda>_. spent j) (\<lambda>_. True)"
  unfolding persist_refresh_token_def
  by (auto split: option.split intro: triple_raise triple_change spent_append)

lemma issue_spent: "triple (spent j) (issue_tokens lib st now fresh u) (\<lambda>_. spent j) (\<lambda>_. True)"
  unfolding issue_tokens_def Let_def by (rule then_give [OF persist_spent])

lemma rotate_spent: "triple (spent j) (rotate lib st now fresh r u) (\<lambda>_. spent j) (\<lambda>_. True)"
  unfolding rotate_def Let_def
  by (auto split: option.split intro!: triple_raise triple_andthen [OF triple_change then_give [OF persist_spent]]
      spent_rotate)

lemma guard_spent: "triple (spent j) (get_auth_context lib now bearer header) (\<lambda>_. spent j) (\<lambda>_. True)"
  by (rule context_keeps) (simp add: touch_key_def spent_def)


lemma login_spent: "triple (spent j) (login lib st now fresh email password) (\<lambda>_. spent j) (\<lambda>_. True)"
  unfolding login_def
  by (rule triple_reader [where m = "\<lambda>t. andthen (scalar_one_or_none (filter (\<lambda>u. us_email u = email) (users t))) k" for k])
    (intro triple_andthen [OF scalar_keeps] triple_option triple_if triple_crash issue_spent)

lemma admin_login_spent: "triple (spent j) (admin_key_login lib st now fresh key) (\<lambda>_. spent j) (\<lambda>_. True)"
  unfolding admin_key_login_def
  by (intro triple_if triple_crash
      triple_reader [where m = "\<lambda>t. case admin_user t of None \<Rightarrow> m | Some u \<Rightarrow> n u" for m n] triple_option issue_spent)

lemma refuse_spent: "triple (spent j) (refuse_refresh now row) Q (\<lambda>_. True)"
  by (rule tripleI) (auto simp: refuse_refresh_def andthen_def raise_def split: prod.splits sum.splits)

lemma redeem_spent: "triple (spent j) (redeem lib st now fresh token row us) (\<lambda>_. spent j) (\<lambda>_. True)"
  unfolding redeem_def by (intro triple_option triple_if triple_crash refuse_spent rotate_spent)

lemma refresh_spent: "triple (spent j) (refresh lib st now fresh token) (\<lambda>_. spent j) (\<lambda>_. True)"
  unfolding refresh_def
  by (intro triple_option triple_if triple_crash triple_opt_pair redeem_spent
      triple_reader [where m = "\<lambda>t. redeem lib st now fresh token (find P (refresh_rows t)) (users t)" for P])

lemma create_spent:
  "triple (spent j) (create_api_key lib now bearer header fresh secret name perms) (\<lambda>_. spent j) (\<lambda>_. True)"
  unfolding create_api_key_def Let_def
  by (rule triple_andthen [OF role_keeps [OF guard_spent]],
      rule triple_andthen [OF triple_change then_give [OF flush_keeps]], simp add: spent_def)

lemma delete_spent: "triple (spent j) (delete_api_key lib now bearer header key) (\<lambda>_. spent j) (\<lambda>_. True)"
  unfolding delete_api_key_def
  by (rule triple_andthen [OF role_keeps [OF guard_spent]],
      rule triple_reader [where m = "\<lambda>t. andthen (scalar_one_or_none (filter (P t) (api_keys t))) k" for P k])
    (rule triple_andthen [OF scalar_keeps], intro triple_option triple_crash,
      rule triple_andthen [OF _ flush_keeps], rule triple_change, simp add: spent_def)

lemma users_spent: "triple (spent j) (change (\<lambda>s. s\<lparr>users := us\<rparr>)) (\<lambda>_. spent j) (\<lambda>_. True)"
  by (rule triple_change) (simp add: spent_def)

lemma step_spent: "spent j s \<Longrightarrow> spent j (auth_step lib st e s)"
  by (cases e) (simp_all add: request_keeps [OF login_spent] request_keeps [OF admin_login_spent]
    request_keeps [OF refresh_spent] request_keeps [OF create_spent] request_keeps [OF delete_spent]
    request_keeps [OF permission_keeps [OF guard_spent]] request_keeps [OF users_spent])


text \<open>The claims of a token are in the token: what decoding returns does not depend on when it succeeds.\<close>

definition stable_claims :: "crypto \<Rightarrow> bool" where
  "stable_claims lib \<longleftrightarrow>
     (\<forall>t1 t2 token p q. jwt_decode lib t1 token = Some p \<longrightarrow> jwt_decode lib t2 token = Some q \<longrightarrow> p = q)"

lemma refresh_result:
  assumes "refresh lib st now fresh token s = (Inr pair, s1)"
  obtains p i t r u where "jwt_decode lib now token = Some p" "cl_type p = Some ''refresh''" "truthy (cl_jti p)"
    "cl_sub p = Some i" "cl_tenant p = Some t" "find (row_of (or_blank (cl_jti p)) i t) (refresh_rows s) = Some r"
    "refresh_usable lib now token r" "find (\<lambda>u. us_id u = rf_user r) (users s) = Some u" "us_active u"
    "rotate lib st now fresh r u s = (Inr pair, s1)"
  using assms
  by (auto simp: refresh_def redeem_def refuse_refresh_def raise_def andthen_def split: option.splits if_splits prod.splits sum.splits)

lemma rotate_spends:
  assumes "rotate lib st now fresh r u s = (Inr pair, s1)" and "r \<in> set (refresh_rows s)"
  shows "spent (rf_jti r) s1"
proof -
  obtain j where keep: "andthen (change (\<lambda>s. s\<lparr>refresh_rows :=
      put_row rf_jti (r\<lparr>rf_revoked := Some now, rf_replaced := Some j\<rparr>) (refresh_rows s)\<rparr>)) (\<lambda>_.
      andthen (persist_refresh_token lib st now (create_refresh_token lib st now fresh (token_data u))) (\<lambda>_.
        give (create_access_token lib st now (token_data u), create_refresh_token lib st now fresh (token_data u)))) s =
      (Inr pair, s1)"
    using assms(1) by (auto simp: rotate_def Let_def raise_def split: option.splits)
  let ?r1 = "r\<lparr>rf_revoked := Some now, rf_replaced := Some j\<rparr>"
  have "?r1 \<in> set (put_row rf_jti ?r1 (refresh_rows s))"
    using assms(2) by (intro put_row_self) auto
  then have "spent (rf_jti r) (s\<lparr>refresh_rows := put_row rf_jti ?r1 (refresh_rows s)\<rparr>)"
    unfolding spent_def by (intro bexI [of _ ?r1]) simp_all
  then show ?thesis
    using keep by (auto simp: andthen_def [of "change _"] change_def
      dest: tripleD_return [OF then_give [OF persist_spent [of "rf_jti r"]], rotated])
qed

lemma find_spent:
  assumes "spent j s" and "distinct (map rf_jti (refresh_rows s))" and "find (row_of j i t) (refresh_rows s) = Some r"
  shows "rf_revoked r \<noteq> None"
proof -
  have r: "r \<in> set (refresh_rows s)" "rf_jti r = j"
    using assms(3) by (auto simp: find_Some_iff row_of_def)
  obtain x where x: "x \<in> set (refresh_rows s)" "rf_jti x = j" "rf_revoked x \<noteq> None"
    using assms(1) by (auto simp: spent_def)
  then show ?thesis
    using distinct_key_eq [OF assms(2) r(1) x(1)] r(2) by auto
qed

lemma request_refuses: "fst (m s) = Inl e \<Longrightarrow> request m s = (Inl e, s)"
  by (cases "m s") (auto simp: request_def andthen_def)

lemma spent_refused:
  assumes "spent (or_blank (cl_jti p)) s" and "auth_ok s" and "cl_type p = Some ''refresh''" and "truthy (cl_jti p)"
    and "cl_sub p = Some i" and "cl_tenant p = Some t"
    and "jwt_decode lib now token = Some p \<or> jwt_decode lib now token = None"
  shows "request (refresh lib st now fresh token) s = (Inl (Unauthorized ''Invalid or expired refresh token''), s)"
proof -
  have "rf_revoked r \<noteq> None" if "find (row_of (or_blank (cl_jti p)) i t) (refresh_rows s) = Some r" for r
    using find_spent [OF assms(1)] assms(2) that by (auto simp: auth_ok_def)
  then show ?thesis
    using assms(3-)
    by (intro request_refuses)
      (auto simp: refresh_def redeem_def refuse_refresh_def refresh_usable_def raise_def andthen_def give_def change_def
        split: option.split)
qed

text \<open>
  C36. Over any history of requests and changes of users, a refresh token that bought a pair of
  tokens once buys nothing ever again: the request is answered with 401 and changes nothing.
\<close>

theorem refresh_token_single_use:
  assumes "stable_claims lib" and "request (refresh lib st now fresh token) s = (Inr pair, s1)"
  shows "request (refresh lib st later fresh2 token) (history lib st es s1) =
      (Inl (Unauthorized ''Invalid or expired refresh token''), history lib st es s1)"
proof -
  from assms(2) have run: "refresh lib st now fresh token s = (Inr pair, s1)" and ok: "auth_ok s1"
    by (auto elim: request_cases)
  from run obtain p i t r u where p: "jwt_decode lib now token = Some p" "cl_type p = Some ''refresh''" "truthy (cl_jti p)"
      "cl_sub p = Some i" "cl_tenant p = Some t"
    and r: "find (row_of (or_blank (cl_jti p)) i t) (refresh_rows s) = Some r"
    and rot: "rotate lib st now fresh r u s = (Inr pair, s1)"
    by (rule refresh_result)
  have "r \<in> set (refresh_rows s)" and "rf_jti r = or_blank (cl_jti p)"
    using r by (auto simp: find_Some_iff row_of_def)
  then have "spent (or_blank (cl_jti p)) s1"
    using rotate_spends [OF rot] by simp
  then have "spent (or_blank (cl_jti p)) (history lib st es s1)" and "auth_ok (history lib st es s1)"
    using ok by (auto intro: history_keeps step_spent step_ok)
  moreover have "jwt_decode lib later token = Some p \<or> jwt_decode lib later token = None"
    using assms(1) p(1) unfolding stable_claims_def by (cases "jwt_decode lib later token") auto
  ultimately show ?thesis
    using p by (intro spent_refused)
qed

subsection \<open>Who gets a permission\<close>

text \<open>What the headers of a request prove.\<close>

definition names_user :: "crypto \<Rightarrow> instant \<Rightarrow> pystr \<Rightarrow> user \<Rightarrow> auth_db \<Rightarrow> bool" where
  "names_user lib now token u s \<longleftrightarrow> u \<in> set (users s) \<and> us_active u \<and>
     (case jwt_decode lib now token of None \<Rightarrow> False
      | Some p \<Rightarrow> cl_type p = Some ''access'' \<and> cl_sub p = Some (us_id u) \<and> cl_tenant p = Some (us_tenant u))"

definition opens :: "crypto \<Rightarrow> pystr \<Rightarrow> api_key \<Rightarrow> auth_db \<Rightarrow> bool" where
  "opens lib raw k s \<longleftrightarrow>
     k \<in> set (api_keys s) \<and> ak_active k \<and> ak_prefix k = take 8 raw \<and> check_password lib raw (ak_hash k)"

definition prefixes_differ :: "auth_db \<Rightarrow> bool" where
  "prefixes_differ s \<longleftrightarrow> distinct (map ak_prefix (filter ak_active (api_keys s)))"

lemma filter_unique: "distinct (map f xs) \<Longrightarrow> x \<in> set xs \<Longrightarrow> filter (\<lambda>y. f y = f x) xs = [x]"
  by (induction xs) (auto simp: filter_empty_conv intro: rev_image_eqI)

lemma filter_one: "filter P xs = [x] \<Longrightarrow> x \<in> set xs \<and> P x"
  using filter_eq_Cons_iff [of P xs x "[]"] by auto

lemma user_of_token:
  assumes "auth_ok s"
  shows "get_optional_current_user lib now bearer s = (Inr (Some u), s1) \<longleftrightarrow>
      s1 = s \<and> (\<exists>token. bearer = Some token \<and> names_user lib now token u s)"
proof
  assume run: "get_optional_current_user lib now bearer s = (Inr (Some u), s1)"
  then obtain token p i t where p: "bearer = Some token" "jwt_decode lib now token = Some p" "cl_type p = Some ''access''"
      "cl_sub p = Some i" "cl_tenant p = Some t" "s1 = s" "us_active u"
    and one: "filter (\<lambda>u. us_id u = i \<and> us_tenant u = t) (users s) = [u]"
    by (auto simp: get_optional_current_user_def give_def raise_def andthen_def scalar_one_or_none_def
        split: option.splits list.splits if_splits)
  then show "s1 = s \<and> (\<exists>token. bearer = Some token \<and> names_user lib now token u s)"
    using filter_one [OF one] by (auto simp: names_user_def)
next
  assume "s1 = s \<and> (\<exists>token. bearer = Some token \<and> names_user lib now token u s)"
  then obtain token p where "s1 = s" "bearer = Some token" "jwt_decode lib now token = Some p" "cl_type p = Some ''access''"
      "cl_sub p = Some (us_id u)" "cl_tenant p = Some (us_tenant u)" and u: "u \<in> set (users s)" "us_active u"
    by (auto simp: names_user_def split: option.splits)
  moreover have "filter (\<lambda>v. us_id v = us_id u \<and> us_tenant v = us_tenant u) (users s) =
      filter (\<lambda>v. us_tenant v = us_tenant u) (filter (\<lambda>v. us_id v = us_id u) (users s))"
    by (simp add: conj_commute)
  moreover have "filter (\<lambda>v. us_id v = us_id u) (users s) = [u]"
    using assms u by (intro filter_unique) (simp_all add: auth_ok_def)
  ultimately show "get_optional_current_user lib now bearer s = (Inr (Some u), s1)"
    by (simp add: get_optional_current_user_def andthen_def scalar_one_or_none_def give_def)
qed

lemma no_user_of_token: "get_optional_current_user lib now bearer s = (Inr None, s1) \<longleftrightarrow> bearer = None \<and> s1 = s"
  by (auto simp: get_optional_current_user_def give_def raise_def andthen_def scalar_one_or_none_def
      split: option.splits list.splits if_splits)

lemma touch_ok: "auth_ok s \<Longrightarrow> k \<in> set (api_keys s) \<Longrightarrow> auth_ok (touch_key now k s)"
  by (auto simp: auth_ok_def touch_key_def put_row_def comp_def if_distrib [of ak_id] cong: if_cong)

lemma opening_key:
  assumes "auth_ok s" and "prefixes_differ s"
  shows "get_current_api_key lib now header s = (Inr (Some k), s1) \<longleftrightarrow>
      (\<exists>raw k0. header = Some raw \<and> opens lib raw k0 s \<and> k = k0\<lparr>ak_last_used := Some now\<rparr> \<and> s1 = touch_key now k0 s)"
proof
  assume "get_current_api_key lib now header s = (Inr (Some k), s1)"
  from key_of_header [OF this] obtain raw k0 where k0: "header = Some raw" "check_password lib raw (ak_hash k0)"
      "k = k0\<lparr>ak_last_used := Some now\<rparr>" "s1 = touch_key now k0 s"
    and one: "filter (\<lambda>k. ak_prefix k = take 8 raw \<and> ak_active k) (api_keys s) = [k0]"
    by auto
  then show "\<exists>raw k0. header = Some raw \<and> opens lib raw k0 s \<and> k = k0\<lparr>ak_last_used := Some now\<rparr> \<and> s1 = touch_key now k0 s"
    using filter_one [OF one] by (auto simp: opens_def)
next
  assume "\<exists>raw k0. header = Some raw \<and> opens lib raw k0 s \<and> k = k0\<lparr>ak_last_used := Some now\<rparr> \<and> s1 = touch_key now k0 s"
  then obtain raw k0 where k0: "header = Some raw" "opens lib raw k0 s" "k = k0\<lparr>ak_last_used := Some now\<rparr>"
      "s1 = touch_key now k0 s"
    by auto
  have "filter (\<lambda>k. ak_prefix k = ak_prefix k0) (filter ak_active (api_keys s)) = [k0]"
    using assms(2) k0(2) by (intro filter_unique) (auto simp: prefixes_differ_def opens_def)
  then have "filter (\<lambda>k. ak_prefix k = take 8 raw \<and> ak_active k) (api_keys s) = [k0]"
    using k0(2) by (simp add: opens_def conj_commute)
  moreover have "auth_ok (touch_key now k0 s)"
    using assms(1) k0(2) by (auto simp: opens_def intro: touch_ok)
  ultimately show "get_current_api_key lib now header s = (Inr (Some k), s1)"
    using k0 by (simp add: get_current_api_key_def andthen_def scalar_one_or_none_def give_def change_def flush_auth_def
        touch_key_def opens_def Let_def)
qed

lemma context_result:
  "get_auth_context lib now bearer header s = (Inr a, s1) \<longleftrightarrow>
     (case a of
        By_user u \<Rightarrow> get_optional_current_user lib now bearer s = (Inr (Some u), s) \<and>
          (header = None \<and> s1 = s \<or> (\<exists>k. get_current_api_key lib now header s = (Inr (Some k), s1)))
      | By_key k \<Rightarrow> get_optional_current_user lib now bearer s = (Inr None, s) \<and>
          get_current_api_key lib now header s = (Inr (Some k), s1))"
proof
  assume "get_auth_context lib now bearer header s = (Inr a, s1)"
  then show "case a of
        By_user u \<Rightarrow> get_optional_current_user lib now bearer s = (Inr (Some u), s) \<and>
          (header = None \<and> s1 = s \<or> (\<exists>k. get_current_api_key lib now header s = (Inr (Some k), s1)))
      | By_key k \<Rightarrow> get_optional_current_user lib now bearer s = (Inr None, s) \<and>
          get_current_api_key lib now header s = (Inr (Some k), s1)"
    by (rule context_cases) (cases header; auto)+
qed (auto simp: get_auth_context_def andthen_def give_def get_current_api_key_def split: auth_context.splits)

lemma guard_result:
  assumes "auth_ok s"
  shows "fst (request (require_permission resource action lib now bearer header) s) = Inr a \<longleftrightarrow>
      (\<exists>s1. get_auth_context lib now bearer header s = (Inr a, s1)) \<and>
      (case a of By_user u \<Rightarrow> user_has_permission (us_role u) resource action
       | By_key k \<Rightarrow> api_key_has_permission (ak_permissions k) resource action)"
proof -
  have "triple auth_ok (get_auth_context lib now bearer header) (\<lambda>_. auth_ok) (\<lambda>_. True)"
    by (rule context_keeps)
  then have ok: "auth_ok s1" if "get_auth_context lib now bearer header s = (Inr x, s1)" for x s1
    using tripleD_return that assms by metis
  show ?thesis
    by (cases "get_auth_context lib now bearer header s"; cases "fst (get_auth_context lib now bearer header s)")
      (auto simp: request_def require_permission_def andthen_def give_def raise_def flush_auth_def dest: ok
        split: auth_context.splits)
qed

text \<open>
  C37. When no two active keys share a prefix, a permission is granted exactly in two cases. With a
  bearer token: it is a valid access token of an active user, the role of the user gives the
  permission, and if a key is sent along as well, it opens too; so an invalid token beside a good key, or
  a good token beside an invalid key, is refused. Without one: the key sent is active, its prefix
  and hash match, and its permission string gives the permission. The prefixes are not unique in the
  database, and two active keys with the same one make the request fail.
\<close>

theorem permission_granted_iff:
  assumes "auth_ok s" and "prefixes_differ s"
  shows "fst (request (require_permission resource action lib now bearer header) s) = Inr a \<longleftrightarrow>
      (case a of
         By_user u \<Rightarrow> (\<exists>token. bearer = Some token \<and> names_user lib now token u s) \<and>
           (\<forall>raw. header = Some raw \<longrightarrow> (\<exists>k. opens lib raw k s)) \<and> user_has_permission (us_role u) resource action
       | By_key k \<Rightarrow> bearer = None \<and>
           (\<exists>raw k0. header = Some raw \<and> opens lib raw k0 s \<and> k = k0\<lparr>ak_last_used := Some now\<rparr>) \<and>
           api_key_has_permission (ak_permissions k) resource action)"
  unfolding guard_result [OF assms(1)] context_result user_of_token [OF assms(1)] no_user_of_token opening_key [OF assms]
  by (cases header) (auto split: auth_context.split)

subsection \<open>Deleted keys\<close>

definition dead :: "pystr \<Rightarrow> auth_db \<Rightarrow> bool" where
  "dead i s \<longleftrightarrow> (\<exists>k \<in> set (api_keys s). ak_id k = i \<and> \<not> ak_active k)"

lemma dead_key_inactive: "dead i s \<Longrightarrow> auth_ok s \<Longrightarrow> k \<in> set (api_keys s) \<Longrightarrow> ak_id k = i \<Longrightarrow> \<not> ak_active k"
  unfolding dead_def auth_ok_def using distinct_key_eq [of ak_id "api_keys s"] by blast

lemma dead_put:
  "dead i s \<Longrightarrow> (ak_id k = i \<Longrightarrow> \<not> ak_active k) \<Longrightarrow> dead i (s\<lparr>api_keys := put_row ak_id k (api_keys s)\<rparr>)"
  unfolding dead_def by (simp add: put_row_marked)

lemma touch_dead:
  assumes "dead i s" and "auth_ok s" and "k \<in> set (api_keys s)" and "ak_active k"
  shows "dead i (touch_key now k s)"
  unfolding touch_key_def using dead_key_inactive [OF assms(1-3)] assms(4) by (intro dead_put [OF assms(1)]) auto

lemma guard_dead:
  "triple (\<lambda>s. dead i s \<and> auth_ok s) (get_auth_context lib now bearer header) (\<lambda>_ s. dead i s \<and> auth_ok s) (\<lambda>_. True)"
  by (rule context_keeps) (auto intro: touch_dead)

text \<open>The steps behind a guard of the routes for keys.\<close>

lemma dead_append: "dead i s \<Longrightarrow> dead i (s\<lparr>api_keys := api_keys s @ ks\<rparr>)"
  by (auto simp: dead_def)

lemma dead_by_keys: "api_keys s1 = api_keys s \<Longrightarrow> dead i s1 = dead i s"
  by (simp add: dead_def)

lemma create_dead:
  "triple (\<lambda>s. dead i s \<and> auth_ok s) (create_api_key lib now bearer header fresh secret name perms) (\<lambda>_. dead i) (\<lambda>_. True)"
  unfolding create_api_key_def Let_def
  by (rule triple_andthen [OF role_keeps [OF guard_dead]],
      rule triple_andthen [OF triple_change then_give [OF flush_keeps]]) (auto intro: dead_append)

lemma delete_dead:
  "triple (\<lambda>s. dead i s \<and> auth_ok s) (delete_api_key lib now bearer header key) (\<lambda>_. dead i) (\<lambda>_. True)"
  unfolding delete_api_key_def
  by (rule triple_andthen [OF role_keeps [OF guard_dead]],
      rule triple_reader [where m = "\<lambda>t. andthen (scalar_one_or_none (filter (P t) (api_keys t))) k" for P k])
    (rule triple_andthen [OF scalar_keeps], intro triple_option triple_crash,
      rule triple_andthen [OF _ flush_keeps], rule triple_change, auto intro: dead_put)

lemma quiet_keys_keeps: "quiet api_keys m \<Longrightarrow> dead i s \<Longrightarrow> dead i (snd (request m s))"
  using request_state [of m s] by (auto simp: quiet_def) (metis dead_by_keys snd_conv)

lemma persist_keys: "quiet api_keys (persist_refresh_token lib st now token)"
  unfolding persist_refresh_token_def by (auto split: option.split intro: quiet_pure quiet_change)

lemma issue_keys: "quiet api_keys (issue_tokens lib st now fresh u)"
  unfolding issue_tokens_def Let_def by (intro quiet_andthen persist_keys quiet_pure)

lemma scalar_quiet: "quiet v (scalar_one_or_none rows)"
  unfolding scalar_one_or_none_def by (auto split: list.split intro: quiet_pure)

lemma login_keys: "quiet api_keys (login lib st now fresh email password)"
  by (rule quiet_read, rule login_def, intro quiet_andthen scalar_quiet quiet_option quiet_if quiet_pure issue_keys)

lemma admin_login_keys: "quiet api_keys (admin_key_login lib st now fresh key)"
  unfolding admin_key_login_def
  by (intro quiet_if quiet_pure)
    (rule quiet_read, rule refl, intro quiet_option quiet_if quiet_pure issue_keys)

lemma rotate_keys: "quiet api_keys (rotate lib st now fresh r u)"
  unfolding rotate_def Let_def
  by (intro quiet_option quiet_pure quiet_andthen persist_keys quiet_change) simp

lemma refuse_keys: "quiet api_keys (refuse_refresh now row)"
  unfolding refuse_refresh_def by (intro quiet_andthen quiet_option quiet_if quiet_pure quiet_change) simp

lemma redeem_keys: "quiet api_keys (redeem lib st now fresh token row us)"
  unfolding redeem_def by (intro quiet_option quiet_if quiet_pure refuse_keys rotate_keys)

lemma refresh_keys: "quiet api_keys (refresh lib st now fresh token)"
  unfolding refresh_def
  by (auto split: option.split intro!: quiet_pure intro: quiet_read [OF _ redeem_keys])

lemma users_keys: "quiet api_keys (change (\<lambda>s. s\<lparr>users := us\<rparr>))"
  by (rule quiet_change) simp

lemma step_dead:
  assumes "dead i s" and "auth_ok s"
  shows "dead i (auth_step lib st e s)"
proof -
  have P: "dead i s \<and> auth_ok s"
    using assms by simp
  have guarded: "dead i (snd (request (require_permission resource action lib now bearer header) s))"
    for resource action now bearer header
    using request_keeps [OF permission_keeps [OF guard_dead] P P] by simp
  show ?thesis
    by (cases e) (simp_all add: guarded request_keeps [OF create_dead P assms(1)] request_keeps [OF delete_dead P assms(1)]
      quiet_keys_keeps [OF login_keys assms(1)] quiet_keys_keeps [OF admin_login_keys assms(1)]
      quiet_keys_keeps [OF refresh_keys assms(1)] quiet_keys_keeps [OF users_keys assms(1)])
qed

lemma delete_kills:
  assumes "delete_api_key lib now bearer header key s = (Inr (), s1)"
  shows "dead key s1"
proof -
  obtain a s0 k where "s1 = s0\<lparr>api_keys := put_row ak_id (k\<lparr>ak_active := False\<rparr>) (api_keys s0)\<rparr>"
    and one: "filter (\<lambda>k. ak_id k = key \<and> ak_tenant k = context_tenant a) (api_keys s0) = [k]"
    using assms
    by (auto simp: delete_api_key_def scalar_one_or_none_def give_def raise_def change_def flush_auth_def andthen_def
        split: prod.splits sum.splits list.splits if_splits)
  moreover have "k\<lparr>ak_active := False\<rparr> \<in> set (put_row ak_id (k\<lparr>ak_active := False\<rparr>) (api_keys s0))"
    using filter_one [OF one] by (intro put_row_self) (auto intro: rev_image_eqI)
  ultimately show ?thesis
    using filter_one [OF one] unfolding dead_def by (intro bexI [of _ "k\<lparr>ak_active := False\<rparr>"]) simp_all
qed

text \<open>
  C38. After a key was deleted, no request of any later history authenticates with it.
\<close>

theorem deleted_key_stays_dead:
  assumes "request (delete_api_key lib now bearer header key) s = (Inr (), s1)"
    and "get_auth_context lib later bearer2 header2 (history lib st es s1) = (Inr (By_key k), s2)"
  shows "ak_id k \<noteq> key"
proof
  assume k: "ak_id k = key"
  from assms(1) have "dead key s1 \<and> auth_ok s1"
    by (auto elim: request_cases dest: delete_kills)
  then have "dead key (history lib st es s1) \<and> auth_ok (history lib st es s1)"
    by (intro history_keeps [where P = "\<lambda>s. dead key s \<and> auth_ok s"]) (auto intro: step_dead step_ok)
  moreover have "get_current_api_key lib later header2 (history lib st es s1) = (Inr (Some k), s2)"
    using assms(2) by (simp add: context_result)
  from key_of_header [OF this] obtain k0 where "ak_id k0 = key" and "ak_active k0" and "k0 \<in> set (api_keys (history lib st es s1))"
    using k by (auto dest!: filter_one)
  ultimately show False
    using dead_key_inactive by blast
qed

subsection \<open>Scopes\<close>

lemma visible_iff:
  "account_is_visible (get_read_scope a) x \<longleftrightarrow> sa_tenant x = context_tenant a \<and>
     (case a of By_user u \<Rightarrow> True | By_key k \<Rightarrow> (case ak_scope k of None \<Rightarrow> True | Some allowed \<Rightarrow> sa_id x \<in> set allowed))"
  by (cases a) (simp_all add: account_is_visible_def get_read_scope_def context_tenant_def scope_for_user_def
    scope_for_api_key_def split: option.split)

lemma visible_ids: "map sa_id (filter (account_is_visible sc) rows) = visible_account_ids sc rows"
  unfolding visible_account_ids_def account_is_visible_def
  by (intro arg_cong [of _ _ "map sa_id"] filter_cong) (auto split: option.split)

text \<open>
  The accounts a principal reads are the same whether the query or the loaded rows are
  filtered: all of its tenant for a user, for a key those of its allowlist, and of its tenant only.
\<close>

lemma visible_accounts:
  "map sa_id (filter_accounts_visible (get_read_scope a) rows) = visible_account_ids (get_read_scope a) rows \<and>
   set (filter_accounts_visible (get_read_scope a) rows) =
     {x \<in> set rows. sa_tenant x = context_tenant a \<and>
        (case a of By_user u \<Rightarrow> True
         | By_key k \<Rightarrow> (case ak_scope k of None \<Rightarrow> True | Some allowed \<Rightarrow> sa_id x \<in> set allowed))}"
  by (simp add: filter_accounts_visible_def visible_ids visible_iff)

lemma roles_are_nested:
  "set (permissions_of_role ''viewer'') \<subseteq> set (permissions_of_role ''readonly'') \<and>
   set (permissions_of_role ''readonly'') \<subseteq> set (permissions_of_role ''user'') \<and>
   user_has_permission ''admin'' resource action"
  by (simp add: permissions_of_role_def role_permissions_def user_has_permission_def)

subsection \<open>Sample requests\<close>

definition sample_lib :: crypto where
  "sample_lib =
     \<lparr>jwt_encode = (\<lambda>c. if cl_type c = Some ''access'' then ''A'' @ or_blank (cl_sub c) else ''R'' @ or_blank (cl_jti c)),
      jwt_decode = (\<lambda>now token. if 1000000 \<le> now then None else case token of
        [] \<Rightarrow> None
      | c # i \<Rightarrow> if c = CHR ''A''
          then Some \<lparr>cl_sub = Some i, cl_tenant = Some ''t1'', cl_role = None, cl_type = Some ''access'', cl_jti = None, cl_exp = 1000000\<rparr>
          else Some \<lparr>cl_sub = Some ''u1'', cl_tenant = Some ''t1'', cl_role = None, cl_type = Some ''refresh'', cl_jti = Some i,
            cl_exp = 1000000\<rparr>),
      check_password = (\<lambda>p h. h = CHR ''h'' # p), hash_secret = Cons CHR ''h'', sha256 = Cons CHR ''s''\<rparr>"

definition sample_auth :: auth_settings where
  "sample_auth = \<lparr>access_minutes = 1, refresh_days = 1, admin_key = None\<rparr>"

definition sample_user :: user where
  "sample_user = \<lparr>us_id = ''u1'', us_tenant = ''t1'', us_email = ''a@b'', us_password = ''hpw'', us_active = True, us_role = ''admin''\<rparr>"

definition sample_key :: api_key where
  "sample_key = \<lparr>ak_id = ''k1'', ak_tenant = ''t1'', ak_user = ''u1'', ak_name = ''n'', ak_prefix = ''fs_abcde'', ak_hash = ''hfs_abcdef'',
     ak_permissions = None, ak_scope = None, ak_active = True, ak_last_used = None, ak_expires = Some 5\<rparr>"

definition sample_row :: "pystr \<Rightarrow> refresh_row" where
  "sample_row j = \<lparr>rf_user = ''u1'', rf_tenant = ''t1'', rf_jti = j, rf_hash = ''sR'' @ j, rf_expires = 500000, rf_revoked = None,
     rf_replaced = None\<rparr>"

definition sample_db :: auth_db where
  "sample_db = \<lparr>users = [sample_user], api_keys = [sample_key], refresh_rows = [sample_row ''j1'']\<rparr>"

lemma sample_exchange:
  "fst (request (refresh sample_lib sample_auth 10 ''j2'' ''Rj1'') sample_db) = Inr (''Au1'', ''Rj2'')"
  by code_simp

theorem refresh_token_single_use_witness:
  "fst (request (refresh sample_lib sample_auth 20 ''j3'' ''Rj1'')
     (history sample_lib sample_auth [Login 15 ''j4'' ''a@b'' ''pw'']
       (snd (request (refresh sample_lib sample_auth 10 ''j2'' ''Rj1'') sample_db)))) =
     Inl (Unauthorized ''Invalid or expired refresh token'')"
proof -
  have "stable_claims sample_lib"
    by (auto simp: stable_claims_def sample_lib_def split: list.splits if_splits)
  moreover have "request (refresh sample_lib sample_auth 10 ''j2'' ''Rj1'') sample_db =
      (Inr (''Au1'', ''Rj2''), snd (request (refresh sample_lib sample_auth 10 ''j2'' ''Rj1'') sample_db))"
    by (rule prod_eqI) (simp_all add: sample_exchange)
  ultimately show ?thesis
    by (simp add: refresh_token_single_use)
qed

theorem permission_granted_iff_witness:
  "fst (request (require_permission ''accounts'' ''read'' sample_lib 10 (Some ''Au1'') None) sample_db) = Inr (By_user sample_user)"
proof -
  have "auth_ok sample_db" and "prefixes_differ sample_db" and "names_user sample_lib 10 ''Au1'' sample_user sample_db"
    and "user_has_permission (us_role sample_user) ''accounts'' ''read''"
    by code_simp+
  then show ?thesis
    by (simp add: permission_granted_iff)
qed

definition sample_deleted :: auth_db where
  "sample_deleted = snd (request (delete_api_key sample_lib 10 (Some ''Au1'') None ''k1'')
     (sample_db\<lparr>api_keys := [sample_key, sample_key\<lparr>ak_id := ''k2'', ak_prefix := ''fs_vwxyz'', ak_hash := ''hfs_vwxyz''\<rparr>]\<rparr>))"

theorem deleted_key_stays_dead_witness:
  "ak_id (sample_key\<lparr>ak_id := ''k2'', ak_prefix := ''fs_vwxyz'', ak_hash := ''hfs_vwxyz'', ak_last_used := Some 20\<rparr>) \<noteq> ''k1''"
proof (rule deleted_key_stays_dead)
  show "request (delete_api_key sample_lib 10 (Some ''Au1'') None ''k1'')
     (sample_db\<lparr>api_keys := [sample_key, sample_key\<lparr>ak_id := ''k2'', ak_prefix := ''fs_vwxyz'', ak_hash := ''hfs_vwxyz''\<rparr>]\<rparr>) =
     (Inr (), sample_deleted)"
    by (rule prod_eqI, code_simp, simp add: sample_deleted_def)
  show "get_auth_context sample_lib 20 None (Some ''fs_vwxyz'')
      (history sample_lib sample_auth [Login 15 ''j4'' ''a@b'' ''pw''] sample_deleted) =
     (Inr (By_key (sample_key\<lparr>ak_id := ''k2'', ak_prefix := ''fs_vwxyz'', ak_hash := ''hfs_vwxyz'', ak_last_used := Some 20\<rparr>)),
      snd (get_auth_context sample_lib 20 None (Some ''fs_vwxyz'')
        (history sample_lib sample_auth [Login 15 ''j4'' ''a@b'' ''pw''] sample_deleted)))"
    by (rule prod_eqI, code_simp, simp)
qed

subsection \<open>What the code does not do\<close>

text \<open>
  The answer 401 to a replayed token rolls back the revocation of the other tokens of the user, which the
  route has just written: the token bought before goes on working.
\<close>

definition sample_replayed :: auth_db where
  "sample_replayed = snd (request (refresh sample_lib sample_auth 10 ''j2'' ''Rj1'') sample_db)"

lemma replay_revokes_nothing:
  "map rf_revoked (refresh_rows (snd (refresh sample_lib sample_auth 20 ''j3'' ''Rj1'' sample_replayed))) = [Some 10, Some 20]"
  "snd (request (refresh sample_lib sample_auth 20 ''j3'' ''Rj1'') sample_replayed) = sample_replayed"
  "fst (request (refresh sample_lib sample_auth 30 ''j3'' ''Rj2'') sample_replayed) = Inr (''Au1'', ''Rj3'')"
  by code_simp+

text \<open>A key without any permission, and expired, passes the check for administrators and deletes keys.\<close>

lemma bare_expired_key_is_admin:
  "fst (request (require_role [''admin''] sample_lib 10 None (Some ''fs_abcdef'')) sample_db) =
     Inr (By_key (sample_key\<lparr>ak_last_used := Some 10\<rparr>))"
  "fst (request (delete_api_key sample_lib 10 None (Some ''fs_abcdef'') ''k1'') sample_db) = Inr ()"
  by code_simp+

text \<open>But it cannot create one: the reference to a user is given the identifier of the key.\<close>

lemma key_cannot_create_keys:
  "fst (request (create_api_key sample_lib 10 None (Some ''fs_abcdef'') ''k9'' ''zzz'' ''n'' None) sample_db) = Inl Crash"
  by code_simp

text \<open>Two active keys that agree in their first eight characters lock each other out.\<close>

lemma equal_prefixes_crash:
  "fst (request (require_permission resource action sample_lib 10 None (Some ''fs_abcdef''))
     (sample_db\<lparr>api_keys := [sample_key, sample_key\<lparr>ak_id := ''k2'', ak_hash := ''hfs_abcdexx''\<rparr>]\<rparr>)) = Inl Crash"
  by (simp add: request_def require_permission_def get_auth_context_def get_optional_current_user_def get_current_api_key_def
      sample_db_def sample_key_def andthen_def give_def raise_def scalar_one_or_none_def)

text \<open>A user cannot log in when another tenant has a user of the same address, which the table allows.\<close>

lemma shared_address_crashes:
  "auth_ok (sample_db\<lparr>users := [sample_user, sample_user\<lparr>us_id := ''u2'', us_tenant := ''t2''\<rparr>]\<rparr>)"
  "fst (request (login sample_lib sample_auth 10 ''j9'' ''a@b'' ''pw'')
     (sample_db\<lparr>users := [sample_user, sample_user\<lparr>us_id := ''u2'', us_tenant := ''t2''\<rparr>]\<rparr>)) = Inl Crash"
  by code_simp+

end
