(* ===== verification/Ledger_Compare.thy ===== *)
theory Ledger_Compare
  imports Py_Text Prelude Py_Decimal
begin

text \<open>
  Comparison of lists of transactions (\<^verbatim>\<open>sync/reconciliation.py\<close>) and the rules that excuse
  pairs of equal rows (\<^verbatim>\<open>duplicate_detection.py\<close>). Transactions are Python objects: a list pairs
  each with the identity that \<^verbatim>\<open>id()\<close> reads. Timestamps are aware: an instant and the offset of its
  zone. Sets of keys are iterated in some order, which is that of first occurrence here.
\<close>

record compared_txn =
  ct_provider :: pystr
  ct_ext_id :: pystr
  ct_account :: pystr
  ct_amount :: decimal
  ct_currency :: pystr
  ct_occurred :: instant
  ct_offset :: int
  ct_type :: pystr
  ct_description :: "pystr option"
  ct_status :: pystr

type_synonym txn_object = "nat \<times> compared_txn"

subsection \<open>Missing transactions\<close>

record missing_txn =
  mt_ext_id :: pystr
  mt_provider :: pystr
  mt_account :: pystr
  mt_amount :: decimal
  mt_currency :: pystr
  mt_occurred :: instant
  mt_description :: "pystr option"
  mt_type :: pystr
  mt_status :: pystr
  mt_source :: pystr

definition from_canonical :: "pystr \<Rightarrow> compared_txn \<Rightarrow> missing_txn" where
  "from_canonical source t =
     \<lparr>mt_ext_id = ct_ext_id t, mt_provider = ct_provider t, mt_account = ct_account t, mt_amount = ct_amount t,
      mt_currency = ct_currency t, mt_occurred = ct_occurred t, mt_description = ct_description t, mt_type = ct_type t,
      mt_status = ct_status t, mt_source = source\<rparr>"

record missing_result =
  in_a_not_b :: "missing_txn list"
  in_b_not_a :: "missing_txn list"
  matched_count :: int
  total_a :: int
  total_b :: int

definition total_findings :: "missing_result \<Rightarrow> int" where
  "total_findings r = int (length (in_a_not_b r)) + int (length (in_b_not_a r))"

definition only_in :: "pystr \<Rightarrow> ('k \<times> compared_txn list) list \<Rightarrow> ('k \<times> compared_txn list) list \<Rightarrow> missing_txn list" where
  "only_in source ga gb =
     concat (map (\<lambda>(k, ts). map (from_canonical source) ts) (filter (\<lambda>(k, ts). k \<notin> fst ` set gb) ga))"

definition count_matched :: "('k \<times> compared_txn list) list \<Rightarrow> ('k \<times> compared_txn list) list \<Rightarrow> int" where
  "count_matched ga gb =
     (\<Sum>(k, ts) \<leftarrow> ga. case map_of gb k of None \<Rightarrow> 0 | Some us \<Rightarrow> min (int (length ts)) (int (length us)))"

definition detect_missing :: "(compared_txn \<Rightarrow> 'k) \<Rightarrow> compared_txn list \<Rightarrow> compared_txn list \<Rightarrow> missing_result" where
  "detect_missing key as bs =
     (if as = [] \<and> bs = []
      then \<lparr>in_a_not_b = [], in_b_not_a = [], matched_count = 0, total_a = 0, total_b = 0\<rparr>
      else let ga = group_by key as; gb = group_by key bs
           in \<lparr>in_a_not_b = only_in ''a'' ga gb, in_b_not_a = only_in ''b'' gb ga,
               matched_count = count_matched ga gb, total_a = int (length as), total_b = int (length bs)\<rparr>)"

subsection \<open>Duplicates\<close>

definition same_desc :: "compared_txn \<Rightarrow> compared_txn \<Rightarrow> bool" where
  "same_desc a b =
     (if \<not> truthy (ct_description a) \<and> \<not> truthy (ct_description b) then True
      else if \<not> truthy (ct_description a) \<or> \<not> truthy (ct_description b) then False
      else strip (lower (or_blank (ct_description a))) = strip (lower (or_blank (ct_description b))))"

definition or_zero :: "decimal \<Rightarrow> decimal" where
  "or_zero d = (if dcoeff d = 0 then Dec 0 0 else d)"

text \<open>The calendar date an aware timestamp shows.\<close>

definition ct_day :: "compared_txn \<Rightarrow> int" where
  "ct_day t = (ct_occurred t + ct_offset t) div days 1"

record duplicate =
  dp_a :: txn_object
  dp_b :: txn_object
  dp_confidence :: rat
  dp_diff :: int
  dp_amount_diff :: decimal
  dp_same_description :: bool
  dp_same_provider :: bool

definition duplicate_of :: "txn_object \<Rightarrow> txn_object \<Rightarrow> duplicate" where
  "duplicate_of a b =
     \<lparr>dp_a = a, dp_b = b, dp_confidence = 1, dp_diff = \<bar>ct_occurred (snd a) - ct_occurred (snd b)\<bar>,
      dp_amount_diff = dabs (dsub (or_zero (ct_amount (snd a))) (or_zero (ct_amount (snd b)))),
      dp_same_description = same_desc (snd a) (snd b), dp_same_provider = (ct_provider (snd a) = ct_provider (snd b))\<rparr>"

text \<open>\<^verbatim>\<open>for i in range(n): for j in range(i + 1, n)\<close>.\<close>

fun index_pairs :: "'a list \<Rightarrow> ('a \<times> 'a) list" where
  "index_pairs [] = []"
| "index_pairs (x # xs) = map (Pair x) xs @ index_pairs xs"

definition check_pair ::
  "int \<Rightarrow> (nat \<times> nat) list \<times> duplicate list \<Rightarrow> txn_object \<times> txn_object \<Rightarrow> (nat \<times> nat) list \<times> duplicate list" where
  "check_pair threshold st p =
     (case (st, p) of ((seen, found), (a, b)) \<Rightarrow>
        if (fst a, fst b) \<in> set seen then (seen, found)
        else if \<not> deq (or_zero (ct_amount (snd a))) (or_zero (ct_amount (snd b))) then (seen, found)
        else if ct_day (snd a) \<noteq> ct_day (snd b) then (seen, found)
        else let seen1 = (fst a, fst b) # seen
             in if hours threshold < \<bar>ct_occurred (snd a) - ct_occurred (snd b)\<bar> then (seen1, found)
                else (seen1, found @ [duplicate_of a b]))"

definition check_group ::
  "int \<Rightarrow> (nat \<times> nat) list \<times> duplicate list \<Rightarrow> pystr \<times> txn_object list \<Rightarrow> (nat \<times> nat) list \<times> duplicate list" where
  "check_group threshold st g =
     (if fst g = [] then st else if length (snd g) < 2 then st else foldl (check_pair threshold) st (index_pairs (snd g)))"

definition detect_duplicates :: "int \<Rightarrow> txn_object list \<Rightarrow> duplicate list" where
  "detect_duplicates threshold ts =
     (if ts = [] then [] else snd (foldl (check_group threshold) ([], []) (group_by (\<lambda>t. ct_ext_id (snd t)) ts)))"

definition heuristic_confidence :: "bool \<Rightarrow> bool \<Rightarrow> rat" where
  "heuristic_confidence same_provider same_description =
     (let s1 = if \<not> same_provider then 1 / 2 + 1 / 5 else if \<not> same_description then 1 / 2 + 1 / 10 else 1 / 2;
          s2 = if same_description then s1 + 1 / 5 else s1
      in min s2 (9 / 10))"

subsection \<open>Rules that excuse a pair\<close>

text \<open>The rules read identifier and description.\<close>

type_synonym described = "pystr option \<times> pystr option"

definition normalise_text :: "pystr option \<Rightarrow> pystr" where
  "normalise_text v = lower (strip (or_blank v))"

definition normalise_id :: "pystr option \<Rightarrow> pystr" where
  "normalise_id v = removeprefix ''txn_'' (normalise_text v)"

definition contains_id :: "pystr \<Rightarrow> pystr \<Rightarrow> bool" where
  "contains_id description i \<longleftrightarrow> description \<noteq> [] \<and> i \<noteq> [] \<and> contains i description"

definition has_distinct_ids :: "described \<Rightarrow> described \<Rightarrow> bool" where
  "has_distinct_ids a b =
     (let ia = normalise_id (fst a); ib = normalise_id (fst b)
      in if ia = [] \<or> ib = [] \<or> ia = ib then False
         else contains_id (normalise_text (snd a)) ia \<and> contains_id (normalise_text (snd b)) ib)"

definition is_cash_reservation_pair :: "described \<Rightarrow> described \<Rightarrow> bool" where
  "is_cash_reservation_pair a b =
     (let ds = [normalise_text (snd a), normalise_text (snd b)]
      in list_ex (contains ''reservation'') ds \<and>
         list_ex (\<lambda>d. contains ''ideal deposit'' d \<or> contains ''ideaal deposit'' d) ds)"

end
