(* ===== verification/Reconciliation.thy ===== *)
theory Reconciliation
  imports Ledger_Compare Remediation Py_Quantize
begin

text \<open>
  The reconciliation of stored transactions (\<^verbatim>\<open>services/reconciliation.py\<close>, with the candidate
  query of \<^verbatim>\<open>db/repositories.py\<close>): duplicates within an account, gaps between the providers of an
  account, gaps at the start of the window, and the issues a run registers in the remediation backlog.
  The texts of floating-point numbers, the catalogue of connectors, identifiers and clock readings are
  fields of \<open>recon_env\<close>. Queries return rows in table order.
\<close>

record ledger_row =
  lr_id :: pystr
  lr_tenant :: pystr
  lr_account :: pystr
  lr_provider :: pystr
  lr_ext_id :: pystr
  lr_amount :: decimal
  lr_currency :: pystr
  lr_security :: "pystr option"
  lr_occurred :: instant
  lr_description :: "pystr option"

record ledger_account =
  la_id :: pystr
  la_tenant :: pystr
  la_name :: pystr
  la_connection :: "pystr option"
  la_external_id :: pystr

record finding =
  fd_id :: pystr
  fd_run :: pystr
  fd_tenant :: pystr
  fd_kind :: pystr
  fd_severity :: pystr
  fd_account :: pystr
  fd_provider :: pystr
  fd_other_provider :: "pystr option"
  fd_txn_a :: "pystr option"
  fd_txn_b :: "pystr option"
  fd_ext_a :: "pystr option"
  fd_ext_b :: "pystr option"
  fd_amount :: "decimal option"
  fd_occurred :: "instant option"
  fd_description :: pystr
  fd_details :: "(pystr \<times> pyval) list"
  fd_item :: "pystr option"

text \<open>
  \<open>rounded_text n x\<close> is \<^verbatim>\<open>str(round(x, n))\<close>, \<open>whole_text x\<close> the format \<^verbatim>\<open>.0f\<close>;
  \<open>repairs_history p\<close> says that the connector \<open>p\<close> declares the strategy for gaps.
\<close>

record recon_env =
  rounded_text :: "nat \<Rightarrow> rat \<Rightarrow> pystr"
  whole_text :: "rat \<Rightarrow> pystr"
  repairs_history :: "pystr \<Rightarrow> bool"
  digest :: "pystr \<Rightarrow> pystr"
  item_ids :: "nat \<Rightarrow> pystr"
  finding_ids :: "nat \<Rightarrow> pystr"
  run_id :: pystr
  started :: instant
  finished :: instant
  seen_at :: "nat \<Rightarrow> instant"

record scan =
  sn_tenant :: pystr
  sn_accounts :: "pystr list option"
  sn_providers :: "pystr list option"
  sn_from :: instant
  sn_to :: instant
  sn_threshold :: int
  sn_duplicates :: bool

text \<open>A list in the request restricts a query unless it is missing or empty.\<close>

definition wanted :: "pystr list option \<Rightarrow> pystr \<Rightarrow> bool" where
  "wanted ws x \<longleftrightarrow> (case ws of None \<Rightarrow> True | Some l \<Rightarrow> l = [] \<or> x \<in> set l)"

subsection \<open>Candidates\<close>

definition text_or :: "pystr option \<Rightarrow> pystr \<Rightarrow> pystr" where
  "text_or v d = (if truthy v then or_blank v else d)"

definition in_scan :: "scan \<Rightarrow> ledger_row \<Rightarrow> bool" where
  "in_scan sn t \<longleftrightarrow> lr_tenant t = sn_tenant sn \<and> wanted (sn_accounts sn) (lr_account t) \<and>
     wanted (sn_providers sn) (lr_provider t) \<and> sn_from sn \<le> lr_occurred t \<and> lr_occurred t \<le> sn_to sn"

definition row_day :: "ledger_row \<Rightarrow> int" where
  "row_day t = lr_occurred t div days 1"

definition identity_key :: "ledger_row \<Rightarrow> pystr \<times> pystr \<times> pystr \<times> pystr \<times> pystr \<times> pystr" where
  "identity_key t =
     (lr_account t, dec_str (lr_amount t), upper (lr_currency t), text_or (lr_security t) ''cash'', iso_date (row_day t),
      lr_ext_id t)"

definition described_row :: "ledger_row \<Rightarrow> described" where
  "described_row t = (Some (lr_ext_id t), lr_description t)"

definition near_duplicate :: "int \<Rightarrow> ledger_row \<times> ledger_row \<Rightarrow> bool" where
  "near_duplicate threshold p =
     (case p of (a, b) \<Rightarrow>
        lr_ext_id a \<noteq> [] \<and> lr_ext_id b \<noteq> [] \<and> lr_ext_id a = lr_ext_id b \<and> row_day a = row_day b \<and>
        \<not> is_cash_reservation_pair (described_row a) (described_row b) \<and>
        \<bar>lr_occurred a - lr_occurred b\<bar> \<le> hours threshold)"

definition group_pairs :: "int \<Rightarrow> ledger_row list \<Rightarrow> (ledger_row \<times> ledger_row) list" where
  "group_pairs threshold g =
     (if length g < 2 then [] else filter (near_duplicate threshold) (index_pairs (sort_key lr_occurred g)))"

definition scan_limit :: nat where
  "scan_limit = 5000"

definition find_duplicate_candidates :: "scan \<Rightarrow> ledger_row list \<Rightarrow> (ledger_row \<times> ledger_row) list" where
  "find_duplicate_candidates sn rows =
     (let txns = take scan_limit (filter (in_scan sn) rows);
          groups = group_by identity_key (filter (\<lambda>t. lr_ext_id t \<noteq> []) txns)
      in sort_key (\<lambda>p. - \<bar>dval (lr_amount (fst p))\<bar>) (concat (map (group_pairs (sn_threshold sn) \<circ> snd) groups)))"

subsection \<open>Findings\<close>

text \<open>\<^verbatim>\<open>a and b and a.lower() == b.lower()\<close>, which need not be a truth value.\<close>

definition same_description :: "pystr option \<Rightarrow> pystr option \<Rightarrow> pyval" where
  "same_description a b =
     (case a of
        None \<Rightarrow> PNone
      | Some s \<Rightarrow> if s = [] then PStr [] else
          (case b of None \<Rightarrow> PNone | Some t \<Rightarrow> if t = [] then PStr [] else PBool (lower s = lower t)))"

definition pair_confidence :: "bool \<Rightarrow> bool \<Rightarrow> rat" where
  "pair_confidence same_provider alike =
     (let c = if same_provider \<and> \<not> alike then 6 / 10 else if \<not> same_provider then 7 / 10 else 5 / 10
      in if alike then c + 2 / 10 else c)"

definition hours_between :: "instant \<Rightarrow> instant \<Rightarrow> rat" where
  "hours_between s t = of_int \<bar>s - t\<bar> / of_int (hours 1)"

definition no_desc :: "pystr option \<Rightarrow> pystr" where
  "no_desc v = text_or v ''no desc''"

definition duplicate_finding :: "recon_env \<Rightarrow> scan \<Rightarrow> ledger_row \<times> ledger_row \<Rightarrow> finding" where
  "duplicate_finding env sn p =
     (case p of (a, b) \<Rightarrow>
        let same_provider = lr_provider a = lr_provider b;
            same = same_description (lr_description a) (lr_description b);
            c = pair_confidence same_provider (py_true same)
        in \<lparr>fd_id = [], fd_run = run_id env, fd_tenant = sn_tenant sn, fd_kind = ''duplicate_transaction'',
            fd_severity = (if 8 / 10 < c then ''error'' else ''warning''), fd_account = lr_account a,
            fd_provider = lr_provider a, fd_other_provider = Some (lr_provider b), fd_txn_a = Some (lr_id a),
            fd_txn_b = Some (lr_id b), fd_ext_a = Some (lr_ext_id a), fd_ext_b = Some (lr_ext_id b),
            fd_amount = Some (lr_amount a), fd_occurred = Some (lr_occurred a),
            fd_description = ''Potential duplicate: '' @ no_desc (lr_description a) @ '' / '' @ no_desc (lr_description b) @
              '' ('' @ lr_provider a @ '' vs '' @ lr_provider b @ '')'',
            fd_details = [(''confidence'', PFloat (rounded_text env 2 c)),
              (''amount_diff'', PStr (dec_str (dabs (dsub (or_zero (lr_amount a)) (or_zero (lr_amount b)))))),
              (''diff_hours'', PFloat (rounded_text env 1 (hours_between (lr_occurred a) (lr_occurred b)))),
              (''same_description'', same), (''same_provider'', PBool same_provider)],
            fd_item = None\<rparr>)"

definition excused :: "ledger_row \<times> ledger_row \<Rightarrow> bool" where
  "excused p = (case p of (a, b) \<Rightarrow>
     has_distinct_ids (described_row a) (described_row b) \<or> is_cash_reservation_pair (described_row a) (described_row b))"

definition duplicate_findings :: "recon_env \<Rightarrow> scan \<Rightarrow> ledger_row list \<Rightarrow> finding list" where
  "duplicate_findings env sn rows =
     map (duplicate_finding env sn) (filter (\<lambda>p. \<not> excused p) (find_duplicate_candidates sn rows))"

text \<open>The rows of a provider in an account, and the range of their dates.\<close>

definition provider_rows :: "pystr \<Rightarrow> pystr \<Rightarrow> pystr \<Rightarrow> ledger_row list \<Rightarrow> ledger_row list" where
  "provider_rows tenant account provider rows =
     filter (\<lambda>t. lr_tenant t = tenant \<and> lr_account t = account \<and> lr_provider t = provider) rows"

definition providers_for_account :: "pystr \<Rightarrow> pystr \<Rightarrow> ledger_row list \<Rightarrow> pystr list" where
  "providers_for_account tenant account rows =
     remdups (map lr_provider (filter (\<lambda>t. lr_tenant t = tenant \<and> lr_account t = account) rows))"

definition date_range :: "ledger_row list \<Rightarrow> (instant \<times> instant) option" where
  "date_range ts =
     (if ts = [] then None else Some (Min (lr_occurred ` set ts), Max (lr_occurred ` set ts)))"

definition scanned_accounts :: "scan \<Rightarrow> ledger_account list \<Rightarrow> ledger_account list" where
  "scanned_accounts sn accounts = filter (\<lambda>a. la_tenant a = sn_tenant sn \<and> wanted (sn_accounts sn) (la_id a)) accounts"

definition gap_finding ::
  "recon_env \<Rightarrow> scan \<Rightarrow> ledger_account \<Rightarrow> pystr \<Rightarrow> pystr \<Rightarrow> pystr \<Rightarrow> (pystr \<times> pyval) list \<Rightarrow> finding" where
  "gap_finding env sn acct provider sev description details =
     \<lparr>fd_id = [], fd_run = run_id env, fd_tenant = sn_tenant sn, fd_kind = ''missing_transaction'', fd_severity = sev,
      fd_account = la_id acct, fd_provider = provider, fd_other_provider = None, fd_txn_a = None, fd_txn_b = None,
      fd_ext_a = None, fd_ext_b = None, fd_amount = None, fd_occurred = None, fd_description = description,
      fd_details = details, fd_item = None\<rparr>"

definition seven_days :: instant where
  "seven_days = days 7"

definition in_days :: "instant \<Rightarrow> rat" where
  "in_days d = of_int d / of_int (days 1)"

definition no_rows_finding ::
  "recon_env \<Rightarrow> scan \<Rightarrow> ledger_account \<Rightarrow> pystr list \<Rightarrow> instant \<Rightarrow> instant \<Rightarrow> pystr \<Rightarrow> finding" where
  "no_rows_finding env sn acct providers lo hi provider =
     gap_finding env sn acct provider ''error''
       (''Connector '' @ CHR 0x27 # provider @ CHR 0x27 # '' has no transactions for account '' @ CHR 0x27 # la_name acct @
         CHR 0x27 # '' while others do'')
       [(''account_name'', PStr (la_name acct)), (''overall_start'', PStr (iso_format lo)),
        (''overall_end'', PStr (iso_format hi)), (''all_providers'', PList (map PStr providers))]"

definition late_finding ::
  "recon_env \<Rightarrow> scan \<Rightarrow> ledger_account \<Rightarrow> pystr list \<Rightarrow> instant \<Rightarrow> pystr \<Rightarrow> instant \<Rightarrow> finding" where
  "late_finding env sn acct providers lo provider start =
     gap_finding env sn acct provider ''warning''
       (''Connector '' @ CHR 0x27 # provider @ CHR 0x27 # '' started recording transactions for '' @ CHR 0x27 #
         la_name acct @ CHR 0x27 # '' '' @ whole_text env (in_days (start - lo)) @ '' days after the earliest provider'')
       [(''account_name'', PStr (la_name acct)), (''provider_start'', PStr (iso_format start)),
        (''overall_start'', PStr (iso_format lo)), (''gap_days'', PFloat (rounded_text env 1 (in_days (start - lo)))),
        (''all_providers'', PList (map PStr providers))]"

definition compared_providers :: "scan \<Rightarrow> pystr list \<Rightarrow> pystr list option" where
  "compared_providers sn providers =
     (if length providers < 2 then None
      else let ps = filter (wanted (sn_providers sn)) providers
           in if length ps < 2 then None else Some ps)"

definition account_gaps :: "recon_env \<Rightarrow> scan \<Rightarrow> ledger_row list \<Rightarrow> ledger_account \<Rightarrow> finding list" where
  "account_gaps env sn rows acct =
     (case compared_providers sn (providers_for_account (sn_tenant sn) (la_id acct) rows) of
        None \<Rightarrow> []
      | Some ps \<Rightarrow>
          let ranges = map (\<lambda>p. (p, date_range (provider_rows (sn_tenant sn) (la_id acct) p rows))) ps;
              found = concat (map (\<lambda>(p, r). case r of None \<Rightarrow> [] | Some x \<Rightarrow> [x]) ranges)
          in if found = [] then []
             else let lo = Min (fst ` set found); hi = Max (snd ` set found)
                  in concat (map (\<lambda>(p, r). case r of
                       None \<Rightarrow> [no_rows_finding env sn acct ps lo hi p]
                     | Some (start, _) \<Rightarrow>
                         if seven_days < start - lo then [late_finding env sn acct ps lo p start] else []) ranges))"

definition boundary_finding :: "recon_env \<Rightarrow> scan \<Rightarrow> ledger_account \<Rightarrow> pystr \<Rightarrow> instant \<Rightarrow> finding" where
  "boundary_finding env sn acct provider start =
     gap_finding env sn acct provider ''info''
       (''Connector '' @ CHR 0x27 # provider @ CHR 0x27 # '' has a '' @ whole_text env (in_days (start - sn_from sn)) @
         ''-day gap at the start of the analysis window for '' @ CHR 0x27 # la_name acct @ [CHR 0x27])
       [(''account_name'', PStr (la_name acct)), (''provider_start'', PStr (iso_format start)),
        (''analysis_start'', PStr (iso_format (sn_from sn))),
        (''gap_days'', PFloat (rounded_text env 1 (in_days (start - sn_from sn))))]"

definition account_boundaries :: "recon_env \<Rightarrow> scan \<Rightarrow> ledger_row list \<Rightarrow> ledger_account \<Rightarrow> finding list" where
  "account_boundaries env sn rows acct =
     concat (map (\<lambda>p. case date_range (provider_rows (sn_tenant sn) (la_id acct) p rows) of
         None \<Rightarrow> []
       | Some (start, _) \<Rightarrow>
           if sn_from sn < start \<and> seven_days < start - sn_from sn then [boundary_finding env sn acct p start] else [])
       (filter (wanted (sn_providers sn)) (providers_for_account (sn_tenant sn) (la_id acct) rows)))"

definition numbered :: "(nat \<Rightarrow> pystr) \<Rightarrow> finding list \<Rightarrow> finding list" where
  "numbered ids fs = map (\<lambda>(f, n). f\<lparr>fd_id := ids n\<rparr>) (zip fs [0..<length fs])"

definition findings_of :: "recon_env \<Rightarrow> scan \<Rightarrow> ledger_account list \<Rightarrow> ledger_row list \<Rightarrow> finding list" where
  "findings_of env sn accounts rows =
     numbered (finding_ids env)
       ((if sn_duplicates sn then duplicate_findings env sn rows else []) @
        concat (map (account_gaps env sn rows) (scanned_accounts sn accounts)) @
        concat (map (account_boundaries env sn rows) (scanned_accounts sn accounts)))"

subsection \<open>Issues\<close>

definition entity_ids :: "finding \<Rightarrow> pystr list" where
  "entity_ids f = sort (filter (\<lambda>i. i \<noteq> []) (map or_blank [fd_txn_a f, fd_txn_b f]))"

definition detail :: "finding \<Rightarrow> pystr \<Rightarrow> pyval" where
  "detail f k = (case map_of (fd_details f) k of None \<Rightarrow> PNone | Some v \<Rightarrow> v)"

definition first_true :: "pyval list \<Rightarrow> pyval" where
  "first_true vs = (case find py_true vs of None \<Rightarrow> last vs | Some v \<Rightarrow> v)"

definition window_start :: "scan \<Rightarrow> finding \<Rightarrow> pyval" where
  "window_start sn f = first_true [detail f ''analysis_start'', detail f ''overall_start'', PStr (iso_format (sn_from sn))]"

definition window_end :: "scan \<Rightarrow> finding \<Rightarrow> pyval" where
  "window_end sn f = first_true [detail f ''overall_end'', PStr (iso_format (sn_to sn))]"

definition is_text :: "pyval \<Rightarrow> bool" where
  "is_text v = (case v of PStr _ \<Rightarrow> True | _ \<Rightarrow> False)"

definition is_gap :: "finding \<Rightarrow> bool" where
  "is_gap f \<longleftrightarrow> fd_kind f = ''missing_transaction''"

text \<open>The repair of a gap, where the account has a connection whose connector declares it.\<close>

definition history_repair ::
  "recon_env \<Rightarrow> scan \<Rightarrow> ledger_account list \<Rightarrow> finding \<Rightarrow> (pystr \<times> (pystr \<times> pyval) list) option" where
  "history_repair env sn accounts f =
     (if \<not> is_gap f then None
      else case find (\<lambda>a. la_id a = fd_account f) accounts of
             None \<Rightarrow> None
           | Some a \<Rightarrow>
               (case la_connection a of
                  None \<Rightarrow> None
                | Some c \<Rightarrow>
                    if repairs_history env (lower (fd_provider f)) \<and> is_text (window_start sn f) \<and> is_text (window_end sn f)
                    then Some (c, [(''account_id'', PStr (fd_account f)), (''provider_account_id'', PStr (la_external_id a)),
                           (''from'', window_start sn f), (''to'', window_end sn f), (''minimum_transactions'', PInt 1),
                           (''limit'', PInt 500)])
                    else None))"

definition is_boundary_note :: "finding \<Rightarrow> bool" where
  "is_boundary_note f \<longleftrightarrow> is_gap f \<and> fd_severity f = ''info'' \<and> ''gap_days'' \<in> fst ` set (fd_details f)"

definition issue_context :: "recon_env \<Rightarrow> scan \<Rightarrow> ledger_account list \<Rightarrow> finding \<Rightarrow> (pystr \<times> pyval) list" where
  "issue_context env sn accounts f =
     (case history_repair env sn accounts f of
        Some (c, ctx) \<Rightarrow> ctx
      | None \<Rightarrow> [(''account_id'', PStr (fd_account f)), (''details'', PDict (fd_details f))])"

definition issue_connection :: "recon_env \<Rightarrow> scan \<Rightarrow> ledger_account list \<Rightarrow> finding \<Rightarrow> pystr option" where
  "issue_connection env sn accounts f =
     (if is_boundary_note f then None else map_option fst (history_repair env sn accounts f))"

definition issue_strategy :: "recon_env \<Rightarrow> scan \<Rightarrow> ledger_account list \<Rightarrow> finding \<Rightarrow> pystr" where
  "issue_strategy env sn accounts f =
     (if is_boundary_note f then ''coverage_boundary''
      else if history_repair env sn accounts f \<noteq> None then ''transaction_history_gap'' else ''unsupported'')"

definition entity_of :: "finding \<Rightarrow> pystr" where
  "entity_of f =
     (let e = join '':'' (entity_ids f) in if e \<noteq> [] then e else if fd_account f \<noteq> [] then fd_account f else fd_id f)"

definition issue_scope :: "finding \<Rightarrow> pystr" where
  "issue_scope f =
     (if is_gap f then ''account:'' @ fd_account f @ '':provider:'' @ fd_provider f else py_repr (PDict (fd_details f)))"

definition issue_of :: "recon_env \<Rightarrow> scan \<Rightarrow> ledger_account list \<Rightarrow> instant \<Rightarrow> finding \<Rightarrow> issue" where
  "issue_of env sn accounts now f =
     \<lparr>iss_tenant_id = sn_tenant sn, iss_provider_key = fd_provider f, iss_type = fd_kind f,
      iss_entity_type = (if 1 < length (entity_ids f) then ''transaction_pair'' else ''account''),
      iss_entity_id = entity_of f, iss_severity = fd_severity f, iss_priority = 0,
      iss_strategy = issue_strategy env sn accounts f, iss_context = issue_context env sn accounts f,
      iss_connection_id = issue_connection env sn accounts f, iss_target_id = None, iss_scope = Some (issue_scope f),
      detected_at = now\<rparr>"

subsection \<open>A run\<close>

record recon_run =
  rr_id :: pystr
  rr_tenant :: pystr
  rr_status :: pystr
  rr_started :: instant
  rr_completed :: "instant option"
  rr_count :: "int option"
  rr_by_kind :: "(pystr \<times> int) list"
  rr_by_severity :: "(pystr \<times> int) list"

record recon_db =
  rc_runs :: "recon_run list"
  rc_results :: "finding list"
  rc_items :: "item list"

text \<open>The row that \<^verbatim>\<open>register\<close> returns.\<close>

definition registered_row :: "(pystr \<Rightarrow> pystr) \<Rightarrow> issue \<Rightarrow> item list \<Rightarrow> item list \<Rightarrow> item option" where
  "registered_row sha i before after =
     (let key = deduplication_key sha i
      in case find_item (iss_tenant_id i) key before of
           Some old \<Rightarrow> if item_status old = Resolved \<and> \<not> in_grace (detected_at i) old
                       then find_item (iss_tenant_id i) (generation_key sha i) after
                       else find_item (iss_tenant_id i) key after
         | None \<Rightarrow> find_item (iss_tenant_id i) key after)"

fun register_each ::
  "recon_env \<Rightarrow> scan \<Rightarrow> ledger_account list \<Rightarrow> nat \<Rightarrow> finding list \<Rightarrow> item list \<Rightarrow> finding list \<times> item list" where
  "register_each env sn accounts n [] items = ([], items)"
| "register_each env sn accounts n (f # fs) items =
     (let i = issue_of env sn accounts (seen_at env n) f;
          items1 = register (digest env) (item_ids env n) i items;
          (fs1, items2) = register_each env sn accounts (Suc n) fs items1
      in (f\<lparr>fd_item := map_option item_id (registered_row (digest env) i items items1)\<rparr> # fs1, items2))"

definition count_by :: "(finding \<Rightarrow> pystr) \<Rightarrow> finding list \<Rightarrow> (pystr \<times> int) list" where
  "count_by key fs = map (\<lambda>(k, g). (k, int (length g))) (group_by key fs)"

text \<open>The width of the column; a longer text makes the flush fail.\<close>

definition finding_fits :: "finding \<Rightarrow> bool" where
  "finding_fits f \<longleftrightarrow> length (fd_description f) \<le> 512"

definition new_recon_run :: "recon_env \<Rightarrow> scan \<Rightarrow> recon_run" where
  "new_recon_run env sn =
     \<lparr>rr_id = run_id env, rr_tenant = sn_tenant sn, rr_status = ''running'', rr_started = started env, rr_completed = None,
      rr_count = None, rr_by_kind = [], rr_by_severity = []\<rparr>"

definition completed_recon_run :: "recon_env \<Rightarrow> scan \<Rightarrow> finding list \<Rightarrow> recon_run" where
  "completed_recon_run env sn fs =
     (new_recon_run env sn)\<lparr>rr_status := ''completed'', rr_completed := Some (finished env), rr_count := Some (int (length fs)),
       rr_by_kind := count_by fd_kind fs, rr_by_severity := count_by fd_severity fs\<rparr>"

text \<open>The units of work that read commit the run before its results are known.\<close>

definition committed_early :: "scan \<Rightarrow> ledger_account list \<Rightarrow> bool" where
  "committed_early sn accounts \<longleftrightarrow> sn_duplicates sn \<or> scanned_accounts sn accounts \<noteq> []"

text \<open>
  The run and whether the call returns. After a failed flush the session is unusable, so the handler
  that records the failure raises too.
\<close>

definition reconcile :: "recon_env \<Rightarrow> scan \<Rightarrow> ledger_account list \<Rightarrow> ledger_row list \<Rightarrow> recon_db \<Rightarrow> recon_run option \<times> recon_db" where
  "reconcile env sn accounts rows db =
     (let fs = findings_of env sn accounts rows
      in if list_all finding_fits fs
         then let (fs1, items1) = register_each env sn accounts 0 fs (rc_items db); r = completed_recon_run env sn fs1
              in (Some r, db\<lparr>rc_runs := rc_runs db @ [r], rc_results := rc_results db @ fs1, rc_items := items1\<rparr>)
         else (None, if committed_early sn accounts then db\<lparr>rc_runs := rc_runs db @ [new_recon_run env sn]\<rparr> else db))"

definition default_since :: "instant \<Rightarrow> instant" where
  "default_since now = now - days 90"

definition scan_window :: "instant \<Rightarrow> instant option \<Rightarrow> instant option \<Rightarrow> scan \<Rightarrow> scan" where
  "scan_window now date_from date_to sn =
     sn\<lparr>sn_from := (case date_from of None \<Rightarrow> default_since now | Some t \<Rightarrow> t),
        sn_to := (case date_to of None \<Rightarrow> now | Some t \<Rightarrow> t)\<rparr>"

end
