(* ===== verification/Ledger_Compare_Props.thy ===== *)
theory Ledger_Compare_Props
  imports Ledger_Compare "HOL-Library.Multiset"
begin

text \<open>
  The comparison of two lists finds exactly the transactions whose key the other side lacks and pairs
  the rest as multisets; duplicates are exactly the pairs of positions that agree. \<open>grouped_pairs\<close> says
  that pairing within groups is pairing all and keeping the pairs of one key.
\<close>

subsection \<open>Groups\<close>

lemma map_of_group_add:
  "map_of (group_add k x gs) j =
     (if j = k then Some ((case map_of gs k of None \<Rightarrow> [] | Some xs \<Rightarrow> xs) @ [x]) else map_of gs j)"
  by (induction k x gs rule: group_add.induct) auto

lemma map_of_group_by:
  "map_of (group_by key xs) k = (if k \<in> key ` set xs then Some (filter (\<lambda>x. key x = k) xs) else None)"
proof (induction xs rule: rev_induct)
  case Nil
  show ?case
    by (simp add: group_by_def)
next
  case (snoc x xs)
  have "filter (\<lambda>y. key y = k) xs = []" if "k \<notin> key ` set xs"
    using that by (auto simp: filter_empty_conv)
  then show ?case
    using snoc by (auto simp: group_by_snoc map_of_group_add)
qed

lemma group_by_filter: "(k, ys) \<in> set (group_by key xs) \<Longrightarrow> ys = filter (\<lambda>x. key x = k) xs"
  using map_of_is_SomeI [OF group_by_distinct] map_of_group_by [of key xs k] by (metis option.distinct(1) option.inject)

lemma in_group_by: "(k, ys) \<in> set (group_by key xs) \<longleftrightarrow> k \<in> key ` set xs \<and> ys = filter (\<lambda>x. key x = k) xs"
  using map_of_eq_Some_iff [OF group_by_distinct, of key xs k ys] by (auto simp: map_of_group_by split: if_splits)

lemma group_by_keys: "fst ` set (group_by key xs) = key ` set xs"
proof -
  have "k \<in> fst ` set (group_by key xs) \<longleftrightarrow> k \<in> key ` set xs" for k
    using map_of_group_by [of key xs k] map_of_eq_None_iff [of "group_by key xs" k] by (simp split: if_splits)
  then show ?thesis
    by blast
qed

lemma group_by_Nil [simp]: "group_by key [] = []"
  by (simp add: group_by_def)

subsection \<open>Missing transactions\<close>

lemma mset_filter_groups:
  "mset (concat (map snd (filter (\<lambda>g. P (fst g)) (group_by key xs)))) = mset (filter (\<lambda>x. P (key x)) xs)"
proof -
  have "filter (\<lambda>x. P (key x)) (concat (map snd gs)) = concat (map snd (filter (\<lambda>g. P (fst g)) gs))"
    if "\<forall>(j, ys) \<in> set gs. ys \<noteq> [] \<and> (\<forall>y \<in> set ys. key y = j)" for gs
    using that by (induction gs) (auto simp: filter_empty_conv intro!: filter_True)
  from this [OF group_by_inv] show ?thesis
    using group_by_mset [of key xs] by (metis mset_filter)
qed

lemma only_in_mset:
  "mset (only_in source (group_by key as) (group_by key bs)) =
     image_mset (from_canonical source) (mset (filter (\<lambda>t. key t \<notin> key ` set bs) as))"
proof -
  have "only_in source (group_by key as) (group_by key bs) =
      map (from_canonical source) (concat (map snd (filter (\<lambda>g. fst g \<notin> key ` set bs) (group_by key as))))"
    by (simp add: only_in_def group_by_keys map_concat case_prod_unfold comp_def)
  then show ?thesis
    using mset_filter_groups [of "\<lambda>k. k \<notin> key ` set bs" key as] by simp
qed

lemma count_image_mset_filter: "count (image_mset key (mset xs)) k = length (filter (\<lambda>x. key x = k) xs)"
  by (induction xs) auto

lemma count_matched_size:
  "count_matched (group_by key as) (group_by key bs) = int (size (image_mset key (mset as) \<inter># image_mset key (mset bs)))"
proof -
  let ?A = "image_mset key (mset as)" and ?B = "image_mset key (mset bs)" and ?ga = "group_by key as"
  have "(case map_of (group_by key bs) k of None \<Rightarrow> 0 | Some us \<Rightarrow> min (int (length ts)) (int (length us))) =
      int (count (?A \<inter># ?B) k)" if "(k, ts) \<in> set ?ga" for k ts
  proof -
    have "int (length ts) = int (count ?A k)"
      using group_by_filter [OF that] by (simp add: count_image_mset_filter)
    moreover have "int (count ?B k) = 0" if "k \<notin> key ` set bs"
      using that by (auto simp: count_eq_zero_iff)
    ultimately show ?thesis
      by (auto simp: map_of_group_by count_image_mset_filter)
  qed
  then have "count_matched ?ga (group_by key bs) = (\<Sum>g \<leftarrow> ?ga. int (count (?A \<inter># ?B) (fst g)))"
    unfolding count_matched_def by (intro arg_cong [of _ _ sum_list] map_cong) auto
  also have "\<dots> = (\<Sum>k \<leftarrow> map fst ?ga. int (count (?A \<inter># ?B) k))"
    by (simp add: comp_def)
  also have "\<dots> = (\<Sum>k \<in> set (map fst ?ga). int (count (?A \<inter># ?B) k))"
    by (rule sum_list_distinct_conv_sum_set [OF group_by_distinct])
  also have "\<dots> = (\<Sum>k \<in> key ` set as. int (count (?A \<inter># ?B) k))"
    by (simp only: set_map group_by_keys)
  also have "\<dots> = (\<Sum>k \<in> set_mset (?A \<inter># ?B). int (count (?A \<inter># ?B) k))"
    by (rule sum.mono_neutral_right) (auto simp: not_in_iff)
  finally show ?thesis
    by (simp add: size_multiset_overloaded_eq)
qed

text \<open>
  C39. The comparison reports exactly the transactions of each side whose key the other side lacks,
  and matches as many as the keys of both sides have in common, counted with repetition.
\<close>

theorem detect_missing_exact:
  "mset (in_a_not_b (detect_missing key as bs)) =
     image_mset (from_canonical ''a'') (mset (filter (\<lambda>t. key t \<notin> key ` set bs) as)) \<and>
   mset (in_b_not_a (detect_missing key as bs)) =
     image_mset (from_canonical ''b'') (mset (filter (\<lambda>t. key t \<notin> key ` set as) bs)) \<and>
   matched_count (detect_missing key as bs) = int (size (image_mset key (mset as) \<inter># image_mset key (mset bs))) \<and>
   total_a (detect_missing key as bs) = int (length as) \<and> total_b (detect_missing key as bs) = int (length bs)"
  by (cases "as = [] \<and> bs = []") (auto simp: detect_missing_def Let_def only_in_mset count_matched_size)

text \<open>A copy that the other side has once less is neither missing nor matched.\<close>

lemma surplus_unreported:
  "key t = key u \<Longrightarrow>
     in_a_not_b (detect_missing key [t, u] [t]) = [] \<and> in_b_not_a (detect_missing key [t, u] [t]) = [] \<and>
     matched_count (detect_missing key [t, u] [t]) = 1 \<and> total_a (detect_missing key [t, u] [t]) = 2"
  by (simp add: detect_missing_def group_by_def only_in_def count_matched_def)

subsection \<open>Duplicates\<close>

lemma index_pairs_snoc: "mset (index_pairs (xs @ [x])) = mset (index_pairs xs) + mset (map (\<lambda>y. (y, x)) xs)"
  by (induction xs) auto

lemma index_pairs_add:
  "mset (concat (map (index_pairs \<circ> snd) (group_add k x gs))) =
     mset (concat (map (index_pairs \<circ> snd) gs)) +
     mset (map (\<lambda>y. (y, x)) (case map_of gs k of None \<Rightarrow> [] | Some ys \<Rightarrow> ys))"
  by (induction k x gs rule: group_add.induct) (auto simp: index_pairs_snoc)

lemma grouped_pairs:
  "mset (concat (map (index_pairs \<circ> snd) (group_by key xs))) =
     filter_mset (\<lambda>(a, b). key a = key b) (mset (index_pairs xs))"
proof (induction xs rule: rev_induct)
  case (snoc x xs)
  have "filter (\<lambda>y. key y = key x) xs = [] " if "key x \<notin> key ` set xs"
    using that by (simp add: filter_empty_conv) (metis image_eqI)
  then have "(case map_of (group_by key xs) (key x) of None \<Rightarrow> [] | Some ys \<Rightarrow> ys) = filter (\<lambda>y. key y = key x) xs"
    by (auto simp: map_of_group_by)
  moreover have "filter_mset (\<lambda>(a, b). key a = key b) (mset (map (\<lambda>y. (y, x)) xs)) =
      mset (map (\<lambda>y. (y, x)) (filter (\<lambda>y. key y = key x) xs))"
    by (induction xs) auto
  ultimately show ?case
    using snoc by (simp add: group_by_snoc index_pairs_add [unfolded comp_def] index_pairs_snoc)
qed simp

lemma ex_nat_cases: "(\<exists>n. P n) \<longleftrightarrow> P 0 \<or> (\<exists>n. P (Suc n))"
  by (metis not0_implies_Suc)

lemma in_index_pairs: "(a, b) \<in> set (index_pairs xs) \<longleftrightarrow> (\<exists>i j. i < j \<and> j < length xs \<and> a = xs ! i \<and> b = xs ! j)"
proof (induction xs)
  case (Cons x xs)
  have first: "(\<exists>j. 0 < j \<and> j < length (x # xs) \<and> b = (x # xs) ! j) \<longleftrightarrow> (\<exists>j. j < length xs \<and> b = xs ! j)"
    by (subst ex_nat_cases) simp
  have later: "(\<exists>j. Suc i < j \<and> j < length (x # xs) \<and> a = xs ! i \<and> b = (x # xs) ! j) \<longleftrightarrow>
      (\<exists>j. i < j \<and> j < length xs \<and> a = xs ! i \<and> b = xs ! j)" for i
    by (subst ex_nat_cases) simp
  have "(\<exists>i j. i < j \<and> j < length (x # xs) \<and> a = (x # xs) ! i \<and> b = (x # xs) ! j) \<longleftrightarrow>
      (a = x \<and> (\<exists>j. j < length xs \<and> b = xs ! j)) \<or> (\<exists>i j. i < j \<and> j < length xs \<and> a = xs ! i \<and> b = xs ! j)"
    by (subst ex_nat_cases) (use first later in auto)
  moreover have "(a, b) \<in> set (index_pairs (x # xs)) \<longleftrightarrow> (a = x \<and> b \<in> set xs) \<or> (a, b) \<in> set (index_pairs xs)"
    by auto
  moreover have "(\<exists>j. j < length xs \<and> b = xs ! j) \<longleftrightarrow> b \<in> set xs"
    by (metis in_set_conv_nth)
  ultimately show ?case
    using Cons.IH by simp
qed simp

definition ids_of :: "txn_object \<times> txn_object \<Rightarrow> nat \<times> nat" where
  "ids_of p = (fst (fst p), fst (snd p))"

text \<open>What makes a pair a duplicate, once the identifiers agree.\<close>

definition agrees :: "int \<Rightarrow> txn_object \<times> txn_object \<Rightarrow> bool" where
  "agrees threshold p =
     (case p of (a, b) \<Rightarrow>
        deq (or_zero (ct_amount (snd a))) (or_zero (ct_amount (snd b))) \<and> ct_day (snd a) = ct_day (snd b) \<and>
        \<bar>ct_occurred (snd a) - ct_occurred (snd b)\<bar> \<le> hours threshold)"

lemma check_pair_unseen:
  "ids_of p \<notin> set seen \<Longrightarrow>
     snd (check_pair threshold (seen, found) p) =
       found @ map (\<lambda>(a, b). duplicate_of a b) (filter (agrees threshold) [p]) \<and>
     set (fst (check_pair threshold (seen, found) p)) \<subseteq> insert (ids_of p) (set seen)"
  by (cases p) (auto simp: check_pair_def ids_of_def agrees_def Let_def)

lemma check_pairs_unseen:
  assumes "distinct (map ids_of ps)" and "set (map ids_of ps) \<inter> set (fst st) = {}"
  shows "snd (foldl (check_pair threshold) st ps) =
      snd st @ map (\<lambda>(a, b). duplicate_of a b) (filter (agrees threshold) ps) \<and>
    set (fst (foldl (check_pair threshold) st ps)) \<subseteq> set (map ids_of ps) \<union> set (fst st)"
  using assms
proof (induction ps arbitrary: st)
  case (Cons p ps)
  have p: "ids_of p \<notin> set (fst st)"
    using Cons.prems by auto
  note unseen = check_pair_unseen [of p "fst st" threshold "snd st", OF p, unfolded prod.collapse]
  have "set (map ids_of ps) \<inter> insert (ids_of p) (set (fst st)) = {}"
    using Cons.prems by auto
  with unseen have "set (map ids_of ps) \<inter> set (fst (check_pair threshold st p)) = {}"
    by blast
  with Cons.IH [of "check_pair threshold st p"] Cons.prems(1) unseen show ?case
    by auto
qed simp

lemma index_pairs_short: "length xs < 2 \<Longrightarrow> index_pairs xs = []"
  by (cases xs rule: index_pairs.cases) (auto simp: numeral_2_eq_2)

lemma check_groups:
  assumes "distinct (map ids_of (concat (map (index_pairs \<circ> snd) gs)))"
    and "set (map ids_of (concat (map (index_pairs \<circ> snd) gs))) \<inter> set (fst st) = {}"
  shows "snd (foldl (check_group threshold) st gs) =
      snd st @ map (\<lambda>(a, b). duplicate_of a b)
        (filter (agrees threshold) (concat (map (index_pairs \<circ> snd) (filter (\<lambda>g. fst g \<noteq> []) gs))))"
  using assms
proof (induction gs arbitrary: st)
  case (Cons g gs)
  show ?case
  proof (cases "fst g = []")
    case True
    then have "check_group threshold st g = st"
      by (simp add: check_group_def)
    with Cons.IH [of st] Cons.prems True show ?thesis
      by auto
  next
    case False
    have step: "check_group threshold st g = foldl (check_pair threshold) st (index_pairs (snd g))"
      using False by (simp add: check_group_def index_pairs_short)
    have "snd (check_group threshold st g) = snd st @ map (\<lambda>(a, b). duplicate_of a b) (filter (agrees threshold) (index_pairs (snd g))) \<and>
      set (fst (check_group threshold st g)) \<subseteq> set (map ids_of (index_pairs (snd g))) \<union> set (fst st)"
      unfolding step by (rule check_pairs_unseen) (use Cons.prems in auto)
    moreover have "set (map ids_of (concat (map (index_pairs \<circ> snd) gs))) \<inter>
        (set (map ids_of (index_pairs (snd g))) \<union> set (fst st)) = {}"
      using Cons.prems by auto
    ultimately have "set (map ids_of (concat (map (index_pairs \<circ> snd) gs))) \<inter> set (fst (check_group threshold st g)) = {}"
      by blast
    moreover note \<open>snd (check_group threshold st g) = _ \<and> _\<close>
    ultimately show ?thesis
      using Cons.IH [of "check_group threshold st g"] Cons.prems(1) False by auto
  qed
qed simp

lemma distinct_index_pairs: "distinct (map f xs) \<Longrightarrow> distinct (map (\<lambda>p. (f (fst p), f (snd p))) (index_pairs xs))"
proof (induction xs)
  case (Cons x xs)
  have new: "f x \<noteq> f a" if "(a, b) \<in> set (index_pairs xs)" for a b
  proof -
    have "a \<in> set xs"
      using that by (auto simp: in_index_pairs)
    then show ?thesis
      using Cons.prems by auto
  qed
  have "distinct (map (\<lambda>y. (f x, f y)) xs)"
    using Cons.prems by (simp add: distinct_map inj_on_def)
  moreover have "set (map (\<lambda>y. (f x, f y)) xs) \<inter> set (map (\<lambda>p. (f (fst p), f (snd p))) (index_pairs xs)) = {}"
    by (auto dest!: new)
  ultimately show ?case
    using Cons by (simp add: comp_def)
qed simp

lemma image_pairs: "(\<lambda>(a, b). F a b) ` {p \<in> S. case p of (a, b) \<Rightarrow> Q a b} = {F a b |a b. (a, b) \<in> S \<and> Q a b}"
  by (auto simp: image_iff)

lemma detected:
  assumes "distinct (map fst ts)"
  shows "mset (detect_duplicates threshold ts) =
      image_mset (\<lambda>(a, b). duplicate_of a b)
        (filter_mset (\<lambda>(a, b). ct_ext_id (snd a) = ct_ext_id (snd b) \<and> ct_ext_id (snd a) \<noteq> [] \<and> agrees threshold (a, b))
          (mset (index_pairs ts)))"
proof -
  let ?key = "\<lambda>t :: txn_object. ct_ext_id (snd t)"
  let ?gs = "group_by ?key ts" and ?all = "concat (map (index_pairs \<circ> snd) (group_by ?key ts))"
  have "distinct (map ids_of (index_pairs ts))"
    using distinct_index_pairs [OF assms] by (simp add: ids_of_def [abs_def])
  then have diff: "distinct (map ids_of (filter (\<lambda>(a, b). ?key a = ?key b) (index_pairs ts)))"
    by (simp add: distinct_map inj_on_def)
  have all: "mset ?all = mset (filter (\<lambda>(a, b). ?key a = ?key b) (index_pairs ts))"
    using grouped_pairs [of ?key ts] by simp
  from all have "mset (map ids_of ?all) = mset (map ids_of (filter (\<lambda>(a, b). ?key a = ?key b) (index_pairs ts)))"
    by (simp only: mset_map)
  then have "distinct (map ids_of ?all)"
    by (rule mset_eq_imp_distinct_iff [THEN iffD2]) (rule diff)
  then have "detect_duplicates threshold ts = map (\<lambda>(a, b). duplicate_of a b)
      (filter (agrees threshold) (concat (map (index_pairs \<circ> snd) (filter (\<lambda>g. fst g \<noteq> []) ?gs))))"
    using check_groups [of ?gs "([], [])" threshold] by (simp add: detect_duplicates_def)
  moreover have "concat (map (index_pairs \<circ> snd) (filter (\<lambda>g. fst g \<noteq> []) gs)) =
      filter (\<lambda>p. ?key (fst p) \<noteq> []) (concat (map (index_pairs \<circ> snd) gs))"
    if "\<forall>(j, ys) \<in> set gs. \<forall>y \<in> set ys. ?key y = j" for gs
    using that
  proof (induction gs)
    case (Cons g gs)
    have "?key (fst p) = fst g" if "p \<in> set (index_pairs (snd g))" for p
    proof -
      have "fst p \<in> set (snd g)"
        using that in_index_pairs [of "fst p" "snd p" "snd g"] by auto
      then show ?thesis
        using Cons.prems by (cases g) auto
    qed
    then have "filter (\<lambda>p. ?key (fst p) \<noteq> []) (index_pairs (snd g)) = (if fst g \<noteq> [] then index_pairs (snd g) else [])"
      by (auto simp: filter_empty_conv intro!: filter_True)
    with Cons show ?case
      by simp
  qed simp
  moreover have "\<forall>(j, ys) \<in> set ?gs. \<forall>y \<in> set ys. ?key y = j"
    using group_by_inv [of ?key ts] by auto
  ultimately have "mset (detect_duplicates threshold ts) = image_mset (\<lambda>(a, b). duplicate_of a b)
      (filter_mset (agrees threshold) (filter_mset (\<lambda>p. ?key (fst p) \<noteq> []) (mset ?all)))"
    by (simp add: filter_filter_mset)
  then show ?thesis
    unfolding all mset_filter filter_filter_mset
    by (simp only:) (rule arg_cong [of _ _ "image_mset _"], rule filter_mset_cong, auto)
qed

text \<open>
  On a list of distinct objects the duplicates are exactly the pairs of positions with the same
  identifier, which is not empty, equal amounts, the same calendar date and timestamps within the
  threshold, and each is reported once.
\<close>

lemma detect_duplicates_exact:
  assumes "distinct (map fst ts)"
  shows "set (detect_duplicates threshold ts) =
      {duplicate_of (ts ! i) (ts ! j) |i j. i < j \<and> j < length ts \<and> ct_ext_id (snd (ts ! i)) = ct_ext_id (snd (ts ! j)) \<and>
         ct_ext_id (snd (ts ! i)) \<noteq> [] \<and>
         deq (or_zero (ct_amount (snd (ts ! i)))) (or_zero (ct_amount (snd (ts ! j)))) \<and>
         ct_day (snd (ts ! i)) = ct_day (snd (ts ! j)) \<and>
         \<bar>ct_occurred (snd (ts ! i)) - ct_occurred (snd (ts ! j))\<bar> \<le> hours threshold} \<and>
    distinct (detect_duplicates threshold ts)"
proof
  let ?Q = "\<lambda>a b. ct_ext_id (snd a) = ct_ext_id (snd b) \<and> ct_ext_id (snd a) \<noteq> [] \<and>
      deq (or_zero (ct_amount (snd a))) (or_zero (ct_amount (snd b))) \<and> ct_day (snd a) = ct_day (snd b) \<and>
      \<bar>ct_occurred (snd a) - ct_occurred (snd b)\<bar> \<le> hours threshold"
  have "set_mset (mset (detect_duplicates threshold ts)) =
      {duplicate_of a b |a b. (a, b) \<in> set (index_pairs ts) \<and> ?Q a b}"
    unfolding detected [OF assms] agrees_def set_image_mset set_mset_filter set_mset_mset image_pairs by auto
  then show "set (detect_duplicates threshold ts) = {duplicate_of (ts ! i) (ts ! j) |i j. i < j \<and> j < length ts \<and>
      ct_ext_id (snd (ts ! i)) = ct_ext_id (snd (ts ! j)) \<and> ct_ext_id (snd (ts ! i)) \<noteq> [] \<and>
      deq (or_zero (ct_amount (snd (ts ! i)))) (or_zero (ct_amount (snd (ts ! j)))) \<and>
      ct_day (snd (ts ! i)) = ct_day (snd (ts ! j)) \<and>
      \<bar>ct_occurred (snd (ts ! i)) - ct_occurred (snd (ts ! j))\<bar> \<le> hours threshold}"
    unfolding set_mset_mset in_index_pairs by blast
  have "distinct (map (\<lambda>(a, b). duplicate_of a b) (filter P (index_pairs ts)))" for P
  proof -
    have "inj_on (\<lambda>(a, b). duplicate_of a b) S" for S
      by (auto simp: inj_on_def duplicate_of_def)
    moreover have "distinct (index_pairs ts)"
      using distinct_index_pairs [OF assms] by (simp add: distinct_map)
    ultimately show ?thesis
      by (simp add: distinct_map)
  qed
  then show "distinct (detect_duplicates threshold ts)"
    using detected [OF assms, of threshold] unfolding mset_filter [symmetric] mset_map [symmetric]
    by (rule mset_eq_imp_distinct_iff [THEN iffD2, rotated])
qed

end
