(* ===== verification/Reconciliation_Props.thy ===== *)
theory Reconciliation_Props
  imports Reconciliation Ledger_Compare_Props Remediation_Registry
begin

text \<open>
  What a reconciliation guarantees: two stored rows give a finding exactly when they agree in the
  identity the code compares, and a run completes with its findings stored, counted and linked to the
  backlog, or raises and leaves a run that says it is running.
\<close>

subsection \<open>Duplicates\<close>

lemma index_pairs_members: "(a, b) \<in> set (index_pairs xs) \<Longrightarrow> a \<in> set xs \<and> b \<in> set xs"
  by (auto simp: in_index_pairs)

lemma index_pairs_either:
  "a \<in> set xs \<Longrightarrow> b \<in> set xs \<Longrightarrow> a \<noteq> b \<Longrightarrow> (a, b) \<in> set (index_pairs xs) \<or> (b, a) \<in> set (index_pairs xs)"
  by (metis in_index_pairs in_set_conv_nth linorder_neqE_nat)

lemma index_pairs_distinct: "distinct xs \<Longrightarrow> (a, b) \<in> set (index_pairs xs) \<Longrightarrow> a \<noteq> b"
  by (auto simp: in_index_pairs nth_eq_iff_index_eq)

lemma reservation_symmetric: "is_cash_reservation_pair a b = is_cash_reservation_pair b a"
  by (auto simp: is_cash_reservation_pair_def Let_def)

lemma near_symmetric: "near_duplicate threshold (a, b) = near_duplicate threshold (b, a)"
  by (auto simp: near_duplicate_def reservation_symmetric abs_minus_commute)

text \<open>The rule on identifiers in descriptions asks for different ones; candidates have the same.\<close>

lemma distinct_id_rule_idle: "near_duplicate threshold (a, b) \<Longrightarrow> \<not> excused (a, b)"
  by (auto simp: near_duplicate_def excused_def has_distinct_ids_def described_row_def Let_def)

lemma group_pairs_iff:
  assumes "distinct g"
  shows "(a, b) \<in> set (group_pairs threshold g) \<or> (b, a) \<in> set (group_pairs threshold g) \<longleftrightarrow>
      a \<in> set g \<and> b \<in> set g \<and> a \<noteq> b \<and> near_duplicate threshold (a, b)"
proof -
  have "(a, b) \<in> set (index_pairs (sort_key lr_occurred g)) \<or> (b, a) \<in> set (index_pairs (sort_key lr_occurred g)) \<longleftrightarrow>
      a \<in> set g \<and> b \<in> set g \<and> a \<noteq> b"
    using index_pairs_members [of a b "sort_key lr_occurred g"] index_pairs_members [of b a "sort_key lr_occurred g"]
      index_pairs_either [of a "sort_key lr_occurred g" b] index_pairs_distinct [of "sort_key lr_occurred g"] assms
    by auto
  then show ?thesis
    using index_pairs_short [of "sort_key lr_occurred g"] near_symmetric [of threshold a b]
    by (auto simp: group_pairs_def)
qed

lemma candidates_iff:
  assumes "distinct rows" and "length (filter (in_scan sn) rows) \<le> scan_limit"
  shows "(a, b) \<in> set (find_duplicate_candidates sn rows) \<or> (b, a) \<in> set (find_duplicate_candidates sn rows) \<longleftrightarrow>
      a \<in> set rows \<and> b \<in> set rows \<and> in_scan sn a \<and> in_scan sn b \<and> a \<noteq> b \<and> identity_key a = identity_key b \<and>
      near_duplicate (sn_threshold sn) (a, b)"
proof -
  let ?rows = "filter (\<lambda>t. lr_ext_id t \<noteq> []) (filter (in_scan sn) rows)"
  let ?group = "\<lambda>k. filter (\<lambda>t. identity_key t = k) ?rows"
  have "(x, y) \<in> set (find_duplicate_candidates sn rows) \<longleftrightarrow>
      (\<exists>g \<in> set (group_by identity_key ?rows). (x, y) \<in> set (group_pairs (sn_threshold sn) (snd g)))" for x y
    using assms(2) by (simp add: find_duplicate_candidates_def)
  then have members: "(x, y) \<in> set (find_duplicate_candidates sn rows) \<longleftrightarrow>
      (\<exists>k \<in> identity_key ` set ?rows. (x, y) \<in> set (group_pairs (sn_threshold sn) (?group k)))" for x y
    by (simp add: Bex_def split_paired_Ex in_group_by)
  have "distinct (?group k)" for k
    using assms(1) by simp
  from group_pairs_iff [OF this, of a b "sn_threshold sn"]
  have "(a, b) \<in> set (find_duplicate_candidates sn rows) \<or> (b, a) \<in> set (find_duplicate_candidates sn rows) \<longleftrightarrow>
      (\<exists>k \<in> identity_key ` set ?rows. a \<in> set (?group k) \<and> b \<in> set (?group k) \<and> a \<noteq> b \<and>
        near_duplicate (sn_threshold sn) (a, b))"
    unfolding members by blast
  then show ?thesis
    by (auto simp: near_duplicate_def)
qed

lemma finding_transactions: "fd_txn_a (duplicate_finding env sn (a, b)) = Some (lr_id a)"
    "fd_txn_b (duplicate_finding env sn (a, b)) = Some (lr_id b)"
  by (simp_all add: duplicate_finding_def Let_def)

text \<open>
  C40. Within a window of at most 5000 rows, two stored transactions are reported as duplicates of
  each other exactly when they are different rows of one account with the same non-empty identifier,
  amount, currency, instrument and day, no further apart than the threshold, and not a reservation
  with its settlement.
\<close>

theorem stored_duplicates_exact:
  assumes "distinct (map lr_id rows)" and "length (filter (in_scan sn) rows) \<le> scan_limit"
    and "a \<in> set rows" and "b \<in> set rows"
  shows "(\<exists>f \<in> set (duplicate_findings env sn rows). {fd_txn_a f, fd_txn_b f} = {Some (lr_id a), Some (lr_id b)}) \<longleftrightarrow>
      a \<noteq> b \<and> in_scan sn a \<and> in_scan sn b \<and> lr_account a = lr_account b \<and>
      lr_ext_id a = lr_ext_id b \<and> lr_ext_id a \<noteq> [] \<and>
      dec_str (lr_amount a) = dec_str (lr_amount b) \<and> upper (lr_currency a) = upper (lr_currency b) \<and>
      text_or (lr_security a) ''cash'' = text_or (lr_security b) ''cash'' \<and> row_day a = row_day b \<and>
      \<bar>lr_occurred a - lr_occurred b\<bar> \<le> hours (sn_threshold sn) \<and>
      \<not> is_cash_reservation_pair (described_row a) (described_row b)"
proof -
  have distinct: "distinct rows"
    using assms(1) by (simp add: distinct_map)
  note iff = candidates_iff [OF distinct assms(2)]
  have eq: "x = y" if "x \<in> set rows" "y \<in> set rows" "lr_id x = lr_id y" for x y
    using distinct_key_eq [OF assms(1)] that by blast
  have "(\<exists>f \<in> set (duplicate_findings env sn rows). {fd_txn_a f, fd_txn_b f} = {Some (lr_id a), Some (lr_id b)}) \<longleftrightarrow>
      (a, b) \<in> set (find_duplicate_candidates sn rows) \<or> (b, a) \<in> set (find_duplicate_candidates sn rows)" (is "?L \<longleftrightarrow> ?R")
  proof
    assume ?L
    then obtain x y where xy: "(x, y) \<in> set (find_duplicate_candidates sn rows)"
      and ids: "{lr_id x, lr_id y} = {lr_id a, lr_id b}"
      by (auto simp: duplicate_findings_def finding_transactions doubleton_eq_iff)
    moreover have "x \<in> set rows" and "y \<in> set rows"
      using iff [of x y] xy by auto
    ultimately show ?R
      using eq assms(3,4) by (auto simp: doubleton_eq_iff)
  next
    assume R: ?R
    then have near: "near_duplicate (sn_threshold sn) (a, b)" "near_duplicate (sn_threshold sn) (b, a)"
      using iff near_symmetric by blast+
    from R show ?L
    proof
      assume "(a, b) \<in> set (find_duplicate_candidates sn rows)"
      with near show ?L
        by (intro bexI [of _ "duplicate_finding env sn (a, b)"])
          (auto simp: duplicate_findings_def finding_transactions dest: distinct_id_rule_idle)
    next
      assume "(b, a) \<in> set (find_duplicate_candidates sn rows)"
      with near show ?L
        by (intro bexI [of _ "duplicate_finding env sn (b, a)"])
          (auto simp: duplicate_findings_def finding_transactions dest: distinct_id_rule_idle)
    qed
  qed
  from this [unfolded iff identity_key_def near_duplicate_def prod.case prod.inject] show ?thesis
    apply (rule trans)
    apply (rule iffI; elim conjE; intro conjI)
    apply (simp_all add: assms(3,4))
    done
qed

text \<open>Two rows of two connectors with one identifier, five minutes apart.\<close>

definition coffee :: "pystr \<Rightarrow> pystr \<Rightarrow> instant \<Rightarrow> ledger_row" where
  "coffee i provider t =
     \<lparr>lr_id = i, lr_tenant = ''t'', lr_account = ''a'', lr_provider = provider, lr_ext_id = ''tx-1'',
      lr_amount = Dec (-350) 2, lr_currency = ''EUR'', lr_security = None, lr_occurred = t, lr_description = Some ''Coffee''\<rparr>"

definition whole_scan :: scan where
  "whole_scan =
     \<lparr>sn_tenant = ''t'', sn_accounts = None, sn_providers = None, sn_from = 0, sn_to = days 90, sn_threshold = 48,
      sn_duplicates = True\<rparr>"

theorem stored_duplicates_exact_witness:
  "\<forall>env. \<exists>f \<in> set (duplicate_findings env whole_scan [coffee ''1'' ''bunq'' (days 3), coffee ''2'' ''ing'' (days 3 + 300 * seconds 1)]).
     {fd_txn_a f, fd_txn_b f} = {Some ''1'', Some ''2''}"
proof
  fix env
  let ?a = "coffee ''1'' ''bunq'' (days 3)" and ?b = "coffee ''2'' ''ing'' (days 3 + 300 * seconds 1)"
  have "?a \<noteq> ?b \<and> in_scan whole_scan ?a \<and> in_scan whole_scan ?b" and "row_day ?a = row_day ?b"
    and "\<not> is_cash_reservation_pair (described_row ?a) (described_row ?b)"
    and "\<bar>lr_occurred ?a - lr_occurred ?b\<bar> \<le> hours (sn_threshold whole_scan)"
    by code_simp+
  moreover have "distinct (map lr_id [?a, ?b])" and "length (filter (in_scan whole_scan) [?a, ?b]) \<le> scan_limit"
    by code_simp+
  ultimately show "\<exists>f \<in> set (duplicate_findings env whole_scan [?a, ?b]). {fd_txn_a f, fd_txn_b f} = {Some ''1'', Some ''2''}"
    using stored_duplicates_exact [of "[?a, ?b]" whole_scan ?a ?b env] by (simp add: coffee_def)
qed

text \<open>The threshold matters below a day only: the rows are of one day.\<close>

lemma threshold_idle: "row_day a = row_day b \<Longrightarrow> 24 \<le> threshold \<Longrightarrow> \<bar>lr_occurred a - lr_occurred b\<bar> \<le> hours threshold"
proof -
  assume "row_day a = row_day b" "24 \<le> threshold"
  moreover have "lr_occurred t = row_day t * days 1 + lr_occurred t mod days 1" for t
    by (simp add: row_day_def)
  moreover have "0 \<le> lr_occurred t mod days 1 \<and> lr_occurred t mod days 1 < days 1" for t
    by simp
  ultimately have "\<bar>lr_occurred a - lr_occurred b\<bar> \<le> days 1"
    by (smt (verit))
  then show ?thesis
    using \<open>24 \<le> threshold\<close> by simp
qed

subsection \<open>Registration\<close>

lemma register_each_keeps:
  assumes "\<And>f n items. f \<in> set fs \<Longrightarrow> P items \<Longrightarrow>
      P (register (digest env) (item_ids env n) (issue_of env sn accounts (seen_at env n) f) items)" and "P items"
  shows "P (snd (register_each env sn accounts n fs items))"
  using assms by (induction fs arbitrary: n items) (simp_all add: Let_def case_prod_unfold)

lemma register_each_fields:
  "map (\<lambda>f. (fd_kind f, fd_severity f)) (fst (register_each env sn accounts n fs items)) = map (\<lambda>f. (fd_kind f, fd_severity f)) fs"
  by (induction fs arbitrary: n items) (simp_all add: Let_def case_prod_unfold)

lemma ids_update_rows: "(\<And>r. item_id (f r) = item_id r) \<Longrightarrow> item_id ` set (update_rows P f rs) = item_id ` set rs"
  by (metis keys_update_rows set_map)

lemma upsert_ids: "item_id ` set rs \<subseteq> item_id ` set (upsert new rs)"
  using ids_update_rows [of "merge_item new"] by (auto simp: upsert_def)

lemma upsert_has: "\<exists>r. find_item (item_tenant new) (dedup_key new) (upsert new rs) = Some r"
proof -
  have "\<exists>r \<in> set (upsert new rs). key_of r = key_of new"
  proof (cases "list_ex (same_key new) rs")
    case True
    then obtain r where "r \<in> set rs" "key_of r = key_of new"
      by (auto simp: list_ex_iff same_key_iff)
    then have "merge_item new r \<in> set (upsert new rs)" and "key_of (merge_item new r) = key_of new"
      using True by (auto simp: upsert_def in_update_rows same_key_iff)
    then show ?thesis
      by blast
  qed (simp add: upsert_def)
  then have "find_item (item_tenant new) (dedup_key new) (upsert new rs) \<noteq> None"
    by (auto simp: find_item_def find_None_iff key_of_def)
  then show ?thesis
    by simp
qed

text \<open>What registration does: it touches the resolved row within the grace period, or upserts a key.\<close>

lemma register_cases:
  obtains (seen) old where "find_item (iss_tenant_id i) (deduplication_key sha i) rs = Some old" "item_status old = Resolved"
      "in_grace (detected_at i) old" "register sha uid i rs = update_rows (\<lambda>r. item_id r = item_id old)
        (\<lambda>r. r\<lparr>last_seen_at := detected_at i, item_context := iss_context i, item_updated_at := detected_at i\<rparr>) rs"
    | (reborn) old g where "find_item (iss_tenant_id i) (deduplication_key sha i) rs = Some old" "item_status old = Resolved"
      "\<not> in_grace (detected_at i) old" "register sha uid i rs = upsert (new_item uid (generation_key sha i) g i) rs"
    | (current) "register sha uid i rs = upsert (new_item uid (deduplication_key sha i) False i) rs"
      "\<And>old. find_item (iss_tenant_id i) (deduplication_key sha i) rs = Some old \<Longrightarrow> item_status old \<noteq> Resolved"
  by (cases "find_item (iss_tenant_id i) (deduplication_key sha i) rs") (auto simp: register_def Let_def split: if_splits)

lemma register_ids: "item_id ` set rs \<subseteq> item_id ` set (register sha uid i rs)"
  by (rule register_cases [of i sha rs uid]) (simp_all add: upsert_ids ids_update_rows)

lemma new_item_key: "item_tenant (new_item uid key g i) = iss_tenant_id i" "dedup_key (new_item uid key g i) = key"
  by (simp_all add: new_item_def)

lemma registered_row_stored: "\<exists>r. registered_row sha i rs (register sha uid i rs) = Some r \<and> r \<in> set (register sha uid i rs)"
proof -
  have found: "r \<in> set xs" if "find_item t k xs = Some r" for t k xs and r :: item
    using that by (auto simp: find_item_def find_Some_iff)
  have "registered_row sha i rs (register sha uid i rs) \<noteq> None"
  proof (rule register_cases [of i sha rs uid])
    fix old
    assume old: "find_item (iss_tenant_id i) (deduplication_key sha i) rs = Some old" "item_status old = Resolved"
      "in_grace (detected_at i) old" and reg: "register sha uid i rs = update_rows (\<lambda>r. item_id r = item_id old)
        (\<lambda>r. r\<lparr>last_seen_at := detected_at i, item_context := iss_context i, item_updated_at := detected_at i\<rparr>) rs"
    have "key_of old \<in> key_of ` set rs"
      using found [OF old(1)] by simp
    also have "key_of ` set rs = key_of ` set (register sha uid i rs)"
      unfolding reg set_map [symmetric] by (subst keys_update_rows) (simp_all add: key_of_def)
    finally have "find_item (iss_tenant_id i) (deduplication_key sha i) (register sha uid i rs) \<noteq> None"
      using old(1) by (auto simp: find_item_def find_None_iff find_Some_iff key_of_def)
    with old show ?thesis
      by (simp add: registered_row_def)
  next
    fix old g
    assume old: "find_item (iss_tenant_id i) (deduplication_key sha i) rs = Some old" "item_status old = Resolved"
      "\<not> in_grace (detected_at i) old" and reg: "register sha uid i rs = upsert (new_item uid (generation_key sha i) g i) rs"
    then show ?thesis
      using upsert_has [of "new_item uid (generation_key sha i) g i" rs] by (auto simp: registered_row_def new_item_key)
  next
    assume reg: "register sha uid i rs = upsert (new_item uid (deduplication_key sha i) False i) rs"
      and open_row: "\<And>old. find_item (iss_tenant_id i) (deduplication_key sha i) rs = Some old \<Longrightarrow> item_status old \<noteq> Resolved"
    show ?thesis
      using upsert_has [of "new_item uid (deduplication_key sha i) False i" rs] reg open_row
      by (auto simp: registered_row_def new_item_key Let_def split: option.split)
  qed
  then obtain r where r: "registered_row sha i rs (register sha uid i rs) = Some r"
    by auto
  then have "r \<in> set (register sha uid i rs)"
    by (auto simp: registered_row_def Let_def dest: found split: option.splits if_splits)
  with r show ?thesis
    by blast
qed

lemma register_each_ids: "item_id ` set items \<subseteq> item_id ` set (snd (register_each env sn accounts n fs items))"
  by (rule register_each_keeps [where P = "\<lambda>xs. item_id ` set items \<subseteq> item_id ` set xs"]) (use register_ids in blast)+

lemma register_each_links:
  "f \<in> set (fst (register_each env sn accounts n fs items)) \<Longrightarrow>
     \<exists>r \<in> set (snd (register_each env sn accounts n fs items)). fd_item f = Some (item_id r)"
proof (induction fs arbitrary: n items)
  case (Cons x fs)
  let ?i = "issue_of env sn accounts (seen_at env n) x"
  let ?items = "register (digest env) (item_ids env n) ?i items"
  have rest: "register_each env sn accounts n (x # fs) items =
      (x\<lparr>fd_item := map_option item_id (registered_row (digest env) ?i items ?items)\<rparr> #
         fst (register_each env sn accounts (Suc n) fs ?items), snd (register_each env sn accounts (Suc n) fs ?items))"
    by (simp add: Let_def case_prod_unfold)
  obtain r where "registered_row (digest env) ?i items ?items = Some r" "r \<in> set ?items"
    using registered_row_stored by blast
  moreover from this have "item_id r \<in> item_id ` set (snd (register_each env sn accounts (Suc n) fs ?items))"
    using register_each_ids [of ?items env sn accounts "Suc n" fs] by blast
  ultimately show ?case
    using Cons unfolding rest by auto
qed simp

subsection \<open>The outcome of a run\<close>

lemma group_sizes: "(\<Sum>(k, n) \<leftarrow> map (\<lambda>(k, g). (k, int (length g))) gs. n) = int (length (concat (map snd gs)))"
  by (induction gs) auto

lemma count_by_total: "(\<Sum>(k, n) \<leftarrow> count_by key fs. n) = int (length fs)"
  unfolding count_by_def group_sizes using group_by_mset [of key fs] by (metis mset_eq_length)

text \<open>
  A run whose findings fit their column completes: its findings are stored, each linked to a stored
  item of the backlog, and counted in total, by kind and by severity. With a description that does not
  fit the call raises; then no finding is stored, the backlog is unchanged, and what is left is a run
  that says it is running.
\<close>

lemma reconcile_outcome:
  assumes "reconcile env sn accounts rows db = (res, db1)"
  shows "if \<forall>f \<in> set (findings_of env sn accounts rows). length (fd_description f) \<le> 512
    then \<exists>r fs. res = Some r \<and> rc_runs db1 = rc_runs db @ [r] \<and> rc_results db1 = rc_results db @ fs \<and>
      rr_status r = ''completed'' \<and> length fs = length (findings_of env sn accounts rows) \<and>
      rr_count r = Some (int (length fs)) \<and> (\<Sum>(k, n) \<leftarrow> rr_by_kind r. n) = int (length fs) \<and>
      (\<Sum>(k, n) \<leftarrow> rr_by_severity r. n) = int (length fs) \<and>
      (\<forall>f \<in> set fs. \<exists>i \<in> set (rc_items db1). fd_item f = Some (item_id i))
    else res = None \<and> rc_results db1 = rc_results db \<and> rc_items db1 = rc_items db \<and>
      (rc_runs db1 = rc_runs db \<or> (\<exists>r. rc_runs db1 = rc_runs db @ [r] \<and> rr_status r = ''running''))"
proof (cases "\<forall>f \<in> set (findings_of env sn accounts rows). length (fd_description f) \<le> 512")
  case True
  let ?fs = "findings_of env sn accounts rows"
  let ?reg = "register_each env sn accounts 0 ?fs (rc_items db)"
  have "list_all finding_fits ?fs"
    using True by (simp add: list_all_iff finding_fits_def)
  then have "res = Some (completed_recon_run env sn (fst ?reg))" and "db1 = db\<lparr>rc_runs := rc_runs db @ [completed_recon_run env sn (fst ?reg)],
      rc_results := rc_results db @ fst ?reg, rc_items := snd ?reg\<rparr>"
    using assms by (auto simp: reconcile_def Let_def case_prod_unfold)
  moreover have "length (fst ?reg) = length ?fs"
    using register_each_fields [of env sn accounts 0 ?fs "rc_items db"] by (metis length_map)
  moreover have "\<exists>i \<in> set (snd ?reg). fd_item f = Some (item_id i)" if "f \<in> set (fst ?reg)" for f
    by (rule register_each_links [OF that])
  ultimately show ?thesis
    using True by (simp add: completed_recon_run_def count_by_total)
next
  case False
  then have "\<not> list_all finding_fits (findings_of env sn accounts rows)"
    by (auto simp: list_all_iff finding_fits_def)
  then show ?thesis
    unfolding if_not_P [OF False] using assms by (auto simp: reconcile_def Let_def new_recon_run_def split: if_splits)
qed

end
