(* ===== verification/Spec2Isabelle.thy ===== *)
theory Spec2Isabelle
  imports Tax_Lot_Correctness Tax_Lot_Transfers Tax_Lot_Adjustments Remediation_Batch_Run Connector_Limiter
    Webhook_Correctness Sync_Schedule_Props Schedule_Runner_Props Bulk_Upsert_Props Sync_Pipeline_Props
    Internal_Transfers_Props Fx_Props Actual_Export_Props Security_Identity_Props
    Auth_Props Reconciliation_Props
begin

text \<open>
  \<^bold>\<open>finance-sync: a verification development.\<close>

  finance-sync collects accounts, transactions and holdings from banks and brokers, stores them per
  tenant in PostgreSQL, derives tax lots, repairs gaps in its data, tells other programs about
  changes, and exports to other applications. Paths below are relative to
  \<^verbatim>\<open>src/src/finance_sync/\<close>.

  \<^bold>\<open>Parts and how they interact.\<close>
  A worker ticks every minute and dispatches the due sync schedules (schedule runner, on top of the
  schedule service and the recurrences). A run syncs a connection through a connector, whose calls
  go through the connector throttle. A completed sync writes outbox messages in the transaction
  of the data, which the outbox publisher hands to the webhook service, and rebuilds the tax lots
  of the tenant. Reconciliations and data-health checks register issues in the remediation backlog; remediation workers
  claim batches of them, reserve a shared quota, and repair and verify each item.

  \<^bold>\<open>Foundations.\<close>
  \<^item> \<open>Py_Decimal\<close>: Python's \<^verbatim>\<open>Decimal\<close> with 28 digits and half-even rounding, the numeric columns of the database.
  \<^item> \<open>Prelude\<close>: instants (microseconds since the epoch), tables as lists of rows, insertion-ordered
    dictionaries, the collections \<open>table_simps\<close> and \<open>group_simps\<close>.
  \<^item> \<open>Py_Text\<close>, \<open>Py_Json\<close>, \<open>Py_Time\<close>: strings, JSON values and their texts, calendar dates.
  \<^item> \<open>Redis\<close>: keys with expiry.
  \<^item> \<open>Work_Queue\<close>: the locale \<open>claim_queue\<close> of leased work queues, interpreted for the outbox and
    the remediation backlog: claims within a lease are disjoint.
  \<^item> \<open>Window_Limiter\<close>: the locale \<open>window_limiter\<close>, interpreted for the remediation quota, the
    connector throttle, the webhook limit and the claims of schedules: within a window no more than
    the cap is admitted.

  \<^bold>\<open>Tax lots\<close> (\<^verbatim>\<open>services/tax_lot_service.py\<close>, \<^verbatim>\<open>models/tax_lot.py\<close>, and the split
  ratios of \<^verbatim>\<open>services/wealthfolio_preflight.py\<close>): \<open>Tax_Lot_Model\<close> has the rows and the ratio
  parser, \<open>Tax_Lot_Service\<close> the operations and the full rebuild \<open>compute_all_tax_lots\<close>,
  \<open>Tax_Lot_Props\<close> their lemmas. \<open>Tax_Lot_Correctness\<close> shows that a sale refines the
  abstract consumption of open lots in FIFO or LIFO order and accounts for its quantity, that the
  rebuild keeps the invariant, touches no other tenant, and raises by itself only on an infinite split ratio. \<open>Tax_Lot_Transfers\<close> is about
  basis moved between accounts and the pairing of legs, \<open>Tax_Lot_Adjustments\<close> about wash sales and
  splits. \<open>Tax_Lot_Samples\<close> has the rows the witnesses share.

  \<^bold>\<open>Outbox\<close> (\<^verbatim>\<open>sync/outbox.py\<close>, \<^verbatim>\<open>sync/outbox_publisher.py\<close>): emission under an
  idempotency key, claims with a timeout, the publisher's tick and its dispatch to handlers. No
  message is handed out twice within the timeout, a poll is complete, a tick settles what it
  claimed, and reachable states satisfy the table's invariant.

  \<^bold>\<open>Remediation\<close> (\<^verbatim>\<open>reconciliation/remediation/\<close>): \<open>Remediation\<close> (backlog,
  policy and planner), \<open>Remediation_Props\<close> (claims: exclusive as long as no registration re-opens an item, bounded, fair), \<open>Remediation_Registry\<close>
  (registration and resolution as a reachability invariant), \<open>Remediation_Quota\<close> (batches, day
  ranges, the Redis quota), \<open>Remediation_Executor\<close> (execution of an item and of a batch with quota,
  time limit, provider call and verification) and \<open>Remediation_Execution\<close>, \<open>Remediation_Batch_Run\<close>
  (every path settles its items; resolved means verified; an execution that lost its claim decides
  nothing).

  \<^bold>\<open>Connector throttle and retries\<close> (\<^verbatim>\<open>connectors/rate_limiter.py\<close>): \<open>Connector_Limiter\<close>.

  \<^bold>\<open>Webhooks\<close> (\<^verbatim>\<open>services/webhook.py\<close>): \<open>Webhook\<close> has registration, destination
  checks, limits, fan-out, attempts, retries and signatures; \<open>Webhook_Props\<close> and
  \<open>Webhook_Correctness\<close> show the limit, tenant isolation, the invariant of the delivery log, that
  only allowed destinations are called, and what signatures verify.

  \<^bold>\<open>Schedules\<close>: \<open>Schedule_Spec\<close> (\<^verbatim>\<open>sync/schedule_spec.py\<close>) validates recurrences and computes
  their next instants; \<open>Schedule_Spec_Props\<close> shows that normal forms are stable and the instants
  exactly the next ones in any time zone, and what happens when clocks change. \<open>Sync_Schedule\<close>
  (\<^verbatim>\<open>services/sync_schedule.py\<close>) has the service; \<open>Sync_Schedule_Props\<close>: edits stay in their
  tenant, stale edits are refused (and concurrent ones are not), creation is idempotent.
  \<open>Retry_Lock\<close> (\<^verbatim>\<open>services/retry_lock.py\<close>) is the lease of exports. \<open>Schedule_Runner\<close>
  (\<^verbatim>\<open>worker/schedule_runner.py\<close>) has the tick; \<open>Schedule_Runner_Props\<close>: a schedule is claimed
  once per grace period, and a tick handles the first 200 due schedules, one result for each, and writes
  the outcome to the row.

  \<^bold>\<open>Ingestion.\<close> \<open>Bulk_Upsert\<close> (\<^verbatim>\<open>sync/upserts.py\<close> and the transactions of
  \<^verbatim>\<open>sync/persistence.py\<close>) has the insert-or-update statement and the row-by-row path;
  \<open>Bulk_Upsert_Props\<close>: a batch is stored whole and storing it again changes nothing. The row-by-row
  path writes the raw attributes, which the bulk path converts; the two agree where both are the same. \<open>Sync_Errors\<close> (\<^verbatim>\<open>sync/errors.py\<close>) classifies failures, \<open>Sync_Runs\<close>
  (\<^verbatim>\<open>sync/sync_run.py\<close>, \<^verbatim>\<open>sync/sync_cursor.py\<close>) has the rows of runs and the
  watermarks, \<open>Sync_Pipeline\<close> (\<^verbatim>\<open>_run_pipeline\<close> of \<^verbatim>\<open>sync/orchestrator.py\<close>) a run
  with its units of work as steps on a session with a committed and a working store.
  \<open>Sync_Step_Logic\<close> is a Hoare logic for these steps with a postcondition for each exit;
  \<open>Sync_Watermarks\<close> proves with it that cursors move only over stored transactions;
  \<open>Sync_Pipeline_Props\<close>: no transaction is lost between runs, a completed run covers its accounts,
  a run leaves one settled row, and a connection has at most one running run.

  \<^bold>\<open>Instruments\<close> (\<^verbatim>\<open>SecurityPersistence\<close> of \<^verbatim>\<open>sync/persistence.py\<close>,
  \<^verbatim>\<open>identity/resolver.py\<close>): \<open>Security_Master\<close> has the rows of instruments, listings, the review
  queue and its audit, with the constraints a flush enforces; \<open>Security_Resolution\<close> how a sync finds or
  creates the instrument of a reference, \<open>Security_Identity\<close> the review pipeline, the mapping by an
  operator and its routes. \<open>Security_Resolution_Props\<close>: a mapping is stable, no instrument is guessed,
  a resolution cannot fail, and what it leaves alone; \<open>Security_Identity_Props\<close>: syncs would honour
  the operator's mapping, but the routes that make it never commit their session. \<open>Security_Samples\<close> has instances and inputs the code does not handle.

  \<^bold>\<open>Internal transfers\<close> (\<^verbatim>\<open>services/internal_transfers.py\<close>): \<open>Internal_Transfers\<close> has the
  classification of fetched payments and the pairing of stored legs, over the text and rounding
  functions of \<open>Py_Quantize\<close>; \<open>Internal_Transfers_Props\<close>: the pairs are a maximal matching of
  valid legs with closest partners, excluding them keeps the net cash flow, classification is idempotent.

  \<^bold>\<open>Exchange rates\<close> (\<^verbatim>\<open>services/fx_service.py\<close>): \<open>Fx_Service\<close> has the layered lookup,
  conversion and the bulk lookups; \<open>Fx_Props\<close>: how old a current rate can be in any interleaving
  of lookups and new rows, that a historical rate is the last one known at its date in the stored direction of the pair, and
  the error of a conversion.

  \<^bold>\<open>Export to Actual Budget\<close> (\<^verbatim>\<open>exporter/actual_budget/\<close>): \<open>Actual_Mapping\<close> has the mapping of
  transactions, \<open>Actual_Export\<close> a run of the exporter over a budget of any type, as steps of
  \<open>Py_Steps\<close> (state and exceptions, with a Hoare logic that the sync pipeline shares);
  \<open>Actual_Export_Props\<close>: no transfer is created twice over any sequence of runs, and transfers
  exported without an exception are in the budget exactly once each.

  \<^bold>\<open>Reconciliation\<close> (\<^verbatim>\<open>sync/reconciliation.py\<close>, \<^verbatim>\<open>duplicate_detection.py\<close>,
  \<^verbatim>\<open>services/reconciliation.py\<close>): \<open>Ledger_Compare\<close> compares lists of transactions,
  \<open>Reconciliation\<close> the stored rows, and registers its findings in the backlog;
  \<open>Ledger_Compare_Props\<close> and \<open>Reconciliation_Props\<close>: exactly which transactions are reported missing,
  exactly which pairs are reported as duplicates, and how a run ends.

  \<^bold>\<open>Authentication\<close> (\<^verbatim>\<open>services/auth.py\<close>, \<^verbatim>\<open>api/deps/auth.py\<close>,
  \<^verbatim>\<open>api/v1/auth.py\<close>, \<^verbatim>\<open>services/visibility.py\<close>): \<open>Auth\<close> has users, API keys, refresh
  tokens, the routes as steps of \<open>Py_Steps\<close> committed or rolled back by \<open>request\<close>, and the scope of
  a principal; \<open>Auth_Props\<close>: over any history a refresh token is exchanged once and a deleted key
  stays dead, who exactly gets a permission, and which accounts a principal sees.

  \<^bold>\<open>Parameters of the model.\<close>
  Clock readings, random numbers and tokens, fresh identifiers, the rows locked by other
  transactions (\<^verbatim>\<open>SKIP LOCKED\<close>), what other transactions do in the meantime
  (\<open>meanwhile\<close>), answers of providers, HTTP destinations and name resolution, repair
  strategies, hash and HMAC functions, the text redactor, the rounding of a numeric column, and
  the time-zone database are arguments. Hypotheses about them are named: clocks do not run
  backwards and sleeps are not too short (\<open>possible_readings\<close>), other transactions do not
  rewrite a claim (\<open>keeps_claims\<close>).

  \<^bold>\<open>Bounds.\<close>
  The loops of the code with a guard keep it: 400 days and 10000 steps for the next runs (57
  instants are always found, one a week), 200 rows per claim or tick, 100 deliveries per retry run.
  All functions are total; where the code raises, the model returns an error value. Not among the errors
  is the overflow of a numeric column, which PostgreSQL answers with an exception: the model rounds
  what the code stores and assumes that it fits.

  \<^bold>\<open>Not modelled.\<close>
  HTTP clients, the persistence of accounts, balances and holdings, the other exporters, analytics, classification
  heuristics, data-health rules, user interface, command line, metrics and logs; failures of the
  database or of Redis between two statements; floating-point rounding (delays are exact
  rationals); the unique constraint of the lot table; dates beyond the year 9999.
\<close>

end
